(* ===== verification/Prelude.thy ===== *)
theory Prelude
  imports Main "HOL-Library.Word"
begin

text \<open>
  Shared vocabulary of the development: the C integer types, the outcome of a C
  computation, little-endian byte codecs, the flat byte memory and the lemma
  collections the component theories use.

  \<^item> A C function that can leave its caller in another way than returning has an
    \<open>outcome\<close>: \<open>Ret x\<close> (it returns \<open>x\<close>), \<open>Exit s\<close> (it called \<open>exit(s)\<close>, or a live
    \<open>assert\<close> failed, which calls \<open>exit(EFI_UNSUPPORTED)\<close>), or \<open>UB\<close> (it performed an
    access C leaves undefined: a load or store outside the mapped memory, or a
    pointer that wraps around).
  \<^item> Memory is a partial map from 64-bit addresses to bytes; both targets of the
    build (\<open>x86_64\<close> and \<open>aarch64\<close>) are 64-bit and little endian.
\<close>

section \<open>Integer types and outcomes\<close>

type_synonym u8 = "8 word"
type_synonym u16 = "16 word"
type_synonym u32 = "32 word"
type_synonym u64 = "64 word"

text \<open>\<open>size_t\<close>, \<open>uintptr_t\<close>, \<open>efi_size_t\<close> and \<open>efi_status_t\<close> are 64 bits wide.\<close>

type_synonym size_t = u64
type_synonym efi_status = u64
type_synonym addr = u64

datatype 'a outcome = Ret 'a | Exit efi_status | UB

primrec obind :: "'a outcome \<Rightarrow> ('a \<Rightarrow> 'b outcome) \<Rightarrow> 'b outcome" where
  "obind (Ret x) f = f x"
| "obind (Exit s) f = Exit s"
| "obind UB f = UB"

named_theorems outcome_iff \<open>inversion of outcomes of composed computations\<close>

lemma obind_Ret_iff [outcome_iff]: "obind m f = Ret y \<longleftrightarrow> (\<exists>x. m = Ret x \<and> f x = Ret y)"
  by (cases m) auto

lemma obind_Exit_iff [outcome_iff]:
  "obind m f = Exit s \<longleftrightarrow> m = Exit s \<or> (\<exists>x. m = Ret x \<and> f x = Exit s)"
  by (cases m) auto

lemma obind_UB_iff [outcome_iff]:
  "obind m f = UB \<longleftrightarrow> m = UB \<or> (\<exists>x. m = Ret x \<and> f x = UB)"
  by (cases m) auto

lemma obind_assoc: "obind (obind m f) g = obind m (\<lambda>x. obind (f x) g)"
  by (cases m) auto

lemma obind_cong [fundef_cong]:
  "m = m' \<Longrightarrow> (\<And>x. m' = Ret x \<Longrightarrow> f x = f' x) \<Longrightarrow> obind m f = obind m' f'"
  by (cases m') auto

lemma Ret_if_iff [outcome_iff]:
  "(if b then m else m') = Ret y \<longleftrightarrow> (b \<and> m = Ret y) \<or> (\<not> b \<and> m' = Ret y)"
  by auto

text \<open>Elimination rules, to take a long computation apart one step at a time.\<close>

lemma outcome_elims:
  "obind m' f = Ret y \<Longrightarrow> (\<And>x'. m' = Ret x' \<Longrightarrow> f x' = Ret y \<Longrightarrow> P) \<Longrightarrow> P"
  "(if c then m1 else m2) = Ret x \<Longrightarrow> (c \<Longrightarrow> m1 = Ret x \<Longrightarrow> P)
     \<Longrightarrow> (\<not> c \<Longrightarrow> m2 = Ret x \<Longrightarrow> P) \<Longrightarrow> P"
  by (auto simp: outcome_iff split: if_splits)

section \<open>Computations that may not end\<close>

text \<open>
  A loop that can run forever is a \<open>partial_function\<close> whose value is \<open>None\<close> when it does;
  \<open>rbind\<close> runs one such computation after another, \<open>once\<close> embeds one that always ends.
\<close>

definition rbind :: "'a outcome option \<Rightarrow> ('a \<Rightarrow> 'b outcome option) \<Rightarrow> 'b outcome option" where
  "rbind m f = Option.bind m (\<lambda>r. case r of
     Ret x \<Rightarrow> f x | Exit s \<Rightarrow> Some (Exit s) | UB \<Rightarrow> Some UB)"

abbreviation once :: "'a outcome \<Rightarrow> ('a \<Rightarrow> 'b outcome option) \<Rightarrow> 'b outcome option" where
  "once m \<equiv> rbind (Some m)"

lemma rbind_simps [simp]:
  "rbind None f = None" "rbind (Some (Ret x)) f = f x"
  "rbind (Some (Exit s)) f = Some (Exit s)" "rbind (Some UB) f = Some UB"
  by (simp_all add: rbind_def)

lemma rbind_Ret_iff [outcome_iff]:
  "rbind m f = Some (Ret y) \<longleftrightarrow> (\<exists>x. m = Some (Ret x) \<and> f x = Some (Ret y))"
  by (cases m; cases "the m") auto

lemma rbind_mono [partial_function_mono]:
  assumes "mono_option m" and "\<And>x. mono_option (\<lambda>f. g x f)"
  shows "mono_option (\<lambda>f. rbind (m f) (\<lambda>x. g x f))"
  unfolding rbind_def
proof (rule bind_mono [OF assms(1)])
  show "mono_option (\<lambda>f. case r of Ret x \<Rightarrow> g x f | Exit s \<Rightarrow> Some (Exit s) | UB \<Rightarrow> Some UB)" for r
    using assms(2) by (cases r) (simp_all add: option.const_mono)
qed

section \<open>Little-endian byte codecs\<close>

fun le_val :: "u8 list \<Rightarrow> nat" where
  "le_val [] = 0"
| "le_val (b # bs) = unat b + 256 * le_val bs"

primrec le_bytes :: "nat \<Rightarrow> nat \<Rightarrow> u8 list" where
  "le_bytes 0 v = []"
| "le_bytes (Suc n) v = word_of_nat v # le_bytes n (v div 256)"

lemma length_le_bytes [simp]: "length (le_bytes n v) = n"
  by (induction n arbitrary: v) auto

lemma unat_u8_of_nat: "unat (word_of_nat v :: u8) = v mod 256"
  by (simp add: unat_of_nat)

lemma unat_u8_lt: "unat (b :: u8) < 256"
  using unsigned_less [of b, where ?'a = nat] by simp

lemma word_eq_unatI: "unat v = unat w \<Longrightarrow> v = (w :: 'a::len word)"
  by (metis of_nat_unat ucast_id)

lemma unat_exp:
  assumes "k < LENGTH('a)"
  shows "unat (2 ^ k :: 'a::len word) = 2 ^ k"
proof -
  have "unat (word_of_nat (2 ^ k) :: 'a word) = 2 ^ k"
    using assms by (subst unat_of_nat) simp
  then show ?thesis by simp
qed

lemma unat_ucast_up:
  fixes x :: "'a::len word"
  assumes "LENGTH('a) \<le> LENGTH('b)"
  shows "unat (ucast x :: 'b::len word) = unat x"
proof -
  have "unat x < 2 ^ LENGTH('a)" by (rule unsigned_less)
  also have "\<dots> \<le> 2 ^ LENGTH('b)" using assms by simp
  finally show ?thesis by (simp only: unsigned_ucast_eq take_bit_nat_eq_self)
qed

lemma unat_widen [simp]:
  "unat (ucast (a :: u8) :: u16) = unat a" "unat (ucast (a :: u8) :: u32) = unat a"
  "unat (ucast (a :: u8) :: u64) = unat a" "unat (ucast (b :: u16) :: u32) = unat b"
  "unat (ucast (b :: u16) :: u64) = unat b" "unat (ucast (c :: u32) :: u64) = unat c"
  by (simp_all add: unat_ucast_up)

lemma unat_widen_less:
  "unat (ucast (a :: u8) :: u64) < 2 ^ 8" "unat (ucast (b :: u16) :: u64) < 2 ^ 16"
  "unat (ucast (c :: u32) :: u64) < 2 ^ 32"
  using unsigned_less [of a, where ?'a = nat] unsigned_less [of b, where ?'a = nat]
    unsigned_less [of c, where ?'a = nat] by simp_all

lemma narrow_widen [simp]: "ucast (ucast (x :: u32) :: u64) = (x :: u32)"
  by (rule bit_word_eqI) (auto simp: bit_simps)

lemma distance_less: "\<not> unat b \<le> unat a \<Longrightarrow> 18446744073709551616 - unat b < 18446744073709551616 - unat a"
  for a b :: addr
  using unsigned_less [of b, where ?'a = nat] by simp

lemma le_val_le_bytes: "le_val (le_bytes n v) = v mod 256 ^ n"
proof (induction n arbitrary: v)
  case 0
  then show ?case by simp
next
  case (Suc n)
  have "le_val (le_bytes (Suc n) v) = v mod 256 + 256 * (v div 256 mod 256 ^ n)"
    by (simp add: Suc unat_u8_of_nat)
  also have "\<dots> = v mod (256 * 256 ^ n)"
    by (simp add: mod_mult2_eq)
  finally show ?case by simp
qed

lemma le_bytes_le_val: "le_bytes (length bs) (le_val bs) = bs"
proof (induction bs)
  case Nil
  then show ?case by simp
next
  case (Cons b bs)
  have "(unat b + 256 * le_val bs) div 256 = le_val bs"
    using unat_u8_lt [of b] by simp
  moreover have "(word_of_nat (unat b + 256 * le_val bs) :: u8) = b"
    by (intro word_eq_unatI, subst unat_u8_of_nat) (simp add: unat_u8_lt)
  ultimately show ?case using Cons by simp
qed

lemma le_val_lt: "le_val bs < 256 ^ length bs"
proof -
  have "le_val bs = le_val bs mod 256 ^ length bs"
    by (metis le_bytes_le_val le_val_le_bytes)
  then show ?thesis
    by (metis mod_less_divisor zero_less_numeral zero_less_power)
qed

lemma le_val_inj: "length xs = length ys \<Longrightarrow> le_val xs = le_val ys \<Longrightarrow> xs = ys"
  by (metis le_bytes_le_val)

text \<open>The codec of one C integer: its width in bytes is \<open>LENGTH('a) div 8\<close>.\<close>

definition put_le :: "'a::len word \<Rightarrow> u8 list" where
  "put_le w = le_bytes (LENGTH('a) div 8) (unat w)"

definition get_le :: "u8 list \<Rightarrow> 'a::len word" where
  "get_le bs = word_of_nat (le_val bs)"

lemma length_put_le [simp]: "length (put_le (w :: 'a::len word)) = LENGTH('a) div 8"
  by (simp add: put_le_def)

lemma get_le_put_le:
  assumes "LENGTH('a) mod 8 = 0"
  shows "get_le (put_le (w :: 'a::len word)) = w"
proof -
  have "(256::nat) ^ (LENGTH('a) div 8) = 2 ^ (8 * (LENGTH('a) div 8))"
    by (simp add: power_mult)
  also have "8 * (LENGTH('a) div 8) = LENGTH('a)"
    using assms by presburger
  finally have "unat w mod 256 ^ (LENGTH('a) div 8) = unat w"
    by (simp add: mod_less)
  then show ?thesis
    by (simp add: get_le_def put_le_def le_val_le_bytes)
qed

lemma get_put_u8 [simp]: "get_le (put_le (w :: u8)) = w"
  and get_put_u16 [simp]: "get_le (put_le (v :: u16)) = v"
  and get_put_u32 [simp]: "get_le (put_le (x :: u32)) = x"
  and get_put_u64 [simp]: "get_le (put_le (y :: u64)) = y"
  by (simp_all add: get_le_put_le)

section \<open>Flat byte memory\<close>

type_synonym mem = "addr \<rightharpoonup> u8"

primrec load_bytes :: "mem \<Rightarrow> addr \<Rightarrow> nat \<Rightarrow> u8 list outcome" where
  "load_bytes m a 0 = Ret []"
| "load_bytes m a (Suc n) =
     (case m a of None \<Rightarrow> UB
      | Some b \<Rightarrow> obind (load_bytes m (a + 1) n) (\<lambda>bs. Ret (b # bs)))"

primrec store_bytes :: "mem \<Rightarrow> addr \<Rightarrow> u8 list \<Rightarrow> mem outcome" where
  "store_bytes m a [] = Ret m"
| "store_bytes m a (b # bs) =
     (if m a = None then UB else store_bytes (m(a \<mapsto> b)) (a + 1) bs)"

text \<open>Loads and stores of C integers (packed structures: no alignment is required).\<close>

definition load_w :: "mem \<Rightarrow> addr \<Rightarrow> 'a::len word outcome" where
  "load_w m a = obind (load_bytes m a (LENGTH('a) div 8)) (\<lambda>bs. Ret (get_le bs))"

definition store_w :: "mem \<Rightarrow> addr \<Rightarrow> 'a::len word \<Rightarrow> mem outcome" where
  "store_w m a w = store_bytes m a (put_le w)"

text \<open>
  \<open>in_range a n x\<close>: address \<open>x\<close> is one of the \<open>n\<close> addresses from \<open>a\<close> on (modulo \<open>2 ^ 64\<close>).
  \<open>place a bs\<close> is the memory that holds \<open>bs\<close> at \<open>a\<close> and maps nothing else.
\<close>

definition in_range :: "addr \<Rightarrow> nat \<Rightarrow> addr \<Rightarrow> bool" where
  "in_range a n x \<longleftrightarrow> unat (x - a) < n"

definition mapped :: "mem \<Rightarrow> addr \<Rightarrow> nat \<Rightarrow> bool" where
  "mapped m a n \<longleftrightarrow> (\<forall>i<n. m (a + of_nat i) \<noteq> None)"

definition place :: "addr \<Rightarrow> u8 list \<Rightarrow> mem" where
  "place a bs x = (let i = unat (x - a) in if i < length bs then Some (bs ! i) else None)"

subsection \<open>Loading\<close>

lemma load_bytes_not_Exit [simp]: "load_bytes m a n \<noteq> Exit s"
  by (induction n arbitrary: a) (auto simp: outcome_iff split: option.splits)

lemma load_bytes_iff:
  "load_bytes m a n = Ret bs \<longleftrightarrow>
     length bs = n \<and> (\<forall>i<n. m (a + of_nat i) = Some (bs ! i))"
proof (induction n arbitrary: a bs)
  case 0
  then show ?case by auto
next
  case (Suc n)
  show ?case
  proof (cases bs)
    case Nil
    then show ?thesis by (auto simp: outcome_iff split: option.splits)
  next
    case (Cons b cs)
    then show ?thesis
      using Suc [of "a + 1" cs]
      by (auto simp: outcome_iff All_less_Suc2 add.assoc split: option.splits)
  qed
qed

lemma load_bytes_length: "load_bytes m a n = Ret bs \<Longrightarrow> length bs = n"
  by (simp add: load_bytes_iff)

lemma load_bytes_mapped: "(\<exists>bs. load_bytes m a n = Ret bs) \<longleftrightarrow> mapped m a n"
proof
  assume "mapped m a n"
  then have "load_bytes m a n = Ret (map (\<lambda>i. the (m (a + of_nat i))) [0..<n])"
    by (auto simp: load_bytes_iff mapped_def)
  then show "\<exists>bs. load_bytes m a n = Ret bs" ..
qed (auto simp: load_bytes_iff mapped_def)

lemma load_mappedI: "load_bytes m a n = Ret bs \<Longrightarrow> mapped m a n"
  using load_bytes_mapped by blast

lemma mapped_range:
  assumes "mapped m a n" and "in_range a n x"
  shows "m x \<noteq> None"
proof -
  have "a + of_nat (unat (x - a)) = x" by simp
  then show ?thesis using assms unfolding mapped_def in_range_def by metis
qed

lemma mapped_rangeI: "(\<And>x. in_range a n x \<Longrightarrow> m x \<noteq> None) \<Longrightarrow> n \<le> 2 ^ 64 \<Longrightarrow> mapped m a n"
  by (simp add: mapped_def in_range_def unat_of_nat)

lemma load_bytes_sub:
  assumes "load_bytes m a n = Ret bs" and "k + j \<le> n"
  shows "load_bytes m (a + of_nat k) j = Ret (take j (drop k bs))"
  using assms by (auto simp: load_bytes_iff add.assoc simp flip: of_nat_add)

lemma in_range_SucI:
  fixes a x :: addr
  assumes "in_range (a + 1) n x"
  shows "in_range a (Suc n) x"
proof (cases "x = a")
  case True
  then show ?thesis by (simp add: in_range_def)
next
  case False
  then have "unat (x - a - 1) = unat (x - a) - 1" and "unat (x - a) \<noteq> 0"
    by (simp_all add: unat_minus_one unat_eq_zero)
  with assms show ?thesis by (simp add: in_range_def diff_diff_eq)
qed

lemma in_range_self: "0 < n \<Longrightarrow> in_range a n a"
  by (simp add: in_range_def)

text \<open>Blocks that do not wrap around are intervals; then being apart is being disjoint.\<close>

lemma in_range_nowrap:
  assumes "unat a + n \<le> 2 ^ 64"
  shows "in_range a n x \<longleftrightarrow> unat a \<le> unat x \<and> unat x < unat a + n"
proof (cases "a \<le> x")
  case True
  then have "unat (x - a) = unat x - unat a" and "unat a \<le> unat x"
    by (simp_all add: unat_sub word_le_nat_alt)
  then show ?thesis by (auto simp: in_range_def)
next
  case False
  then have lt: "unat x < unat a" by (simp add: word_le_nat_alt)
  have "unat (x - a) = 2 ^ 64 + unat x - unat a"
    using lt by (simp add: unat_sub_if_size word_size)
  then show ?thesis using assms lt by (simp add: in_range_def)
qed

lemma in_range_apart:
  assumes "unat a + n \<le> 2 ^ 64" "unat b + k \<le> 2 ^ 64"
    and "unat a + n \<le> unat b \<or> unat b + k \<le> unat a" and "in_range b k x"
  shows "\<not> in_range a n x"
  using assms by (auto simp: in_range_nowrap)

lemma load_bytes_cong:
  assumes "\<And>x. in_range a n x \<Longrightarrow> m' x = m x"
  shows "load_bytes m' a n = load_bytes m a n"
  using assms
proof (induction n arbitrary: a)
  case 0
  then show ?case by simp
next
  case (Suc n)
  have "m' a = m a"
    by (rule Suc.prems) (simp add: in_range_self)
  moreover have "load_bytes m' (a + 1) n = load_bytes m (a + 1) n"
    by (rule Suc.IH) (simp add: Suc.prems in_range_SucI)
  ultimately show ?case by (cases "m a") simp_all
qed

lemma place_load: "length bs \<le> 2 ^ 64 \<Longrightarrow> load_bytes (place a bs) a (length bs) = Ret bs"
  by (simp add: load_bytes_iff place_def Let_def unat_of_nat)

named_theorems mem_eval \<open>evaluation of loads from a concrete memory\<close>

lemma load_bytes_numeral [mem_eval]:
  "load_bytes m a (numeral k) =
     (case m a of None \<Rightarrow> UB
      | Some b \<Rightarrow> obind (load_bytes m (a + 1) (pred_numeral k)) (\<lambda>bs. Ret (b # bs)))"
  by (simp only: numeral_eq_Suc load_bytes.simps)

lemma le_bytes_numeral [mem_eval]:
  "le_bytes (numeral k) v = word_of_nat v # le_bytes (pred_numeral k) (v div 256)"
  by (simp only: numeral_eq_Suc le_bytes.simps)

lemmas [mem_eval] = place_def Let_def put_le_def nth_append

subsection \<open>Storing\<close>

lemma store_bytes_not_Exit [simp]: "store_bytes m a bs \<noteq> Exit s"
  by (induction bs arbitrary: m a) auto

lemma store_bytes_dom: "store_bytes m a bs = Ret m' \<Longrightarrow> dom m' = dom m"
proof (induction bs arbitrary: m a)
  case (Cons b bs)
  then have "m a \<noteq> None" and "store_bytes (m(a \<mapsto> b)) (a + 1) bs = Ret m'"
    by (auto split: if_splits)
  from Cons.IH [OF this(2)] this(1) show ?case by (auto simp: dom_def)
qed simp

lemma store_bytes_frame:
  "store_bytes m a bs = Ret m' \<Longrightarrow> \<not> in_range a (length bs) x \<Longrightarrow> m' x = m x"
proof (induction bs arbitrary: m a)
  case (Cons b bs)
  then have "store_bytes (m(a \<mapsto> b)) (a + 1) bs = Ret m'"
    by (auto split: if_splits)
  moreover have "\<not> in_range (a + 1) (length bs) x" and "x \<noteq> a"
    using Cons.prems(2) in_range_SucI in_range_self by auto
  ultimately show ?case using Cons.IH by fastforce
qed simp

lemma mapped_dom_cong: "dom m' = dom m \<Longrightarrow> mapped m' a n = mapped m a n"
  unfolding mapped_def by (metis domIff)

lemma store_bytes_iff_mapped:
  "(\<exists>m'. store_bytes m a bs = Ret m') \<longleftrightarrow> mapped m a (length bs)"
proof (induction bs arbitrary: m a)
  case Nil
  then show ?case by (simp add: mapped_def)
next
  case (Cons b bs)
  have "mapped m a (length (b # bs)) \<longleftrightarrow> m a \<noteq> None \<and> mapped m (a + 1) (length bs)"
    by (simp add: mapped_def All_less_Suc2 add.assoc)
  moreover have "mapped (m(a \<mapsto> b)) (a + 1) (length bs) = mapped m (a + 1) (length bs)"
    if "m a \<noteq> None" using that by (intro mapped_dom_cong) auto
  moreover have "(\<exists>m'. store_bytes (m(a \<mapsto> b)) (a + 1) bs = Ret m')
      \<longleftrightarrow> mapped (m(a \<mapsto> b)) (a + 1) (length bs)"
    by (rule Cons.IH)
  ultimately show ?case by (metis outcome.distinct(3) store_bytes.simps(2))
qed

lemma of_nat_eq_0_addr: "i < 2 ^ 64 \<Longrightarrow> (of_nat i :: addr) = 0 \<longleftrightarrow> i = 0"
  by (auto simp: word_of_nat_eq_0_iff dest: dvd_imp_le)

lemma store_bytes_at:
  "store_bytes m a bs = Ret m' \<Longrightarrow> length bs \<le> 2 ^ 64 \<Longrightarrow> i < length bs \<Longrightarrow>
   m' (a + of_nat i) = Some (bs ! i)"
proof (induction bs arbitrary: m a i)
  case (Cons b bs)
  then have st: "store_bytes (m(a \<mapsto> b)) (a + 1) bs = Ret m'"
    by (auto split: if_splits)
  show ?case
  proof (cases i)
    case 0
    have "\<not> in_range (a + 1) (length bs) a"
      using Cons.prems(2) by (simp add: in_range_def unsigned_minus_1_eq_mask mask_eq_exp_minus_1)
    with st have "m' a = Some b"
      using store_bytes_frame by fastforce
    with 0 show ?thesis by simp
  next
    case (Suc j)
    with Cons.IH [OF st, of j] Cons.prems show ?thesis by (simp add: add.assoc)
  qed
qed simp

lemma load_store_same:
  "store_bytes m a bs = Ret m' \<Longrightarrow> length bs \<le> 2 ^ 64 \<Longrightarrow>
   load_bytes m' a (length bs) = Ret bs"
  by (simp add: load_bytes_iff store_bytes_at)

lemma load_store_disjoint:
  assumes "store_bytes m a bs = Ret m'"
    and "\<And>x. in_range b n x \<Longrightarrow> \<not> in_range a (length bs) x"
  shows "load_bytes m' b n = load_bytes m b n"
  using assms by (intro load_bytes_cong) (auto dest: store_bytes_frame)

subsection \<open>Parts of blocks\<close>

lemma in_range_mono: "in_range a n x \<Longrightarrow> n \<le> k \<Longrightarrow> in_range a k x"
  by (simp add: in_range_def)

lemma in_range_shift:
  assumes "in_range (a + k) n x"
  shows "in_range a (unat k + n) x"
proof -
  define y where "y = x - (a + k)"
  have x: "x - a = y + k" by (simp add: y_def)
  have "unat (y + k) = (unat y + unat k) mod 2 ^ 64" by (simp add: unat_word_ariths)
  also have "\<dots> \<le> unat y + unat k" by (rule mod_less_eq_dividend)
  finally show ?thesis using assms by (simp add: in_range_def x flip: y_def)
qed

lemma in_range_gap: "n + k \<le> 2 ^ 64 \<Longrightarrow> in_range a n x \<Longrightarrow> \<not> in_range (a + of_nat n) k x"
proof
  assume n: "n + k \<le> 2 ^ 64" and x: "in_range a n x" and y: "in_range (a + of_nat n) k x"
  define y where "y = x - (a + of_nat n)"
  have "x - a = y + of_nat n" by (simp add: y_def)
  then have "unat (x - a) = (unat y + unat (of_nat n :: addr)) mod 2 ^ 64"
    by (simp add: unat_word_ariths)
  moreover have "unat y < k" using y by (simp add: in_range_def y_def)
  moreover have "unat (of_nat n :: addr) = n" using n \<open>unat y < k\<close> by (simp add: unat_of_nat)
  ultimately show False using x n by (simp add: in_range_def)
qed

lemma load_bytes_append:
  assumes "load_bytes m a n = Ret xs" and "load_bytes m (a + of_nat n) k = Ret ys"
  shows "load_bytes m a (n + k) = Ret (xs @ ys)"
  unfolding load_bytes_iff
proof (intro conjI allI impI)
  show "length (xs @ ys) = n + k" using assms by (simp add: load_bytes_iff)
  fix i assume i: "i < n + k"
  show "m (a + of_nat i) = Some ((xs @ ys) ! i)"
  proof (cases "i < n")
    case True
    then show ?thesis using assms(1) by (simp add: load_bytes_iff nth_append)
  next
    case False
    then obtain j where j: "i = n + j" using le_iff_add linorder_not_less by metis
    with i have "m (a + of_nat n + of_nat j) = Some (ys ! j)"
      using assms(2) by (simp add: load_bytes_iff)
    then show ?thesis using assms(1) j by (simp add: load_bytes_iff nth_append add.assoc)
  qed
qed

lemma mapped_prefix: "mapped m a n \<Longrightarrow> k \<le> n \<Longrightarrow> mapped m a k"
  by (simp add: mapped_def)

lemma load_w_mapped: "mapped m a (LENGTH('a) div 8) \<Longrightarrow> \<exists>w :: 'a::len word. load_w m a = Ret w"
  using load_bytes_mapped [of m a "LENGTH('a) div 8"]
  by (auto simp: load_w_def outcome_iff)

lemma mapped_sub:
  assumes "mapped m a n" and "k + j \<le> n"
  shows "mapped m (a + of_nat k) j"
  unfolding mapped_def
proof (intro allI impI)
  fix i assume "i < j"
  then have "m (a + of_nat (k + i)) \<noteq> None"
    using assms unfolding mapped_def by (meson add_less_cancel_left order_less_le_trans)
  then show "m (a + of_nat k + of_nat i) \<noteq> None" by (simp add: add.assoc)
qed

lemma mapped_sub_word:
  fixes k :: addr
  assumes "mapped m a n" and "unat k + j \<le> n"
  shows "mapped m (a + k) j"
  using mapped_sub [OF assms] by simp

lemma store_w_frame:
  assumes "store_w m a (w :: 'a::len word) = Ret m'" and "\<not> in_range a (LENGTH('a) div 8) x"
  shows "m' x = m x"
  using assms store_bytes_frame by (fastforce simp: store_w_def)

subsection \<open>Memories side by side\<close>

lemma load_bytes_le:
  assumes "m \<subseteq>\<^sub>m m'" and "load_bytes m a n = Ret bs"
  shows "load_bytes m' a n = Ret bs"
proof -
  have "m x = Some b \<Longrightarrow> m' x = Some b" for x b using assms(1) by (force simp: map_le_def)
  then show ?thesis using assms(2) by (simp add: load_bytes_iff)
qed

lemma place_apart:
  assumes "unat a + length xs \<le> unat b" and "unat b + length ys < 2 ^ 64"
  shows "dom (place a xs) \<inter> dom (place b ys) = {}"
proof -
  have "dom (place c zs) = {x. in_range c (length zs) x}" for c zs
    by (auto simp: place_def in_range_def Let_def split: if_splits)
  moreover have "\<not> (in_range a (length xs) x \<and> in_range b (length ys) x)" for x
    using assms in_range_nowrap [of a "length xs" x] in_range_nowrap [of b "length ys" x] by auto
  ultimately show ?thesis by auto
qed

lemma map_le_add_left: "dom m1 \<inter> dom m2 = {} \<Longrightarrow> m1 \<subseteq>\<^sub>m m1 ++ m2"
  by (metis map_add_comm map_le_map_add)

lemmas store_bytes_facts = store_bytes_dom store_bytes_frame store_bytes_at

end
