(* ===== verification/XXHash.thy ===== *)
theory XXHash
  imports Prelude
begin

text \<open>
  \<^verbatim>\<open>lib/xxhash.c\<close>: the one-shot hashes \<open>xxh32\<close>/\<open>xxh64\<close> and their streaming versions
  (\<open>reset\<close>, \<open>update\<close>, \<open>digest\<close>). An input pointer with its length is a byte list, the
  cursor \<open>p\<close> is the part of the list not read yet, and the 16/32-byte buffers
  \<open>mem32\<close>/\<open>mem64\<close> are byte lists of that length.

  The locale \<open>stripe_hash\<close> is the interface of the loop that both the one-shot and the
  streaming code run over whole stripes; it is interpreted on the 32- and the 64-bit
  loop. The main results: for every way to cut an input into chunks, streaming it
  gives the one-shot hash of the whole input.
\<close>

unbundle bit_operations_syntax

section \<open>Constants and rounds\<close>

definition PRIME32_1 :: u32 where "PRIME32_1 = 2654435761"
definition PRIME32_2 :: u32 where "PRIME32_2 = 2246822519"
definition PRIME32_3 :: u32 where "PRIME32_3 = 3266489917"
definition PRIME32_4 :: u32 where "PRIME32_4 = 668265263"
definition PRIME32_5 :: u32 where "PRIME32_5 = 374761393"

definition PRIME64_1 :: u64 where "PRIME64_1 = 11400714785074694791"
definition PRIME64_2 :: u64 where "PRIME64_2 = 14029467366897019727"
definition PRIME64_3 :: u64 where "PRIME64_3 = 1609587929392839161"
definition PRIME64_4 :: u64 where "PRIME64_4 = 9650029242287828579"
definition PRIME64_5 :: u64 where "PRIME64_5 = 2870177450012600261"

lemmas PRIME_defs = PRIME32_1_def PRIME32_2_def PRIME32_3_def PRIME32_4_def PRIME32_5_def
  PRIME64_1_def PRIME64_2_def PRIME64_3_def PRIME64_4_def PRIME64_5_def

definition xxh_rotl32 :: "u32 \<Rightarrow> nat \<Rightarrow> u32" where
  "xxh_rotl32 x r = push_bit r x OR drop_bit (32 - r) x"

definition xxh_rotl64 :: "u64 \<Rightarrow> nat \<Rightarrow> u64" where
  "xxh_rotl64 x r = push_bit r x OR drop_bit (64 - r) x"

text \<open>Unaligned little-endian reads at the front of the remaining input.\<close>

definition XXH_read32 :: "u8 list \<Rightarrow> u32" where
  "XXH_read32 p = get_le (take 4 p)"

definition XXH_read64 :: "u8 list \<Rightarrow> u64" where
  "XXH_read64 p = get_le (take 8 p)"

definition xxh32_round :: "u32 \<Rightarrow> u32 \<Rightarrow> u32" where
  "xxh32_round seed inp =
     (let seed = seed + inp * PRIME32_2;
          seed = xxh_rotl32 seed 13
      in seed * PRIME32_1)"

definition xxh64_round :: "u64 \<Rightarrow> u64 \<Rightarrow> u64" where
  "xxh64_round acc inp =
     (let acc = acc + inp * PRIME64_2;
          acc = xxh_rotl64 acc 31
      in acc * PRIME64_1)"

definition xxh64_merge_round :: "u64 \<Rightarrow> u64 \<Rightarrow> u64" where
  "xxh64_merge_round acc val =
     (let val = xxh64_round 0 val;
          acc = acc XOR val
      in acc * PRIME64_1 + PRIME64_4)"

section \<open>The stripe loop\<close>

text \<open>
  The accumulators \<open>v1\<close> to \<open>v4\<close>, one stripe, and the loop over whole stripes, which
  leaves the bytes that do not fill a stripe.
\<close>

type_synonym v32 = "u32 \<times> u32 \<times> u32 \<times> u32"
type_synonym v64 = "u64 \<times> u64 \<times> u64 \<times> u64"

definition xxh32_init :: "u32 \<Rightarrow> v32" where
  "xxh32_init seed =
     (seed + PRIME32_1 + PRIME32_2, seed + PRIME32_2, seed + 0, seed - PRIME32_1)"

definition xxh64_init :: "u64 \<Rightarrow> v64" where
  "xxh64_init seed =
     (seed + PRIME64_1 + PRIME64_2, seed + PRIME64_2, seed + 0, seed - PRIME64_1)"

fun xxh32_stripe :: "v32 \<Rightarrow> u8 list \<Rightarrow> v32" where
  "xxh32_stripe (v1, v2, v3, v4) p =
     (xxh32_round v1 (XXH_read32 p),
      xxh32_round v2 (XXH_read32 (drop 4 p)),
      xxh32_round v3 (XXH_read32 (drop 8 p)),
      xxh32_round v4 (XXH_read32 (drop 12 p)))"

fun xxh64_stripe :: "v64 \<Rightarrow> u8 list \<Rightarrow> v64" where
  "xxh64_stripe (v1, v2, v3, v4) p =
     (xxh64_round v1 (XXH_read64 p),
      xxh64_round v2 (XXH_read64 (drop 8 p)),
      xxh64_round v3 (XXH_read64 (drop 16 p)),
      xxh64_round v4 (XXH_read64 (drop 24 p)))"

function xxh32_loop :: "v32 \<Rightarrow> u8 list \<Rightarrow> v32 \<times> u8 list" where
  "xxh32_loop v p = (if length p < 16 then (v, p) else xxh32_loop (xxh32_stripe v p) (drop 16 p))"
  by pat_completeness auto
termination by (relation "measure (\<lambda>(v, p). length p)") auto

function xxh64_loop :: "v64 \<Rightarrow> u8 list \<Rightarrow> v64 \<times> u8 list" where
  "xxh64_loop v p = (if length p < 32 then (v, p) else xxh64_loop (xxh64_stripe v p) (drop 32 p))"
  by pat_completeness auto
termination by (relation "measure (\<lambda>(v, p). length p)") auto

declare xxh32_loop.simps [simp del] xxh64_loop.simps [simp del]

locale stripe_hash =
  fixes width :: nat
    and stripe :: "'v \<Rightarrow> u8 list \<Rightarrow> 'v"
    and consume :: "'v \<Rightarrow> u8 list \<Rightarrow> 'v \<times> u8 list"
  assumes width_pos: "0 < width"
    and stripe_prefix: "width \<le> length p \<Longrightarrow> stripe v (p @ q) = stripe v p"
    and consume_unfold:
      "consume v p = (if length p < width then (v, p) else consume (stripe v p) (drop width p))"
begin

lemma consume_short: "length p < width \<Longrightarrow> consume v p = (v, p)"
  by (subst consume_unfold) simp

lemma consume_step: "width \<le> length p \<Longrightarrow> consume v p = consume (stripe v p) (drop width p)"
  by (subst consume_unfold) simp

lemma consume_append:
  "consume v (p @ q) = consume (fst (consume v p)) (snd (consume v p) @ q)"
proof (induction "length p" arbitrary: v p rule: less_induct)
  case less
  show ?case
  proof (cases "length p < width")
    case True
    then show ?thesis by (simp add: consume_short)
  next
    case False
    then have "consume v (p @ q) = consume (stripe v p) (drop width p @ q)"
      by (simp add: consume_step stripe_prefix)
    also have "\<dots> = consume (fst (consume (stripe v p) (drop width p)))
        (snd (consume (stripe v p) (drop width p)) @ q)"
      using False width_pos by (intro less) simp
    finally show ?thesis using False by (simp add: consume_step)
  qed
qed

lemma consume_rest_short: "length (snd (consume v p)) < width"
proof (induction "length p" arbitrary: v p rule: less_induct)
  case less
  show ?case
    using less [of "drop width p"] width_pos
    by (cases "length p < width") (simp_all add: consume_short consume_step)
qed

text \<open>Feeding chunks one by one, keeping the unfilled stripe, is feeding their concatenation.\<close>

lemma consume_chunks:
  "length r < width \<Longrightarrow>
   foldl (\<lambda>(v, r) c. consume v (r @ c)) (v, r) cs = consume v (r @ concat cs)"
proof (induction cs arbitrary: v r)
  case Nil
  then show ?case by (simp add: consume_short)
next
  case (Cons c cs)
  obtain v' r' where c: "consume v (r @ c) = (v', r')" by fastforce
  then have "length r' < width"
    using consume_rest_short [of v "r @ c"] by simp
  with Cons.IH c show ?case
    using consume_append [of v "r @ c" "concat cs"] by simp
qed

end

interpretation xxh32: stripe_hash 16 xxh32_stripe xxh32_loop
proof unfold_locales
  fix v :: v32 and p q :: "u8 list"
  assume "16 \<le> length p"
  then show "xxh32_stripe v (p @ q) = xxh32_stripe v p"
    by (cases v) (simp add: XXH_read32_def)
next
  fix v :: v32 and p :: "u8 list"
  show "xxh32_loop v p =
      (if length p < 16 then (v, p) else xxh32_loop (xxh32_stripe v p) (drop 16 p))"
    by (rule xxh32_loop.simps)
qed simp

interpretation xxh64: stripe_hash 32 xxh64_stripe xxh64_loop
proof unfold_locales
  fix v :: v64 and p q :: "u8 list"
  assume "32 \<le> length p"
  then show "xxh64_stripe v (p @ q) = xxh64_stripe v p"
    by (cases v) (simp add: XXH_read64_def)
next
  fix v :: v64 and p :: "u8 list"
  show "xxh64_loop v p =
      (if length p < 32 then (v, p) else xxh64_loop (xxh64_stripe v p) (drop 32 p))"
    by (rule xxh64_loop.simps)
qed simp

section \<open>One-shot hashes\<close>

function xxh32_tail4 :: "u32 \<Rightarrow> u8 list \<Rightarrow> u32 \<times> u8 list" where
  "xxh32_tail4 h p =
     (if length p < 4 then (h, p)
      else let h = h + XXH_read32 p * PRIME32_3
           in xxh32_tail4 (xxh_rotl32 h 17 * PRIME32_4) (drop 4 p))"
  by pat_completeness auto
termination by (relation "measure (\<lambda>(h, p). length p)") auto

function xxh64_tail8 :: "u64 \<Rightarrow> u8 list \<Rightarrow> u64 \<times> u8 list" where
  "xxh64_tail8 h p =
     (if length p < 8 then (h, p)
      else let k1 = xxh64_round 0 (XXH_read64 p);
               h = h XOR k1
           in xxh64_tail8 (xxh_rotl64 h 27 * PRIME64_1 + PRIME64_4) (drop 8 p))"
  by pat_completeness auto
termination by (relation "measure (\<lambda>(h, p). length p)") auto

declare xxh32_tail4.simps [simp del] xxh64_tail8.simps [simp del]

fun xxh32_tail1 :: "u32 \<Rightarrow> u8 list \<Rightarrow> u32" where
  "xxh32_tail1 h [] = h"
| "xxh32_tail1 h (b # p) =
     (let h = h + ucast b * PRIME32_5 in xxh32_tail1 (xxh_rotl32 h 11 * PRIME32_1) p)"

definition xxh64_tail4 :: "u64 \<times> u8 list \<Rightarrow> u64 \<times> u8 list" where
  "xxh64_tail4 = (\<lambda>(h, p).
     if 4 \<le> length p then
       let h = h XOR ucast (XXH_read32 p) * PRIME64_1
       in (xxh_rotl64 h 23 * PRIME64_2 + PRIME64_3, drop 4 p)
     else (h, p))"

fun xxh64_tail1 :: "u64 \<Rightarrow> u8 list \<Rightarrow> u64" where
  "xxh64_tail1 h [] = h"
| "xxh64_tail1 h (b # p) =
     (let h = h XOR ucast b * PRIME64_5 in xxh64_tail1 (xxh_rotl64 h 11 * PRIME64_1) p)"

definition xxh32_avalanche :: "u32 \<Rightarrow> u32" where
  "xxh32_avalanche h =
     (let h = h XOR drop_bit 15 h;
          h = h * PRIME32_2;
          h = h XOR drop_bit 13 h;
          h = h * PRIME32_3
      in h XOR drop_bit 16 h)"

definition xxh64_avalanche :: "u64 \<Rightarrow> u64" where
  "xxh64_avalanche h =
     (let h = h XOR drop_bit 33 h;
          h = h * PRIME64_2;
          h = h XOR drop_bit 29 h;
          h = h * PRIME64_3
      in h XOR drop_bit 32 h)"

definition xxh32_finish :: "u32 \<Rightarrow> u8 list \<Rightarrow> u32" where
  "xxh32_finish h p = (let (h, p) = xxh32_tail4 h p in xxh32_avalanche (xxh32_tail1 h p))"

definition xxh64_finish :: "u64 \<Rightarrow> u8 list \<Rightarrow> u64" where
  "xxh64_finish h p =
     (let (h, p) = xxh64_tail4 (xxh64_tail8 h p) in xxh64_avalanche (xxh64_tail1 h p))"

fun xxh32_converge :: "v32 \<Rightarrow> u32" where
  "xxh32_converge (v1, v2, v3, v4) =
     xxh_rotl32 v1 1 + xxh_rotl32 v2 7 + xxh_rotl32 v3 12 + xxh_rotl32 v4 18"

fun xxh64_converge :: "v64 \<Rightarrow> u64" where
  "xxh64_converge (v1, v2, v3, v4) =
     (let h = xxh_rotl64 v1 1 + xxh_rotl64 v2 7 + xxh_rotl64 v3 12 + xxh_rotl64 v4 18;
          h = xxh64_merge_round h v1;
          h = xxh64_merge_round h v2;
          h = xxh64_merge_round h v3
      in xxh64_merge_round h v4)"

definition xxh32 :: "u8 list \<Rightarrow> u32 \<Rightarrow> u32" where
  "xxh32 input seed =
     (let (h, p) =
        (if 16 \<le> length input
         then let (v, p) = xxh32_loop (xxh32_init seed) input in (xxh32_converge v, p)
         else (seed + PRIME32_5, input))
      in xxh32_finish (h + of_nat (length input)) p)"

definition xxh64 :: "u8 list \<Rightarrow> u64 \<Rightarrow> u64" where
  "xxh64 input seed =
     (let (h, p) =
        (if 32 \<le> length input
         then let (v, p) = xxh64_loop (xxh64_init seed) input in (xxh64_converge v, p)
         else (seed + PRIME64_5, input))
      in xxh64_finish (h + of_nat (length input)) p)"

text \<open>The published test vectors of the empty input and of the input \<open>a\<close>.\<close>

lemmas xxh_eval = xxh32_def xxh64_def xxh32_finish_def xxh64_finish_def xxh64_tail4_def
  xxh32_tail4.simps xxh64_tail8.simps xxh32_avalanche_def xxh64_avalanche_def
  xxh_rotl32_def xxh_rotl64_def XXH_read32_def XXH_read64_def PRIME_defs

lemma xxh32_empty: "xxh32 [] 0 = 0x02CC5D05"
  by (simp add: xxh_eval)

lemma xxh64_empty: "xxh64 [] 0 = 0xEF46DB3751D8E999"
  by (simp add: xxh_eval)

lemma xxh32_a: "xxh32 [97] 0 = 0x550D7456"
  by (simp add: xxh_eval)

lemma xxh64_a: "xxh64 [97] 0 = 0xD24EC4F1A98C6E5B"
  by (simp add: xxh_eval)

section \<open>Streaming hashes\<close>

record xxh32_state =
  total_len_32 :: u32
  large_len :: u32
  s32_v :: v32
  mem32 :: "u8 list"
  memsize32 :: u32

record xxh64_state =
  total_len :: u64
  s64_v :: v64
  mem64 :: "u8 list"
  memsize64 :: u32

definition XXH_OK :: int where "XXH_OK = 0"
definition XXH_ERROR :: int where "XXH_ERROR = 1"

text \<open>\<open>memcpy\<close> of \<open>xs\<close> into the fixed array \<open>buf\<close>, from index \<open>k\<close> on.\<close>

definition overwrite :: "nat \<Rightarrow> 'a list \<Rightarrow> 'a list \<Rightarrow> 'a list" where
  "overwrite k xs buf = take k buf @ xs @ drop (k + length xs) buf"

definition xxh32_reset :: "u32 \<Rightarrow> xxh32_state" where
  "xxh32_reset seed = \<lparr>total_len_32 = 0, large_len = 0, s32_v = xxh32_init seed,
     mem32 = replicate 16 0, memsize32 = 0\<rparr>"

definition xxh64_reset :: "u64 \<Rightarrow> xxh64_state" where
  "xxh64_reset seed = \<lparr>total_len = 0, s64_v = xxh64_init seed,
     mem64 = replicate 32 0, memsize64 = 0\<rparr>"

text \<open>
  \<open>None\<close> is a \<open>NULL\<close> input pointer. The comparison \<open>memsize + len < 16\<close> is on \<open>size_t\<close>,
  the two accounting updates of \<open>xxh32_update\<close> on 32 bits.
\<close>

definition xxh32_count :: "u8 list \<Rightarrow> xxh32_state \<Rightarrow> xxh32_state" where
  "xxh32_count input s =
     (let total = total_len_32 s + of_nat (length input);
          large = large_len s OR
            (of_bool ((of_nat (length input) :: size_t) \<ge> 16) OR of_bool (total \<ge> 16))
      in s\<lparr>total_len_32 := total, large_len := large\<rparr>)"

definition xxh32_fill :: "u8 list \<Rightarrow> xxh32_state \<Rightarrow> u8 list \<times> xxh32_state" where
  "xxh32_fill input s =
     (if memsize32 s \<noteq> 0 then
        let k = unat (memsize32 s);
            m = overwrite k (take (16 - k) input) (mem32 s)
        in (drop (16 - k) input,
            s\<lparr>mem32 := m, s32_v := xxh32_stripe (s32_v s) m, memsize32 := 0\<rparr>)
      else (input, s))"

definition xxh32_bulk :: "u8 list \<Rightarrow> xxh32_state \<Rightarrow> u8 list \<times> xxh32_state" where
  "xxh32_bulk p s =
     (if 16 \<le> length p
      then let (v, p) = xxh32_loop (s32_v s) p in (p, s\<lparr>s32_v := v\<rparr>)
      else (p, s))"

definition xxh32_keep :: "u8 list \<Rightarrow> xxh32_state \<Rightarrow> xxh32_state" where
  "xxh32_keep p s =
     (if p \<noteq> [] then s\<lparr>mem32 := overwrite 0 p (mem32 s), memsize32 := of_nat (length p)\<rparr>
      else s)"

definition xxh32_update :: "xxh32_state \<Rightarrow> u8 list option \<Rightarrow> int \<times> xxh32_state" where
  "xxh32_update s inp = (case inp of
       None \<Rightarrow> (XXH_ERROR, s)
     | Some input \<Rightarrow>
         let s = xxh32_count input s in
         if (ucast (memsize32 s) + of_nat (length input) :: size_t) < 16 then
           (XXH_OK, s\<lparr>mem32 := overwrite (unat (memsize32 s)) input (mem32 s),
              memsize32 := memsize32 s + of_nat (length input)\<rparr>)
         else
           let (p, s) = xxh32_fill input s;
               (p, s) = xxh32_bulk p s
           in (XXH_OK, xxh32_keep p s))"

definition xxh32_digest :: "xxh32_state \<Rightarrow> u32" where
  "xxh32_digest s =
     (let h = (if large_len s \<noteq> 0 then xxh32_converge (s32_v s)
               else fst (snd (snd (s32_v s))) + PRIME32_5)
      in xxh32_finish (h + total_len_32 s) (take (unat (memsize32 s)) (mem32 s)))"

definition xxh64_fill :: "u8 list \<Rightarrow> xxh64_state \<Rightarrow> u8 list \<times> xxh64_state" where
  "xxh64_fill input s =
     (if memsize64 s \<noteq> 0 then
        let k = unat (memsize64 s);
            m = overwrite k (take (32 - k) input) (mem64 s)
        in (drop (32 - k) input,
            s\<lparr>mem64 := m, s64_v := xxh64_stripe (s64_v s) m, memsize64 := 0\<rparr>)
      else (input, s))"

definition xxh64_bulk :: "u8 list \<Rightarrow> xxh64_state \<Rightarrow> u8 list \<times> xxh64_state" where
  "xxh64_bulk p s =
     (if 32 \<le> length p
      then let (v, p) = xxh64_loop (s64_v s) p in (p, s\<lparr>s64_v := v\<rparr>)
      else (p, s))"

definition xxh64_keep :: "u8 list \<Rightarrow> xxh64_state \<Rightarrow> xxh64_state" where
  "xxh64_keep p s =
     (if p \<noteq> [] then s\<lparr>mem64 := overwrite 0 p (mem64 s), memsize64 := of_nat (length p)\<rparr>
      else s)"

definition xxh64_update :: "xxh64_state \<Rightarrow> u8 list option \<Rightarrow> int \<times> xxh64_state" where
  "xxh64_update s inp = (case inp of
       None \<Rightarrow> (XXH_ERROR, s)
     | Some input \<Rightarrow>
         let s = s\<lparr>total_len := total_len s + of_nat (length input)\<rparr> in
         if (ucast (memsize64 s) + of_nat (length input) :: size_t) < 32 then
           (XXH_OK, s\<lparr>mem64 := overwrite (unat (memsize64 s)) input (mem64 s),
              memsize64 := memsize64 s + of_nat (length input)\<rparr>)
         else
           let (p, s) = xxh64_fill input s;
               (p, s) = xxh64_bulk p s
           in (XXH_OK, xxh64_keep p s))"

definition xxh64_digest :: "xxh64_state \<Rightarrow> u64" where
  "xxh64_digest s =
     (let h = (if total_len s \<ge> 32 then xxh64_converge (s64_v s)
               else fst (snd (snd (s64_v s))) + PRIME64_5)
      in xxh64_finish (h + total_len s) (take (unat (memsize64 s)) (mem64 s)))"

section \<open>Streaming is one-shot hashing\<close>

text \<open>
  The buffer invariant and the abstraction of a state to the accumulators and the
  bytes that do not fill a stripe yet.
\<close>

definition xxh32_ok :: "xxh32_state \<Rightarrow> bool" where
  "xxh32_ok s \<longleftrightarrow> length (mem32 s) = 16 \<and> unat (memsize32 s) < 16"

definition xxh64_ok :: "xxh64_state \<Rightarrow> bool" where
  "xxh64_ok s \<longleftrightarrow> length (mem64 s) = 32 \<and> unat (memsize64 s) < 32"

definition xxh32_abs :: "xxh32_state \<Rightarrow> v32 \<times> u8 list" where
  "xxh32_abs s = (s32_v s, take (unat (memsize32 s)) (mem32 s))"

definition xxh64_abs :: "xxh64_state \<Rightarrow> v64 \<times> u8 list" where
  "xxh64_abs s = (s64_v s, take (unat (memsize64 s)) (mem64 s))"

lemma take_overwrite_end:
  "k \<le> length buf \<Longrightarrow> take (k + length xs) (overwrite k xs buf) = take k buf @ xs"
  by (simp add: overwrite_def)

lemma length_overwrite:
  "k + length xs \<le> length buf \<Longrightarrow> length (overwrite k xs buf) = length buf"
  by (simp add: overwrite_def)

lemma size_small_iff:
  assumes "unat (m :: u32) + n < 2 ^ 64"
  shows "(ucast m + of_nat n :: size_t) < c \<longleftrightarrow> unat m + n < unat c"
proof -
  have "(ucast m + of_nat n :: size_t) = of_nat (unat m + n)"
    by simp
  then show ?thesis
    using assms by (simp add: word_less_nat_alt unat_of_nat del: of_nat_add)
qed

lemma xxh32_rest:
  assumes "length (mem32 s) = 16" and "memsize32 s = 0" and "xxh32_bulk p s = (q, t)"
  shows "xxh32_ok (xxh32_keep q t)"
    and "xxh32_abs (xxh32_keep q t) = xxh32_loop (s32_v s) p"
    and "total_len_32 (xxh32_keep q t) = total_len_32 s"
    and "large_len (xxh32_keep q t) = large_len s"
proof -
  have bulk: "(s32_v t, q) = xxh32_loop (s32_v s) p" "mem32 t = mem32 s" "memsize32 t = 0"
      "total_len_32 t = total_len_32 s" "large_len t = large_len s"
    using assms(2,3)
    by (auto simp: xxh32_bulk_def xxh32.consume_short split: if_splits prod.splits)
  then have "length q < 16"
    by (metis snd_conv xxh32.consume_rest_short)
  moreover from this have "unat (of_nat (length q) :: u32) = length q"
    by (simp add: unat_of_nat)
  ultimately show "xxh32_ok (xxh32_keep q t)"
    and "xxh32_abs (xxh32_keep q t) = xxh32_loop (s32_v s) p"
    and "total_len_32 (xxh32_keep q t) = total_len_32 s"
    and "large_len (xxh32_keep q t) = large_len s"
    using bulk assms(1)
    by (auto simp: xxh32_ok_def xxh32_abs_def xxh32_keep_def overwrite_def)
qed

lemma xxh32_fill_loop:
  assumes "xxh32_ok s" and "16 \<le> unat (memsize32 s) + length c" and "xxh32_fill c s = (p, t)"
  shows "length (mem32 t) = 16" and "memsize32 t = 0"
    and "xxh32_loop (s32_v t) p = xxh32_loop (s32_v s) (snd (xxh32_abs s) @ c)"
    and "total_len_32 t = total_len_32 s"
      and "large_len t = large_len s"
proof -
  let ?k = "unat (memsize32 s)" and ?b = "take (unat (memsize32 s)) (mem32 s)"
  have k: "?k < 16" "length (mem32 s) = 16" using assms(1) by (simp_all add: xxh32_ok_def)
  have "xxh32_loop (s32_v s) (?b @ c)
      = xxh32_loop (xxh32_stripe (s32_v s) (?b @ c)) (drop (16 - ?k) c)"
    using assms(2) k by (subst xxh32.consume_step) auto
  also have "xxh32_stripe (s32_v s) (?b @ c) = xxh32_stripe (s32_v s) (?b @ take (16 - ?k) c)"
    using assms(2) k xxh32.stripe_prefix [of "?b @ take (16 - ?k) c" "s32_v s" "drop (16 - ?k) c"]
    by simp
  finally show "xxh32_loop (s32_v t) p = xxh32_loop (s32_v s) (snd (xxh32_abs s) @ c)"
    using assms(2,3) k
    by (auto simp: xxh32_fill_def xxh32_abs_def overwrite_def Let_def split: if_splits)
  show "length (mem32 t) = 16" "memsize32 t = 0" "total_len_32 t = total_len_32 s" "large_len t = large_len s"
    using assms(2,3) k
    by (auto simp: xxh32_fill_def Let_def length_overwrite split: if_splits)
qed

lemma xxh32_update_abs:
  assumes ok: "xxh32_ok s" and len: "length c + 16 \<le> 2 ^ 64"
    and upd: "xxh32_update s (Some c) = (r, t)"
  shows "r = XXH_OK \<and> xxh32_ok t
      \<and> xxh32_abs t = xxh32_loop (fst (xxh32_abs s)) (snd (xxh32_abs s) @ c)
      \<and> total_len_32 t = total_len_32 (xxh32_count c s)
      \<and> large_len t = large_len (xxh32_count c s)"
proof -
  let ?s = "xxh32_count c s"
  have k: "unat (memsize32 s) < 16" "length (mem32 s) = 16"
    using ok by (simp_all add: xxh32_ok_def)
  have ok': "xxh32_ok ?s" and same: "s32_v ?s = s32_v s" "mem32 ?s = mem32 s"
      "memsize32 ?s = memsize32 s"
    using ok by (simp_all add: xxh32_ok_def xxh32_count_def Let_def)
  have small: "(ucast (memsize32 s) + of_nat (length c) :: size_t) < 16
      \<longleftrightarrow> unat (memsize32 s) + length c < 16"
    using size_small_iff [of "memsize32 s" "length c" 16] k len by simp
  show ?thesis
  proof (cases "unat (memsize32 s) + length c < 16")
    case True
    have "unat (memsize32 s + of_nat (length c)) = unat (memsize32 s) + length c"
      using True k by (subst unat_add_lem [THEN iffD1]) (simp_all add: unat_of_nat)
    moreover have "t = ?s\<lparr>mem32 := overwrite (unat (memsize32 s)) c (mem32 s),
        memsize32 := memsize32 s + of_nat (length c)\<rparr>" "r = XXH_OK"
      using upd True by (simp_all add: xxh32_update_def small same Let_def)
    ultimately show ?thesis
      using True k
      by (simp add: xxh32_ok_def xxh32_abs_def length_overwrite take_overwrite_end
          xxh32.consume_short same)
  next
    case False
    obtain p u where fill: "xxh32_fill c ?s = (p, u)" by fastforce
    obtain q w where bulk: "xxh32_bulk p u = (q, w)" by fastforce
    have res: "t = xxh32_keep q w" "r = XXH_OK"
      using upd False fill bulk by (simp_all add: xxh32_update_def small same Let_def)
    have big: "16 \<le> unat (memsize32 ?s) + length c" using False same by simp
    note f = xxh32_fill_loop [OF ok' big fill]
    note g = xxh32_rest [OF f(1,2) bulk]
    show ?thesis using res f g same by (simp add: xxh32_abs_def)
  qed
qed

lemma xxh64_rest:
  assumes "length (mem64 s) = 32" and "memsize64 s = 0" and "xxh64_bulk p s = (q, t)"
  shows "xxh64_ok (xxh64_keep q t)"
    and "xxh64_abs (xxh64_keep q t) = xxh64_loop (s64_v s) p"
    and "total_len (xxh64_keep q t) = total_len s"
proof -
  have bulk: "(s64_v t, q) = xxh64_loop (s64_v s) p" "mem64 t = mem64 s" "memsize64 t = 0"
      "total_len t = total_len s"
    using assms(2,3)
    by (auto simp: xxh64_bulk_def xxh64.consume_short split: if_splits prod.splits)
  then have "length q < 32"
    by (metis snd_conv xxh64.consume_rest_short)
  moreover from this have "unat (of_nat (length q) :: u32) = length q"
    by (simp add: unat_of_nat)
  ultimately show "xxh64_ok (xxh64_keep q t)"
    and "xxh64_abs (xxh64_keep q t) = xxh64_loop (s64_v s) p"
    and "total_len (xxh64_keep q t) = total_len s"
    using bulk assms(1)
    by (auto simp: xxh64_ok_def xxh64_abs_def xxh64_keep_def overwrite_def)
qed

lemma xxh64_fill_loop:
  assumes "xxh64_ok s" and "32 \<le> unat (memsize64 s) + length c" and "xxh64_fill c s = (p, t)"
  shows "length (mem64 t) = 32" and "memsize64 t = 0"
    and "xxh64_loop (s64_v t) p = xxh64_loop (s64_v s) (snd (xxh64_abs s) @ c)"
    and "total_len t = total_len s"
proof -
  let ?k = "unat (memsize64 s)" and ?b = "take (unat (memsize64 s)) (mem64 s)"
  have k: "?k < 32" "length (mem64 s) = 32" using assms(1) by (simp_all add: xxh64_ok_def)
  have "xxh64_loop (s64_v s) (?b @ c)
      = xxh64_loop (xxh64_stripe (s64_v s) (?b @ c)) (drop (32 - ?k) c)"
    using assms(2) k by (subst xxh64.consume_step) auto
  also have "xxh64_stripe (s64_v s) (?b @ c) = xxh64_stripe (s64_v s) (?b @ take (32 - ?k) c)"
    using assms(2) k xxh64.stripe_prefix [of "?b @ take (32 - ?k) c" "s64_v s" "drop (32 - ?k) c"]
    by simp
  finally show "xxh64_loop (s64_v t) p = xxh64_loop (s64_v s) (snd (xxh64_abs s) @ c)"
    using assms(2,3) k
    by (auto simp: xxh64_fill_def xxh64_abs_def overwrite_def Let_def split: if_splits)
  show "length (mem64 t) = 32" "memsize64 t = 0" "total_len t = total_len s"
    using assms(2,3) k
    by (auto simp: xxh64_fill_def Let_def length_overwrite split: if_splits)
qed

lemma xxh64_update_abs:
  assumes ok: "xxh64_ok s" and len: "length c + 32 \<le> 2 ^ 64"
    and upd: "xxh64_update s (Some c) = (r, t)"
  shows "r = XXH_OK \<and> xxh64_ok t
      \<and> xxh64_abs t = xxh64_loop (fst (xxh64_abs s)) (snd (xxh64_abs s) @ c)
      \<and> total_len t = total_len s + of_nat (length c)"
proof -
  let ?s = "s\<lparr>total_len := total_len s + of_nat (length c)\<rparr>"
  have k: "unat (memsize64 s) < 32" "length (mem64 s) = 32"
    using ok by (simp_all add: xxh64_ok_def)
  have ok': "xxh64_ok ?s" and same: "s64_v ?s = s64_v s" "mem64 ?s = mem64 s"
      "memsize64 ?s = memsize64 s"
    using ok by (simp_all add: xxh64_ok_def)
  have small: "(ucast (memsize64 s) + of_nat (length c) :: size_t) < 32
      \<longleftrightarrow> unat (memsize64 s) + length c < 32"
    using size_small_iff [of "memsize64 s" "length c" 32] k len by simp
  show ?thesis
  proof (cases "unat (memsize64 s) + length c < 32")
    case True
    have "unat (memsize64 s + of_nat (length c)) = unat (memsize64 s) + length c"
      using True k by (subst unat_add_lem [THEN iffD1]) (simp_all add: unat_of_nat)
    moreover have "t = ?s\<lparr>mem64 := overwrite (unat (memsize64 s)) c (mem64 s),
        memsize64 := memsize64 s + of_nat (length c)\<rparr>" "r = XXH_OK"
      using upd True by (simp_all add: xxh64_update_def small same Let_def)
    ultimately show ?thesis
      using True k
      by (simp add: xxh64_ok_def xxh64_abs_def length_overwrite take_overwrite_end
          xxh64.consume_short same)
  next
    case False
    obtain p u where fill: "xxh64_fill c ?s = (p, u)" by fastforce
    obtain q w where bulk: "xxh64_bulk p u = (q, w)" by fastforce
    have res: "t = xxh64_keep q w" "r = XXH_OK"
      using upd False fill bulk by (simp_all add: xxh64_update_def small same Let_def)
    have big: "32 \<le> unat (memsize64 ?s) + length c" using False same by simp
    note f = xxh64_fill_loop [OF ok' big fill]
    note g = xxh64_rest [OF f(1,2) bulk]
    show ?thesis using res f g same by (simp add: xxh64_abs_def)
  qed
qed

text \<open>What a state has absorbed: the input \<open>xs\<close> since it was reset with \<open>seed\<close>.\<close>

definition xxh32_absorbed :: "u32 \<Rightarrow> u8 list \<Rightarrow> xxh32_state \<Rightarrow> bool" where
  "xxh32_absorbed seed xs s \<longleftrightarrow> xxh32_ok s \<and> xxh32_abs s = xxh32_loop (xxh32_init seed) xs
     \<and> total_len_32 s = of_nat (length xs) \<and> (large_len s \<noteq> 0 \<longleftrightarrow> 16 \<le> length xs)"

definition xxh64_absorbed :: "u64 \<Rightarrow> u8 list \<Rightarrow> xxh64_state \<Rightarrow> bool" where
  "xxh64_absorbed seed xs s \<longleftrightarrow> xxh64_ok s \<and> xxh64_abs s = xxh64_loop (xxh64_init seed) xs
     \<and> total_len s = of_nat (length xs)"

lemma xxh32_reset_absorbed: "xxh32_absorbed seed [] (xxh32_reset seed)"
  by (simp add: xxh32_absorbed_def xxh32_reset_def xxh32_ok_def xxh32_abs_def
      xxh32.consume_short)

lemma xxh64_reset_absorbed: "xxh64_absorbed seed [] (xxh64_reset seed)"
  by (simp add: xxh64_absorbed_def xxh64_reset_def xxh64_ok_def xxh64_abs_def
      xxh64.consume_short)

lemma xxh32_large_step:
  assumes "total_len_32 s = of_nat n" and "large_len s \<noteq> 0 \<longleftrightarrow> 16 \<le> n"
    and "length c + 16 \<le> 2 ^ 64"
  shows "large_len (xxh32_count c s) \<noteq> 0 \<longleftrightarrow> 16 \<le> n + length c"
proof -
  have c: "(of_nat (length c) :: size_t) \<ge> 16 \<longleftrightarrow> 16 \<le> length c"
    using assms(3) by (simp add: word_le_nat_alt unat_of_nat)
  have "(of_nat (n + length c) :: u32) \<ge> 16 \<longleftrightarrow> 16 \<le> n + length c"
    if "n < 16" "length c < 16"
    using that by (simp add: word_le_nat_alt unat_of_nat del: of_nat_add)
  then show ?thesis
    using assms(1,2) c by (auto simp: xxh32_count_def Let_def or_eq_0_iff)
qed

lemma xxh32_update_absorbed:
  assumes "xxh32_absorbed seed xs s" and "length c + 16 \<le> 2 ^ 64"
    and "xxh32_update s (Some c) = (r, t)"
  shows "xxh32_absorbed seed (xs @ c) t"
  using xxh32_update_abs [OF _ assms(2,3)] assms(1,2) xxh32_large_step [of s "length xs" c]
  by (simp add: xxh32_absorbed_def xxh32.consume_append [of _ xs c] xxh32_count_def Let_def)

lemma xxh64_update_absorbed:
  assumes "xxh64_absorbed seed xs s" and "length c + 32 \<le> 2 ^ 64"
    and "xxh64_update s (Some c) = (r, t)"
  shows "xxh64_absorbed seed (xs @ c) t"
  using xxh64_update_abs [OF _ assms(2,3)] assms(1)
  by (simp add: xxh64_absorbed_def xxh64.consume_append [of _ xs c])

lemma xxh32_digest_absorbed: "xxh32_absorbed seed xs s \<Longrightarrow> xxh32_digest s = xxh32 xs seed"
  by (cases "16 \<le> length xs")
     (auto simp: xxh32_absorbed_def xxh32_abs_def xxh32_digest_def xxh32_def xxh32_init_def
       xxh32.consume_short split: prod.splits)

lemma xxh64_digest_absorbed:
  assumes "xxh64_absorbed seed xs s" and "length xs < 2 ^ 64"
  shows "xxh64_digest s = xxh64 xs seed"
proof -
  have "total_len s \<ge> 32 \<longleftrightarrow> 32 \<le> length xs"
    using assms by (simp add: xxh64_absorbed_def word_le_nat_alt unat_of_nat)
  then show ?thesis
    using assms(1) by (cases "32 \<le> length xs")
     (auto simp: xxh64_absorbed_def xxh64_abs_def xxh64_digest_def xxh64_def xxh64_init_def
       xxh64.consume_short split: prod.splits)
qed

definition xxh32_feed :: "xxh32_state \<Rightarrow> u8 list list \<Rightarrow> xxh32_state" where
  "xxh32_feed = foldl (\<lambda>s c. snd (xxh32_update s (Some c)))"

definition xxh64_feed :: "xxh64_state \<Rightarrow> u8 list list \<Rightarrow> xxh64_state" where
  "xxh64_feed = foldl (\<lambda>s c. snd (xxh64_update s (Some c)))"

lemma xxh32_feed_absorbed:
  "\<forall>c\<in>set cs. length c + 16 \<le> 2 ^ 64 \<Longrightarrow>
   xxh32_absorbed seed (concat cs) (xxh32_feed (xxh32_reset seed) cs)"
proof (induction cs rule: rev_induct)
  case Nil
  show ?case by (simp add: xxh32_feed_def xxh32_reset_absorbed)
next
  case (snoc c cs)
  then show ?case
    by (auto simp: xxh32_feed_def intro!: xxh32_update_absorbed [OF _ _ surjective_pairing])
qed

lemma xxh64_feed_absorbed:
  "\<forall>c\<in>set cs. length c + 32 \<le> 2 ^ 64 \<Longrightarrow>
   xxh64_absorbed seed (concat cs) (xxh64_feed (xxh64_reset seed) cs)"
proof (induction cs rule: rev_induct)
  case Nil
  show ?case by (simp add: xxh64_feed_def xxh64_reset_absorbed)
next
  case (snoc c cs)
  then show ?case
    by (auto simp: xxh64_feed_def intro!: xxh64_update_absorbed [OF _ _ surjective_pairing])
qed

text \<open>
  C4. Streaming with the 64-bit hash: however an input shorter than \<open>2 ^ 64\<close> bytes is cut
  into chunks, resetting, updating with each chunk and taking the digest gives \<open>xxh64\<close>
  of the whole input.
\<close>

theorem xxh64_streaming:
  assumes "length (concat cs) < 2 ^ 64 - 32"
  shows "xxh64_digest (xxh64_feed (xxh64_reset seed) cs) = xxh64 (concat cs) seed"
proof (rule xxh64_digest_absorbed [OF xxh64_feed_absorbed])
  show "\<forall>c\<in>set cs. length c + 32 \<le> 2 ^ 64"
  proof
    fix c assume "c \<in> set cs"
    then have "length c \<le> length (concat cs)"
      by (simp add: length_concat member_le_sum_list)
    with assms show "length c + 32 \<le> 2 ^ 64" by linarith
  qed
  show "length (concat cs) < 2 ^ 64" using assms by linarith
qed

theorem xxh64_streaming_witness:
  "xxh64_digest (xxh64_feed (xxh64_reset 7) [[1, 2, 3], replicate 40 9, [4]])
     = xxh64 (concat [[1, 2, 3], replicate 40 9, [4]]) 7"
  by (rule xxh64_streaming) simp

text \<open>
  C35. Streaming with the 32-bit hash, for chunks that leave the \<open>size_t\<close> sums in range;
  the total may exceed \<open>2 ^ 32\<close>, where \<open>total_len_32\<close> wraps and \<open>large_len\<close> keeps the case.
\<close>

theorem xxh32_streaming:
  assumes "\<forall>c\<in>set cs. length c + 16 \<le> 2 ^ 64"
  shows "xxh32_digest (xxh32_feed (xxh32_reset seed) cs) = xxh32 (concat cs) seed"
  by (rule xxh32_digest_absorbed [OF xxh32_feed_absorbed [OF assms]])

theorem xxh32_streaming_witness:
  "xxh32_digest (xxh32_feed (xxh32_reset 7) [[1, 2, 3], replicate 40 9, [4]])
     = xxh32 (concat [[1, 2, 3], replicate 40 9, [4]]) 7"
  by (rule xxh32_streaming) simp

end
