(* ===== verification/Efi_Services.thy ===== *)
theory Efi_Services
  imports Prelude
begin

text \<open>
  The status codes of \<^verbatim>\<open>include/efi/error.h\<close>, the memory types of
  \<^verbatim>\<open>include/efi/memory.h\<close>, and the interface to the firmware
  (\<^verbatim>\<open>include/efi/boot_services.h\<close>, \<^verbatim>\<open>include/efi/runtime_services.h\<close>). The firmware is not
  part of this repository: each service is a field of a record of functions over a
  \<open>world\<close> (the byte memory and the firmware's own state, of an arbitrary type), so
  every result about code that calls the firmware holds for every firmware that meets
  the hypotheses it states.
\<close>

unbundle bit_operations_syntax

section \<open>Status codes\<close>

definition EFI_ERROR_MASK :: efi_status where "EFI_ERROR_MASK = push_bit 56 0x80"

definition EFIERR :: "efi_status \<Rightarrow> efi_status" where "EFIERR a = EFI_ERROR_MASK OR a"

definition EFIWARN :: "efi_status \<Rightarrow> efi_status" where "EFIWARN a = a"

definition EFI_ERROR :: "efi_status \<Rightarrow> bool" where "EFI_ERROR a \<longleftrightarrow> sint a < 0"

definition EFI_SUCCESS :: efi_status where "EFI_SUCCESS = 0"
definition EFI_LOAD_ERROR :: efi_status where "EFI_LOAD_ERROR = EFIERR 1"
definition EFI_INVALID_PARAMETER :: efi_status where "EFI_INVALID_PARAMETER = EFIERR 2"
definition EFI_UNSUPPORTED :: efi_status where "EFI_UNSUPPORTED = EFIERR 3"
definition EFI_BAD_BUFFER_SIZE :: efi_status where "EFI_BAD_BUFFER_SIZE = EFIERR 4"
definition EFI_BUFFER_TOO_SMALL :: efi_status where "EFI_BUFFER_TOO_SMALL = EFIERR 5"
definition EFI_NOT_READY :: efi_status where "EFI_NOT_READY = EFIERR 6"
definition EFI_DEVICE_ERROR :: efi_status where "EFI_DEVICE_ERROR = EFIERR 7"
definition EFI_WRITE_PROTECTED :: efi_status where "EFI_WRITE_PROTECTED = EFIERR 8"
definition EFI_OUT_OF_RESOURCES :: efi_status where "EFI_OUT_OF_RESOURCES = EFIERR 9"
definition EFI_VOLUME_CORRUPTED :: efi_status where "EFI_VOLUME_CORRUPTED = EFIERR 10"
definition EFI_VOLUME_FULL :: efi_status where "EFI_VOLUME_FULL = EFIERR 11"
definition EFI_NO_MEDIA :: efi_status where "EFI_NO_MEDIA = EFIERR 12"
definition EFI_MEDIA_CHANGED :: efi_status where "EFI_MEDIA_CHANGED = EFIERR 13"
definition EFI_NOT_FOUND :: efi_status where "EFI_NOT_FOUND = EFIERR 14"
definition EFI_ACCESS_DENIED :: efi_status where "EFI_ACCESS_DENIED = EFIERR 15"
definition EFI_NO_RESPONSE :: efi_status where "EFI_NO_RESPONSE = EFIERR 16"
definition EFI_NO_MAPPING :: efi_status where "EFI_NO_MAPPING = EFIERR 17"
definition EFI_TIMEOUT :: efi_status where "EFI_TIMEOUT = EFIERR 18"
definition EFI_NOT_STARTED :: efi_status where "EFI_NOT_STARTED = EFIERR 19"
definition EFI_ALREADY_STARTED :: efi_status where "EFI_ALREADY_STARTED = EFIERR 20"
definition EFI_ABORTED :: efi_status where "EFI_ABORTED = EFIERR 21"
definition EFI_ICMP_ERROR :: efi_status where "EFI_ICMP_ERROR = EFIERR 22"
definition EFI_TFTP_ERROR :: efi_status where "EFI_TFTP_ERROR = EFIERR 23"
definition EFI_PROTOCOL_ERROR :: efi_status where "EFI_PROTOCOL_ERROR = EFIERR 24"
definition EFI_INCOMPATIBLE_VERSION :: efi_status where "EFI_INCOMPATIBLE_VERSION = EFIERR 25"
definition EFI_SECURITY_VIOLATION :: efi_status where "EFI_SECURITY_VIOLATION = EFIERR 26"
definition EFI_CRC_ERROR :: efi_status where "EFI_CRC_ERROR = EFIERR 27"
definition EFI_END_OF_MEDIA :: efi_status where "EFI_END_OF_MEDIA = EFIERR 28"
definition EFI_END_OF_FILE :: efi_status where "EFI_END_OF_FILE = EFIERR 31"
definition EFI_INVALID_LANGUAGE :: efi_status where "EFI_INVALID_LANGUAGE = EFIERR 32"
definition EFI_COMPROMISED_DATA :: efi_status where "EFI_COMPROMISED_DATA = EFIERR 33"

definition EFI_WARN_UNKNOWN_GLYPH :: efi_status where "EFI_WARN_UNKNOWN_GLYPH = EFIWARN 1"
definition EFI_WARN_DELETE_FAILURE :: efi_status where "EFI_WARN_DELETE_FAILURE = EFIWARN 2"
definition EFI_WARN_WRITE_FAILURE :: efi_status where "EFI_WARN_WRITE_FAILURE = EFIWARN 3"
definition EFI_WARN_BUFFER_TOO_SMALL :: efi_status where "EFI_WARN_BUFFER_TOO_SMALL = EFIWARN 4"

named_theorems efi_status \<open>the numeric values of the status codes\<close>

lemmas [efi_status] = EFI_SUCCESS_def EFI_LOAD_ERROR_def EFI_INVALID_PARAMETER_def
  EFI_UNSUPPORTED_def EFI_BAD_BUFFER_SIZE_def EFI_BUFFER_TOO_SMALL_def EFI_NOT_READY_def
  EFI_DEVICE_ERROR_def EFI_WRITE_PROTECTED_def EFI_OUT_OF_RESOURCES_def
  EFI_VOLUME_CORRUPTED_def EFI_VOLUME_FULL_def EFI_NO_MEDIA_def EFI_MEDIA_CHANGED_def
  EFI_NOT_FOUND_def EFI_ACCESS_DENIED_def EFI_NO_RESPONSE_def EFI_NO_MAPPING_def
  EFI_TIMEOUT_def EFI_NOT_STARTED_def EFI_ALREADY_STARTED_def EFI_ABORTED_def
  EFI_ICMP_ERROR_def EFI_TFTP_ERROR_def EFI_PROTOCOL_ERROR_def EFI_INCOMPATIBLE_VERSION_def
  EFI_SECURITY_VIOLATION_def EFI_CRC_ERROR_def EFI_END_OF_MEDIA_def EFI_END_OF_FILE_def
  EFI_INVALID_LANGUAGE_def EFI_COMPROMISED_DATA_def EFI_WARN_UNKNOWN_GLYPH_def
  EFI_WARN_DELETE_FAILURE_def EFI_WARN_WRITE_FAILURE_def EFI_WARN_BUFFER_TOO_SMALL_def
  EFIERR_def EFIWARN_def EFI_ERROR_MASK_def

text \<open>The values that flow through the code: which statuses are errors, and that they differ.\<close>

lemma EFI_ERROR_simps [simp]:
  "EFI_ERROR EFI_LOAD_ERROR" "EFI_ERROR EFI_INVALID_PARAMETER" "EFI_ERROR EFI_UNSUPPORTED"
  "EFI_ERROR EFI_BUFFER_TOO_SMALL" "EFI_ERROR EFI_OUT_OF_RESOURCES" "EFI_ERROR EFI_NOT_FOUND"
  "EFI_ERROR EFI_COMPROMISED_DATA" "EFI_ERROR EFI_INCOMPATIBLE_VERSION"
  "\<not> EFI_ERROR EFI_SUCCESS"
  by (simp_all add: EFI_ERROR_def efi_status)

lemma EFI_SUCCESS_noteq [simp]:
  "EFI_LOAD_ERROR \<noteq> EFI_SUCCESS" "EFI_INVALID_PARAMETER \<noteq> EFI_SUCCESS"
  "EFI_UNSUPPORTED \<noteq> EFI_SUCCESS" "EFI_BUFFER_TOO_SMALL \<noteq> EFI_SUCCESS"
  "EFI_OUT_OF_RESOURCES \<noteq> EFI_SUCCESS" "EFI_NOT_FOUND \<noteq> EFI_SUCCESS"
  "EFI_COMPROMISED_DATA \<noteq> EFI_SUCCESS" "EFI_NOT_FOUND \<noteq> EFI_BUFFER_TOO_SMALL"
  "EFI_UNSUPPORTED \<noteq> EFI_LOAD_ERROR" "EFI_UNSUPPORTED \<noteq> EFI_NOT_FOUND"
  by (simp_all add: efi_status)

lemmas EFI_SUCCESS_noteq' [simp] = EFI_SUCCESS_noteq [symmetric]

text \<open>\<open>assert(c)\<close> in a build without \<open>NDEBUG\<close> (the default of the build files).\<close>

definition c_assert :: "bool \<Rightarrow> 'a outcome \<Rightarrow> 'a outcome" where
  "c_assert c m = (if c then m else Exit EFI_UNSUPPORTED)"

lemma c_assert_True [simp]: "c_assert True m = m"
  by (simp add: c_assert_def)

lemma c_assert_Ret_iff [outcome_iff]: "c_assert c m = Ret x \<longleftrightarrow> c \<and> m = Ret x"
  by (simp add: c_assert_def)

lemma c_assert_elim: "c_assert c m = Ret x \<Longrightarrow> (c \<Longrightarrow> m = Ret x \<Longrightarrow> P) \<Longrightarrow> P"
  by (simp add: c_assert_Ret_iff)

section \<open>The firmware interface\<close>

text \<open>The members of \<open>enum efi_memory_t\<close> and \<open>enum efi_allocate_t\<close> the code passes on.\<close>

definition EFI_LOADER_DATA :: u32 where "EFI_LOADER_DATA = 2"
definition EFI_BOOT_SERVICES_DATA :: u32 where "EFI_BOOT_SERVICES_DATA = 4"
definition EFI_ACPI_RECLAIM_MEMORY :: u32 where "EFI_ACPI_RECLAIM_MEMORY = 9"
definition EFI_ALLOCATE_ANY_PAGES :: u32 where "EFI_ALLOCATE_ANY_PAGES = 0"
definition EFI_OPEN_PROTOCOL_BY_HANDLE_PROTOCOL :: u32 where
  "EFI_OPEN_PROTOCOL_BY_HANDLE_PROTOCOL = 1"
definition EFI_OPEN_PROTOCOL_EXCLUSIVE :: u32 where "EFI_OPEN_PROTOCOL_EXCLUSIVE = 0x20"

text \<open>
  A GUID as the 128 bits of \<open>struct efi_guid\<close>, split as its first view \<open>ms1\<close> to \<open>ms4\<close>.
\<close>

record efi_guid =
  ms1 :: u32
  ms2 :: u16
  ms3 :: u16
  ms4 :: "u8 list"

type_synonym handle = addr

record 'w world =
  wmem :: mem
  fw :: 'w

text \<open>
  Boot services. A service takes its arguments and the world; out-parameters are
  results. \<open>install\<close> and \<open>uninstall\<close> are the variadic
  \<open>(un)install_multiple_protocol_interfaces\<close>, with the GUID/interface pairs as a list.
\<close>

record 'w boot_services =
  allocate_pages :: "u32 \<Rightarrow> u32 \<Rightarrow> size_t \<Rightarrow> 'w world \<Rightarrow> efi_status \<times> addr \<times> 'w world"
  free_pages :: "addr \<Rightarrow> size_t \<Rightarrow> 'w world \<Rightarrow> efi_status \<times> 'w world"
  allocate_pool :: "u32 \<Rightarrow> size_t \<Rightarrow> 'w world \<Rightarrow> efi_status \<times> addr \<times> 'w world"
  free_pool :: "addr \<Rightarrow> 'w world \<Rightarrow> efi_status \<times> 'w world"
  install :: "handle \<Rightarrow> (efi_guid \<times> addr) list \<Rightarrow> 'w world \<Rightarrow> efi_status \<times> handle \<times> 'w world"
  uninstall :: "handle \<Rightarrow> (efi_guid \<times> addr) list \<Rightarrow> 'w world \<Rightarrow> efi_status \<times> 'w world"
  open_protocol :: "handle \<Rightarrow> efi_guid \<Rightarrow> handle \<Rightarrow> u32 \<Rightarrow> 'w world \<Rightarrow> efi_status \<times> addr \<times> 'w world"
  close_protocol :: "handle \<Rightarrow> efi_guid \<Rightarrow> handle \<Rightarrow> 'w world \<Rightarrow> efi_status \<times> 'w world"
  locate_handle :: "efi_guid \<Rightarrow> size_t \<Rightarrow> addr \<Rightarrow> 'w world \<Rightarrow> efi_status \<times> size_t \<times> 'w world"
  locate_device_path :: "efi_guid \<Rightarrow> addr \<Rightarrow> 'w world \<Rightarrow> efi_status \<times> addr \<times> handle \<times> 'w world"
  locate_protocol :: "efi_guid \<Rightarrow> 'w world \<Rightarrow> efi_status \<times> addr \<times> 'w world"
  install_configuration_table :: "efi_guid \<Rightarrow> addr \<Rightarrow> 'w world \<Rightarrow> efi_status \<times> 'w world"
  load_image :: "bool \<Rightarrow> handle \<Rightarrow> addr \<Rightarrow> addr \<Rightarrow> size_t \<Rightarrow> 'w world \<Rightarrow> efi_status \<times> handle \<times> 'w world"
  start_image :: "handle \<Rightarrow> 'w world \<Rightarrow> efi_status \<times> 'w world"
  unload_image :: "handle \<Rightarrow> 'w world \<Rightarrow> efi_status \<times> 'w world"

text \<open>Runtime services: variables are named by a UTF-16 string and a vendor GUID.\<close>

record 'w runtime_services =
  get_variable :: "u16 list \<Rightarrow> efi_guid \<Rightarrow> size_t \<Rightarrow> addr \<Rightarrow> 'w world
     \<Rightarrow> efi_status \<times> u32 \<times> size_t \<times> 'w world"
  set_variable :: "u16 list \<Rightarrow> efi_guid \<Rightarrow> u32 \<Rightarrow> size_t \<Rightarrow> addr \<Rightarrow> 'w world
     \<Rightarrow> efi_status \<times> 'w world"

text \<open>
  A concrete firmware for the witnesses: its own state is the next free address, pool and
  page allocations hand out fresh zeroed memory from there (pool blocks rounded up to
  whole pages), freeing keeps the memory mapped, every other service is unsupported and
  no variable exists.
\<close>

definition bump_alloc :: "nat \<Rightarrow> addr world \<Rightarrow> efi_status \<times> addr \<times> addr world" where
  "bump_alloc n w = (EFI_SUCCESS, fw w,
     \<lparr>wmem = (\<lambda>x. if in_range (fw w) n x then Some 0 else wmem w x), fw = fw w + of_nat n\<rparr>)"

definition bump_services :: "addr boot_services" where
  "bump_services = \<lparr>
     allocate_pages = (\<lambda>_ _ n. bump_alloc (4096 * unat n)),
     free_pages = (\<lambda>_ _ w. (EFI_SUCCESS, w)),
     allocate_pool = (\<lambda>_ n. bump_alloc (4096 * (unat n div 4096 + 1))),
     free_pool = (\<lambda>_ w. (EFI_SUCCESS, w)),
     install = (\<lambda>h _ w. (EFI_UNSUPPORTED, h, w)),
     uninstall = (\<lambda>_ _ w. (EFI_UNSUPPORTED, w)),
     open_protocol = (\<lambda>_ _ _ _ w. (EFI_UNSUPPORTED, 0, w)),
     close_protocol = (\<lambda>_ _ _ w. (EFI_UNSUPPORTED, w)),
     locate_handle = (\<lambda>_ n _ w. (EFI_NOT_FOUND, n, w)),
     locate_device_path = (\<lambda>_ p w. (EFI_NOT_FOUND, p, 0, w)),
     locate_protocol = (\<lambda>_ w. (EFI_NOT_FOUND, 0, w)),
     install_configuration_table = (\<lambda>_ _ w. (EFI_UNSUPPORTED, w)),
     load_image = (\<lambda>_ _ _ _ _ w. (EFI_UNSUPPORTED, 0, w)),
     start_image = (\<lambda>_ w. (EFI_UNSUPPORTED, w)),
     unload_image = (\<lambda>_ w. (EFI_UNSUPPORTED, w))\<rparr>"

lemma bump_alloc_simps [simp]:
  "fst (bump_alloc n w) = EFI_SUCCESS" "fst (snd (bump_alloc n w)) = fw w"
  "fw (snd (snd (bump_alloc n w))) = fw w + of_nat n"
  by (simp_all add: bump_alloc_def)

lemma bump_alloc_mapped:
  "j \<le> n \<Longrightarrow> j \<le> 2 ^ 64 \<Longrightarrow> mapped (wmem (snd (snd (bump_alloc n w)))) (fw w) j"
  by (intro mapped_rangeI) (auto simp: bump_alloc_def dest: in_range_mono)

end
