(* ===== verification/RtLib.thy ===== *)
theory RtLib
  imports Efi_Services
begin

text \<open>
  \<^verbatim>\<open>lib/efilib/efirtlib.c\<close> and \<^verbatim>\<open>include/efilib/div.h\<close>: the C library the compiler needs.
  \<open>malloc\<close>, \<open>calloc\<close> and \<open>free\<close> call the firmware's pool; \<open>memset\<close>, \<open>memcpy\<close>,
  \<open>memmove\<close> and \<open>memcmp\<close> are the byte loops of the default configuration.
  The lemmas show that each loop is the block operation its name promises:
  \<open>memcpy\<close> equals loading the source and storing it whenever the forward copy reads no
  byte it has already overwritten.
\<close>

section \<open>Byte loops\<close>

primrec memset_loop :: "nat \<Rightarrow> addr \<Rightarrow> u8 \<Rightarrow> mem \<Rightarrow> mem outcome" where
  "memset_loop 0 ptr value m = Ret m"
| "memset_loop (Suc n) ptr value m =
     (if m ptr = None then UB else memset_loop n (ptr + 1) value (m(ptr \<mapsto> value)))"

definition memset :: "mem \<Rightarrow> addr \<Rightarrow> u8 \<Rightarrow> size_t \<Rightarrow> mem outcome" where
  "memset m buffer value len = memset_loop (unat len) buffer value m"

primrec memcpy_loop :: "nat \<Rightarrow> addr \<Rightarrow> addr \<Rightarrow> mem \<Rightarrow> mem outcome" where
  "memcpy_loop 0 d s m = Ret m"
| "memcpy_loop (Suc n) d s m =
     (case m s of None \<Rightarrow> UB
      | Some b \<Rightarrow> if m d = None then UB else memcpy_loop n (d + 1) (s + 1) (m(d \<mapsto> b)))"

definition memcpy :: "mem \<Rightarrow> addr \<Rightarrow> addr \<Rightarrow> size_t \<Rightarrow> mem outcome" where
  "memcpy m dst src len = memcpy_loop (unat len) dst src m"

text \<open>\<open>*(x++) - *(y++)\<close> is an \<open>int\<close> difference of two promoted bytes.\<close>

primrec memcmp_loop :: "nat \<Rightarrow> addr \<Rightarrow> addr \<Rightarrow> mem \<Rightarrow> int outcome" where
  "memcmp_loop 0 x y m = Ret 0"
| "memcmp_loop (Suc n) x y m =
     (case (m x, m y) of
        (Some a, Some b) \<Rightarrow>
          (let ret = uint a - uint b
           in if ret \<noteq> 0 then Ret (of_bool (ret > 0) - of_bool (ret < 0))
              else memcmp_loop n (x + 1) (y + 1) m)
      | _ \<Rightarrow> UB)"

definition memcmp :: "mem \<Rightarrow> addr \<Rightarrow> addr \<Rightarrow> size_t \<Rightarrow> int outcome" where
  "memcmp m a b len = memcmp_loop (unat len) a b m"

section \<open>Pool allocation\<close>

text \<open>\<open>pool\<close> is the global \<open>_EFI_POOL_ALLOCATION\<close>. A null pointer is the address 0.\<close>

definition malloc :: "'w boot_services \<Rightarrow> u32 \<Rightarrow> size_t \<Rightarrow> 'w world \<Rightarrow> addr \<times> 'w world" where
  "malloc BS pool len w =
     (let (err, ptr, w) = allocate_pool BS pool len w
      in if EFI_ERROR err then (0, w) else (ptr, w))"

definition calloc ::
    "'w boot_services \<Rightarrow> u32 \<Rightarrow> size_t \<Rightarrow> size_t \<Rightarrow> 'w world \<Rightarrow> (addr \<times> 'w world) outcome" where
  "calloc BS pool num len w =
     (let (err, ptr, w) = allocate_pool BS pool (num * len) w
      in if EFI_ERROR err then Ret (0, w)
         else obind (memset (wmem w) ptr 0 (num * len)) (\<lambda>m. Ret (ptr, w\<lparr>wmem := m\<rparr>)))"

definition c_free :: "'w boot_services \<Rightarrow> addr \<Rightarrow> 'w world \<Rightarrow> 'w world" where
  "c_free BS p w = snd (free_pool BS p w)"

text \<open>
  \<open>memmove\<close> copies through a temporary block unless the blocks are strictly apart. A
  failed allocation of that block is not tested (\<open>EFILIB_ASSERT\<close> is off by default), so
  the copy then goes through the null pointer.
\<close>

definition memmove ::
    "'w boot_services \<Rightarrow> u32 \<Rightarrow> addr \<Rightarrow> addr \<Rightarrow> size_t \<Rightarrow> 'w world \<Rightarrow> 'w world outcome" where
  "memmove BS pool dst src len w =
     (if dst + len < src \<or> src + len < dst then
        obind (memcpy (wmem w) dst src len) (\<lambda>m. Ret (w\<lparr>wmem := m\<rparr>))
      else
        (let (tmp, w) = malloc BS pool len w in
         obind (memcpy (wmem w) tmp src len) (\<lambda>m.
         obind (memcpy m dst tmp len) (\<lambda>m.
         Ret (c_free BS tmp (w\<lparr>wmem := m\<rparr>))))))"

section \<open>Division\<close>

text \<open>C division truncates towards zero; dividing by 0 or overflowing is undefined.\<close>

definition c_quot :: "int \<Rightarrow> int \<Rightarrow> int" where
  "c_quot a b = sgn a * sgn b * (\<bar>a\<bar> div \<bar>b\<bar>)"

definition c_rem :: "int \<Rightarrow> int \<Rightarrow> int" where
  "c_rem a b = a - c_quot a b * b"

definition lldiv :: "u64 \<Rightarrow> u64 \<Rightarrow> (u64 \<times> u64) outcome" where
  "lldiv numerator denominator =
     (if denominator = 0 \<or> (denominator = -1 \<and> sint numerator = - (2 ^ 63)) then UB
      else Ret (word_of_int (c_quot (sint numerator) (sint denominator)),
                word_of_int (c_rem (sint numerator) (sint denominator))))"

section \<open>The loops are block operations\<close>

lemma memset_loop_store: "memset_loop n p v m = store_bytes m p (replicate n v)"
  by (induction n arbitrary: p m) simp_all

text \<open>No byte still to be read is the target of an earlier write.\<close>

definition no_clobber :: "addr \<Rightarrow> addr \<Rightarrow> nat \<Rightarrow> bool" where
  "no_clobber d s n \<longleftrightarrow> (\<forall>j<n. \<forall>i<j. s + of_nat j \<noteq> d + of_nat i)"

lemma no_clobber_Suc:
  assumes "no_clobber d s (Suc n)"
  shows "no_clobber (d + 1) (s + 1) n" and "\<forall>j<n. s + 1 + of_nat j \<noteq> d"
proof -
  have ne: "s + of_nat (Suc j) \<noteq> d + of_nat i" if "j < n" "i < Suc j" for i j
    using assms that unfolding no_clobber_def by blast
  show "no_clobber (d + 1) (s + 1) n"
    unfolding no_clobber_def
  proof (intro allI impI)
    fix j i assume "j < n" "i < j"
    then show "s + 1 + of_nat j \<noteq> d + 1 + of_nat i"
      using ne [of j "Suc i"] by (simp add: add.assoc)
  qed
  show "\<forall>j<n. s + 1 + of_nat j \<noteq> d"
    using ne [of _ 0] by (simp add: add.assoc)
qed

lemma load_bytes_upd_outside:
  "\<forall>j<n. a + of_nat j \<noteq> d \<Longrightarrow> load_bytes (m(d \<mapsto> b)) a n = load_bytes m a n"
proof (induction n arbitrary: a)
  case (Suc n)
  then have "a \<noteq> d" and "\<forall>j<n. a + 1 + of_nat j \<noteq> d"
    by (auto simp: All_less_Suc2 add.assoc)
  with Suc.IH [of "a + 1"] show ?case by (cases "m a") auto
qed simp

lemma memcpy_loop_block:
  "no_clobber d s n \<Longrightarrow>
   memcpy_loop n d s m = obind (load_bytes m s n) (store_bytes m d)"
proof (induction n arbitrary: d s m)
  case (Suc n)
  show ?case
  proof (cases "m s")
    case None
    then show ?thesis by simp
  next
    case (Some b)
    have "memcpy_loop n (d + 1) (s + 1) (m(d \<mapsto> b))
        = obind (load_bytes m (s + 1) n) (store_bytes (m(d \<mapsto> b)) (d + 1))"
      using Suc.IH [OF no_clobber_Suc(1) [OF Suc.prems]]
        load_bytes_upd_outside [OF no_clobber_Suc(2) [OF Suc.prems]]
      by (simp del: fun_upd_apply)
    with Some show ?thesis
      by (cases "load_bytes m (s + 1) n") (auto split: if_splits)
  qed
qed simp

lemma memcpy_loop_frame:
  "memcpy_loop n d s m = Ret m' \<Longrightarrow> \<not> in_range d n x \<Longrightarrow> m' x = m x"
proof (induction n arbitrary: d s m)
  case (Suc n)
  then obtain b where "memcpy_loop n (d + 1) (s + 1) (m(d \<mapsto> b)) = Ret m'"
    by (auto split: option.splits if_splits)
  moreover have "\<not> in_range (d + 1) n x" and "x \<noteq> d"
    using Suc.prems(2) in_range_SucI in_range_self by auto
  ultimately show ?case using Suc.IH by fastforce
qed simp

lemma memcpy_loop_dom: "memcpy_loop n d s m = Ret m' \<Longrightarrow> dom m' = dom m"
proof (induction n arbitrary: d s m)
  case (Suc n)
  then obtain b where "m d \<noteq> None" "memcpy_loop n (d + 1) (s + 1) (m(d \<mapsto> b)) = Ret m'"
    by (auto split: option.splits if_splits)
  from Suc.IH [OF this(2)] this(1) show ?case by (auto simp: dom_def)
qed simp

lemma memset_frame:
  "memset m p v n = Ret m' \<Longrightarrow> \<not> in_range p (unat n) x \<Longrightarrow> m' x = m x"
  by (auto simp: memset_def memset_loop_store dest: store_bytes_frame)

lemma memcpy_frame:
  "memcpy m d s n = Ret m' \<Longrightarrow> \<not> in_range d (unat n) x \<Longrightarrow> m' x = m x"
  by (auto simp: memcpy_def dest: memcpy_loop_frame)

lemma memset_dom: "memset m p v n = Ret m' \<Longrightarrow> dom m' = dom m"
  unfolding memset_def memset_loop_store by (rule store_bytes_dom)

lemma memcpy_dom: "memcpy m d s n = Ret m' \<Longrightarrow> dom m' = dom m"
  unfolding memcpy_def by (rule memcpy_loop_dom)

lemma memcpy_disjoint:
  assumes "\<And>x. in_range s (unat n) x \<Longrightarrow> \<not> in_range d (unat n) x"
    and "load_bytes m s (unat n) = Ret bs"
  shows "memcpy m d s n = store_bytes m d bs"
proof -
  have "no_clobber d s (unat n)"
    unfolding no_clobber_def
  proof (intro allI impI notI)
    fix j i assume ij: "j < unat n" "i < j" and eq: "s + of_nat j = d + of_nat i"
    have lt: "j < 2 ^ 64" "i < 2 ^ 64"
      using ij unsigned_less [of n, where ?'a = nat] by auto
    have "in_range s (unat n) (s + of_nat j)" "in_range d (unat n) (d + of_nat i)"
      using ij lt by (simp_all add: in_range_def unat_of_nat)
    with assms(1) eq show False by metis
  qed
  then show ?thesis using assms(2) by (simp add: memcpy_def memcpy_loop_block)
qed

section \<open>Moving overlapping blocks\<close>

text \<open>
  What UEFI documents for the pool services, for one allocation of \<open>n\<close> bytes: the block
  was not mapped before and is afterwards, and neither allocating nor freeing it
  touches other memory.
\<close>

definition fresh_block :: "'w boot_services \<Rightarrow> u32 \<Rightarrow> size_t \<Rightarrow> 'w world \<Rightarrow> addr \<Rightarrow> 'w world \<Rightarrow> bool" where
  "fresh_block BS pool n w tmp w' \<longleftrightarrow>
     allocate_pool BS pool n w = (EFI_SUCCESS, tmp, w')
     \<and> (\<forall>x. in_range tmp (unat n) x \<longrightarrow> wmem w x = None \<and> wmem w' x \<noteq> None)
     \<and> (\<forall>x. wmem w x \<noteq> None \<longrightarrow> wmem w' x = wmem w x)"

definition frees_only :: "'w boot_services \<Rightarrow> addr \<Rightarrow> size_t \<Rightarrow> bool" where
  "frees_only BS p n \<longleftrightarrow>
     (\<forall>v x. \<not> in_range p (unat n) x \<longrightarrow> wmem (snd (free_pool BS p v)) x = wmem v x)"

lemma memcpy_copies:
  assumes dis: "\<And>x. in_range s (unat n) x \<Longrightarrow> \<not> in_range d (unat n) x"
    and ld: "load_bytes m s (unat n) = Ret bs" and mp: "mapped m d (unat n)"
  shows "\<exists>m'. memcpy m d s n = Ret m' \<and> load_bytes m' d (unat n) = Ret bs
      \<and> (\<forall>x. \<not> in_range d (unat n) x \<longrightarrow> m' x = m x)"
proof -
  have len: "length bs = unat n" using ld by (rule load_bytes_length)
  then have "unat n \<le> 2 ^ 64" using unsigned_less [of n, where ?'a = nat] by simp
  obtain m' where m': "store_bytes m d bs = Ret m'"
    using store_bytes_iff_mapped mp len by metis
  have "memcpy m d s n = Ret m'"
    using memcpy_disjoint [OF dis ld] m' by simp
  moreover have "load_bytes m' d (unat n) = Ret bs"
    using load_store_same [OF m'] len \<open>unat n \<le> 2 ^ 64\<close> by simp
  moreover have "\<forall>x. \<not> in_range d (unat n) x \<longrightarrow> m' x = m x"
    using store_bytes_frame [OF m'] len by simp
  ultimately show ?thesis by blast
qed

text \<open>
  \<open>memmove\<close> moves the bytes whatever the overlap of the two blocks: the destination ends
  up with the bytes the source had, and no byte outside the destination and the
  temporary block changes.
\<close>

theorem memmove_moves:
  assumes src: "load_bytes (wmem w) src (unat n) = Ret bs" and dst: "mapped (wmem w) dst (unat n)"
    and nowrap: "unat src + unat n < 2 ^ 64" "unat dst + unat n < 2 ^ 64"
    and fresh: "fresh_block BS pool n w tmp w1" and frees: "frees_only BS tmp n"
  shows "\<exists>w'. memmove BS pool dst src n w = Ret w' \<and> load_bytes (wmem w') dst (unat n) = Ret bs
      \<and> (\<forall>x. \<not> in_range dst (unat n) x \<longrightarrow> \<not> in_range tmp (unat n) x \<longrightarrow> wmem w x \<noteq> None
           \<longrightarrow> wmem w' x = wmem w x)"
proof (cases "dst + n < src \<or> src + n < dst")
  case True
  have "unat (src + n) = unat src + unat n" "unat (dst + n) = unat dst + unat n"
    using nowrap by (simp_all add: unat_add_lem [THEN iffD1])
  then have apart: "unat dst + unat n \<le> unat src \<or> unat src + unat n \<le> unat dst"
    using True by (auto simp: word_less_nat_alt)
  have dis: "\<not> in_range dst (unat n) x" if "in_range src (unat n) x" for x
    using in_range_apart [OF _ _ apart that] nowrap by simp
  obtain m' where "memcpy (wmem w) dst src n = Ret m'" "load_bytes m' dst (unat n) = Ret bs"
      "\<And>x. \<not> in_range dst (unat n) x \<Longrightarrow> m' x = wmem w x"
    using memcpy_copies [OF dis src dst] by auto
  then show ?thesis using True by (auto simp: memmove_def)
next
  case False
  have n64: "unat n \<le> 2 ^ 64" using unsigned_less [of n, where ?'a = nat] by simp
  have alloc: "allocate_pool BS pool n w = (EFI_SUCCESS, tmp, w1)"
    and new: "\<And>x. in_range tmp (unat n) x \<Longrightarrow> wmem w x = None"
    and there: "\<And>x. in_range tmp (unat n) x \<Longrightarrow> wmem w1 x \<noteq> None"
    and keep: "\<And>x. wmem w x \<noteq> None \<Longrightarrow> wmem w1 x = wmem w x"
    using fresh unfolding fresh_block_def by blast+
  have in_src: "wmem w x \<noteq> None" if "in_range src (unat n) x" for x
    using mapped_range [OF load_mappedI [OF src] that] .
  have in_dst: "wmem w x \<noteq> None" if "in_range dst (unat n) x" for x
    using mapped_range [OF dst that] .
  have ld: "load_bytes (wmem w1) src (unat n) = Ret bs"
  proof -
    have "load_bytes (wmem w1) src (unat n) = load_bytes (wmem w) src (unat n)"
      by (rule load_bytes_cong) (rule keep, rule in_src)
    then show ?thesis using src by simp
  qed
  have mp: "mapped (wmem w1) tmp (unat n)" by (rule mapped_rangeI [OF there n64])
  have dis: "\<not> in_range tmp (unat n) x" if "in_range src (unat n) x" for x
    using new in_src that by blast
  obtain m1 where m1: "memcpy (wmem w1) tmp src n = Ret m1"
      "load_bytes m1 tmp (unat n) = Ret bs" "\<And>x. \<not> in_range tmp (unat n) x \<Longrightarrow> m1 x = wmem w1 x"
    using memcpy_copies [OF dis ld mp] by auto
  have apart: "\<not> in_range dst (unat n) x" if "in_range tmp (unat n) x" for x
    using new in_dst that by blast
  have "m1 x \<noteq> None" if "in_range dst (unat n) x" for x
  proof -
    have "\<not> in_range tmp (unat n) x" using apart that by blast
    then have "m1 x = wmem w x" using m1(3) keep in_dst [OF that] by simp
    then show ?thesis using in_dst [OF that] by simp
  qed
  then have mp2: "mapped m1 dst (unat n)" by (rule mapped_rangeI [OF _ n64])
  obtain m2 where m2: "memcpy m1 dst tmp n = Ret m2" "load_bytes m2 dst (unat n) = Ret bs"
      "\<And>x. \<not> in_range dst (unat n) x \<Longrightarrow> m2 x = m1 x"
    using memcpy_copies [OF apart m1(2) mp2] by auto
  define w' where "w' = c_free BS tmp (w1\<lparr>wmem := m2\<rparr>)"
  have free: "wmem w' x = m2 x" if "\<not> in_range tmp (unat n) x" for x
    using frees that by (simp add: frees_only_def w'_def c_free_def)
  have "memmove BS pool dst src n w = Ret w'"
    using False m1(1) m2(1) by (simp add: memmove_def malloc_def alloc w'_def)
  moreover have "load_bytes (wmem w') dst (unat n) = Ret bs"
  proof -
    have "load_bytes (wmem w') dst (unat n) = load_bytes m2 dst (unat n)"
      by (rule load_bytes_cong) (rule free, use apart in blast)
    then show ?thesis using m2(2) by simp
  qed
  moreover have "wmem w' x = wmem w x"
    if "\<not> in_range dst (unat n) x" "\<not> in_range tmp (unat n) x" "wmem w x \<noteq> None" for x
    using free [OF that(2)] m2(3) [OF that(1)] m1(3) [OF that(2)] keep [OF that(3)] by simp
  ultimately show ?thesis by blast
qed

theorem memmove_moves_witness:
  "\<exists>w'. memmove bump_services 4 0x1002 0x1000 4
        \<lparr>wmem = place 0x1000 [1, 2, 3, 4, 5, 6], fw = 0x2000\<rparr> = Ret w'
      \<and> load_bytes (wmem w') 0x1002 4 = Ret [1, 2, 3, 4]"
proof -
  let ?w = "\<lparr>wmem = place 0x1000 [1, 2, 3, 4, 5, 6], fw = 0x2000\<rparr> :: addr world"
  let ?w1 = "snd (snd (bump_alloc 4096 ?w))"
  have src: "load_bytes (wmem ?w) 0x1000 (unat (4 :: size_t)) = Ret [1, 2, 3, 4]"
    by (simp add: mem_eval)
  have "load_bytes (wmem ?w) 0x1002 4 = Ret [3, 4, 5, 6]"
    by (simp add: mem_eval)
  then have dst: "mapped (wmem ?w) 0x1002 (unat (4 :: size_t))"
    using load_mappedI by fastforce
  have low: "unat x < 0x1006" if "place 0x1000 [1, 2, 3, 4, 5, 6] x \<noteq> None" for x
    using that in_range_nowrap [of "0x1000" 6 x]
    by (simp add: place_def Let_def in_range_def split: if_splits)
  have high: "0x2000 \<le> unat x" if "in_range 0x2000 4096 x" for x
    using that by (simp add: in_range_nowrap)
  have sub: "in_range 0x2000 4096 x" if "in_range 0x2000 4 x" for x
    using that by (simp add: in_range_def)
  have fresh: "fresh_block bump_services 4 4 ?w 0x2000 ?w1"
    unfolding fresh_block_def using low high sub
    by (fastforce simp: bump_services_def bump_alloc_def)
  have frees: "frees_only bump_services 0x2000 4"
    by (simp add: frees_only_def bump_services_def)
  show ?thesis
    using memmove_moves [OF src dst _ _ fresh frees] by auto
qed

section \<open>Comparing blocks\<close>

lemma memcmp_loop_order:
  "load_bytes m x n = Ret xs \<Longrightarrow> load_bytes m y n = Ret ys \<Longrightarrow>
   \<exists>r. memcmp_loop n x y m = Ret r \<and> (r = 0 \<longleftrightarrow> xs = ys)
     \<and> (r < 0 \<longleftrightarrow> (xs, ys) \<in> lexord {(u, v). u < v}) \<and> r \<in> {-1, 0, 1}"
proof (induction n arbitrary: x y xs ys)
  case 0
  then show ?case by simp
next
  case (Suc n)
  from Suc.prems obtain a as where a: "m x = Some a" "load_bytes m (x + 1) n = Ret as" "xs = a # as"
    by (auto simp: outcome_iff split: option.splits)
  from Suc.prems obtain b bs where b: "m y = Some b" "load_bytes m (y + 1) n = Ret bs" "ys = b # bs"
    by (auto simp: outcome_iff split: option.splits)
  show ?case
  proof (cases "a = b")
    case True
    then show ?thesis using Suc.IH [OF a(2) b(2)] a b by simp
  next
    case False
    then have "uint a - uint b \<noteq> 0" by (simp add: word_uint_eq_iff)
    then show ?thesis using False a b by (auto simp: Let_def word_less_def)
  qed
qed

text \<open>
  \<open>memcmp\<close> is the lexicographic order of the two blocks: it returns 0 exactly for equal
  blocks, a negative value exactly when the first block comes first, and never anything
  but -1, 0 or 1.
\<close>

theorem memcmp_lexicographic:
  assumes "load_bytes m a (unat n) = Ret xs" and "load_bytes m b (unat n) = Ret ys"
  shows "\<exists>r. memcmp m a b n = Ret r \<and> (r = 0 \<longleftrightarrow> xs = ys)
      \<and> (r < 0 \<longleftrightarrow> (xs, ys) \<in> lexord {(u, v). u < v}) \<and> r \<in> {-1, 0, 1}"
  unfolding memcmp_def by (rule memcmp_loop_order [OF assms])

theorem memcmp_lexicographic_witness:
  "\<exists>r. memcmp (place 0x10 [1, 2, 1, 3]) 0x10 0x12 2 = Ret r \<and> r < 0"
proof -
  let ?m = "place 0x10 [1, 2, 1, 3]"
  have "load_bytes ?m 0x10 (unat (2 :: size_t)) = Ret [1, 2]"
    and "load_bytes ?m 0x12 (unat (2 :: size_t)) = Ret [1, 3]"
    by (simp_all add: mem_eval)
  from memcmp_lexicographic [OF this] show ?thesis by auto
qed

end
