(* ===== verification/Buffers.thy ===== *)
theory Buffers
  imports RtLib
begin

text \<open>
  \<^verbatim>\<open>src/util.h\<close>: \<open>ALIGN_VALUE\<close>, the simple and the page-aligned buffer, and the cleanup
  functions. The \<open>free\<close> member of a buffer is a function pointer that only ever holds
  one of the two free functions or \<open>NULL\<close>; the datatype \<open>free_fn\<close> names them. The lemmas
  give \<open>ALIGN_VALUE\<close> its arithmetic meaning and show for which alignments an aligned
  buffer lies inside the pages that were allocated for it.
\<close>

unbundle bit_operations_syntax

section \<open>Alignment\<close>

definition ALIGN_VALUE :: "'a::len word \<Rightarrow> 'a word \<Rightarrow> 'a word" where
  "ALIGN_VALUE v a = v + ((a - v) AND (a - 1))"

definition PAGE_SIZE :: "'a::len word" where "PAGE_SIZE = 0x1000"

lemma uint_align_pad:
  fixes v :: "'a::len word"
  assumes "k < LENGTH('a)"
  shows "uint ((2 ^ k - v) AND (2 ^ k - 1)) = (- uint v) mod 2 ^ k"
proof -
  have "(2 ^ k - v) AND (2 ^ k - 1) = take_bit k (2 ^ k - v)"
    by (simp add: take_bit_eq_mask mask_eq_exp_minus_1)
  moreover have "uint (take_bit k (2 ^ k - v)) = take_bit k (uint (2 ^ k - v))"
    by (simp add: unsigned_take_bit_eq)
  moreover have "uint (2 ^ k - v) = take_bit LENGTH('a) (2 ^ k - uint v)"
  proof -
    have "2 ^ k - v = word_of_int (2 ^ k - uint v)" by simp
    then show ?thesis by (simp only: unsigned_of_int) simp
  qed
  moreover have "take_bit k (take_bit LENGTH('a) (2 ^ k - uint v)) = (2 ^ k - uint v) mod 2 ^ k"
    using assms by (simp add: min_absorb1) (simp add: take_bit_eq_mod)
  moreover have "(2 ^ k - uint v) mod 2 ^ k = (- uint v) mod 2 ^ k"
    by (metis diff_0 mod_diff_left_eq mod_self)
  ultimately show ?thesis by simp
qed

text \<open>
  Rounding up: for a power of two, and unless the next multiple leaves the word,
  \<open>ALIGN_VALUE\<close> is the least multiple that is not below the value.
\<close>

definition round_up :: "nat \<Rightarrow> nat \<Rightarrow> nat" where
  "round_up v a = a * ((v + a - 1) div a)"

lemma round_up_props:
  assumes "0 < a"
  shows "v \<le> round_up v a" and "round_up v a < v + a" and "a dvd round_up v a"
proof -
  have "a * ((v + a - 1) div a) + (v + a - 1) mod a = v + a - 1"
    by simp
  moreover have "(v + a - 1) mod a < a" using assms by simp
  ultimately show "v \<le> round_up v a" and "round_up v a < v + a"
    using assms unfolding round_up_def by linarith+
  show "a dvd round_up v a" by (simp add: round_up_def)
qed

lemma round_up_unique:
  assumes "0 < a" and "a dvd r" and "v \<le> r" and "r < v + a"
  shows "r = round_up v a"
proof -
  obtain q p where q: "r = a * q" and p: "round_up v a = a * p"
    using assms(2) round_up_props(3) [OF assms(1), of v] by (auto elim!: dvdE)
  have "a * q < a * (p + 1)" "a * p < a * (q + 1)"
    using round_up_props(1,2) [OF assms(1), of v] assms(3,4) p q by (simp_all add: distrib_left)
  then have "q < p + 1" "p < q + 1" by (simp_all only: mult_less_cancel1)
  then show ?thesis using p q by simp
qed

lemma unat_ALIGN_VALUE:
  fixes v :: "'a::len word"
  assumes k: "k < LENGTH('a)" and v: "unat v + 2 ^ k \<le> 2 ^ LENGTH('a)"
  shows "unat (ALIGN_VALUE v (2 ^ k)) = round_up (unat v) (2 ^ k)"
proof -
  let ?p = "(2 ^ k - v) AND (2 ^ k - 1)"
  define n where "n = unat ?p"
  have n: "int n = (- int (unat v)) mod 2 ^ k"
    using uint_align_pad [OF k, of v] by (simp add: n_def)
  then have "n < 2 ^ k"
    by (metis of_nat_less_iff of_nat_numeral of_nat_power pos_mod_bound zero_less_numeral
        zero_less_power)
  then have "unat (ALIGN_VALUE v (2 ^ k)) = unat v + n"
    unfolding ALIGN_VALUE_def n_def using v by (subst unat_add_lem [THEN iffD1]) simp_all
  moreover have "(2 ^ k :: int) dvd int (unat v) + int n"
    unfolding n by (metis add.right_inverse dvd_0_right mod_add_right_eq mod_eq_0_iff_dvd mod_0)
  then have "2 ^ k dvd unat v + n"
    by (metis of_nat_add of_nat_dvd_iff of_nat_numeral of_nat_power)
  ultimately show ?thesis
    using round_up_unique [of "2 ^ k" "unat v + n" "unat v"] \<open>n < 2 ^ k\<close> by simp
qed

section \<open>Buffers\<close>

datatype free_fn = Free_None | Free_Simple | Free_Aligned

record simple_buffer =
  buffer :: addr
  blength :: size_t
  bpos :: size_t
  allocated :: size_t
  bfree :: free_fn

record aligned_buffer = simple_buffer +
  raw :: addr
  pages :: size_t

definition zero_buffer :: simple_buffer where
  "zero_buffer = \<lparr>buffer = 0, blength = 0, bpos = 0, allocated = 0, bfree = Free_None\<rparr>"

definition zero_aligned_buffer :: aligned_buffer where
  "zero_aligned_buffer = \<lparr>buffer = 0, blength = 0, bpos = 0, allocated = 0, bfree = Free_None,
     raw = 0, pages = 0\<rparr>"

definition buffer_pos :: "('a) simple_buffer_scheme \<Rightarrow> addr outcome" where
  "buffer_pos b =
     c_assert (buffer b \<noteq> 0) (
     c_assert (bpos b < allocated b) (
     Ret (buffer b + bpos b)))"

definition buffer_len :: "('a) simple_buffer_scheme \<Rightarrow> size_t outcome" where
  "buffer_len b =
     c_assert (buffer b \<noteq> 0) (
     c_assert (bpos b < blength b) (
     Ret (blength b - bpos b)))"

definition free_simple_buffer ::
    "'w boot_services \<Rightarrow> simple_buffer \<Rightarrow> 'w world \<Rightarrow> 'w world" where
  "free_simple_buffer BS b w = (if allocated b \<noteq> 0 then c_free BS (buffer b) w else w)"

definition free_aligned_buffer ::
    "'w boot_services \<Rightarrow> aligned_buffer \<Rightarrow> 'w world \<Rightarrow> 'w world" where
  "free_aligned_buffer BS b w =
     (if pages b \<noteq> 0 \<and> raw b \<noteq> 0 then snd (free_pages BS (raw b) (pages b) w) else w)"

text \<open>
  \<open>free_buffer\<close> calls through the function pointer; for a plain buffer that pointer is
  \<open>free_simple_buffer\<close>, for an aligned one \<open>free_aligned_buffer\<close>.
\<close>

definition free_buffer ::
    "'w boot_services \<Rightarrow> simple_buffer \<Rightarrow> 'w world \<Rightarrow> 'w world" where
  "free_buffer BS b w =
     (if buffer b \<noteq> 0 \<and> bfree b \<noteq> Free_None then free_simple_buffer BS b w else w)"

definition free_buffer_aligned ::
    "'w boot_services \<Rightarrow> aligned_buffer \<Rightarrow> 'w world \<Rightarrow> 'w world" where
  "free_buffer_aligned BS b w =
     (if buffer b \<noteq> 0 \<and> bfree b \<noteq> Free_None then free_aligned_buffer BS b w else w)"

definition free_p :: "'w boot_services \<Rightarrow> addr \<Rightarrow> 'w world \<Rightarrow> 'w world" where
  "free_p BS p w = (if p \<noteq> 0 then c_free BS p w else w)"

definition allocate_simple_buffer ::
    "'w boot_services \<Rightarrow> u32 \<Rightarrow> size_t \<Rightarrow> simple_buffer \<Rightarrow> 'w world
     \<Rightarrow> bool \<times> simple_buffer \<times> 'w world" where
  "allocate_simple_buffer BS pool len b w =
     (let (p, w) = malloc BS pool len w;
          b = b\<lparr>buffer := p\<rparr>
      in if buffer b = 0 then (False, b, w)
         else (True, b\<lparr>blength := 0, bpos := 0, allocated := len, bfree := Free_Simple\<rparr>, w))"

definition allocate_aligned_buffer_ext ::
    "'w boot_services \<Rightarrow> size_t \<Rightarrow> u32 \<Rightarrow> size_t \<Rightarrow> aligned_buffer \<Rightarrow> 'w world
     \<Rightarrow> bool \<times> aligned_buffer \<times> 'w world" where
  "allocate_aligned_buffer_ext BS len type alignment b w =
     (let b = b\<lparr>pages := ALIGN_VALUE (len + alignment) alignment div PAGE_SIZE,
                blength := 0, bpos := 0, bfree := Free_Aligned\<rparr>;
          (err, p, w) = allocate_pages BS EFI_ALLOCATE_ANY_PAGES type (pages b) w;
          b = b\<lparr>raw := p\<rparr>
      in if err \<noteq> EFI_SUCCESS then (False, b\<lparr>pages := 0\<rparr>, w)
         else
           let b = b\<lparr>buffer := ALIGN_VALUE (raw b) alignment\<rparr>
           in (True, b\<lparr>allocated :=
                 ALIGN_VALUE (len + alignment) alignment - (buffer b - raw b)\<rparr>, w))"

definition allocate_aligned_buffer ::
    "'w boot_services \<Rightarrow> size_t \<Rightarrow> u32 \<Rightarrow> aligned_buffer \<Rightarrow> 'w world
     \<Rightarrow> bool \<times> aligned_buffer \<times> 'w world" where
  "allocate_aligned_buffer BS len type b w =
     allocate_aligned_buffer_ext BS len type PAGE_SIZE b w"

section \<open>An aligned buffer fits its pages\<close>

lemma unat_PAGE_SIZE: "unat (PAGE_SIZE :: u64) = 4096"
  by (simp add: PAGE_SIZE_def)

text \<open>
  For an alignment that is a power of two of at least a page, and unless a size or an
  address overflows, the aligned buffer that \<open>allocate_aligned_buffer_ext\<close> returns starts at
  a multiple of the alignment, ends exactly where the allocated pages end and has room
  for the requested length.
\<close>

theorem aligned_buffer_fits:
  assumes alloc: "allocate_aligned_buffer_ext BS len type (2 ^ k) b w = (True, b', w')"
    and k: "12 \<le> k" "k < 64"
    and len: "unat len + 2 ^ k + 2 ^ k \<le> 2 ^ 64"
    and addr: "unat (raw b') + 2 ^ k \<le> 2 ^ 64"
  shows "2 ^ k dvd unat (buffer b') \<and> raw b' \<le> buffer b'
    \<and> unat (buffer b') - unat (raw b') + unat (allocated b') = 4096 * unat (pages b')
    \<and> len \<le> allocated b'"
proof (intro conjI)
  define T :: u64 where "T = ALIGN_VALUE (len + 2 ^ k) (2 ^ k)"
  obtain j where j: "k = 12 + j" using k(1) le_iff_add by blast
  have two: "unat (2 ^ k :: u64) = 2 ^ k" using k by (simp add: unat_exp)
  have sum: "unat (len + 2 ^ k) = unat len + 2 ^ k"
  proof -
    have "0 < (2 :: nat) ^ k" by simp
    then have "unat len + 2 ^ k < 2 ^ 64" using len by linarith
    then show ?thesis using two by (subst unat_add_lem [THEN iffD1]) simp_all
  qed
  then have T: "unat T = round_up (unat len + 2 ^ k) (2 ^ k)"
    unfolding T_def using len k by (subst unat_ALIGN_VALUE) simp_all
  have b: "buffer b' = ALIGN_VALUE (raw b') (2 ^ k)" "pages b' = T div PAGE_SIZE"
      "allocated b' = T - (buffer b' - raw b')"
    using alloc by (auto simp: allocate_aligned_buffer_ext_def T_def Let_def
        split: prod.splits if_splits)
  have buf: "unat (buffer b') = round_up (unat (raw b')) (2 ^ k)"
    unfolding b(1) using addr k by (subst unat_ALIGN_VALUE) simp_all
  have pos: "(0 :: nat) < 2 ^ k" by simp
  note up = round_up_props [OF pos]
  show "2 ^ k dvd unat (buffer b')" unfolding buf by (rule up(3))
  show le: "raw b' \<le> buffer b'" unfolding word_le_nat_alt buf by (rule up(1))
  have off: "unat (buffer b' - raw b') = unat (buffer b') - unat (raw b')"
    using le by (simp add: unat_sub)
  then have off_lt: "unat (buffer b' - raw b') < 2 ^ k"
    using up(2) [of "unat (raw b')"] up(1) [of "unat (raw b')"] buf by linarith
  have T_ge: "unat len + 2 ^ k \<le> unat T" unfolding T by (rule up(1))
  then have off_T: "unat (buffer b' - raw b') \<le> unat T" using off_lt by linarith
  have al: "unat (allocated b') = unat T - unat (buffer b' - raw b')"
    unfolding b(3) using off_T by (subst unat_sub) (simp_all add: word_le_nat_alt)
  have "(4096 :: nat) dvd 2 ^ k" unfolding j power_add by simp
  moreover have "2 ^ k dvd unat T" unfolding T by (rule up(3))
  ultimately have "4096 dvd unat T" by (rule dvd_trans)
  then have pg: "4096 * unat (pages b') = unat T"
    by (simp add: b(2) unat_div unat_PAGE_SIZE)
  show "unat (buffer b') - unat (raw b') + unat (allocated b') = 4096 * unat (pages b')"
    using al off off_T pg by linarith
  show "len \<le> allocated b'"
    unfolding word_le_nat_alt using al off_lt T_ge by linarith
qed

theorem aligned_buffer_fits_witness:
  "\<exists>b' w'. allocate_aligned_buffer_ext bump_services 100 EFI_LOADER_DATA (2 ^ 12)
        zero_aligned_buffer \<lparr>wmem = Map.empty, fw = 0x10000\<rparr> = (True, b', w')
      \<and> 100 \<le> allocated b'"
proof -
  let ?r = "allocate_aligned_buffer_ext bump_services 100 EFI_LOADER_DATA (2 ^ 12)
    zero_aligned_buffer \<lparr>wmem = Map.empty, fw = 0x10000\<rparr>"
  obtain b' w' where r: "?r = (True, b', w')" and "raw b' = 0x10000"
    by (simp add: allocate_aligned_buffer_ext_def bump_services_def bump_alloc_def Let_def)
  then have "len \<le> allocated b'" if "len = 100" for len
    using aligned_buffer_fits [OF r] that by simp
  with r show ?thesis by blast
qed

text \<open>
  For an alignment below the page size the page count rounds down: for 4097 bytes
  aligned to 32 a single page is allocated, while \<open>allocated\<close> claims more than a page.
\<close>

theorem aligned_buffer_small_alignment:
  assumes "allocate_aligned_buffer_ext BS 4097 type 32 b w = (True, b', w')"
  shows "pages b' = 1 \<and> 4096 < unat (allocated b' + (buffer b' - raw b'))"
  using assms
  by (auto simp: allocate_aligned_buffer_ext_def Let_def PAGE_SIZE_def ALIGN_VALUE_def
      split: prod.splits if_splits)

theorem aligned_buffer_small_alignment_witness:
  "\<exists>b' w'. allocate_aligned_buffer_ext bump_services 4097 EFI_LOADER_DATA 32
        zero_aligned_buffer \<lparr>wmem = Map.empty, fw = 0x10000\<rparr> = (True, b', w') \<and> pages b' = 1"
proof -
  obtain b' w' where "allocate_aligned_buffer_ext bump_services 4097 EFI_LOADER_DATA 32
      zero_aligned_buffer \<lparr>wmem = Map.empty, fw = 0x10000\<rparr> = (True, b', w')"
    by (simp add: allocate_aligned_buffer_ext_def bump_services_def bump_alloc_def Let_def)
  with aligned_buffer_small_alignment [OF this] show ?thesis by blast
qed

end
