(* ===== verification/Strings.thy ===== *)
theory Strings
  imports Efi_Services
begin

text \<open>
  \<^verbatim>\<open>lib/efilib/string.c\<close> and \<^verbatim>\<open>include/efilib/string.h\<close>. A character pointer is the list of
  the characters from it to the end of its array, so advancing the pointer is taking
  the tail, and reading past the array is \<open>UB\<close>. \<open>char\<close> is signed on both targets.
  Returned pointers are indices from the argument, \<open>None\<close> for \<open>NULL\<close>; copying functions
  return the characters they write.

  The lemmas give the standard meaning of the comparison and search functions where
  the code has it, show where it differs, and prove that \<open>mbstowcs\<close> inverts UTF-8.
\<close>

unbundle bit_operations_syntax

section \<open>Lengths\<close>

fun str_len :: "'a::len word list \<Rightarrow> nat outcome" where
  "str_len [] = UB"
| "str_len (c # s) = (if c = 0 then Ret 0 else obind (str_len s) (\<lambda>n. Ret (Suc n)))"

definition strlen :: "u8 list \<Rightarrow> nat outcome" where "strlen s = str_len s"

definition wcslen :: "u16 list \<Rightarrow> nat outcome" where "wcslen s = str_len s"

text \<open>The C string at a pointer: the characters before the first null.\<close>

definition cstr :: "'a::len word list \<Rightarrow> 'a word list" where
  "cstr s = takeWhile (\<lambda>c. c \<noteq> 0) s"

lemma cstr_simps [simp]: "cstr [] = []" "cstr (c # s) = (if c = 0 then [] else c # cstr s)"
  by (simp_all add: cstr_def)

lemma str_len_cstr: "0 \<in> set s \<Longrightarrow> str_len s = Ret (length (cstr s))"
  by (induction s) auto

section \<open>Comparison\<close>

fun strcmp :: "u8 list \<Rightarrow> u8 list \<Rightarrow> int outcome" where
  "strcmp (a # as) (b # bs) =
     (if a \<noteq> 0 \<and> a = b then strcmp as bs else Ret (sint a - sint b))"
| "strcmp as bs = UB"

text \<open>The loop guard reads \<open>*a\<close>, then \<open>*b\<close>, and only then tests \<open>length\<close>.\<close>

fun strncmp :: "u8 list \<Rightarrow> u8 list \<Rightarrow> nat \<Rightarrow> int outcome" where
  "strncmp [] bs n = UB"
| "strncmp (a # as) bs n =
     (if a = 0 then
        (if n = 0 then Ret 0 else case bs of [] \<Rightarrow> UB | b # _ \<Rightarrow> Ret (sint a - sint b))
      else
        (case bs of
           [] \<Rightarrow> UB
         | b # bs \<Rightarrow>
             if a = b \<and> n \<noteq> 0 then strncmp as bs (n - 1)
             else if n = 0 then Ret 0
             else Ret (sint a - sint b)))"

fun wcscmp :: "u16 list \<Rightarrow> u16 list \<Rightarrow> int outcome" where
  "wcscmp (a # as) (b # bs) =
     (let ret = uint a - uint b
      in if ret \<noteq> 0 then Ret (of_bool (ret > 0) - of_bool (ret < 0))
         else (case as of
                 [] \<Rightarrow> UB
               | a' # _ \<Rightarrow>
                   if a' = 0 then Ret 0
                   else (case bs of [] \<Rightarrow> UB | b' # _ \<Rightarrow> if b' = 0 then Ret 0 else wcscmp as bs)))"
| "wcscmp as bs = UB"

section \<open>Search\<close>

fun str_chr :: "'a::len word list \<Rightarrow> 'a word \<Rightarrow> nat option outcome" where
  "str_chr [] needle = UB"
| "str_chr (c # s) needle =
     (if c = needle then Ret (Some 0)
      else (case s of
              [] \<Rightarrow> UB
            | d # _ \<Rightarrow> if d = 0 then Ret None
                       else obind (str_chr s needle) (\<lambda>r. Ret (map_option Suc r))))"

text \<open>\<open>needle\<close> is an \<open>int\<close> compared with a promoted \<open>char\<close>.\<close>

definition strchr :: "u8 list \<Rightarrow> int \<Rightarrow> nat option outcome" where
  "strchr str needle =
     (if sint (word_of_int needle :: u8) = needle then str_chr str (word_of_int needle)
      else obind (str_len (tl str)) (\<lambda>_. Ret None))"

definition wcschr :: "u16 list \<Rightarrow> u16 \<Rightarrow> nat option outcome" where
  "wcschr str needle = str_chr str needle"

fun str_chrnul :: "'a::len word list \<Rightarrow> 'a word \<Rightarrow> nat outcome" where
  "str_chrnul [] needle = UB"
| "str_chrnul (c # s) needle =
     (if c = needle then Ret 0
      else (case s of
              [] \<Rightarrow> UB
            | d # _ \<Rightarrow> if d = 0 then Ret 0
                       else obind (str_chrnul s needle) (\<lambda>r. Ret (Suc r))))"

definition strchrnul :: "u8 list \<Rightarrow> u8 \<Rightarrow> nat outcome" where
  "strchrnul str needle = str_chrnul str needle"

definition wcschrnul :: "u16 list \<Rightarrow> u16 \<Rightarrow> nat outcome" where
  "wcschrnul str needle = str_chrnul str needle"

section \<open>Copying\<close>

text \<open>\<open>strcpy\<close> writes the terminator, \<open>wcscpy\<close> and \<open>wcsncpy\<close> do not.\<close>

fun str_cpy :: "'a::len word list \<Rightarrow> 'a word list outcome" where
  "str_cpy [] = UB"
| "str_cpy (c # src) = (if c = 0 then Ret [] else obind (str_cpy src) (\<lambda>d. Ret (c # d)))"

definition strcpy :: "u8 list \<Rightarrow> u8 list outcome" where
  "strcpy src = obind (str_cpy src) (\<lambda>d. Ret (d @ [0]))"

definition wcscpy :: "u16 list \<Rightarrow> u16 list outcome" where
  "wcscpy src = str_cpy src"

fun wcsncpy :: "u16 list \<Rightarrow> nat \<Rightarrow> u16 list outcome" where
  "wcsncpy src 0 = Ret []"
| "wcsncpy [] (Suc n) = UB"
| "wcsncpy (c # src) (Suc n) =
     (if c = 0 then Ret [] else obind (wcsncpy src n) (\<lambda>d. Ret (c # d)))"

text \<open>The array at \<open>dst\<close> after \<open>wcsncat\<close>: the copy starts at its terminator.\<close>

fun wcsncat :: "u16 list \<Rightarrow> u16 list \<Rightarrow> nat \<Rightarrow> u16 list outcome" where
  "wcsncat [] src n = UB"
| "wcsncat (d # dst) src n =
     (if d \<noteq> 0 then obind (wcsncat dst src n) (\<lambda>r. Ret (d # r))
      else obind (wcsncpy src n) (\<lambda>c.
             if length c \<le> length (d # dst) then Ret (c @ drop (length c) (d # dst)) else UB))"

section \<open>Multibyte characters\<close>

definition utf8_len :: "u8 \<Rightarrow> nat option" where
  "utf8_len a =
     (if a < 0x80 then Some 1
      else if a AND 0xe0 = 0xc0 then Some 2
      else if a AND 0xf0 = 0xe0 then Some 3
      else if a AND 0xf8 = 0xf0 then Some 4
      else if a AND 0xfc = 0xf8 then Some 5
      else if a AND 0xfe = 0xfc then Some 6
      else None)"

definition utf8_first :: "nat \<Rightarrow> u8 \<Rightarrow> u16" where
  "utf8_first len a =
     (if len = 1 then ucast a
      else if len = 2 then ucast (a AND 0x1f)
      else if len = 3 then ucast (a AND 0x0f)
      else if len = 4 then ucast (a AND 0x07)
      else if len = 5 then ucast (a AND 0x03)
      else ucast (a AND 0x01))"

text \<open>The loop over the continuation bytes; \<open>None\<close> is the \<open>return -1\<close> inside it.\<close>

fun utf8_rest :: "nat \<Rightarrow> u8 list \<Rightarrow> u16 \<Rightarrow> u16 option outcome" where
  "utf8_rest 0 s unichar = Ret (Some unichar)"
| "utf8_rest (Suc k) [] unichar = UB"
| "utf8_rest (Suc k) (a # s) unichar =
     (if a AND 0xc0 \<noteq> 0x80 then Ret None
      else utf8_rest k s (push_bit 6 unichar OR ucast (a AND 0x3f)))"

text \<open>The result is the return value and the character stored to \<open>*pwc\<close>, if any.\<close>

definition mbtowc :: "u8 list \<Rightarrow> nat \<Rightarrow> (int \<times> u16 option) outcome" where
  "mbtowc s n =
     (if n = 0 then Ret (-1, None)
      else case s of
        [] \<Rightarrow> UB
      | a # s' \<Rightarrow>
          (case utf8_len a of
             None \<Rightarrow> Ret (-1, None)
           | Some len \<Rightarrow>
               if len > n then Ret (-1, None)
               else obind (utf8_rest (len - 1) s' (utf8_first len a)) (\<lambda>r.
                      case r of None \<Rightarrow> Ret (-1, None) | Some u \<Rightarrow> Ret (int len, Some u))))"

text \<open>
  \<open>mbstowcs\<close> returns the wide characters it writes before the terminator. An invalid
  byte is skipped.
\<close>

function mbstowcs :: "u8 list \<Rightarrow> nat \<Rightarrow> u16 list outcome" where
  "mbstowcs src n =
     (if n = 0 then Ret []
      else obind (mbtowc src n) (\<lambda>(utf8len, wc).
        if utf8len \<le> 0 then mbstowcs (tl src) (n - 1)
        else obind (mbstowcs (drop (nat utf8len) src) (n - nat utf8len)) (\<lambda>ws.
               Ret ((case wc of Some c \<Rightarrow> [c] | None \<Rightarrow> []) @ ws))))"
  by pat_completeness auto
termination by (relation "measure (\<lambda>(src, n). n)") auto

declare mbstowcs.simps [simp del]

section \<open>Meaning of the comparisons and searches\<close>

lemma sint_eq_iff [simp]: "sint (a :: u8) = sint b \<longleftrightarrow> a = b"
  by (metis of_int_sint signed_word_eqI)

lemma sint_eq_0_iff [simp]: "sint (a :: u8) = 0 \<longleftrightarrow> a = 0" "0 = sint a \<longleftrightarrow> a = 0"
  using sint_eq_iff [of a 0] sint_eq_iff [of 0 a] by auto

lemma strcmp_cstr: "strcmp as bs = Ret r \<Longrightarrow> r = 0 \<longleftrightarrow> cstr as = cstr bs"
  by (induction as bs rule: strcmp.induct) (auto split: if_splits)

text \<open>
  \<open>strncmp\<close> returns 0 exactly when the two strings agree up to the first null or the
  length bound, for every call that stays inside the two arrays.
\<close>

theorem strncmp_zero_iff:
  "strncmp as bs n = Ret r \<Longrightarrow> r = 0 \<longleftrightarrow> cstr (take n as) = cstr (take n bs)"
proof (induction as bs n rule: strncmp.induct)
  case (1 bs n)
  then show ?case by simp
next
  case (2 a as bs n)
  show ?case
  proof (cases "n = 0")
    case True
    with 2 show ?thesis by (auto split: if_splits list.splits)
  next
    case False
    then obtain k where "n = Suc k" by (cases n) auto
    with 2 show ?thesis
      by (cases bs) (auto split: if_splits)
  qed
qed

theorem strncmp_zero_iff_witness:
  "(-1 :: int) = 0 \<longleftrightarrow> cstr (take 2 [97, 98, 0 :: u8]) = cstr (take 2 [97, 99, 0])"
  by (rule strncmp_zero_iff) simp

lemma str_chr_first:
  "s \<noteq> [] \<Longrightarrow> hd s \<noteq> 0 \<Longrightarrow> 0 \<in> set s \<Longrightarrow> c \<noteq> 0 \<Longrightarrow>
   str_chr s c = Ret (if c \<in> set (cstr s) then Some (length (takeWhile (\<lambda>d. d \<noteq> c) (cstr s)))
                      else None)"
proof (induction s c rule: str_chr.induct)
  case (2 a s needle)
  then show ?case by (cases s) auto
qed simp

text \<open>
  \<open>wcscmp\<close> stops as soon as either string ends, so it reports a non-empty string equal
  to every string it is a prefix of.
\<close>

theorem wcscmp_prefix_equal:
  assumes "cs \<noteq> []" and "0 \<notin> set cs"
  shows "wcscmp (cs @ 0 # x) (cs @ d # y) = Ret 0"
  using assms
proof (induction cs)
  case (Cons c cs)
  then show ?case by (cases cs) auto
qed simp

theorem wcscmp_prefix_equal_witness: "wcscmp [98, 111, 0] [98, 111, 111, 116, 0] = Ret 0"
  using wcscmp_prefix_equal [of "[98, 111]" "[]" 111 "[116, 0]"] by simp

section \<open>Multibyte conversion\<close>

lemma utf8_len_bounds: "utf8_len a = Some k \<Longrightarrow> 1 \<le> k \<and> k \<le> 6"
  by (auto simp: utf8_len_def split: if_splits)

lemma utf8_rest_safe: "k \<le> length s \<Longrightarrow> \<exists>r. utf8_rest k s u = Ret r"
  by (induction k s u rule: utf8_rest.induct) auto

lemma mbtowc_safe:
  assumes "n \<le> length s"
  obtains len wc where "mbtowc s n = Ret (len, wc)" and "len \<le> int n"
    and "0 < len \<Longrightarrow> wc \<noteq> None"
proof (cases "n = 0")
  case True
  then show thesis by (intro that [of "-1" None]) (simp_all add: mbtowc_def)
next
  case False
  then obtain a s' where s: "s = a # s'" using assms by (cases s) auto
  show thesis
  proof (cases "utf8_len a")
    case None
    then show thesis using False s by (intro that [of "-1" None]) (simp_all add: mbtowc_def)
  next
    case (Some k)
    show thesis
    proof (cases "k > n")
      case True
      then show thesis using False s Some
        by (intro that [of "-1" None]) (simp_all add: mbtowc_def)
    next
      case k: False
      then have "k - 1 \<le> length s'" using assms s by simp
      then obtain r where "utf8_rest (k - 1) s' (utf8_first k a) = Ret r"
        using utf8_rest_safe by blast
      then show thesis using False s Some k utf8_len_bounds [OF Some]
        by (cases r) (auto simp: mbtowc_def intro: that)
    qed
  qed
qed

text \<open>
  Converting \<open>n\<close> bytes that exist never leaves the source array and writes at most \<open>n\<close>
  characters before the terminator, whatever the bytes are.
\<close>

theorem mbstowcs_safe:
  "n \<le> length src \<Longrightarrow> \<exists>ws. mbstowcs src n = Ret ws \<and> length ws \<le> n"
proof (induction n arbitrary: src rule: less_induct)
  case (less n)
  show ?case
  proof (cases "n = 0")
    case True
    then show ?thesis by (simp add: mbstowcs.simps)
  next
    case False
    obtain len wc where m: "mbtowc src n = Ret (len, wc)" "len \<le> int n"
        "0 < len \<Longrightarrow> wc \<noteq> None"
      using mbtowc_safe [OF less.prems] by blast
    show ?thesis
    proof (cases "len \<le> 0")
      case True
      have "n - 1 \<le> length (tl src)" using less.prems False by simp
      then obtain ws where "mbstowcs (tl src) (n - 1) = Ret ws" "length ws \<le> n - 1"
        using less.IH [of "n - 1" "tl src"] False by auto
      then show ?thesis using True False m by (subst mbstowcs.simps) auto
    next
      case pos: False
      have "n - nat len \<le> length (drop (nat len) src)" using less.prems by simp
      then obtain ws where "mbstowcs (drop (nat len) src) (n - nat len) = Ret ws"
          "length ws \<le> n - nat len"
        using less.IH [of "n - nat len" "drop (nat len) src"] pos False by auto
      moreover have "Suc (n - nat len) \<le> n" using pos False m(2) by linarith
      ultimately show ?thesis using pos False m
        by (subst mbstowcs.simps) (auto split: option.splits)
    qed
  qed
qed

theorem mbstowcs_safe_witness:
  "\<exists>ws. mbstowcs [0x61, 0xc3, 0x28, 0xff, 0xc3] 5 = Ret ws \<and> length ws \<le> 5"
  by (rule mbstowcs_safe) simp

text \<open>UTF-8, for the characters of the basic multilingual plane.\<close>

definition utf8_encode :: "u16 \<Rightarrow> u8 list" where
  "utf8_encode u =
     (if u < 0x80 then [ucast u]
      else if u < 0x800 then [0xc0 OR ucast (drop_bit 6 u), 0x80 OR ucast (u AND 0x3f)]
      else [0xe0 OR ucast (drop_bit 12 u), 0x80 OR ucast (drop_bit 6 u AND 0x3f),
            0x80 OR ucast (u AND 0x3f)])"

lemma utf8_encode_1: "u < 0x80 \<Longrightarrow> (ucast u :: u8) < 0x80" for u :: u16
  by (simp add: word_less_nat_alt unsigned_ucast_eq take_bit_eq_mod)

lemma utf8_lead_2: "b < 0x20 \<Longrightarrow> (0xc0 OR b) AND 0xe0 = 0xc0 \<and> (0xc0 OR b) AND 0x1f = (b :: u8)"
proof -
  assume "b < 0x20"
  then have b: "b AND 0x1f = b" using less_mask_eq [of b 5] by (simp add: mask_eq_exp_minus_1)
  have "b AND 0xe0 = (b AND 0x1f) AND 0xe0" using b by simp
  then have "b AND 0xe0 = 0" by (simp add: and.assoc)
  with b show ?thesis by (simp add: bit.conj_disj_distrib2)
qed

lemma utf8_lead_3: "b < 0x10 \<Longrightarrow> (0xe0 OR b) AND 0xf0 = 0xe0 \<and> (0xe0 OR b) AND 0x0f = (b :: u8)"
proof -
  assume "b < 0x10"
  then have b: "b AND 0x0f = b" using less_mask_eq [of b 4] by (simp add: mask_eq_exp_minus_1)
  have "b AND 0xf0 = (b AND 0x0f) AND 0xf0" using b by simp
  then have "b AND 0xf0 = 0" by (simp add: and.assoc)
  with b show ?thesis by (simp add: bit.conj_disj_distrib2)
qed

lemma utf8_cont: "b < 0x40 \<Longrightarrow> (0x80 OR b) AND 0xc0 = 0x80 \<and> (0x80 OR b) AND 0x3f = (b :: u8)"
proof -
  assume "b < 0x40"
  then have b: "b AND 0x3f = b" using less_mask_eq [of b 6] by (simp add: mask_eq_exp_minus_1)
  have "b AND 0xc0 = (b AND 0x3f) AND 0xc0" using b by simp
  then have "b AND 0xc0 = 0" by (simp add: and.assoc)
  with b show ?thesis by (simp add: bit.conj_disj_distrib2)
qed

lemma bit_less_exp:
  fixes u :: u16
  assumes "u < 2 ^ k" and "k < 16" and "bit u n"
  shows "n < k"
proof -
  have "bit (u AND mask k) n" using less_mask_eq [OF assms(1)] assms(3) by simp
  then show ?thesis by (simp add: bit_simps)
qed

lemma utf8_join_2:
  fixes u :: u16
  assumes "u < 0x800"
  shows "push_bit 6 (ucast (ucast (drop_bit 6 u) :: u8)) OR ucast (ucast (u AND 0x3f) :: u8) = u"
  (is "?l = u")
proof (rule bit_word_eqI)
  fix n assume "n < LENGTH(16)"
  then have n: "n < 16" by simp
  have m: "(0x3f :: u16) = mask 6" by (simp add: mask_eq_exp_minus_1)
  have b: "bit u n \<longrightarrow> n < 11" using bit_less_exp [of u 11 n] assms by auto
  show "bit ?l n = bit u n"
    unfolding m using b n by (cases "n < 6") (auto simp: bit_simps)
qed

lemma utf8_join_3:
  fixes u :: u16
  shows "push_bit 6 (push_bit 6 (ucast (ucast (drop_bit 12 u) :: u8))
      OR ucast (ucast (drop_bit 6 u AND 0x3f) :: u8)) OR ucast (ucast (u AND 0x3f) :: u8) = u"
  (is "?l = u")
proof (rule bit_word_eqI)
  fix n assume "n < LENGTH(16)"
  then have n: "n < 16" by simp
  have m: "(0x3f :: u16) = mask 6" by (simp add: mask_eq_exp_minus_1)
  consider "n < 6" | "6 \<le> n" "n < 12" | "12 \<le> n" by linarith
  then show "bit ?l n = bit u n"
    unfolding m using n by cases (auto simp: bit_simps)
qed


lemma ucast_u8_less:
  fixes u :: u16
  assumes "u < 2 ^ k" and "k \<le> 8"
  shows "(ucast u :: u8) < 2 ^ k \<or> k = 8"
proof -
  have "unat u < 2 ^ k"
    using assms unat_exp [of k, where ?'a = 16] by (simp add: word_less_nat_alt)
  then show ?thesis using assms(2) unat_exp [of k, where ?'a = 8]
    by (cases "k = 8") (auto simp: word_less_nat_alt unsigned_ucast_eq take_bit_eq_mod
      intro: order_le_less_trans [OF mod_less_eq_dividend])
qed

lemma utf8_cont_char: "(ucast ((u :: u16) AND 0x3f) :: u8) < 0x40"
proof -
  have "u AND mask 6 < 2 ^ 6" by (rule and_mask_less') simp
  then show ?thesis using ucast_u8_less [of "u AND 0x3f" 6] by (simp add: mask_eq_exp_minus_1)
qed

lemma drop_bit_less:
  fixes u :: u16
  assumes "u < 2 ^ (k + j)" and "k + j < 16"
  shows "drop_bit k u < 2 ^ j"
proof -
  have "unat u < 2 ^ k * 2 ^ j"
    using assms unat_exp [of "k + j", where ?'a = 16] by (simp add: word_less_nat_alt power_add)
  then have "unat u div 2 ^ k < 2 ^ j" by (simp add: less_mult_imp_div_less mult.commute)
  then show ?thesis using assms(2) unat_exp [of j, where ?'a = 16]
    unfolding word_less_nat_alt unat_drop_bit_eq by (simp add: drop_bit_eq_div)
qed

lemma utf8_lead_2_char: "u < 0x800 \<Longrightarrow> (ucast (drop_bit 6 (u :: u16)) :: u8) < 0x20"
  using drop_bit_less [of u 6 5] ucast_u8_less [of "drop_bit 6 u" 5] by simp

lemma utf8_lead_3_char: "(ucast (drop_bit 12 (u :: u16)) :: u8) < 0x10"
proof -
  have "unat (drop_bit 12 u) < 16"
    using unsigned_less [of u, where ?'a = nat]
    unfolding unat_drop_bit_eq by (simp add: drop_bit_eq_div less_mult_imp_div_less)
  then show ?thesis using ucast_u8_less [of "drop_bit 12 u" 4] by (simp add: word_less_nat_alt)
qed

lemma utf8_len_of_lead:
  "a < 0x80 \<Longrightarrow> utf8_len a = Some 1"
  "a AND 0xe0 = 0xc0 \<Longrightarrow> utf8_len a = Some 2"
  "a AND 0xf0 = 0xe0 \<Longrightarrow> utf8_len a = Some 3"
proof -
  show "a < 0x80 \<Longrightarrow> utf8_len a = Some 1" by (simp add: utf8_len_def)
  show "utf8_len a = Some 2" if "a AND 0xe0 = 0xc0"
  proof -
    have "0xc0 \<le> a" using word_and_le2 [of a "0xe0"] that by simp
    then have "\<not> a < 0x80" by (simp add: word_less_nat_alt word_le_nat_alt)
    with that show ?thesis by (simp add: utf8_len_def)
  qed
  show "utf8_len a = Some 3" if a: "a AND 0xf0 = 0xe0"
  proof -
    have "0xe0 \<le> a" using word_and_le2 [of a "0xf0"] a by simp
    then have "\<not> a < 0x80" by (simp add: word_less_nat_alt word_le_nat_alt)
    moreover have "a AND 0xe0 = (a AND 0xf0) AND 0xe0" by (simp add: and.assoc)
    then have "a AND 0xe0 = 0xe0" using a by simp
    ultimately show ?thesis using a by (simp add: utf8_len_def)
  qed
qed

lemma mbtowc_encode:
  assumes "length (utf8_encode u) \<le> n"
  shows "mbtowc (utf8_encode u @ r) n = Ret (int (length (utf8_encode u)), Some u)"
proof -
  consider "u < 0x80" | "\<not> u < 0x80" "u < 0x800" | "\<not> u < 0x80" "\<not> u < 0x800" by blast
  then show ?thesis
  proof cases
    case 1
    have "unat (ucast (ucast u :: u8) :: u16) = unat u"
      using 1 unfolding unsigned_ucast_eq take_bit_eq_mod by (simp add: word_less_nat_alt unat_mod)
    then have "ucast (ucast u :: u8) = u" by (rule word_eq_unatI)
    then show ?thesis using 1 assms
      by (simp add: utf8_encode_def mbtowc_def utf8_len_of_lead utf8_encode_1 utf8_first_def)
  next
    case 2
    then show ?thesis using assms utf8_lead_2 [OF utf8_lead_2_char [of u]]
        utf8_cont [OF utf8_cont_char [of u]] utf8_join_2 [of u]
      by (simp add: utf8_encode_def mbtowc_def utf8_len_of_lead utf8_first_def
          numeral_2_eq_2)
  next
    case 3
    then show ?thesis using assms utf8_lead_3 [OF utf8_lead_3_char [of u]]
        utf8_cont [OF utf8_cont_char [of u]] utf8_cont [OF utf8_cont_char [of "drop_bit 6 u"]]
        utf8_join_3 [of u]
      by (simp add: utf8_encode_def mbtowc_def utf8_len_of_lead utf8_first_def
          numeral_3_eq_3)
  qed
qed

lemma utf8_encode_length: "0 < length (utf8_encode u)"
  by (simp add: utf8_encode_def)

lemma mbstowcs_encode:
  "mbstowcs (concat (map utf8_encode ws) @ rest) (length (concat (map utf8_encode ws))) = Ret ws"
proof (induction ws)
  case Nil
  then show ?case by (simp add: mbstowcs.simps)
next
  case (Cons w ws)
  then show ?case using utf8_encode_length [of w]
    by (subst mbstowcs.simps) (simp add: mbtowc_encode)
qed

text \<open>
  C11. Decoding inverts UTF-8 encoding: \<open>mbstowcs\<close> gives back every text of characters of
  the basic multilingual plane.
\<close>

theorem mbstowcs_decodes_utf8:
  "mbstowcs (concat (map utf8_encode ws) @ rest) (length (concat (map utf8_encode ws))) = Ret ws"
  by (rule mbstowcs_encode)

end
