(* ===== verification/PE_Format.thy ===== *)
theory PE_Format
  imports Efi_Services
begin

text \<open>
  \<^verbatim>\<open>include/efi/pe.h\<close>: the structures of a PE image, as records, and their packed
  little-endian layout. A structure in memory is loaded and stored through its
  decoder and encoder.

  The locale \<open>byte_codec\<close> states the contract between the encoder and the decoder of a
  fixed-size structure, and proves from it once what the code relies on: decoding is
  injective and total on byte strings of the right size, and a structure that was
  stored is read back. It is interpreted on the three integer widths and on every
  structure.
\<close>

unbundle bit_operations_syntax

section \<open>Fixed-size codecs\<close>

text \<open>Arrays of structures.\<close>

primrec get_array :: "nat \<Rightarrow> (u8 list \<Rightarrow> 'a) \<Rightarrow> nat \<Rightarrow> u8 list \<Rightarrow> 'a list" where
  "get_array k dec 0 bs = []"
| "get_array k dec (Suc n) bs = dec (take k bs) # get_array k dec n (drop k bs)"

definition put_array :: "('a \<Rightarrow> u8 list) \<Rightarrow> 'a list \<Rightarrow> u8 list" where
  "put_array enc xs = concat (map enc xs)"

lemma length_get_array [simp]: "length (get_array k dec n bs) = n"
  by (induction n arbitrary: bs) simp_all

lemma list_all_True [simp]: "list_all (\<lambda>_. True) xs"
  by (induction xs) simp_all

locale byte_codec =
  fixes csize :: nat
    and wf :: "'a \<Rightarrow> bool"
    and enc :: "'a \<Rightarrow> u8 list"
    and dec :: "u8 list \<Rightarrow> 'a"
  assumes csize_bound: "csize \<le> 2 ^ 64"
    and length_enc: "wf x \<Longrightarrow> length (enc x) = csize"
    and dec_enc: "wf x \<Longrightarrow> dec (enc x) = x"
    and enc_dec: "length bs = csize \<Longrightarrow> enc (dec bs) = bs"
    and wf_dec: "length bs = csize \<Longrightarrow> wf (dec bs)"
begin

lemma enc_inj: "wf x \<Longrightarrow> wf y \<Longrightarrow> enc x = enc y \<Longrightarrow> x = y"
  by (metis dec_enc)

lemma load_decodes:
  assumes "mapped m a csize"
  shows "\<exists>x. wf x \<and> load_bytes m a csize = Ret (enc x)"
proof -
  obtain bs where bs: "load_bytes m a csize = Ret bs"
    using assms load_bytes_mapped by blast
  then have "length bs = csize" by (rule load_bytes_length)
  with bs enc_dec wf_dec show ?thesis by metis
qed

lemma load_after_store:
  assumes "store_bytes m a (enc x) = Ret m'" and "wf x"
  shows "obind (load_bytes m' a csize) (\<lambda>bs. Ret (dec bs)) = Ret x"
  using load_store_same [OF assms(1)] length_enc [OF assms(2)] csize_bound dec_enc [OF assms(2)]
  by simp

lemma array_length: "list_all wf xs \<Longrightarrow> length (put_array enc xs) = length xs * csize"
  by (induction xs) (simp_all add: put_array_def length_enc)

lemma array_dec_enc: "list_all wf xs \<Longrightarrow> get_array csize dec (length xs) (put_array enc xs) = xs"
  by (induction xs) (simp_all add: put_array_def length_enc dec_enc)

lemma array_enc_dec:
  "length bs = n * csize \<Longrightarrow> put_array enc (get_array csize dec n bs) = bs"
  by (induction n arbitrary: bs) (simp_all add: put_array_def enc_dec)

lemma array_wf: "length bs = n * csize \<Longrightarrow> list_all wf (get_array csize dec n bs)"
  by (induction n arbitrary: bs) (simp_all add: wf_dec)

lemma load_place:
  assumes "wf x" and "csize \<le> length bs" and "take csize bs = enc x" and "length bs \<le> 2 ^ 64"
  shows "obind (load_bytes (place a bs) a csize) (\<lambda>bs. Ret (dec bs)) = Ret x"
proof -
  have "load_bytes (place a bs) (a + of_nat 0) csize = Ret (take csize (drop 0 bs))"
    using assms(2,4) by (intro load_bytes_sub [OF place_load]) simp_all
  then show ?thesis using assms(1,3) dec_enc by simp
qed

end

lemma put_le_get_le:
  assumes "LENGTH('a) = 8 * length bs"
  shows "put_le (get_le bs :: 'a::len word) = bs"
proof -
  have "(256 :: nat) ^ length bs = 2 ^ LENGTH('a)" by (simp add: assms power_mult)
  then have "le_val bs < 2 ^ LENGTH('a)" using le_val_lt [of bs] by simp
  then have "unat (get_le bs :: 'a word) = le_val bs" by (simp add: get_le_def unat_of_nat)
  then show ?thesis by (simp add: put_le_def assms le_bytes_le_val)
qed

interpretation u16_codec: byte_codec 2 "\<lambda>_. True" "put_le :: u16 \<Rightarrow> u8 list" get_le
  by unfold_locales (simp_all add: put_le_get_le)

interpretation u32_codec: byte_codec 4 "\<lambda>_. True" "put_le :: u32 \<Rightarrow> u8 list" get_le
  by unfold_locales (simp_all add: put_le_get_le)

interpretation u64_codec: byte_codec 8 "\<lambda>_. True" "put_le :: u64 \<Rightarrow> u8 list" get_le
  by unfold_locales (simp_all add: put_le_get_le)

text \<open>The bytes of the field of width \<open>n\<close> at offset \<open>k\<close>, and how they make up a structure.\<close>

definition field :: "nat \<Rightarrow> nat \<Rightarrow> u8 list \<Rightarrow> u8 list" where
  "field k n bs = take n (drop k bs)"

lemma length_field: "k + n \<le> length bs \<Longrightarrow> length (field k n bs) = n"
  by (simp add: field_def)

lemma field_join:
  assumes "k' = k + n"
  shows "field k n bs @ field k' j bs = field k (n + j) bs"
proof -
  have "drop k' bs = drop n (drop k bs)" by (simp add: assms add.commute)
  then show ?thesis by (simp add: field_def take_add)
qed

lemma field_all: "length bs = n \<Longrightarrow> field 0 n bs = bs"
  by (simp add: field_def)

lemma field_cons:
  assumes "length x = n"
  shows "field 0 n (x @ xs) = x" and "n \<le> k \<Longrightarrow> field k j (x @ xs) = field (k - n) j xs"
    and "field 0 n x = x"
  using assms by (simp_all add: field_def)

named_theorems layout \<open>structure encoders and decoders\<close>

section \<open>COFF file header\<close>

definition MZ_DOS_SIGNATURE :: u16 where "MZ_DOS_SIGNATURE = 0x5a4d"
definition DOS_PE_OFFSET_LOCATION :: u64 where "DOS_PE_OFFSET_LOCATION = 0x3c"
definition PE_HEADER_SIGNATURE :: u32 where "PE_HEADER_SIGNATURE = 0x4550"

record PE_COFF_header =
  signature :: u32
  machine :: u16
  number_of_sections :: u16
  time_date_stamp :: u32
  pointer_to_symbol_table :: u32
  number_of_symbols :: u32
  size_of_optional_header :: u16
  coff_characteristics :: u16

definition put_PE_COFF_header :: "PE_COFF_header \<Rightarrow> u8 list" where
  "put_PE_COFF_header h =
     put_le (signature h) @ put_le (machine h) @ put_le (number_of_sections h)
     @ put_le (time_date_stamp h) @ put_le (pointer_to_symbol_table h)
     @ put_le (number_of_symbols h) @ put_le (size_of_optional_header h)
     @ put_le (coff_characteristics h)"

definition get_PE_COFF_header :: "u8 list \<Rightarrow> PE_COFF_header" where
  "get_PE_COFF_header bs = \<lparr>
     signature = get_le (field 0 4 bs),
     machine = get_le (field 4 2 bs),
     number_of_sections = get_le (field 6 2 bs),
     time_date_stamp = get_le (field 8 4 bs),
     pointer_to_symbol_table = get_le (field 12 4 bs),
     number_of_symbols = get_le (field 16 4 bs),
     size_of_optional_header = get_le (field 20 2 bs),
     coff_characteristics = get_le (field 22 2 bs)\<rparr>"

interpretation coff_codec: byte_codec 24 "\<lambda>_. True" put_PE_COFF_header get_PE_COFF_header
proof unfold_locales
  fix bs :: "u8 list" assume "length bs = 24"
  then show "put_PE_COFF_header (get_PE_COFF_header bs) = bs"
    by (simp add: put_PE_COFF_header_def get_PE_COFF_header_def put_le_get_le length_field
        field_join field_all)
qed (simp_all add: put_PE_COFF_header_def get_PE_COFF_header_def field_cons)

text \<open>Machine types and characteristics. The two targets of the build files are 64-bit.\<close>

definition PE_HEADER_MACHINE_AMD64 :: u16 where "PE_HEADER_MACHINE_AMD64 = 0x8664"
definition PE_HEADER_MACHINE_ARM64 :: u16 where "PE_HEADER_MACHINE_ARM64 = 0xaa64"

datatype target = X86_64 | AARCH64

primrec PE_HEADER_MACHINE_NATIVE :: "target \<Rightarrow> u16" where
  "PE_HEADER_MACHINE_NATIVE X86_64 = PE_HEADER_MACHINE_AMD64"
| "PE_HEADER_MACHINE_NATIVE AARCH64 = PE_HEADER_MACHINE_ARM64"

definition PE_HEADER_RELOCS_STRIPPED :: u16 where "PE_HEADER_RELOCS_STRIPPED = 0x0001"
definition PE_HEADER_EXECUTABLE_IMAGE :: u16 where "PE_HEADER_EXECUTABLE_IMAGE = 0x0002"
definition PE_HEADER_BYTES_REVERSED_LO :: u16 where "PE_HEADER_BYTES_REVERSED_LO = 0x0080"
definition PE_HEADER_DLL :: u16 where "PE_HEADER_DLL = 0x2000"
definition PE_HEADER_BYTES_REVERSED_HI :: u16 where "PE_HEADER_BYTES_REVERSED_HI = 0x8000"

section \<open>Optional header\<close>

definition PE_HEADER_DIRECTORY_ENTRY_RESOURCE :: nat where
  "PE_HEADER_DIRECTORY_ENTRY_RESOURCE = 2"
definition PE_HEADER_DIRECTORY_ENTRY_BASERELOC :: nat where
  "PE_HEADER_DIRECTORY_ENTRY_BASERELOC = 5"
definition PE_HEADER_NUMBER_OF_DIRECTORY_ENTRIES :: nat where
  "PE_HEADER_NUMBER_OF_DIRECTORY_ENTRIES = 16"

record PE_data_directory =
  dir_virtual_address :: u32
  dir_size :: u32

definition put_PE_data_directory :: "PE_data_directory \<Rightarrow> u8 list" where
  "put_PE_data_directory d = put_le (dir_virtual_address d) @ put_le (dir_size d)"

definition get_PE_data_directory :: "u8 list \<Rightarrow> PE_data_directory" where
  "get_PE_data_directory bs =
     \<lparr>dir_virtual_address = get_le (field 0 4 bs), dir_size = get_le (field 4 4 bs)\<rparr>"

interpretation dir_codec: byte_codec 8 "\<lambda>_. True" put_PE_data_directory get_PE_data_directory
proof unfold_locales
  fix bs :: "u8 list" assume "length bs = 8"
  then show "put_PE_data_directory (get_PE_data_directory bs) = bs"
    by (simp add: put_PE_data_directory_def get_PE_data_directory_def put_le_get_le length_field
        field_join field_all)
qed (simp_all add: put_PE_data_directory_def get_PE_data_directory_def field_cons)

record PE_version8 =
  major8 :: u8
  minor8 :: u8

record PE_version16 =
  major16 :: u16
  minor16 :: u16

definition put_PE_version8 :: "PE_version8 \<Rightarrow> u8 list" where
  "put_PE_version8 v = put_le (major8 v) @ put_le (minor8 v)"

definition get_PE_version8 :: "u8 list \<Rightarrow> PE_version8" where
  "get_PE_version8 bs = \<lparr>major8 = get_le (field 0 1 bs), minor8 = get_le (field 1 1 bs)\<rparr>"

definition put_PE_version16 :: "PE_version16 \<Rightarrow> u8 list" where
  "put_PE_version16 v = put_le (major16 v) @ put_le (minor16 v)"

definition get_PE_version16 :: "u8 list \<Rightarrow> PE_version16" where
  "get_PE_version16 bs = \<lparr>major16 = get_le (field 0 2 bs), minor16 = get_le (field 2 2 bs)\<rparr>"

interpretation version8_codec: byte_codec 2 "\<lambda>_. True" put_PE_version8 get_PE_version8
proof unfold_locales
  fix bs :: "u8 list" assume "length bs = 2"
  then show "put_PE_version8 (get_PE_version8 bs) = bs"
    by (simp add: put_PE_version8_def get_PE_version8_def put_le_get_le length_field
        field_join field_all)
qed (simp_all add: put_PE_version8_def get_PE_version8_def field_cons)

interpretation version16_codec: byte_codec 4 "\<lambda>_. True" put_PE_version16 get_PE_version16
proof unfold_locales
  fix bs :: "u8 list" assume "length bs = 4"
  then show "put_PE_version16 (get_PE_version16 bs) = bs"
    by (simp add: put_PE_version16_def get_PE_version16_def put_le_get_le length_field
        field_join field_all)
qed (simp_all add: put_PE_version16_def get_PE_version16_def field_cons)

definition PE_HEADER_OPTIONAL_HDR32_MAGIC :: u16 where "PE_HEADER_OPTIONAL_HDR32_MAGIC = 0x10b"
definition PE_HEADER_OPTIONAL_HDR64_MAGIC :: u16 where "PE_HEADER_OPTIONAL_HDR64_MAGIC = 0x20b"
definition PE_HEADER_SUBSYSTEM_EFI_APPLICATION :: u16 where
  "PE_HEADER_SUBSYSTEM_EFI_APPLICATION = 10"

text \<open>
  The two arms of the first union share eight bytes: \<open>image_base64\<close> is the field, and
  \<open>base_of_data\<close> and \<open>image_base32\<close> are its low and its high half. The arms of the second
  union have the same fields of the same widths in \<^verbatim>\<open>pe.h\<close>, so one set of fields stands
  for both (a PE32 file has 32-bit stack and heap sizes instead).
\<close>

record PE_optional_header =
  magic :: u16
  linker_version :: PE_version8
  size_of_code :: u32
  size_of_initialized_data :: u32
  size_of_uninitialized_data :: u32
  address_of_entry_point :: u32
  base_of_code :: u32
  image_base64 :: u64
  opt_section_alignment :: u32
  opt_file_alignment :: u32
  operation_system_version :: PE_version16
  image_version :: PE_version16
  subsystem_version :: PE_version16
  win32_version_value :: u32
  opt_size_of_image :: u32
  opt_size_of_headers :: u32
  check_sum :: u32
  subsystem :: u16
  DLL_characteristics :: u16
  size_of_stack_reserve :: u64
  size_of_stack_commit :: u64
  size_of_heap_reserve :: u64
  size_of_heap_commit :: u64
  loader_flags :: u32
  opt_number_of_RVA_and_sizes :: u32
  data_directory :: "PE_data_directory list"

definition base_of_data :: "PE_optional_header \<Rightarrow> u32" where
  "base_of_data h = ucast (image_base64 h)"

definition image_base32 :: "PE_optional_header \<Rightarrow> u32" where
  "image_base32 h = ucast (drop_bit 32 (image_base64 h))"

definition put_PE_optional_header :: "PE_optional_header \<Rightarrow> u8 list" where
  "put_PE_optional_header h =
     put_le (magic h) @ put_PE_version8 (linker_version h) @ put_le (size_of_code h)
     @ put_le (size_of_initialized_data h) @ put_le (size_of_uninitialized_data h)
     @ put_le (address_of_entry_point h) @ put_le (base_of_code h) @ put_le (image_base64 h)
     @ put_le (opt_section_alignment h) @ put_le (opt_file_alignment h)
     @ put_PE_version16 (operation_system_version h) @ put_PE_version16 (image_version h)
     @ put_PE_version16 (subsystem_version h) @ put_le (win32_version_value h)
     @ put_le (opt_size_of_image h) @ put_le (opt_size_of_headers h) @ put_le (check_sum h)
     @ put_le (subsystem h) @ put_le (DLL_characteristics h)
     @ put_le (size_of_stack_reserve h) @ put_le (size_of_stack_commit h)
     @ put_le (size_of_heap_reserve h) @ put_le (size_of_heap_commit h)
     @ put_le (loader_flags h) @ put_le (opt_number_of_RVA_and_sizes h)
     @ put_array put_PE_data_directory (data_directory h)"

definition get_PE_optional_header :: "u8 list \<Rightarrow> PE_optional_header" where
  "get_PE_optional_header bs = \<lparr>
     magic = get_le (field 0 2 bs),
     linker_version = get_PE_version8 (field 2 2 bs),
     size_of_code = get_le (field 4 4 bs),
     size_of_initialized_data = get_le (field 8 4 bs),
     size_of_uninitialized_data = get_le (field 12 4 bs),
     address_of_entry_point = get_le (field 16 4 bs),
     base_of_code = get_le (field 20 4 bs),
     image_base64 = get_le (field 24 8 bs),
     opt_section_alignment = get_le (field 32 4 bs),
     opt_file_alignment = get_le (field 36 4 bs),
     operation_system_version = get_PE_version16 (field 40 4 bs),
     image_version = get_PE_version16 (field 44 4 bs),
     subsystem_version = get_PE_version16 (field 48 4 bs),
     win32_version_value = get_le (field 52 4 bs),
     opt_size_of_image = get_le (field 56 4 bs),
     opt_size_of_headers = get_le (field 60 4 bs),
     check_sum = get_le (field 64 4 bs),
     subsystem = get_le (field 68 2 bs),
     DLL_characteristics = get_le (field 70 2 bs),
     size_of_stack_reserve = get_le (field 72 8 bs),
     size_of_stack_commit = get_le (field 80 8 bs),
     size_of_heap_reserve = get_le (field 88 8 bs),
     size_of_heap_commit = get_le (field 96 8 bs),
     loader_flags = get_le (field 104 4 bs),
     opt_number_of_RVA_and_sizes = get_le (field 108 4 bs),
     data_directory = get_array 8 get_PE_data_directory PE_HEADER_NUMBER_OF_DIRECTORY_ENTRIES
       (field 112 128 bs)\<rparr>"

definition wf_optional_header :: "PE_optional_header \<Rightarrow> bool" where
  "wf_optional_header h \<longleftrightarrow>
     length (data_directory h) = PE_HEADER_NUMBER_OF_DIRECTORY_ENTRIES"

lemmas optional_header_defs = put_PE_optional_header_def get_PE_optional_header_def
  wf_optional_header_def PE_HEADER_NUMBER_OF_DIRECTORY_ENTRIES_def

lemma put_PE_optional_header_eq:
  assumes "length bs = 240"
  shows "put_PE_optional_header (get_PE_optional_header bs) = bs"
  using assms
  by (simp add: optional_header_defs put_le_get_le length_field version8_codec.enc_dec
      version16_codec.enc_dec dir_codec.array_enc_dec field_join field_all)

lemma length_put_PE_optional_header:
  "wf_optional_header h \<Longrightarrow> length (put_PE_optional_header h) = 240"
  by (simp add: optional_header_defs version8_codec.length_enc version16_codec.length_enc
      dir_codec.array_length)

lemma dirs_field: "length ds = 16 \<Longrightarrow>
  get_array 8 get_PE_data_directory 16 (field 0 128 (put_array put_PE_data_directory ds)) = ds"
  using dir_codec.array_length [of ds] dir_codec.array_dec_enc [of ds]
  by (simp add: field_def)

lemma get_PE_optional_header_eq:
  "wf_optional_header h \<Longrightarrow> get_PE_optional_header (put_PE_optional_header h) = h"
  by (simp add: optional_header_defs version8_codec.length_enc version16_codec.length_enc
      field_cons version8_codec.dec_enc version16_codec.dec_enc dirs_field)

lemma wf_get_PE_optional_header: "wf_optional_header (get_PE_optional_header bs)"
  by (simp add: optional_header_defs)

interpretation optional_codec:
  byte_codec 240 wf_optional_header put_PE_optional_header get_PE_optional_header
  by unfold_locales (simp_all only: put_PE_optional_header_eq length_put_PE_optional_header
      get_PE_optional_header_eq wf_get_PE_optional_header, simp)

section \<open>Image headers, section headers, base relocations\<close>

record PE_image_headers =
  file_header :: PE_COFF_header
  optional_header :: PE_optional_header

definition put_PE_image_headers :: "PE_image_headers \<Rightarrow> u8 list" where
  "put_PE_image_headers h =
     put_PE_COFF_header (file_header h) @ put_PE_optional_header (optional_header h)"

definition get_PE_image_headers :: "u8 list \<Rightarrow> PE_image_headers" where
  "get_PE_image_headers bs = \<lparr>
     file_header = get_PE_COFF_header (field 0 24 bs),
     optional_header = get_PE_optional_header (field 24 240 bs)\<rparr>"

definition wf_image_headers :: "PE_image_headers \<Rightarrow> bool" where
  "wf_image_headers h \<longleftrightarrow> wf_optional_header (optional_header h)"

lemmas image_headers_defs = put_PE_image_headers_def get_PE_image_headers_def
  wf_image_headers_def

text \<open>\<open>sizeof(struct PE_image_headers)\<close> and \<open>sizeof(struct PE_COFF_header)\<close>.\<close>

definition sizeof_PE_image_headers :: u64 where "sizeof_PE_image_headers = 264"
definition sizeof_PE_COFF_header :: u64 where "sizeof_PE_COFF_header = 24"
definition sizeof_PE_section_header :: u64 where "sizeof_PE_section_header = 40"
definition sizeof_PE_base_relocation :: u64 where "sizeof_PE_base_relocation = 8"

interpretation headers_codec:
  byte_codec "unat sizeof_PE_image_headers" wf_image_headers put_PE_image_headers
    get_PE_image_headers
proof unfold_locales
  fix bs :: "u8 list" assume n: "length bs = unat sizeof_PE_image_headers"
  then have n: "length bs = 264" by (simp add: sizeof_PE_image_headers_def)
  then show "put_PE_image_headers (get_PE_image_headers bs) = bs"
    by (simp add: image_headers_defs coff_codec.enc_dec optional_codec.enc_dec length_field
        field_join field_all)
  show "wf_image_headers (get_PE_image_headers bs)"
    by (simp add: image_headers_defs wf_get_PE_optional_header)
next
  fix h assume wf: "wf_image_headers h"
  then have "length (put_PE_optional_header (optional_header h)) = 240"
    by (simp add: wf_image_headers_def optional_codec.length_enc)
  with wf show "length (put_PE_image_headers h) = unat sizeof_PE_image_headers"
      and "get_PE_image_headers (put_PE_image_headers h) = h"
    by (simp_all add: image_headers_defs sizeof_PE_image_headers_def coff_codec.length_enc
        coff_codec.dec_enc optional_codec.dec_enc field_cons)
qed (simp add: sizeof_PE_image_headers_def)

definition PE_SECTION_SIZE_OF_SHORT_NAME :: nat where "PE_SECTION_SIZE_OF_SHORT_NAME = 8"
definition PE_HEADER_MAX_NUMBER_OF_SECTIONS :: u16 where
  "PE_HEADER_MAX_NUMBER_OF_SECTIONS = 96"

record PE_section_header =
  sec_name :: "u8 list"
  virtual_size :: u32
  virtual_address :: u32
  size_of_raw_data :: u32
  pointer_to_raw_data :: u32
  pointer_to_relocations :: u32
  pointer_to_linenumbers :: u32
  number_of_relocations :: u16
  number_of_linenumbers :: u16
  sec_characteristics :: u32

definition put_PE_section_header :: "PE_section_header \<Rightarrow> u8 list" where
  "put_PE_section_header s =
     sec_name s @ put_le (virtual_size s) @ put_le (virtual_address s)
     @ put_le (size_of_raw_data s) @ put_le (pointer_to_raw_data s)
     @ put_le (pointer_to_relocations s) @ put_le (pointer_to_linenumbers s)
     @ put_le (number_of_relocations s) @ put_le (number_of_linenumbers s)
     @ put_le (sec_characteristics s)"

definition get_PE_section_header :: "u8 list \<Rightarrow> PE_section_header" where
  "get_PE_section_header bs = \<lparr>
     sec_name = field 0 8 bs,
     virtual_size = get_le (field 8 4 bs),
     virtual_address = get_le (field 12 4 bs),
     size_of_raw_data = get_le (field 16 4 bs),
     pointer_to_raw_data = get_le (field 20 4 bs),
     pointer_to_relocations = get_le (field 24 4 bs),
     pointer_to_linenumbers = get_le (field 28 4 bs),
     number_of_relocations = get_le (field 32 2 bs),
     number_of_linenumbers = get_le (field 34 2 bs),
     sec_characteristics = get_le (field 36 4 bs)\<rparr>"

definition wf_section_header :: "PE_section_header \<Rightarrow> bool" where
  "wf_section_header s \<longleftrightarrow> length (sec_name s) = PE_SECTION_SIZE_OF_SHORT_NAME"

lemmas section_header_defs = put_PE_section_header_def get_PE_section_header_def
  wf_section_header_def PE_SECTION_SIZE_OF_SHORT_NAME_def

interpretation section_codec:
  byte_codec "unat sizeof_PE_section_header" wf_section_header put_PE_section_header
    get_PE_section_header
proof unfold_locales
  fix bs :: "u8 list" assume "length bs = unat sizeof_PE_section_header"
  then have n: "length bs = 40" by (simp add: sizeof_PE_section_header_def)
  then show "put_PE_section_header (get_PE_section_header bs) = bs"
    by (simp add: section_header_defs put_le_get_le length_field field_join field_all)
  show "wf_section_header (get_PE_section_header bs)"
    by (simp add: section_header_defs length_field n)
next
  fix s assume "wf_section_header s"
  then show "length (put_PE_section_header s) = unat sizeof_PE_section_header"
      and "get_PE_section_header (put_PE_section_header s) = s"
    by (simp_all add: section_header_defs sizeof_PE_section_header_def field_cons)
qed (simp add: sizeof_PE_section_header_def)

definition PE_SECTION_CNT_UNINITIALIZED_DATA :: u32 where
  "PE_SECTION_CNT_UNINITIALIZED_DATA = 0x80"
definition PE_SECTION_MEM_DISCARDABLE :: u32 where
  "PE_SECTION_MEM_DISCARDABLE = 0x02000000"

record PE_base_relocation =
  rel_virtual_address :: u32
  size_of_block :: u32

definition put_PE_base_relocation :: "PE_base_relocation \<Rightarrow> u8 list" where
  "put_PE_base_relocation r = put_le (rel_virtual_address r) @ put_le (size_of_block r)"

definition get_PE_base_relocation :: "u8 list \<Rightarrow> PE_base_relocation" where
  "get_PE_base_relocation bs =
     \<lparr>rel_virtual_address = get_le (field 0 4 bs), size_of_block = get_le (field 4 4 bs)\<rparr>"

interpretation reloc_codec:
  byte_codec "unat sizeof_PE_base_relocation" "\<lambda>_. True" put_PE_base_relocation
    get_PE_base_relocation
proof unfold_locales
  fix bs :: "u8 list" assume "length bs = unat sizeof_PE_base_relocation"
  then show "put_PE_base_relocation (get_PE_base_relocation bs) = bs"
    by (simp add: put_PE_base_relocation_def get_PE_base_relocation_def put_le_get_le
        sizeof_PE_base_relocation_def length_field field_join field_all)
qed (simp_all add: put_PE_base_relocation_def get_PE_base_relocation_def field_cons
    sizeof_PE_base_relocation_def)

definition PE_RELOC_BASED_FIXUP_MASK :: u16 where "PE_RELOC_BASED_FIXUP_MASK = 0x0fff"
definition PE_RELOC_BASED_TYPE_MASK :: u16 where "PE_RELOC_BASED_TYPE_MASK = 0xf000"
definition PE_RELOC_BASED_ABSOLUTE :: u16 where "PE_RELOC_BASED_ABSOLUTE = 0"
definition PE_RELOC_BASED_HIGH :: u16 where "PE_RELOC_BASED_HIGH = 0x1000"
definition PE_RELOC_BASED_LOW :: u16 where "PE_RELOC_BASED_LOW = 0x2000"
definition PE_RELOC_BASED_HIGHLOW :: u16 where "PE_RELOC_BASED_HIGHLOW = 0x3000"
definition PE_RELOC_BASED_DIR64 :: u16 where "PE_RELOC_BASED_DIR64 = 0xa000"

text \<open>Loads of whole structures.\<close>

definition load_headers :: "mem \<Rightarrow> addr \<Rightarrow> PE_image_headers outcome" where
  "load_headers m a =
     obind (load_bytes m a (unat sizeof_PE_image_headers)) (\<lambda>bs. Ret (get_PE_image_headers bs))"

definition load_section :: "mem \<Rightarrow> addr \<Rightarrow> PE_section_header outcome" where
  "load_section m a =
     obind (load_bytes m a (unat sizeof_PE_section_header)) (\<lambda>bs. Ret (get_PE_section_header bs))"

definition load_directory :: "mem \<Rightarrow> addr \<Rightarrow> PE_data_directory outcome" where
  "load_directory m a = obind (load_bytes m a 8) (\<lambda>bs. Ret (get_PE_data_directory bs))"

definition load_relocation :: "mem \<Rightarrow> addr \<Rightarrow> PE_base_relocation outcome" where
  "load_relocation m a =
     obind (load_bytes m a (unat sizeof_PE_base_relocation))
       (\<lambda>bs. Ret (get_PE_base_relocation bs))"

end
