(* ===== verification/PE_Locate.thy ===== *)
theory PE_Locate
  imports PE_Format Buffers Strings
begin

text \<open>
  \<^verbatim>\<open>src/pe.h\<close> (\<open>PE_header\<close>) and \<^verbatim>\<open>src/pe.c\<close> (\<open>PE_locate_sections\<close>): finding the PE header of a
  buffer, and the sections of the running image. The array of \<open>PE_locate_sections\<close> ends
  at an entry with an empty name; the model's list holds the entries before it. The
  loader runs on one of the two targets of the build files.

  The lemmas: where \<open>PE_header\<close> reads, and that it never fails on a mapped buffer; and
  that every entry receives the last section of its name.
\<close>

unbundle bit_operations_syntax

section \<open>Finding the PE header\<close>

definition PE_header :: "mem \<Rightarrow> ('a) simple_buffer_scheme \<Rightarrow> size_t outcome" where
  "PE_header m b =
     c_assert (buffer b \<noteq> 0) (
     obind (buffer_pos b) (\<lambda>p.
     obind (load_w m p) (\<lambda>mz.
     if mz \<noteq> MZ_DOS_SIGNATURE then Ret 0
     else obind (buffer_len b) (\<lambda>len.
       if \<not> (len > DOS_PE_OFFSET_LOCATION + 4) then Ret 0
       else obind (load_w m (p + DOS_PE_OFFSET_LOCATION)) (\<lambda>pe_offset :: u32.
         if \<not> (len > ucast pe_offset + sizeof_PE_image_headers) then Ret 0
         else obind (load_w m (p + ucast pe_offset)) (\<lambda>sig.
           if sig = PE_HEADER_SIGNATURE then Ret (ucast pe_offset) else Ret 0))))))"

section \<open>Locating sections\<close>

record PE_locate_section =
  ls_name :: "u8 list"
  ls_load_address :: size_t
  ls_offset :: size_t
  ls_size :: size_t

text \<open>
  \<open>strncmp\<close> tests its bound after it has read the next character, so the model passes it
  the bytes of the whole structures.
\<close>

definition ls_bytes :: "PE_locate_section \<Rightarrow> u8 list" where
  "ls_bytes ls = ls_name ls @ put_le (ls_load_address ls) @ put_le (ls_offset ls)
     @ put_le (ls_size ls)"

definition locate_one :: "PE_section_header \<Rightarrow> PE_locate_section \<Rightarrow> PE_locate_section outcome" where
  "locate_one sec ls =
     obind (strncmp (ls_bytes ls) (put_PE_section_header sec) PE_SECTION_SIZE_OF_SHORT_NAME) (\<lambda>r.
       if 0 \<noteq> r then Ret ls
       else Ret (ls\<lparr>ls_load_address := ucast (virtual_address sec),
                    ls_offset := ucast (pointer_to_raw_data sec),
                    ls_size := ucast (virtual_size sec)\<rparr>))"

primrec locate_each ::
    "PE_section_header \<Rightarrow> PE_locate_section list \<Rightarrow> PE_locate_section list outcome" where
  "locate_each sec [] = Ret []"
| "locate_each sec (l # ls) =
     obind (locate_one sec l) (\<lambda>l'. obind (locate_each sec ls) (\<lambda>ls'. Ret (l' # ls')))"

primrec locate_loop ::
    "nat \<Rightarrow> mem \<Rightarrow> simple_buffer \<Rightarrow> PE_locate_section list \<Rightarrow> PE_locate_section list outcome"
where
  "locate_loop 0 m img ls = Ret ls"
| "locate_loop (Suc i) m img ls =
     obind (buffer_pos img) (\<lambda>p.
     obind (load_section m p) (\<lambda>sec.
     obind (locate_each sec ls) (\<lambda>ls.
       locate_loop i m (img\<lparr>bpos := bpos img + sizeof_PE_section_header\<rparr>) ls)))"

text \<open>
  \<open>locate_sections = None\<close> is the \<open>NULL\<close> argument. \<open>base\<close> and \<open>isize\<close> are the \<open>image_base\<close> and
  \<open>image_size\<close> of the global \<open>EFI_LOADED_IMAGE\<close>, which the library has set.
\<close>

definition PE_locate_sections ::
    "target \<Rightarrow> mem \<Rightarrow> addr \<Rightarrow> size_t \<Rightarrow> PE_locate_section list option
     \<Rightarrow> (bool \<times> PE_locate_section list option) outcome" where
  "PE_locate_sections tgt m base isize locate_sections =
     (case locate_sections of None \<Rightarrow> Ret (False, None)
      | Some ls \<Rightarrow>
        let img = \<lparr>buffer = base, blength = isize, bpos = 0, allocated = isize,
                     bfree = Free_None\<rparr>
        in obind (PE_header m img) (\<lambda>offset.
           if offset = 0 then Ret (False, Some ls)
           else let img = img\<lparr>bpos := bpos img + offset\<rparr> in
           obind (buffer_pos img) (\<lambda>p.
           obind (load_headers m p) (\<lambda>pe.
           if machine (file_header pe) \<noteq> PE_HEADER_MACHINE_NATIVE tgt
           then Ret (False, Some ls)
           else if number_of_sections (file_header pe) > PE_HEADER_MAX_NUMBER_OF_SECTIONS
           then Ret (False, Some ls)
           else if coff_characteristics (file_header pe) AND PE_HEADER_EXECUTABLE_IMAGE = 0
           then Ret (False, Some ls)
           else if magic (optional_header pe) \<noteq> PE_HEADER_OPTIONAL_HDR64_MAGIC
           then Ret (False, Some ls)
           else if subsystem (optional_header pe) \<noteq> PE_HEADER_SUBSYSTEM_EFI_APPLICATION
           then Ret (False, Some ls)
           else
             let img = img\<lparr>bpos := bpos img
                   + (sizeof_PE_COFF_header + ucast (size_of_optional_header (file_header pe)))\<rparr>
             in obind (locate_loop (unat (number_of_sections (file_header pe))) m img ls)
                  (\<lambda>ls. Ret (True, Some ls))))))"

section \<open>Where \<open>PE_header\<close> reads\<close>

text \<open>A buffer whose cursor is inside, of at least two bytes, all of them mapped.\<close>

definition readable :: "mem \<Rightarrow> ('a) simple_buffer_scheme \<Rightarrow> bool" where
  "readable m b \<longleftrightarrow> buffer b \<noteq> 0 \<and> bpos b < allocated b \<and> bpos b < blength b
     \<and> 2 \<le> unat (blength b) - unat (bpos b)
     \<and> mapped m (buffer b + bpos b) (unat (blength b) - unat (bpos b))"

lemma readable_pos_len:
  assumes "readable m b"
  shows "buffer_pos b = Ret (buffer b + bpos b)" and "buffer_len b = Ret (blength b - bpos b)"
    and "unat (blength b - bpos b) = unat (blength b) - unat (bpos b)"
  using assms unat_sub [OF order.strict_implies_order, of "bpos b" "blength b"]
  by (simp_all add: readable_def buffer_pos_def buffer_len_def)

lemma PE_header_total:
  assumes "readable m b"
  shows "\<exists>off. PE_header m b = Ret off
    \<and> (off \<noteq> 0 \<longrightarrow> unat off + unat sizeof_PE_image_headers < unat (blength b) - unat (bpos b)
        \<and> load_w m (buffer b + bpos b + off) = Ret PE_HEADER_SIGNATURE)"
proof -
  let ?p = "buffer b + bpos b" and ?len = "blength b - bpos b"
  note r = readable_pos_len [OF assms]
  have nz: "buffer b \<noteq> 0" and two: "2 \<le> unat ?len" and map: "mapped m ?p (unat ?len)"
    using assms r(3) by (simp_all add: readable_def)
  obtain mz :: u16 where mz: "load_w m ?p = Ret mz"
    using load_w_mapped [where ?'a = 16, of m ?p] mapped_sub [OF map, of 0 2] two by auto
  show ?thesis
  proof (cases "mz = MZ_DOS_SIGNATURE \<and> ?len > DOS_PE_OFFSET_LOCATION + 4")
    case False
    then show ?thesis using r mz nz by (auto simp: PE_header_def)
  next
    case True
    then have "64 < unat ?len" by (simp add: DOS_PE_OFFSET_LOCATION_def word_less_nat_alt)
    then have "mapped m (?p + DOS_PE_OFFSET_LOCATION) 4"
      by (intro mapped_sub_word [OF map]) (simp add: DOS_PE_OFFSET_LOCATION_def)
    then obtain off :: u32 where off: "load_w m (?p + DOS_PE_OFFSET_LOCATION) = Ret off"
      using load_w_mapped [where ?'a = 32] by auto
    show ?thesis
    proof (cases "?len > ucast off + sizeof_PE_image_headers")
      case False
      then show ?thesis using True r mz nz off by (auto simp: PE_header_def)
    next
      case fits: True
      have lt: "unat (ucast off :: u64) < 2 ^ 32"
        by (rule unat_widen_less)
      have "unat (ucast off + sizeof_PE_image_headers :: u64)
          = unat (ucast off :: u64) + unat sizeof_PE_image_headers"
        using lt by (subst unat_add_lem [THEN iffD1])
          (simp_all add: sizeof_PE_image_headers_def)
      then have len: "unat (ucast off :: u64) + unat sizeof_PE_image_headers < unat ?len"
        using fits by (simp add: word_less_nat_alt)
      then have "mapped m (?p + ucast off) 4"
        by (intro mapped_sub_word [OF map]) (simp add: sizeof_PE_image_headers_def)
      then obtain sig :: u32 where sig: "load_w m (?p + ucast off) = Ret sig"
        using load_w_mapped [where ?'a = 32] by auto
      show ?thesis
        using True fits len r mz nz off sig by (auto simp: PE_header_def)
    qed
  qed
qed

section \<open>What \<open>PE_locate_sections\<close> finds\<close>

text \<open>
  An entry matches a section when their names agree up to the first null or the eight
  bytes; \<open>found\<close> is the entry after the walk over a list of sections.
\<close>

definition name_matches :: "PE_section_header \<Rightarrow> PE_locate_section \<Rightarrow> bool" where
  "name_matches sec ls \<longleftrightarrow> cstr (ls_name ls) = cstr (sec_name sec)"

definition found :: "PE_section_header list \<Rightarrow> PE_locate_section \<Rightarrow> PE_locate_section" where
  "found secs ls =
     (case find (\<lambda>s. name_matches s ls) (rev secs) of None \<Rightarrow> ls
      | Some sec \<Rightarrow> ls\<lparr>ls_load_address := ucast (virtual_address sec),
          ls_offset := ucast (pointer_to_raw_data sec), ls_size := ucast (virtual_size sec)\<rparr>)"

definition wf_locate :: "PE_locate_section \<Rightarrow> bool" where
  "wf_locate ls \<longleftrightarrow> length (ls_name ls) = PE_SECTION_SIZE_OF_SHORT_NAME"

lemma strncmp_returns:
  "n < length as \<Longrightarrow> n < length bs \<Longrightarrow>
   \<exists>r. strncmp as bs n = Ret r \<and> (r = 0 \<longleftrightarrow> cstr (take n as) = cstr (take n bs))"
proof (induction as bs n rule: strncmp.induct)
  case (2 a as bs n)
  then show ?case by (cases bs; cases n) auto
qed simp

lemma locate_one_found:
  assumes "wf_locate ls" and "wf_section_header sec"
  shows "locate_one sec ls = Ret (found [sec] ls)"
proof -
  have n: "PE_SECTION_SIZE_OF_SHORT_NAME < length (ls_bytes ls)"
      "PE_SECTION_SIZE_OF_SHORT_NAME < length (put_PE_section_header sec)"
      "take PE_SECTION_SIZE_OF_SHORT_NAME (ls_bytes ls) = ls_name ls"
      "take PE_SECTION_SIZE_OF_SHORT_NAME (put_PE_section_header sec) = sec_name sec"
    using assms by (simp_all add: ls_bytes_def wf_locate_def section_header_defs)
  show ?thesis
    using strncmp_returns [OF n(1,2)] n(3,4)
    by (auto simp: locate_one_def found_def name_matches_def)
qed

lemma found_name [simp]: "ls_name (found secs ls) = ls_name ls"
  by (simp add: found_def split: option.splits)

lemma found_append: "found (secs @ [s]) ls = found [s] (found secs ls)"
  by (auto simp: found_def name_matches_def split: option.splits)

lemma wf_found [simp]: "wf_locate (found secs ls) = wf_locate ls"
  by (simp add: wf_locate_def)

lemma found_compose: "found ys (found xs ls) = found (xs @ ys) ls"
proof (induction ys rule: rev_induct)
  case Nil
  then show ?case by (simp add: found_def [of "[]"])
next
  case (snoc y ys)
  then show ?case by (simp add: found_append flip: append_assoc)
qed

lemma locate_each_found:
  "list_all wf_locate ls \<Longrightarrow> wf_section_header sec \<Longrightarrow>
   locate_each sec ls = Ret (map (found [sec]) ls)"
  by (induction ls) (simp_all add: locate_one_found)

text \<open>The section table at \<open>a\<close>: the headers the loop visits.\<close>

primrec sections_at :: "nat \<Rightarrow> mem \<Rightarrow> addr \<Rightarrow> PE_section_header list outcome" where
  "sections_at 0 m a = Ret []"
| "sections_at (Suc n) m a =
     obind (load_section m a) (\<lambda>s.
     obind (sections_at n m (a + sizeof_PE_section_header)) (\<lambda>ss. Ret (s # ss)))"

lemma load_section_wf: "load_section m a = Ret s \<Longrightarrow> wf_section_header s"
  by (auto simp: load_section_def outcome_iff intro: section_codec.wf_dec
      dest: load_bytes_length)

lemma locate_loop_found:
  "locate_loop n m img ls = Ret ls' \<Longrightarrow> list_all wf_locate ls \<Longrightarrow>
   \<exists>secs. sections_at n m (buffer img + bpos img) = Ret secs \<and> ls' = map (found secs) ls"
proof (induction n arbitrary: img ls)
  case 0
  then show ?case by (simp add: found_def map_idI)
next
  case (Suc n)
  let ?img = "img\<lparr>bpos := bpos img + sizeof_PE_section_header\<rparr>"
  from Suc.prems(1) obtain sec mid where sec: "load_section m (buffer img + bpos img) = Ret sec"
      and mid: "locate_each sec ls = Ret mid" and rest: "locate_loop n m ?img mid = Ret ls'"
    by (auto simp: outcome_iff buffer_pos_def)
  have mid: "mid = map (found [sec]) ls"
    using mid locate_each_found [OF Suc.prems(2) load_section_wf [OF sec]] by simp
  have "list_all wf_locate mid" using Suc.prems(2) by (simp add: mid list_all_iff)
  from Suc.IH [OF rest this] obtain secs where
      "sections_at n m (buffer img + bpos img + sizeof_PE_section_header) = Ret secs"
      "ls' = map (found secs) mid"
    by (auto simp: add.assoc)
  then have "sections_at (Suc n) m (buffer img + bpos img) = Ret (sec # secs)"
      and "ls' = map (found (sec # secs)) ls"
    using sec by (simp_all add: mid found_compose)
  then show ?case by blast
qed

text \<open>
  C10. When \<open>PE_locate_sections\<close> reports success, there are at most 96 section headers
  behind the optional header of the running image, and every entry has received the
  address, the file offset and the virtual size of the last section of its name; the
  entries without a section are as they were.
\<close>

theorem PE_locate_sections_last_match:
  assumes ok: "PE_locate_sections tgt m base isize (Some ls) = Ret (True, ls')"
    and wf: "list_all wf_locate ls"
  shows "\<exists>off pe secs. off \<noteq> 0 \<and> load_headers m (base + off) = Ret pe
    \<and> unat (number_of_sections (file_header pe)) \<le> 96
    \<and> sections_at (unat (number_of_sections (file_header pe))) m
        (base + off + (sizeof_PE_COFF_header + ucast (size_of_optional_header (file_header pe))))
        = Ret secs
    \<and> ls' = Some (map (found secs) ls)"
proof -
  let ?img = "\<lparr>buffer = base, blength = isize, bpos = 0, allocated = isize, bfree = Free_None\<rparr>"
  let ?img' = "\<lambda>off pe. ?img\<lparr>bpos := off
    + (sizeof_PE_COFF_header + ucast (size_of_optional_header (file_header pe)))\<rparr>"
  from ok obtain off pe fs where off: "off \<noteq> 0" and pe: "load_headers m (base + off) = Ret pe"
      and n: "\<not> number_of_sections (file_header pe) > PE_HEADER_MAX_NUMBER_OF_SECTIONS"
      and loop: "locate_loop (unat (number_of_sections (file_header pe))) m (?img' off pe) ls
        = Ret fs" and ls': "ls' = Some fs"
    by (auto simp: PE_locate_sections_def Let_def outcome_iff buffer_pos_def split: if_splits)
  from locate_loop_found [OF loop wf] obtain secs where
    "sections_at (unat (number_of_sections (file_header pe))) m
      (base + (off + (sizeof_PE_COFF_header + ucast (size_of_optional_header (file_header pe)))))
      = Ret secs" "fs = map (found secs) ls"
    by auto
  then show ?thesis using off pe n ls'
    by (intro exI [of _ off] exI [of _ pe] exI [of _ secs])
      (simp add: PE_HEADER_MAX_NUMBER_OF_SECTIONS_def word_less_nat_alt add.assoc)
qed

text \<open>A concrete image, for the witnesses: one section \<open>.sec\<close> behind the headers.\<close>

definition sample_headers :: PE_image_headers where
  "sample_headers = \<lparr>
     file_header = \<lparr>signature = PE_HEADER_SIGNATURE, machine = 0x8664, number_of_sections = 1,
       time_date_stamp = 0, pointer_to_symbol_table = 0, number_of_symbols = 0,
       size_of_optional_header = 240, coff_characteristics = 2\<rparr>,
     optional_header = \<lparr>magic = 0x20b, linker_version = \<lparr>major8 = 0, minor8 = 0\<rparr>,
       size_of_code = 0, size_of_initialized_data = 0, size_of_uninitialized_data = 0,
       address_of_entry_point = 0x1010, base_of_code = 0, image_base64 = 0,
       opt_section_alignment = 0x1000, opt_file_alignment = 0x200,
       operation_system_version = \<lparr>major16 = 0, minor16 = 0\<rparr>,
       image_version = \<lparr>major16 = 0, minor16 = 0\<rparr>,
       subsystem_version = \<lparr>major16 = 0, minor16 = 0\<rparr>, win32_version_value = 0,
       opt_size_of_image = 0x2000, opt_size_of_headers = 0x200, check_sum = 0,
       subsystem = 10, DLL_characteristics = 0, size_of_stack_reserve = 0,
       size_of_stack_commit = 0, size_of_heap_reserve = 0, size_of_heap_commit = 0,
       loader_flags = 0, opt_number_of_RVA_and_sizes = 16,
       data_directory = replicate 16 \<lparr>dir_virtual_address = 0, dir_size = 0\<rparr>\<rparr>\<rparr>"

lemma sample_headers_simps [simp]:
  "machine (file_header sample_headers) = 0x8664"
  "number_of_sections (file_header sample_headers) = 1"
  "size_of_optional_header (file_header sample_headers) = 240"
  "coff_characteristics (file_header sample_headers) = 2"
  "magic (optional_header sample_headers) = 0x20b"
  "subsystem (optional_header sample_headers) = 10"
  "opt_section_alignment (optional_header sample_headers) = 0x1000"
  "opt_file_alignment (optional_header sample_headers) = 0x200"
  "opt_size_of_image (optional_header sample_headers) = 0x2000"
  "opt_size_of_headers (optional_header sample_headers) = 0x200"
  by (simp_all add: sample_headers_def)

definition sample_section :: PE_section_header where
  "sample_section = \<lparr>sec_name = [46, 115, 101, 99, 0, 0, 0, 0], virtual_size = 0x20,
     virtual_address = 0x1000, size_of_raw_data = 0x10, pointer_to_raw_data = 0x200,
     pointer_to_relocations = 0, pointer_to_linenumbers = 0, number_of_relocations = 0,
     number_of_linenumbers = 0, sec_characteristics = 0\<rparr>"

definition sample_image :: "PE_image_headers \<Rightarrow> u8 list" where
  "sample_image h = [0x4d, 0x5a] @ replicate 58 0 @ [0x40, 0, 0, 0]
     @ put_PE_image_headers h @ put_PE_section_header sample_section"

definition sample_ok :: "PE_image_headers \<Rightarrow> bool" where
  "sample_ok h \<longleftrightarrow> wf_image_headers h \<and> signature (file_header h) = PE_HEADER_SIGNATURE"

lemma load_place_field:
  assumes "k + j \<le> length bs" and "length bs \<le> 2 ^ 64"
  shows "load_bytes (place a bs) (a + of_nat k) j = Ret (field k j bs)"
  unfolding field_def by (rule load_bytes_sub [OF place_load [OF assms(2)] assms(1)])

lemma sample_wf: "sample_ok sample_headers" "wf_section_header sample_section"
  by (simp_all add: sample_ok_def wf_image_headers_def wf_optional_header_def sample_headers_def
      PE_HEADER_NUMBER_OF_DIRECTORY_ENTRIES_def wf_section_header_def sample_section_def
      PE_SECTION_SIZE_OF_SHORT_NAME_def)

lemma sample_lengths:
  assumes "sample_ok h"
  shows "length (put_PE_image_headers h) = 264" "length (sample_image h) = 368"
    and "length (put_PE_section_header sample_section) = 40"
  using assms headers_codec.length_enc [of h] section_codec.length_enc [OF sample_wf(2)]
  by (simp_all add: sample_ok_def sample_image_def sizeof_PE_image_headers_def
      sizeof_PE_section_header_def)

lemma sample_fields:
  assumes "sample_ok h"
  shows "field 0 2 (sample_image h) = [0x4d, 0x5a]"
    "field 60 4 (sample_image h) = [0x40, 0, 0, 0]"
    "field 64 264 (sample_image h) = put_PE_image_headers h"
    "field 328 40 (sample_image h) = put_PE_section_header sample_section"
    "field 64 4 (sample_image h) = put_le PE_HEADER_SIGNATURE"
  using assms sample_lengths [OF assms]
  by (simp_all add: sample_image_def field_def put_PE_image_headers_def put_PE_COFF_header_def
      sample_ok_def)

lemma sample_loads:
  fixes a :: addr
  assumes ok: "sample_ok h"
  shows "load_w (place a (sample_image h)) a = Ret MZ_DOS_SIGNATURE"
    "load_w (place a (sample_image h)) (a + 60) = Ret (0x40 :: u32)"
    "load_w (place a (sample_image h)) (a + 64) = Ret PE_HEADER_SIGNATURE"
    "load_headers (place a (sample_image h)) (a + 64) = Ret h"
    "load_section (place a (sample_image h)) (a + 328) = Ret sample_section"
  using load_place_field [of 0 2 "sample_image h" a] load_place_field [of 60 4 "sample_image h" a]
    load_place_field [of 64 4 "sample_image h" a] load_place_field [of 64 264 "sample_image h" a]
    load_place_field [of 328 40 "sample_image h" a] sample_lengths [OF ok]
    headers_codec.dec_enc [of h] section_codec.dec_enc [OF sample_wf(2)]
    get_put_u32 [of PE_HEADER_SIGNATURE] ok
  by (simp_all add: load_w_def sample_fields load_headers_def sample_ok_def
      load_section_def sizeof_PE_image_headers_def sizeof_PE_section_header_def
      get_le_def MZ_DOS_SIGNATURE_def)

lemma sample_PE_header:
  assumes "sample_ok h" "buffer b = a" "a \<noteq> 0" "bpos b = 0" "blength b = 368" "allocated b = 368"
  shows "PE_header (place a (sample_image h)) b = Ret 0x40"
  using assms sample_loads [OF assms(1), of a]
  by (simp add: PE_header_def buffer_pos_def buffer_len_def DOS_PE_OFFSET_LOCATION_def
      sizeof_PE_image_headers_def)

theorem PE_locate_sections_last_match_witness:
  "let ls = \<lparr>ls_name = [46, 115, 101, 99, 0, 0, 0, 0], ls_load_address = 0, ls_offset = 0,
             ls_size = 0\<rparr>;
       m = place 0x1000 (sample_image sample_headers);
       ls' = Some [ls\<lparr>ls_load_address := 0x1000, ls_offset := 0x200, ls_size := 0x20\<rparr>]
   in PE_locate_sections X86_64 m 0x1000 368 (Some [ls]) = Ret (True, ls')
     \<and> (\<exists>secs. ls' = Some (map (found secs) [ls]))"
proof -
  let ?ls = "\<lparr>ls_name = [46, 115, 101, 99, 0, 0, 0, 0], ls_load_address = 0, ls_offset = 0,
    ls_size = 0\<rparr>"
  let ?ls' = "?ls\<lparr>ls_load_address := 0x1000, ls_offset := 0x200, ls_size := 0x20\<rparr>"
  let ?m = "place 0x1000 (sample_image sample_headers)"
  have wf: "wf_locate ?ls" by (simp add: wf_locate_def PE_SECTION_SIZE_OF_SHORT_NAME_def)
  have "found [sample_section] ?ls = ?ls'"
    by (simp add: found_def name_matches_def sample_section_def)
  then have each: "locate_each sample_section [?ls] = Ret [?ls']"
    using locate_each_found [OF _ sample_wf(2), of "[?ls]"] wf by simp
  have run: "PE_locate_sections X86_64 ?m 0x1000 368 (Some [?ls]) = Ret (True, Some [?ls'])"
    using sample_loads [OF sample_wf(1), of "0x1000"] each
    by (simp add: PE_locate_sections_def Let_def sample_PE_header sample_wf buffer_pos_def
        PE_HEADER_MACHINE_AMD64_def PE_HEADER_MAX_NUMBER_OF_SECTIONS_def
        PE_HEADER_EXECUTABLE_IMAGE_def PE_HEADER_OPTIONAL_HDR64_MAGIC_def
        PE_HEADER_SUBSYSTEM_EFI_APPLICATION_def sizeof_PE_COFF_header_def
        del: locate_each.simps)
  from PE_locate_sections_last_match [OF run] wf have "\<exists>secs. Some [?ls'] = Some (map (found secs) [?ls])"
    by auto
  with run show ?thesis by (simp add: Let_def)
qed

end
