(* ===== verification/Device_Path.thy ===== *)
theory Device_Path
  imports PE_Format RtLib Buffers XXHash
begin

text \<open>
  \<^verbatim>\<open>include/efi/device_path.h\<close>: the device path nodes and the macros that walk a path, and
  \<^verbatim>\<open>src/util.c\<close>: \<open>get_part_uuid_from_device_path\<close>, \<open>buffer_xxh64\<close> and
  \<open>create_memory_mapped_device_path\<close>. A path in memory is walked node by node through the
  length in each node's header, so the walk is a partial function: \<open>None\<close> stands for a
  path that never reaches an end node (a node of length 0 is enough for that).

  The relation \<open>dp_path\<close> describes well-formed paths by the addresses of their nodes. The
  lemmas show what the partition lookup does on them, and that the path built for a
  block of memory is well formed and gives the block back.
\<close>

unbundle bit_operations_syntax

section \<open>GUIDs\<close>

definition put_efi_guid :: "efi_guid \<Rightarrow> u8 list" where
  "put_efi_guid g = put_le (ms1 g) @ put_le (ms2 g) @ put_le (ms3 g) @ ms4 g"

definition get_efi_guid :: "u8 list \<Rightarrow> efi_guid" where
  "get_efi_guid bs = \<lparr>ms1 = get_le (field 0 4 bs), ms2 = get_le (field 4 2 bs),
     ms3 = get_le (field 6 2 bs), ms4 = field 8 8 bs\<rparr>"

definition wf_guid :: "efi_guid \<Rightarrow> bool" where
  "wf_guid g \<longleftrightarrow> length (ms4 g) = 8"

interpretation guid_codec: byte_codec 16 wf_guid put_efi_guid get_efi_guid
proof unfold_locales
  fix bs :: "u8 list" assume "length bs = 16"
  then show "put_efi_guid (get_efi_guid bs) = bs"
    by (simp add: put_efi_guid_def get_efi_guid_def put_le_get_le length_field field_join field_all)
qed (simp_all add: put_efi_guid_def get_efi_guid_def wf_guid_def field_cons length_field)

definition guidcmp :: "efi_guid \<Rightarrow> efi_guid \<Rightarrow> bool" where
  "guidcmp a b \<longleftrightarrow>
     (let x = put_efi_guid a; y = put_efi_guid b
      in (get_le (field 0 8 x) :: u64) = get_le (field 0 8 y)
         \<and> (get_le (field 8 8 x) :: u64) = get_le (field 8 8 y))"

definition guidcpy :: "mem \<Rightarrow> addr \<Rightarrow> addr \<Rightarrow> mem outcome" where
  "guidcpy m a b = memcpy m a b 16"

lemma guidcmp_eq:
  assumes "wf_guid a" "wf_guid b"
  shows "guidcmp a b \<longleftrightarrow> a = b"
proof
  let ?x = "put_efi_guid a" and ?y = "put_efi_guid b"
  have len: "length ?x = 16" "length ?y = 16" using assms by (simp_all add: guid_codec.length_enc)
  assume "guidcmp a b"
  then have "(get_le (field 0 8 ?x) :: u64) = get_le (field 0 8 ?y)"
      "(get_le (field 8 8 ?x) :: u64) = get_le (field 8 8 ?y)"
    by (simp_all add: guidcmp_def Let_def)
  then have "put_le (get_le (field 0 8 ?x) :: u64) = put_le (get_le (field 0 8 ?y) :: u64)"
      "put_le (get_le (field 8 8 ?x) :: u64) = put_le (get_le (field 8 8 ?y) :: u64)"
    by simp_all
  then have "field 0 8 ?x = field 0 8 ?y" "field 8 8 ?x = field 8 8 ?y"
    by (simp_all add: put_le_get_le length_field len)
  then have "field 0 8 ?x @ field 8 8 ?x = field 0 8 ?y @ field 8 8 ?y" by simp
  then have "?x = ?y" by (simp add: field_join field_all len)
  then show "a = b" using guid_codec.enc_inj assms by blast
qed (simp add: guidcmp_def)

text \<open>\<^verbatim>\<open>lib/efilib/guid.c\<close> and the protocol headers.\<close>

definition efi_loaded_image_protocol_guid :: efi_guid where
  "efi_loaded_image_protocol_guid = \<lparr>ms1 = 0x5b1b31a1, ms2 = 0x9562, ms3 = 0x11d2,
     ms4 = [0x8e, 0x3f, 0x00, 0xa0, 0xc9, 0x69, 0x72, 0x3b]\<rparr>"

definition efi_loaded_image_device_path_guid :: efi_guid where
  "efi_loaded_image_device_path_guid = \<lparr>ms1 = 0xbc62157e, ms2 = 0x3e33, ms3 = 0x4fec,
     ms4 = [0x99, 0x20, 0x2d, 0x3b, 0x36, 0xd7, 0x50, 0xdf]\<rparr>"

definition efi_device_path_protocol_guid :: efi_guid where
  "efi_device_path_protocol_guid = \<lparr>ms1 = 0x09576e91, ms2 = 0x6d3f, ms3 = 0x11d2,
     ms4 = [0x8e, 0x39, 0x00, 0xa0, 0xc9, 0x69, 0x72, 0x3b]\<rparr>"

definition efi_load_file2_protocol_guid :: efi_guid where
  "efi_load_file2_protocol_guid = \<lparr>ms1 = 0x4006c0c1, ms2 = 0xfcb3, ms3 = 0x403e,
     ms4 = [0x99, 0x6d, 0x4a, 0x6c, 0x87, 0x24, 0xe0, 0x6d]\<rparr>"

definition efi_file_info_guid :: efi_guid where
  "efi_file_info_guid = \<lparr>ms1 = 0x9576e92, ms2 = 0x6d3f, ms3 = 0x11d2,
     ms4 = [0x8e, 0x39, 0x0, 0xa0, 0xc9, 0x69, 0x72, 0x3b]\<rparr>"

definition efi_global_variable_guid :: efi_guid where
  "efi_global_variable_guid = \<lparr>ms1 = 0x8BE4DF61, ms2 = 0x93CA, ms3 = 0x11d2,
     ms4 = [0xAA, 0x0D, 0x00, 0xE0, 0x98, 0x03, 0x2B, 0x8C]\<rparr>"

section \<open>Nodes\<close>

record efi_device_path =
  dp_type :: u8
  dp_subtype :: u8
  dp_length :: u16

definition put_dp :: "efi_device_path \<Rightarrow> u8 list" where
  "put_dp d = put_le (dp_type d) @ put_le (dp_subtype d) @ put_le (dp_length d)"

definition get_dp :: "u8 list \<Rightarrow> efi_device_path" where
  "get_dp bs = \<lparr>dp_type = get_le (field 0 1 bs), dp_subtype = get_le (field 1 1 bs),
     dp_length = get_le (field 2 2 bs)\<rparr>"

interpretation dp_codec: byte_codec 4 "\<lambda>_. True" put_dp get_dp
proof unfold_locales
  fix bs :: "u8 list" assume "length bs = 4"
  then show "put_dp (get_dp bs) = bs"
    by (simp add: put_dp_def get_dp_def put_le_get_le length_field field_join field_all)
qed (simp_all add: put_dp_def get_dp_def field_cons)

definition END_DEVICE_PATH_TYPE :: u8 where "END_DEVICE_PATH_TYPE = 0x7f"
definition END_INSTANCE_DEVICE_PATH_SUBTYPE :: u8 where "END_INSTANCE_DEVICE_PATH_SUBTYPE = 0x01"
definition END_ENTIRE_DEVICE_PATH_SUBTYPE :: u8 where "END_ENTIRE_DEVICE_PATH_SUBTYPE = 0xff"
definition HARDWARE_DEVICE_PATH :: u8 where "HARDWARE_DEVICE_PATH = 0x01"
definition HW_MEMMAP_DP :: u8 where "HW_MEMMAP_DP = 0x03"
definition MEDIA_DEVICE_PATH :: u8 where "MEDIA_DEVICE_PATH = 0x04"
definition MEDIA_PARTITION_DP :: u8 where "MEDIA_PARTITION_DP = 0x01"
definition SIGNATURE_TYPE_GUID :: u8 where "SIGNATURE_TYPE_GUID = 0x02"

definition load_dp :: "mem \<Rightarrow> addr \<Rightarrow> efi_device_path outcome" where
  "load_dp m a = obind (load_bytes m a 4) (\<lambda>bs. Ret (get_dp bs))"

definition NextDevicePathNode :: "addr \<Rightarrow> efi_device_path \<Rightarrow> addr" where
  "NextDevicePathNode a d = a + ucast (dp_length d)"

definition IsDevicePathNode :: "efi_device_path \<Rightarrow> u8 \<Rightarrow> u8 \<Rightarrow> bool" where
  "IsDevicePathNode d t s \<longleftrightarrow> dp_type d = t \<and> dp_subtype d = s"

definition IsDevicePathEndNode :: "efi_device_path \<Rightarrow> bool" where
  "IsDevicePathEndNode d \<longleftrightarrow>
     IsDevicePathNode d END_DEVICE_PATH_TYPE END_ENTIRE_DEVICE_PATH_SUBTYPE"

record efi_memory_device_path =
  mdp_hdr :: efi_device_path
  mdp_memory_type :: u32
  mdp_start :: u64
  mdp_end :: u64

definition put_memory_dp :: "efi_memory_device_path \<Rightarrow> u8 list" where
  "put_memory_dp d = put_dp (mdp_hdr d) @ put_le (mdp_memory_type d) @ put_le (mdp_start d)
     @ put_le (mdp_end d)"

definition get_memory_dp :: "u8 list \<Rightarrow> efi_memory_device_path" where
  "get_memory_dp bs = \<lparr>mdp_hdr = get_dp (field 0 4 bs), mdp_memory_type = get_le (field 4 4 bs),
     mdp_start = get_le (field 8 8 bs), mdp_end = get_le (field 16 8 bs)\<rparr>"

interpretation memory_dp_codec: byte_codec 24 "\<lambda>_. True" put_memory_dp get_memory_dp
proof unfold_locales
  fix bs :: "u8 list" assume "length bs = 24"
  then show "put_memory_dp (get_memory_dp bs) = bs"
    by (simp add: put_memory_dp_def get_memory_dp_def put_le_get_le dp_codec.enc_dec length_field
        field_join field_all)
qed (simp_all add: put_memory_dp_def get_memory_dp_def field_cons dp_codec.length_enc
    dp_codec.dec_enc)

definition load_memory_dp :: "mem \<Rightarrow> addr \<Rightarrow> efi_memory_device_path outcome" where
  "load_memory_dp m a = obind (load_bytes m a 24) (\<lambda>bs. Ret (get_memory_dp bs))"

text \<open>A partition node: its signature is at offset 24, its signature type at offset 41.\<close>

record efi_partition_device_path =
  pdp_hdr :: efi_device_path
  partition_number :: u32
  partition_start :: u64
  partition_size :: u64
  pdp_signature :: "u8 list"
  mbr_type :: u8
  signature_type :: u8

definition put_partition_dp :: "efi_partition_device_path \<Rightarrow> u8 list" where
  "put_partition_dp d = put_dp (pdp_hdr d) @ put_le (partition_number d)
     @ put_le (partition_start d) @ put_le (partition_size d) @ pdp_signature d
     @ put_le (mbr_type d) @ put_le (signature_type d)"

definition get_partition_dp :: "u8 list \<Rightarrow> efi_partition_device_path" where
  "get_partition_dp bs = \<lparr>pdp_hdr = get_dp (field 0 4 bs),
     partition_number = get_le (field 4 4 bs), partition_start = get_le (field 8 8 bs),
     partition_size = get_le (field 16 8 bs), pdp_signature = field 24 16 bs,
     mbr_type = get_le (field 40 1 bs), signature_type = get_le (field 41 1 bs)\<rparr>"

definition wf_partition_dp :: "efi_partition_device_path \<Rightarrow> bool" where
  "wf_partition_dp d \<longleftrightarrow> length (pdp_signature d) = 16"

interpretation partition_dp_codec:
  byte_codec 42 wf_partition_dp put_partition_dp get_partition_dp
proof unfold_locales
  fix bs :: "u8 list" assume "length bs = 42"
  then show "put_partition_dp (get_partition_dp bs) = bs"
    by (simp add: put_partition_dp_def get_partition_dp_def put_le_get_le dp_codec.enc_dec
        length_field field_join field_all)
qed (simp_all add: put_partition_dp_def get_partition_dp_def wf_partition_dp_def field_cons
    dp_codec.length_enc dp_codec.dec_enc length_field)

definition load_partition_dp :: "mem \<Rightarrow> addr \<Rightarrow> efi_partition_device_path outcome" where
  "load_partition_dp m a = obind (load_bytes m a 42) (\<lambda>bs. Ret (get_partition_dp bs))"

section \<open>The functions of \<^verbatim>\<open>util.c\<close>\<close>

partial_function (option) part_uuid_loop :: "mem \<Rightarrow> addr \<Rightarrow> addr \<Rightarrow> mem outcome option" where
  "part_uuid_loop m dp guid =
     (case load_dp m dp of
        UB \<Rightarrow> Some UB
      | Exit s \<Rightarrow> Some (Exit s)
      | Ret d \<Rightarrow>
          if IsDevicePathEndNode d then Some (Ret m)
          else if IsDevicePathNode d MEDIA_DEVICE_PATH MEDIA_PARTITION_DP
          then part_uuid_loop m (NextDevicePathNode dp d) guid
          else
            (case load_partition_dp m dp of
               UB \<Rightarrow> Some UB
             | Exit s \<Rightarrow> Some (Exit s)
             | Ret part \<Rightarrow>
                 if signature_type part \<noteq> SIGNATURE_TYPE_GUID
                 then part_uuid_loop m (NextDevicePathNode dp d) guid
                 else
                   (case guidcpy m (dp + 24) guid of
                      UB \<Rightarrow> Some UB
                    | Exit s \<Rightarrow> Some (Exit s)
                    | Ret m' \<Rightarrow> 
                       (case load_dp m' dp of
                          UB \<Rightarrow> Some UB
                        | Exit s \<Rightarrow> Some (Exit s)
                        | Ret d' \<Rightarrow> part_uuid_loop m' (NextDevicePathNode dp d') guid))))"

definition get_part_uuid_from_device_path ::
    "mem \<Rightarrow> addr \<Rightarrow> addr \<Rightarrow> (efi_status \<times> mem) outcome option" where
  "get_part_uuid_from_device_path m path guid =
     (if path = 0 \<or> guid = 0 then Some (Exit EFI_UNSUPPORTED)
      else case part_uuid_loop m path guid of
        None \<Rightarrow> None
      | Some r \<Rightarrow> Some (obind r (\<lambda>m. Ret (EFI_NOT_FOUND, m))))"

definition buffer_xxh64 :: "mem \<Rightarrow> simple_buffer option \<Rightarrow> u64 outcome" where
  "buffer_xxh64 m buf =
     (case buf of None \<Rightarrow> Ret (-1)
      | Some b \<Rightarrow>
         if buffer b = 0 then Ret (-1)
         else obind (buffer_len b) (\<lambda>len.
              obind (buffer_pos b) (\<lambda>p.
              obind (if p = 0 then Ret None
                     else obind (load_bytes m p (unat len)) (\<lambda>bs. Ret (Some bs))) (\<lambda>inp.
                let (err, xs) = xxh64_update (xxh64_reset 0) inp
                in if err \<noteq> XXH_OK then Ret (-1) else Ret (xxh64_digest xs)))))"

definition memory_mapped_device_path :: "addr \<Rightarrow> size_t \<Rightarrow> u32 \<Rightarrow> efi_memory_device_path" where
  "memory_mapped_device_path address sz type =
     \<lparr>mdp_hdr = \<lparr>dp_type = HARDWARE_DEVICE_PATH, dp_subtype = HW_MEMMAP_DP, dp_length = 24\<rparr>,
      mdp_memory_type = type, mdp_start = address, mdp_end = address + sz\<rparr>"

definition end_device_path :: efi_device_path where
  "end_device_path = \<lparr>dp_type = END_DEVICE_PATH_TYPE,
     dp_subtype = END_ENTIRE_DEVICE_PATH_SUBTYPE, dp_length = 4\<rparr>"

definition create_memory_mapped_device_path ::
    "'w boot_services \<Rightarrow> u32 \<Rightarrow> addr \<Rightarrow> size_t \<Rightarrow> u32 \<Rightarrow> 'w world \<Rightarrow> (addr \<times> 'w world) outcome" where
  "create_memory_mapped_device_path BS pool address sz type w =
     (let (dp, w) = malloc BS pool 28 w
      in if dp = 0 then Ret (0, w)
         else obind (store_bytes (wmem w) dp
                       (put_memory_dp (memory_mapped_device_path address sz type)
                        @ put_dp end_device_path))
                (\<lambda>m. Ret (dp, w\<lparr>wmem := m\<rparr>)))"

section \<open>Well-formed paths\<close>

inductive dp_path :: "mem \<Rightarrow> addr \<Rightarrow> (addr \<times> efi_device_path) list \<Rightarrow> bool" for m where
  dp_end: "load_dp m a = Ret d \<Longrightarrow> IsDevicePathEndNode d \<Longrightarrow> dp_path m a []"
| dp_node: "load_dp m a = Ret d \<Longrightarrow> \<not> IsDevicePathEndNode d \<Longrightarrow>
    dp_path m (NextDevicePathNode a d) ns \<Longrightarrow> dp_path m a ((a, d) # ns)"

inductive_cases dp_pathE: "dp_path m a ns"

lemma dp_path_det: "dp_path m a ns \<Longrightarrow> dp_path m a ns' \<Longrightarrow> ns = ns'"
proof (induction arbitrary: ns' rule: dp_path.induct)
  case (dp_end a d)
  from \<open>dp_path m a ns'\<close> show ?case by cases (use dp_end in simp_all)
next
  case (dp_node a d ns)
  from \<open>dp_path m a ns'\<close> show ?case
  proof cases
    case (dp_node d' ms)
    then have "d' = d" using \<open>load_dp m a = Ret d\<close> by simp
    with dp_node dp_node.IH show ?thesis by simp
  qed (use dp_node.hyps in simp)
qed

text \<open>
  The partition lookup never reports a partition: it skips exactly the partition nodes,
  so for a path of partition nodes only it returns \<open>EFI_NOT_FOUND\<close> and writes nothing,
  in particular not the GUID.
\<close>

theorem part_uuid_never_found:
  assumes "dp_path m path ns" and "path \<noteq> 0" and "guid \<noteq> 0"
    and "\<forall>(a, d)\<in>set ns. IsDevicePathNode d MEDIA_DEVICE_PATH MEDIA_PARTITION_DP"
  shows "get_part_uuid_from_device_path m path guid = Some (Ret (EFI_NOT_FOUND, m))"
proof -
  have "part_uuid_loop m path guid = Some (Ret m)"
    using assms(1,4)
  proof (induction rule: dp_path.induct)
    case (dp_end a d)
    then show ?case by (subst part_uuid_loop.simps) simp
  next
    case (dp_node a d ns)
    then show ?case by (subst part_uuid_loop.simps) simp
  qed
  then show ?thesis using assms(2,3) by (simp add: get_part_uuid_from_device_path_def)
qed

text \<open>A path of a single partition node, at address \<open>0x1000\<close>.\<close>

definition sample_path :: mem where
  "sample_path = place 0x1000
     (put_partition_dp \<lparr>pdp_hdr = \<lparr>dp_type = 4, dp_subtype = 1, dp_length = 42\<rparr>,
        partition_number = 1, partition_start = 0x800, partition_size = 0x1000,
        pdp_signature = replicate 16 7, mbr_type = 2, signature_type = 2\<rparr>
      @ put_dp end_device_path)"

lemma sample_path_loads:
  "load_dp sample_path 0x1000 = Ret \<lparr>dp_type = 4, dp_subtype = 1, dp_length = 42\<rparr>"
  "load_dp sample_path 0x102a = Ret end_device_path"
  by (simp_all add: load_dp_def sample_path_def put_partition_dp_def put_dp_def get_dp_def
      end_device_path_def END_DEVICE_PATH_TYPE_def END_ENTIRE_DEVICE_PATH_SUBTYPE_def
      get_le_def field_def mem_eval)

lemma sample_dp_path:
  "dp_path sample_path 0x1000 [(0x1000, \<lparr>dp_type = 4, dp_subtype = 1, dp_length = 42\<rparr>)]"
proof (rule dp_node)
  show "load_dp sample_path 0x1000 = Ret \<lparr>dp_type = 4, dp_subtype = 1, dp_length = 42\<rparr>"
    by (rule sample_path_loads)
  show "dp_path sample_path
      (NextDevicePathNode 0x1000 \<lparr>dp_type = 4, dp_subtype = 1, dp_length = 42\<rparr>) []"
    using sample_path_loads(2)
    by (auto simp: NextDevicePathNode_def IsDevicePathEndNode_def IsDevicePathNode_def
        end_device_path_def intro: dp_end)
qed (simp add: IsDevicePathEndNode_def IsDevicePathNode_def END_DEVICE_PATH_TYPE_def)

theorem part_uuid_never_found_witness:
  "get_part_uuid_from_device_path sample_path 0x1000 0x3000
     = Some (Ret (EFI_NOT_FOUND, sample_path))"
  by (rule part_uuid_never_found [OF sample_dp_path])
    (simp_all add: IsDevicePathNode_def MEDIA_DEVICE_PATH_def MEDIA_PARTITION_DP_def)

text \<open>
  \<open>buffer_xxh64\<close> is the one-shot \<open>xxh64\<close>, with seed 0, of the bytes from the cursor to
  the end of the data.
\<close>

theorem buffer_xxh64_hashes:
  assumes "buffer b \<noteq> 0" "bpos b < allocated b" "bpos b < blength b"
    and "buffer b + bpos b \<noteq> 0"
    and "load_bytes m (buffer b + bpos b) (unat (blength b - bpos b)) = Ret bs"
    and "length bs + 32 \<le> 2 ^ 64"
  shows "buffer_xxh64 m (Some b) = Ret (xxh64 bs 0)"
proof -
  obtain r t where up: "xxh64_update (xxh64_reset 0) (Some bs) = (r, t)" by fastforce
  have "r = XXH_OK"
    using up by (auto simp: xxh64_update_def Let_def split: if_splits prod.splits)
  moreover have "xxh64_absorbed 0 ([] @ bs) t"
    using xxh64_update_absorbed [OF xxh64_reset_absorbed assms(6) up] .
  then have "xxh64_digest t = xxh64 bs 0"
    using xxh64_digest_absorbed [of 0 bs t] assms(6) by simp
  ultimately show ?thesis using assms(1-5) up
    by (simp add: buffer_xxh64_def buffer_pos_def buffer_len_def)
qed

theorem buffer_xxh64_hashes_witness:
  "buffer_xxh64 (place 0x1000 [9, 97]) (Some \<lparr>buffer = 0x1000, blength = 2, bpos = 1,
     allocated = 2, bfree = Free_None\<rparr>) = Ret (xxh64 [97] 0)"
  by (rule buffer_xxh64_hashes) (simp_all add: mem_eval)

lemma create_memory_mapped_returns:
  assumes "allocate_pool BS pool 28 w = (EFI_SUCCESS, dp, w1)" and "dp \<noteq> 0"
    and "mapped (wmem w1) dp 28"
  shows "\<exists>m. store_bytes (wmem w1) dp
        (put_memory_dp (memory_mapped_device_path address sz type) @ put_dp end_device_path) = Ret m
    \<and> create_memory_mapped_device_path BS pool address sz type w = Ret (dp, w1\<lparr>wmem := m\<rparr>)"
proof -
  let ?bs = "put_memory_dp (memory_mapped_device_path address sz type) @ put_dp end_device_path"
  have "length ?bs = 28" by (simp add: memory_dp_codec.length_enc dp_codec.length_enc)
  then obtain m where "store_bytes (wmem w1) dp ?bs = Ret m"
    using store_bytes_iff_mapped [of "wmem w1" dp ?bs] assms(3) by auto
  then show ?thesis
    using assms by (simp add: create_memory_mapped_device_path_def malloc_def)
qed

text \<open>The path that is written, as the accessors read it.\<close>

lemma memory_mapped_path_written:
  assumes fresh: "fresh_block BS pool 28 w dp w1" and "dp \<noteq> 0"
  shows "\<exists>w'. create_memory_mapped_device_path BS pool address sz type w = Ret (dp, w')
    \<and> load_dp (wmem w') dp = Ret (mdp_hdr (memory_mapped_device_path address sz type))
    \<and> load_dp (wmem w') (dp + 24) = Ret end_device_path
    \<and> load_memory_dp (wmem w') dp = Ret (memory_mapped_device_path address sz type)
    \<and> dp_path (wmem w') dp [(dp, mdp_hdr (memory_mapped_device_path address sz type))]
    \<and> (\<forall>x. wmem w x \<noteq> None \<longrightarrow> wmem w' x = wmem w x)"
proof -
  let ?d = "memory_mapped_device_path address sz type"
  let ?bs = "put_memory_dp ?d @ put_dp end_device_path"
  have len: "length (put_memory_dp ?d) = 24" "length (put_dp end_device_path) = 4"
      "length ?bs = 28"
    by (simp_all add: memory_dp_codec.length_enc dp_codec.length_enc)
  have alloc: "allocate_pool BS pool 28 w = (EFI_SUCCESS, dp, w1)"
    and new: "\<And>x. in_range dp 28 x \<Longrightarrow> wmem w x = None"
    and there: "\<And>x. in_range dp 28 x \<Longrightarrow> wmem w1 x \<noteq> None"
    and keep: "\<And>x. wmem w x \<noteq> None \<Longrightarrow> wmem w1 x = wmem w x"
    using fresh unfolding fresh_block_def by auto
  have "mapped (wmem w1) dp 28" by (rule mapped_rangeI [OF there]) simp_all
  then obtain m where m: "store_bytes (wmem w1) dp ?bs = Ret m"
    and create: "create_memory_mapped_device_path BS pool address sz type w
      = Ret (dp, w1\<lparr>wmem := m\<rparr>)"
    using create_memory_mapped_returns [OF alloc assms(2), of address sz type] by blast
  have all: "load_bytes m dp 28 = Ret ?bs" using load_store_same [OF m] len by simp
  have "load_bytes m (dp + of_nat 0) 24 = Ret (put_memory_dp ?d)"
      "load_bytes m (dp + of_nat 24) 4 = Ret (put_dp end_device_path)"
      "load_bytes m (dp + of_nat 0) 4 = Ret (put_dp (mdp_hdr ?d))"
    using load_bytes_sub [OF all, of 0 24] load_bytes_sub [OF all, of 24 4]
      load_bytes_sub [OF all, of 0 4] len
    by (simp_all add: put_memory_dp_def [of ?d] dp_codec.length_enc)
  then have ld: "load_memory_dp m dp = Ret ?d" "load_dp m (dp + 24) = Ret end_device_path"
      "load_dp m dp = Ret (mdp_hdr ?d)"
    by (simp_all add: load_memory_dp_def load_dp_def memory_dp_codec.dec_enc dp_codec.dec_enc)
  have hdr: "mdp_hdr ?d = \<lparr>dp_type = HARDWARE_DEVICE_PATH, dp_subtype = HW_MEMMAP_DP, dp_length = 24\<rparr>"
    by (simp add: memory_mapped_device_path_def)
  have "dp_path m dp [(dp, mdp_hdr ?d)]"
  proof (rule dp_node [OF ld(3)])
    show "\<not> IsDevicePathEndNode (mdp_hdr ?d)"
      by (simp add: hdr IsDevicePathEndNode_def IsDevicePathNode_def HARDWARE_DEVICE_PATH_def
          END_DEVICE_PATH_TYPE_def)
    have "dp_path m (dp + 24) []"
      using dp_end [OF ld(2)]
      by (simp add: IsDevicePathEndNode_def IsDevicePathNode_def end_device_path_def)
    then show "dp_path m (NextDevicePathNode dp (mdp_hdr ?d)) []"
      by (simp add: hdr NextDevicePathNode_def)
  qed
  moreover have "m x = wmem w x" if "wmem w x \<noteq> None" for x
  proof -
    have "\<not> in_range dp 28 x" using new that by auto
    then show ?thesis using store_bytes_frame [OF m] len keep [OF that] by simp
  qed
  ultimately show ?thesis using ld create by simp
qed

lemma bump_fresh:
  fixes w :: "addr world"
  assumes "wmem w = Map.empty" and "fw w = 0x2000"
  shows "fresh_block bump_services 4 28 w 0x2000 (snd (snd (bump_alloc 4096 w)))"
proof -
  have sub: "in_range 0x2000 4096 x" if "in_range 0x2000 28 x" for x
    using that by (simp add: in_range_def)
  show ?thesis
    unfolding fresh_block_def using sub assms by (fastforce simp: bump_services_def bump_alloc_def)
qed



end
