(* ===== verification/Loaded_Image.thy ===== *)
theory Loaded_Image
  imports PE_Format
begin

text \<open>
  \<^verbatim>\<open>include/efi/loaded_image.h\<close>: the loaded image protocol and its layout on a 64-bit target
  (the three gaps that alignment leaves are padding, written as zeros), and the globals
  of \<^verbatim>\<open>include/efilib/externs.h\<close> that the loader reads. Pointers and function pointers are
  addresses.
\<close>

definition EFI_LOADED_IMAGE_PROTOCOL_REVISION :: u32 where
  "EFI_LOADED_IMAGE_PROTOCOL_REVISION = 0x1000"

record efi_loaded_image =
  li_revision :: u32
  li_parent_handle :: handle
  li_system_table :: addr
  li_device_handle :: handle
  li_file_path :: addr
  li_reserved :: addr
  li_load_options_size :: u32
  li_load_options :: addr
  li_image_base :: addr
  li_image_size :: size_t
  li_image_code_type :: u32
  li_image_data_type :: u32
  li_unload :: addr

definition put_loaded_image :: "efi_loaded_image \<Rightarrow> u8 list" where
  "put_loaded_image l =
     put_le (li_revision l) @ put_le (0 :: u32) @ put_le (li_parent_handle l)
     @ put_le (li_system_table l) @ put_le (li_device_handle l) @ put_le (li_file_path l)
     @ put_le (li_reserved l) @ put_le (li_load_options_size l) @ put_le (0 :: u32)
     @ put_le (li_load_options l) @ put_le (li_image_base l) @ put_le (li_image_size l)
     @ put_le (li_image_code_type l) @ put_le (li_image_data_type l) @ put_le (li_unload l)"

definition get_loaded_image :: "u8 list \<Rightarrow> efi_loaded_image" where
  "get_loaded_image bs = \<lparr>
     li_revision = get_le (field 0 4 bs),
     li_parent_handle = get_le (field 8 8 bs),
     li_system_table = get_le (field 16 8 bs),
     li_device_handle = get_le (field 24 8 bs),
     li_file_path = get_le (field 32 8 bs),
     li_reserved = get_le (field 40 8 bs),
     li_load_options_size = get_le (field 48 4 bs),
     li_load_options = get_le (field 56 8 bs),
     li_image_base = get_le (field 64 8 bs),
     li_image_size = get_le (field 72 8 bs),
     li_image_code_type = get_le (field 80 4 bs),
     li_image_data_type = get_le (field 84 4 bs),
     li_unload = get_le (field 88 8 bs)\<rparr>"

definition sizeof_loaded_image :: u64 where "sizeof_loaded_image = 96"

lemma length_put_loaded_image [simp]: "length (put_loaded_image l) = 96"
  by (simp add: put_loaded_image_def)

lemma get_put_loaded_image: "get_loaded_image (put_loaded_image l) = l"
  by (simp add: get_loaded_image_def put_loaded_image_def field_cons)

definition load_loaded_image :: "mem \<Rightarrow> addr \<Rightarrow> efi_loaded_image outcome" where
  "load_loaded_image m a = obind (load_bytes m a 96) (\<lambda>bs. Ret (get_loaded_image bs))"

lemma load_stored_loaded_image:
  assumes "store_bytes m a (put_loaded_image l) = Ret m'"
  shows "load_loaded_image m' a = Ret l"
  using load_store_same [OF assms] by (simp add: load_loaded_image_def get_put_loaded_image)

text \<open>The globals after \<open>initialize_library\<close>; \<open>EFI_LOADED_IMAGE\<close> is \<open>None\<close> while it is \<open>NULL\<close>.\<close>

record efilib_globals =
  EFI_IMAGE :: handle
  EFI_ROOT :: addr
  ST :: addr
  EFI_POOL_ALLOCATION :: u32
  EFI_LOADED_IMAGE :: "efi_loaded_image option"
  BOOT_TIME_USECS :: u64
  freq :: u64

end
