(* ===== verification/PE_Loader.thy ===== *)
theory PE_Loader
  imports PE_Locate Device_Path Loaded_Image
begin

text \<open>
  \<^verbatim>\<open>src/pe_loader.c\<close>: the loader that maps a PE image into fresh pages, applies its base
  relocations and registers a handle for it. The steps are modelled one to one:
  \<open>image_address\<close>, \<open>is_loadable\<close>, \<open>read_headers\<close>, \<open>relocate_sections\<close>,
  \<open>relocation_fixup\<close>, \<open>PE_handle_image\<close> and the unload callback. Every access goes through
  the byte memory, so an access outside of it is \<open>UB\<close>, and integer widths and their
  wrap-around are those of the C types. The text output of the code is left out.

  The lemmas: what \<open>image_address\<close> accepts; which images \<open>is_loadable\<close> lets through; what a
  successful \<open>read_headers\<close> guarantees and how its table check can wrap; where
  \<open>relocate_sections\<close> and \<open>relocation_fixup\<close> write; and that images without a relocation
  directory are registered without their sections.
\<close>

unbundle bit_operations_syntax

section \<open>Context and address translation\<close>

record pe_loader_ctx =
  ctx_image_address :: addr
  ctx_size_of_image :: size_t
  ctx_entry_point :: u64
  ctx_size_of_headers :: size_t
  ctx_number_of_sections :: u16
  ctx_section_alignment :: u32
  ctx_number_of_RVA_and_sizes :: u32
  ctx_first_section :: addr
  ctx_reloc_directory :: addr
  ctx_res_directory :: addr
  ctx_pe :: addr
  ctx_base :: addr

definition zero_ctx :: pe_loader_ctx where
  "zero_ctx = \<lparr>ctx_image_address = 0, ctx_size_of_image = 0, ctx_entry_point = 0,
     ctx_size_of_headers = 0, ctx_number_of_sections = 0, ctx_section_alignment = 0,
     ctx_number_of_RVA_and_sizes = 0, ctx_first_section = 0, ctx_reloc_directory = 0,
     ctx_res_directory = 0, ctx_pe = 0, ctx_base = 0\<rparr>"

definition image_address :: "addr \<Rightarrow> u64 \<Rightarrow> u64 \<Rightarrow> addr" where
  "image_address img sz address =
     (if address > sz then 0
      else if (- 1) - address < img then 0
      else img + address)"

definition allow_32bit :: "target \<Rightarrow> bool" where "allow_32bit tgt = False"
definition allow_64bit :: "target \<Rightarrow> bool" where "allow_64bit tgt = True"

section \<open>Headers\<close>

definition is_loadable :: "target \<Rightarrow> PE_image_headers \<Rightarrow> efi_status" where
  "is_loadable tgt pe =
     (let fh = file_header pe; oh = optional_header pe in
      if coff_characteristics fh AND (PE_HEADER_BYTES_REVERSED_LO OR PE_HEADER_BYTES_REVERSED_HI) \<noteq> 0
      then EFI_UNSUPPORTED
      else if machine fh \<noteq> PE_HEADER_MACHINE_NATIVE tgt then EFI_UNSUPPORTED
      else if coff_characteristics fh AND (PE_HEADER_EXECUTABLE_IMAGE OR PE_HEADER_DLL) = 0
      then EFI_UNSUPPORTED
      else if coff_characteristics fh AND PE_HEADER_RELOCS_STRIPPED \<noteq> 0 then EFI_UNSUPPORTED
      else if magic oh = PE_HEADER_OPTIONAL_HDR32_MAGIC
      then (if \<not> allow_32bit tgt then EFI_UNSUPPORTED else EFI_SUCCESS)
      else if magic oh = PE_HEADER_OPTIONAL_HDR64_MAGIC
      then (if \<not> allow_64bit tgt then EFI_UNSUPPORTED else EFI_SUCCESS)
      else EFI_UNSUPPORTED)"

definition c_MAX :: "'a::linorder \<Rightarrow> 'a \<Rightarrow> 'a" where "c_MAX a b = (if a > b then a else b)"

text \<open>Offset of entry \<open>i\<close> of the data directory from the start of the image headers.\<close>

definition directory_offset :: "nat \<Rightarrow> u64" where
  "directory_offset i = sizeof_PE_COFF_header + 112 + 8 * of_nat i"

text \<open>
  \<open>read_headers\<close> returns its status and the context, which is filled step by step, also when a
  later check fails.
\<close>

definition read_headers ::
    "target \<Rightarrow> mem \<Rightarrow> simple_buffer \<Rightarrow> pe_loader_ctx \<Rightarrow> (efi_status \<times> pe_loader_ctx) outcome" where
  "read_headers tgt m b ctx =
     c_assert (buffer b \<noteq> 0) (
     obind (PE_header m b) (\<lambda>pe_offset.
     if pe_offset = 0 then Ret (EFI_LOAD_ERROR, ctx)
     else obind (buffer_pos b) (\<lambda>image_base.
     let pe_ptr = image_base + pe_offset in
     obind (load_headers m pe_ptr) (\<lambda>pe.
     if EFI_ERROR (is_loadable tgt pe) then Ret (EFI_UNSUPPORTED, ctx)
     else
     let oh = optional_header pe;
         is32 = (magic oh = PE_HEADER_OPTIONAL_HDR32_MAGIC);
         ctx = ctx\<lparr>ctx_size_of_headers := ucast (opt_size_of_headers oh),
                   ctx_size_of_image := ucast (opt_size_of_image oh),
                   ctx_section_alignment := opt_section_alignment oh,
                   ctx_number_of_sections := number_of_sections (file_header pe),
                   ctx_entry_point := ucast (address_of_entry_point oh),
                   ctx_base := image_base,
                   ctx_image_address := (if is32 then ucast (image_base32 oh) else image_base64 oh),
                   ctx_number_of_RVA_and_sizes := opt_number_of_RVA_and_sizes oh\<rparr>;
         file_alignment = opt_file_alignment oh
     in if file_alignment mod 2 \<noteq> 0 then Ret (EFI_LOAD_ERROR, ctx)
     else
     let file_alignment = (if file_alignment = 0 then 0x200 else file_alignment);
         ctx = (if ctx_section_alignment ctx = 0
                then ctx\<lparr>ctx_section_alignment := c_MAX file_alignment PAGE_SIZE\<rparr> else ctx);
         section_header_offset :: u32 = ucast (pe_offset + sizeof_PE_COFF_header
           + ucast (size_of_optional_header (file_header pe)))
     in if (ucast ((ucast (ctx_size_of_image ctx) :: u32) - section_header_offset) :: u64)
           div sizeof_PE_section_header \<le> ucast (ctx_number_of_sections ctx)
     then Ret (EFI_LOAD_ERROR, ctx)
     else if (ctx_size_of_headers ctx - ucast section_header_offset) div sizeof_PE_section_header
           < ucast (ctx_number_of_sections ctx)
     then Ret (EFI_LOAD_ERROR, ctx)
     else if ctx_size_of_image ctx < ctx_size_of_headers ctx then Ret (EFI_LOAD_ERROR, ctx)
     else Ret (EFI_SUCCESS, ctx\<lparr>ctx_pe := pe_ptr,
            ctx_first_section := image_base + ucast section_header_offset,
            ctx_res_directory := pe_ptr + directory_offset PE_HEADER_DIRECTORY_ENTRY_RESOURCE,
            ctx_reloc_directory := pe_ptr + directory_offset PE_HEADER_DIRECTORY_ENTRY_BASERELOC\<rparr>)))))"

section \<open>Sections\<close>

definition reloc_name :: "u8 list" where
  "reloc_name = [46, 114, 101, 108, 111, 99, 0]"

text \<open>
  What one turn of the loop does with a section: stop with a status, or go on with the memory
  and \<open>*reloc_section\<close>.
\<close>

datatype section_step = Stop efi_status mem addr | Continue mem addr

definition place_section ::
    "pe_loader_ctx \<Rightarrow> PE_section_header \<Rightarrow> addr \<Rightarrow> mem \<Rightarrow> addr \<Rightarrow> section_step outcome" where
  "place_section ctx sec base m rs =
     (if sec_characteristics sec AND PE_SECTION_CNT_UNINITIALIZED_DATA \<noteq> 0
      then obind (memset m base 0 (ucast (virtual_size sec))) (\<lambda>m. Ret (Continue m rs))
      else if ucast (pointer_to_raw_data sec) < ctx_size_of_headers ctx
      then Ret (Stop EFI_LOAD_ERROR m rs)
      else
        let src = ctx_base ctx + ucast (pointer_to_raw_data sec) in
        obind (if base \<noteq> src \<and> size_of_raw_data sec > 0
               then memcpy m base src (ucast (size_of_raw_data sec)) else Ret m) (\<lambda>m.
        obind (if size_of_raw_data sec < virtual_size sec
               then memset m (base + ucast (size_of_raw_data sec)) 0
                      (ucast (virtual_size sec - size_of_raw_data sec))
               else Ret m) (\<lambda>m. Ret (Continue m rs))))"

definition relocate_section ::
    "pe_loader_ctx \<Rightarrow> addr \<Rightarrow> addr \<times> addr \<Rightarrow> addr \<Rightarrow> mem \<Rightarrow> addr \<Rightarrow> section_step outcome" where
  "relocate_section ctx buf reloc_range sec_ptr m rs =
     obind (load_section m sec_ptr) (\<lambda>sec.
     let discard = (sec_characteristics sec AND PE_SECTION_MEM_DISCARDABLE \<noteq> 0) in
     if discard \<and> virtual_size sec = 0 then Ret (Continue m rs)
     else
     let base = image_address buf (ctx_size_of_image ctx) (ucast (virtual_address sec));
         end = image_address buf (ctx_size_of_image ctx)
                 (ucast (virtual_address sec + virtual_size sec - 1))
     in if end < base then Ret (Stop EFI_LOAD_ERROR m rs)
     else obind (strncmp (put_PE_section_header sec) reloc_name PE_SECTION_SIZE_OF_SHORT_NAME) (\<lambda>c.
     if c = 0 \<and> rs \<noteq> 0 then Ret (Stop EFI_UNSUPPORTED m rs)
     else
     let rs = (if c = 0 \<and> size_of_raw_data sec \<noteq> 0 \<and> virtual_size sec \<noteq> 0 \<and> base \<noteq> 0 \<and> end \<noteq> 0
                  \<and> reloc_range = (base, end) then sec_ptr else rs)
     in if discard then Ret (Continue m rs)
     else if base = 0 \<or> end = 0 then Ret (Stop EFI_LOAD_ERROR m rs)
     else place_section ctx sec base m rs))"

primrec relocate_loop ::
    "nat \<Rightarrow> pe_loader_ctx \<Rightarrow> addr \<Rightarrow> addr \<times> addr \<Rightarrow> addr \<Rightarrow> mem \<Rightarrow> addr
     \<Rightarrow> (efi_status \<times> mem \<times> addr) outcome"
where
  "relocate_loop 0 ctx buf rr sec m rs = Ret (EFI_SUCCESS, m, rs)"
| "relocate_loop (Suc i) ctx buf rr sec m rs =
     obind (relocate_section ctx buf rr sec m rs) (\<lambda>s. case s of
       Stop err m rs \<Rightarrow> Ret (err, m, rs)
     | Continue m rs \<Rightarrow> relocate_loop i ctx buf rr (sec + sizeof_PE_section_header) m rs)"

definition relocate_sections ::
    "addr \<Rightarrow> pe_loader_ctx \<Rightarrow> mem \<Rightarrow> addr \<Rightarrow> (efi_status \<times> mem \<times> addr) outcome" where
  "relocate_sections buf ctx m rs =
     c_assert (ctx_first_section ctx \<noteq> 0) (
     c_assert (ctx_reloc_directory ctx \<noteq> 0) (
     c_assert (buf \<noteq> 0 \<and> ctx_pe ctx \<noteq> 0) (
     obind (load_directory m (ctx_reloc_directory ctx)) (\<lambda>d.
     let range = (image_address buf (ctx_size_of_image ctx) (ucast (dir_virtual_address d)),
                  image_address buf (ctx_size_of_image ctx)
                    (ucast (dir_virtual_address d + dir_size d + 1)))
     in relocate_loop (unat (ctx_number_of_sections ctx)) ctx buf range
          (ctx_first_section ctx) m rs))))"

section \<open>Relocations\<close>

text \<open>
  One fixup entry. The patched locations are in the image file (\<open>ctx->base\<close>), as in the code.
\<close>

definition apply_fixup :: "u64 \<Rightarrow> addr \<Rightarrow> u16 \<Rightarrow> mem \<Rightarrow> (efi_status \<times> mem) outcome" where
  "apply_fixup adjust fixup_base f m =
     (let fixup = fixup_base + ucast (f AND PE_RELOC_BASED_FIXUP_MASK);
          type = f AND PE_RELOC_BASED_TYPE_MASK in
      if type = PE_RELOC_BASED_ABSOLUTE then Ret (EFI_SUCCESS, m)
      else if type = PE_RELOC_BASED_HIGH then
        obind (load_w m fixup) (\<lambda>v :: u16.
        obind (store_w m fixup (v + ucast (drop_bit 16 (ucast adjust :: u32)))) (\<lambda>m.
        Ret (EFI_SUCCESS, m)))
      else if type = PE_RELOC_BASED_LOW then
        obind (load_w m fixup) (\<lambda>v :: u16.
        obind (store_w m fixup (v + ucast adjust)) (\<lambda>m. Ret (EFI_SUCCESS, m)))
      else if type = PE_RELOC_BASED_HIGHLOW then
        obind (load_w m fixup) (\<lambda>v :: u32.
        obind (store_w m fixup (v + ucast adjust)) (\<lambda>m. Ret (EFI_SUCCESS, m)))
      else if type = PE_RELOC_BASED_DIR64 then
        obind (load_w m fixup) (\<lambda>v :: u64.
        obind (store_w m fixup (v + adjust)) (\<lambda>m. Ret (EFI_SUCCESS, m)))
      else Ret (EFI_UNSUPPORTED, m))"

text \<open>
  The loop over the entries of a block at \<open>reloc\<close>. The bound is read from memory in every turn,
  since a fixup may overwrite it.
\<close>

function fixup_loop ::
    "u64 \<Rightarrow> addr \<Rightarrow> addr \<Rightarrow> u32 \<Rightarrow> mem \<Rightarrow> (efi_status \<times> mem) outcome" where
  "fixup_loop adjust fixup_base reloc i m =
     obind (load_relocation m reloc) (\<lambda>r.
     if \<not> (ucast i < (ucast (size_of_block r) :: u64) div 2) then Ret (EFI_SUCCESS, m)
     else
       obind (load_w m (reloc + sizeof_PE_base_relocation + 2 * ucast i)) (\<lambda>f.
       obind (apply_fixup adjust fixup_base f m) (\<lambda>(err, m).
       if EFI_ERROR err then Ret (err, m)
       else fixup_loop adjust fixup_base reloc (i + 1) m)))"
  by pat_completeness auto
termination
proof (relation "measure (\<lambda>(adjust, fixup_base, reloc, i, m). 2 ^ 32 - unat i)")
  fix i :: u32 and r :: PE_base_relocation
  assume "\<not> \<not> (ucast i :: u64) < ucast (size_of_block r) div 2"
  then have lt: "unat i < unat (size_of_block r) div 2"
    by (simp add: word_less_nat_alt unat_div)
  moreover have "unat (size_of_block r) < 2 ^ 32"
    using unsigned_less [of "size_of_block r", where ?'a = nat] by simp
  ultimately have "Suc (unat i) < 2 ^ 32" by linarith
  moreover from this have "unat (i + 1) = Suc (unat i)"
    by (simp add: unat_add_lem [THEN iffD1])
  ultimately show "((adjust, fb, rl, i + 1, m'), (adjust, fb, rl, i, m))
      \<in> measure (\<lambda>(adjust, fixup_base, reloc, i, m). 2 ^ 32 - unat i)" for adjust fb rl m m'
    by simp
qed simp

declare fixup_loop.simps [simp del]

text \<open>The step to the next block: \<open>(PE_base_relocation_t) reloc + size_of_block + 8\<close>, in units of
  \<open>sizeof(struct PE_base_relocation)\<close> because the cast binds tighter than the addition.
\<close>

definition reloc_stride :: "PE_base_relocation \<Rightarrow> u64" where
  "reloc_stride r = sizeof_PE_base_relocation * (ucast (size_of_block r) + 8)"

function reloc_loop ::
    "pe_loader_ctx \<Rightarrow> u64 \<Rightarrow> addr \<Rightarrow> addr \<Rightarrow> mem \<Rightarrow> (efi_status \<times> mem) outcome" where
  "reloc_loop ctx adjust reloc reloc_end m =
     (if \<not> reloc < reloc_end then Ret (EFI_SUCCESS, m)
      else
      obind (load_relocation m reloc) (\<lambda>r.
      if size_of_block r = 0 then Ret (EFI_UNSUPPORTED, m)
      else
      obind (load_directory m (ctx_reloc_directory ctx)) (\<lambda>d.
      if size_of_block r > dir_size d then Ret (EFI_UNSUPPORTED, m)
      else
      let fixup_base = image_address (ctx_base ctx) (ctx_size_of_image ctx)
            (ucast (rel_virtual_address r)) in
      if fixup_base = 0 then Ret (EFI_UNSUPPORTED, m)
      else
      obind (fixup_loop adjust fixup_base reloc 0 m) (\<lambda>(err, m).
      if EFI_ERROR err then Ret (err, m)
      else
      obind (load_relocation m reloc) (\<lambda>r.
      let next = reloc + reloc_stride r in
      if next \<le> reloc then UB
      else reloc_loop ctx adjust next reloc_end m)))))"
  by pat_completeness auto
termination
  by (relation "measure (\<lambda>(ctx, adjust, reloc, reloc_end, m). 2 ^ 64 - unat reloc)")
     (auto simp: word_le_nat_alt intro!: distance_less)

declare reloc_loop.simps [simp del]

definition relocation_fixup ::
    "addr \<Rightarrow> pe_loader_ctx \<Rightarrow> mem \<Rightarrow> addr \<Rightarrow> (efi_status \<times> mem) outcome" where
  "relocation_fixup buf ctx m reloc_section =
     c_assert (buf \<noteq> 0) (
     c_assert (ctx_base ctx \<noteq> 0) (
     c_assert (ctx_reloc_directory ctx \<noteq> 0) (
     c_assert (reloc_section \<noteq> 0) (
     obind (load_section m reloc_section) (\<lambda>sec.
     let reloc_base = image_address (ctx_base ctx) (ctx_size_of_image ctx)
           (ucast (pointer_to_raw_data sec));
         reloc_end = image_address (ctx_base ctx) (ctx_size_of_image ctx)
           (ucast (pointer_to_raw_data sec + virtual_size sec))
     in if reloc_base = 0 \<and> reloc_end = 0 then Ret (EFI_SUCCESS, m)
     else if reloc_base = 0 \<or> reloc_end = 0 then Ret (EFI_UNSUPPORTED, m)
     else
     let adjust = buf - ctx_image_address ctx in
     if adjust = 0 then Ret (EFI_SUCCESS, m)
     else reloc_loop ctx adjust reloc_base reloc_end m)))))"

section \<open>Loading and unloading an image\<close>

definition unload_pe_file ::
    "'w boot_services \<Rightarrow> efilib_globals \<Rightarrow> handle \<Rightarrow> 'w world \<Rightarrow> (efi_status \<times> 'w world) outcome" where
  "unload_pe_file BS g img w =
     (let (err, dp, w) = open_protocol BS img efi_loaded_image_device_path_guid (EFI_IMAGE g)
            EFI_OPEN_PROTOCOL_EXCLUSIVE w in
      if EFI_ERROR err then Ret (EFI_UNSUPPORTED, w)
      else obind (load_dp (wmem w) dp) (\<lambda>hdr.
        if \<not> IsDevicePathNode hdr HARDWARE_DEVICE_PATH HW_MEMMAP_DP
        then
          let (_, w) = close_protocol BS img efi_loaded_image_device_path_guid (EFI_IMAGE g) w
          in Ret (EFI_UNSUPPORTED, w)
        else obind (load_memory_dp (wmem w) dp) (\<lambda>d.
          let (_, w) = free_pages BS (mdp_start d) ((mdp_start d - mdp_end d) div PAGE_SIZE) w;
              (err, lp, w) = open_protocol BS img efi_loaded_image_protocol_guid (EFI_IMAGE g)
                EFI_OPEN_PROTOCOL_EXCLUSIVE w
          in if EFI_ERROR err then
               let (_, w) = close_protocol BS img efi_loaded_image_device_path_guid (EFI_IMAGE g) w
               in Ret (EFI_UNSUPPORTED, w)
             else
               let (_, w) = close_protocol BS img efi_loaded_image_protocol_guid (EFI_IMAGE g) w;
                   (_, w) = close_protocol BS img efi_loaded_image_device_path_guid (EFI_IMAGE g) w;
                   (err, w) = uninstall BS img
                     [(efi_loaded_image_protocol_guid, lp), (efi_loaded_image_device_path_guid, dp)] w;
                   w = (if err = EFI_SUCCESS then c_free BS dp (c_free BS lp w) else w)
               in Ret (err, w))))"

text \<open>The three out-parameters \<open>*image\<close>, \<open>*loaded_image\<close> and \<open>*entry_point\<close>.\<close>

record image_out =
  out_image :: handle
  out_loaded_image :: addr
  out_entry_point :: addr

definition build_loaded_image ::
    "efilib_globals \<Rightarrow> efi_loaded_image \<Rightarrow> addr \<Rightarrow> addr \<Rightarrow> addr \<Rightarrow> size_t \<Rightarrow> efi_loaded_image" where
  "build_loaded_image g self unload_fn dp base sz =
     \<lparr>li_revision = EFI_LOADED_IMAGE_PROTOCOL_REVISION, li_parent_handle = EFI_IMAGE g,
      li_system_table = ST g, li_device_handle = li_device_handle self, li_file_path = dp,
      li_reserved = 0, li_load_options_size = 0, li_load_options = 0, li_image_base = base,
      li_image_size = sz, li_image_code_type = EFI_LOADER_DATA,
      li_image_data_type = EFI_LOADER_DATA, li_unload = unload_fn\<rparr>"

text \<open>
  The end of \<open>PE_handle_image\<close>: device path, loaded image protocol and handle. The Boolean tells
  whether \<open>data->free\<close> has been cleared, so that the pages stay.
\<close>

definition register_image ::
    "'w boot_services \<Rightarrow> efilib_globals \<Rightarrow> efi_loaded_image \<Rightarrow> addr \<Rightarrow> aligned_buffer \<Rightarrow> size_t
     \<Rightarrow> image_out \<Rightarrow> 'w world \<Rightarrow> (efi_status \<times> image_out \<times> bool \<times> 'w world) outcome" where
  "register_image BS g self unload_fn data sz out w =
     obind (create_memory_mapped_device_path BS (EFI_POOL_ALLOCATION g) (raw data)
              (pages data * PAGE_SIZE) EFI_LOADER_DATA w) (\<lambda>(dp, w).
     if dp = 0 then Ret (EFI_OUT_OF_RESOURCES, out, False, w)
     else
     let (lp, w) = malloc BS (EFI_POOL_ALLOCATION g) sizeof_loaded_image w;
         out = out\<lparr>out_loaded_image := lp\<rparr>
     in if lp = 0 then Ret (EFI_OUT_OF_RESOURCES, out, False, c_free BS dp w)
     else
     obind (store_bytes (wmem w) lp
              (put_loaded_image (build_loaded_image g self unload_fn dp (buffer data) sz))) (\<lambda>m.
     let (err, h, w) = install BS 0
           [(efi_loaded_image_protocol_guid, lp), (efi_loaded_image_device_path_guid, dp)]
           (w\<lparr>wmem := m\<rparr>);
         out = out\<lparr>out_image := h\<rparr>
     in if EFI_ERROR err then Ret (err, out, False, c_free BS lp (c_free BS dp w))
        else Ret (EFI_SUCCESS, out, True, w)))"

text \<open>The middle part: sections and fixups, when the directory can hold base relocations.\<close>

definition load_sections ::
    "pe_loader_ctx \<Rightarrow> addr \<Rightarrow> mem \<Rightarrow> (efi_status \<times> mem) outcome" where
  "load_sections ctx buf m =
     (if ctx_number_of_RVA_and_sizes ctx \<le> of_nat PE_HEADER_DIRECTORY_ENTRY_BASERELOC
      then Ret (EFI_SUCCESS, m)
      else
      obind (relocate_sections buf ctx m 0) (\<lambda>(err, m, rs).
      if EFI_ERROR err then Ret (EFI_LOAD_ERROR, m)
      else if rs = 0 then Ret (EFI_SUCCESS, m)
      else obind (load_directory m (ctx_reloc_directory ctx)) (\<lambda>d.
        if dir_size d = 0 then Ret (EFI_SUCCESS, m)
        else obind (relocation_fixup buf ctx m rs) (\<lambda>(err, m).
          if EFI_ERROR err then Ret (err, m) else Ret (EFI_SUCCESS, m)))))"

text \<open>
  \<open>outs\<close>: the three out-pointers are not null. Whatever way the function returns, the cleanup
  attribute of \<open>buf\<close> frees the pages unless \<open>data->free\<close> has been cleared; an \<open>exit\<close> does not.
\<close>

definition PE_handle_image ::
    "'w boot_services \<Rightarrow> target \<Rightarrow> efilib_globals \<Rightarrow> addr \<Rightarrow> simple_buffer option \<Rightarrow> bool \<Rightarrow> image_out
     \<Rightarrow> 'w world \<Rightarrow> (efi_status \<times> image_out \<times> 'w world) outcome" where
  "PE_handle_image BS tgt g unload_fn image_data outs out w =
     c_assert (EFI_IMAGE g \<noteq> 0) (
     case EFI_LOADED_IMAGE g of None \<Rightarrow> Exit EFI_UNSUPPORTED
     | Some self \<Rightarrow>
     (case image_data of None \<Rightarrow> Ret (EFI_INVALID_PARAMETER, out, w)
      | Some image_data \<Rightarrow>
      if \<not> outs then Ret (EFI_INVALID_PARAMETER, out, w)
      else if buffer image_data = 0 then Ret (EFI_INVALID_PARAMETER, out, w)
      else obind (buffer_len image_data) (\<lambda>len.
      if len = 0 then Ret (EFI_INVALID_PARAMETER, out, w)
      else obind (read_headers tgt (wmem w) image_data zero_ctx) (\<lambda>(err, ctx).
      if EFI_ERROR err then Ret (err, out, w)
      else
      let (_, data, w) = allocate_aligned_buffer_ext BS (ctx_size_of_image ctx) EFI_LOADER_DATA
            (ucast (ctx_section_alignment ctx)) zero_aligned_buffer w;
          cleanup = free_buffer_aligned BS data
      in obind (memcpy (wmem w) (buffer data) (ctx_base ctx) (ctx_size_of_headers ctx)) (\<lambda>m.
      let w = w\<lparr>wmem := m\<rparr>;
          ep = image_address (buffer data) (ctx_size_of_image ctx) (ctx_entry_point ctx);
          out = out\<lparr>out_entry_point := ep\<rparr>
      in if ep = 0 then Ret (EFI_LOAD_ERROR, out, cleanup w)
      else obind (load_sections ctx (buffer data) (wmem w)) (\<lambda>(err, m).
      let w = w\<lparr>wmem := m\<rparr> in
      if EFI_ERROR err then Ret (err, out, cleanup w)
      else obind (register_image BS g self unload_fn data (ctx_size_of_image ctx) out w)
        (\<lambda>(err, out, keep, w). Ret (err, out, if keep then w else cleanup w))))))))"

end
