(* ===== verification/PE_Loader_Props.thy ===== *)
theory PE_Loader_Props
  imports PE_Loader
begin

text \<open>
  Properties of the loader of \<^theory_text>\<open>PE_Loader\<close>: what \<open>image_address\<close> accepts, what the header
  checks guarantee and where they wrap around, what a placed section holds and where the
  section loop and the fixups write, and what a whole load leaves behind on success and on
  error.
\<close>

unbundle bit_operations_syntax

section \<open>What the header checks guarantee\<close>

lemma is_loadable_cases: "is_loadable tgt pe = EFI_SUCCESS \<or> is_loadable tgt pe = EFI_UNSUPPORTED"
  by (auto simp: is_loadable_def Let_def)

lemma is_loadable_success:
  "is_loadable tgt pe = EFI_SUCCESS \<longleftrightarrow>
     machine (file_header pe) = PE_HEADER_MACHINE_NATIVE tgt
     \<and> magic (optional_header pe) = PE_HEADER_OPTIONAL_HDR64_MAGIC
     \<and> coff_characteristics (file_header pe)
         AND (PE_HEADER_BYTES_REVERSED_LO OR PE_HEADER_BYTES_REVERSED_HI) = 0
     \<and> coff_characteristics (file_header pe) AND (PE_HEADER_EXECUTABLE_IMAGE OR PE_HEADER_DLL) \<noteq> 0
     \<and> coff_characteristics (file_header pe) AND PE_HEADER_RELOCS_STRIPPED = 0"
  by (auto simp: is_loadable_def Let_def allow_32bit_def allow_64bit_def
      PE_HEADER_OPTIONAL_HDR32_MAGIC_def PE_HEADER_OPTIONAL_HDR64_MAGIC_def)

definition table_offset :: "size_t \<Rightarrow> PE_image_headers \<Rightarrow> u32" where
  "table_offset off pe =
     ucast (off + sizeof_PE_COFF_header + ucast (size_of_optional_header (file_header pe)))"

lemma c_MAX_page: "c_MAX (a :: u32) PAGE_SIZE \<noteq> 0"
  by (auto simp: c_MAX_def PAGE_SIZE_def)

lemma read_headers_success:
  assumes "read_headers tgt m b ctx0 = Ret (EFI_SUCCESS, ctx)"
  shows "\<exists>off pe. off \<noteq> 0 \<and> PE_header m b = Ret off
    \<and> load_headers m (ctx_base ctx + off) = Ret pe \<and> is_loadable tgt pe = EFI_SUCCESS
    \<and> ctx_base ctx = buffer b + bpos b
    \<and> ctx_first_section ctx = ctx_base ctx + ucast (table_offset off pe)
    \<and> ctx_size_of_image ctx = ucast (opt_size_of_image (optional_header pe))
    \<and> ctx_size_of_headers ctx = ucast (opt_size_of_headers (optional_header pe))
    \<and> ctx_number_of_sections ctx = number_of_sections (file_header pe)
    \<and> ctx_section_alignment ctx \<noteq> 0
    \<and> \<not> (ctx_size_of_headers ctx - ucast (table_offset off pe)) div sizeof_PE_section_header
          < ucast (ctx_number_of_sections ctx)
    \<and> \<not> ctx_size_of_image ctx < ctx_size_of_headers ctx"
proof -
  from assms obtain off pe where off: "off \<noteq> 0" "PE_header m b = Ret off"
    and p: "buffer_pos b = Ret (buffer b + bpos b)"
    and pe: "load_headers m (buffer b + bpos b + off) = Ret pe"
    and ok: "\<not> EFI_ERROR (is_loadable tgt pe)"
    by (auto simp: read_headers_def outcome_iff Let_def buffer_pos_def split: if_splits)
  have ok: "is_loadable tgt pe = EFI_SUCCESS"
    using ok is_loadable_cases [of tgt pe] by auto
  show ?thesis
    using assms off p pe ok
    by (intro exI [of _ off] exI [of _ pe])
      (auto simp: read_headers_def outcome_iff Let_def table_offset_def c_MAX_page
        split: if_splits)
qed


text \<open>
  The check of the section table wraps around: with a \<open>size_of_headers\<close> smaller than the
  offset of the table it passes for every number of sections, so a table outside the
  headers is accepted.
\<close>

theorem read_headers_table_wraps:
  assumes "buffer b \<noteq> 0" and "PE_header m b = Ret off" and "off \<noteq> 0"
    and "bpos b < allocated b"
    and "load_headers m (buffer b + bpos b + off) = Ret pe" and "is_loadable tgt pe = EFI_SUCCESS"
    and "opt_file_alignment (optional_header pe) mod 2 = 0"
    and "opt_size_of_headers (optional_header pe) < table_offset off pe"
    and "table_offset off pe \<le> opt_size_of_image (optional_header pe)"
    and "unat (number_of_sections (file_header pe))
           < (unat (opt_size_of_image (optional_header pe)) - unat (table_offset off pe)) div 40"
  shows "\<exists>ctx. read_headers tgt m b zero_ctx = Ret (EFI_SUCCESS, ctx)
    \<and> ctx_size_of_headers ctx < ucast (table_offset off pe)"
proof -
  let ?t = "table_offset off pe"
  let ?soi = "opt_size_of_image (optional_header pe)"
  let ?soh = "opt_size_of_headers (optional_header pe)"
  let ?n = "number_of_sections (file_header pe)"
  have "unat (?soi - ?t) = unat ?soi - unat ?t"
    using assms(9) by (simp add: unat_sub)
  then have c1: "\<not> (ucast ((ucast (ucast ?soi :: u64) :: u32) - ?t) :: u64)
      div sizeof_PE_section_header \<le> ucast ?n"
    using assms(10) by (simp add: word_le_nat_alt unat_div sizeof_PE_section_header_def)
  have h: "unat ?soh < unat ?t" using assms(8) by (simp add: word_less_nat_alt)
  have n: "unat ?n < 2 ^ 16" and t: "unat ?t < 2 ^ 32"
    using unsigned_less [of ?n, where ?'a = nat] unsigned_less [of ?t, where ?'a = nat] by simp_all
  have "unat (ucast ?soh - ucast ?t :: u64) = 2 ^ 64 + unat ?soh - unat ?t"
    using h by (simp add: unat_sub_if_size word_size)
  moreover have "40 * 2 ^ 16 \<le> (2 ^ 64 + unat ?soh - unat ?t :: nat)" using t by simp
  then have "2 ^ 16 \<le> (2 ^ 64 + unat ?soh - unat ?t :: nat) div 40"
    by (simp add: less_eq_div_iff_mult_less_eq)
  ultimately have c2: "\<not> (ucast ?soh - ucast ?t :: u64) div sizeof_PE_section_header < ucast ?n"
    using n by (simp add: word_less_nat_alt unat_div sizeof_PE_section_header_def)
  have c3: "\<not> (ucast ?soi :: u64) < ucast ?soh"
    using assms(9) h by (simp add: word_less_nat_alt word_le_nat_alt)
  show ?thesis
    using assms(1-7) c1 c2 c3 h
    by (simp add: read_headers_def buffer_pos_def Let_def table_offset_def [symmetric]
        word_less_nat_alt)
qed


theorem read_headers_table_wraps_witness:
  "\<exists>h ctx. read_headers X86_64 (place 0x1000 (sample_image h))
       \<lparr>buffer = 0x1000, blength = 368, bpos = 0, allocated = 368, bfree = Free_None\<rparr> zero_ctx
       = Ret (EFI_SUCCESS, ctx)
     \<and> ctx_size_of_headers ctx < ucast (table_offset 0x40 h)"
proof -
  let ?h = "sample_headers\<lparr>optional_header :=
    (optional_header sample_headers)\<lparr>opt_size_of_headers := 0\<rparr>\<rparr>"
  let ?b = "\<lparr>buffer = 0x1000, blength = 368, bpos = 0, allocated = 368, bfree = Free_None\<rparr>"
  let ?m = "place 0x1000 (sample_image ?h)"
  have ok: "sample_ok ?h"
    using sample_wf(1) by (simp add: sample_ok_def wf_image_headers_def wf_optional_header_def)
  have "\<exists>ctx. read_headers X86_64 ?m ?b zero_ctx = Ret (EFI_SUCCESS, ctx)
      \<and> ctx_size_of_headers ctx < ucast (table_offset 0x40 ?h)"
  proof (rule read_headers_table_wraps)
    show "PE_header ?m ?b = Ret 0x40" by (simp add: sample_PE_header ok)
    show "load_headers ?m (buffer ?b + bpos ?b + 0x40) = Ret ?h"
      using sample_loads(4) [OF ok, of "0x1000"] by simp
  qed (simp_all add: is_loadable_success PE_HEADER_MACHINE_AMD64_def
      PE_HEADER_OPTIONAL_HDR64_MAGIC_def PE_HEADER_BYTES_REVERSED_LO_def
      PE_HEADER_BYTES_REVERSED_HI_def PE_HEADER_EXECUTABLE_IMAGE_def PE_HEADER_DLL_def
      PE_HEADER_RELOCS_STRIPPED_def table_offset_def sizeof_PE_COFF_header_def)
  then show ?thesis by blast
qed

section \<open>Translation of addresses\<close>

text \<open>
  \<open>image_address\<close> accepts exactly the offsets up to and including the size of the image for
  which the sum stays in the address space; one byte past the end is accepted.
\<close>

theorem image_address_eq:
  "image_address img sz a =
     (if unat a \<le> unat sz \<and> unat img + unat a < 2 ^ 64 then img + a else 0)"
proof -
  have "unat (- 1 - a) = 2 ^ 64 - 1 - unat a"
    by (subst unat_sub) (simp_all add: unsigned_minus_1_eq_mask mask_eq_exp_minus_1)
  moreover have "unat a < 2 ^ 64" using unsigned_less [of a, where ?'a = nat] by simp
  ultimately have "(- 1) - a < img \<longleftrightarrow> \<not> unat img + unat a < 2 ^ 64"
    by (auto simp: word_less_nat_alt)
  then show ?thesis by (simp add: image_address_def word_less_nat_alt linorder_not_less)
qed

lemma image_address_nonzero:
  assumes "image_address img sz a \<noteq> 0"
  shows "image_address img sz a = img + a" "unat a \<le> unat sz"
    "unat (image_address img sz a) = unat img + unat a"
proof -
  have "unat (- 1 - a) = 2 ^ 64 - 1 - unat a"
    by (subst unat_sub) (simp_all add: unsigned_minus_1_eq_mask mask_eq_exp_minus_1)
  moreover have "\<not> a > sz" "\<not> - 1 - a < img" "image_address img sz a = img + a"
    using assms by (auto simp: image_address_def split: if_splits)
  moreover have "unat a < 2 ^ 64" using unsigned_less [of a, where ?'a = nat] by simp
  ultimately show "image_address img sz a = img + a" "unat a \<le> unat sz"
      "unat (image_address img sz a) = unat img + unat a"
    by (auto simp: word_less_nat_alt unat_add_lem [THEN iffD1])
qed

section \<open>Where sections are written\<close>

lemma place_section_frame:
  assumes st: "place_section ctx sec base m rs = Ret (Continue m' rs')"
    and small: "sec_characteristics sec AND PE_SECTION_CNT_UNINITIALIZED_DATA = 0 \<longrightarrow>
      unat (size_of_raw_data sec) \<le> unat (virtual_size sec)"
    and out: "\<not> in_range base (unat (virtual_size sec)) x"
  shows "m' x = m x"
proof (cases "sec_characteristics sec AND PE_SECTION_CNT_UNINITIALIZED_DATA = 0")
  case False
  then show ?thesis using st out
    by (auto simp: place_section_def outcome_iff dest: memset_frame)
next
  case True
  let ?vs = "virtual_size sec" and ?rs = "size_of_raw_data sec"
  let ?src = "ctx_base ctx + ucast (pointer_to_raw_data sec)"
  have rs: "unat ?rs \<le> unat ?vs" using small True by simp
  from st True obtain m1 where
    m1: "(if base \<noteq> ?src \<and> ?rs > 0 then memcpy m base ?src (ucast ?rs) else Ret m) = Ret m1" and
    m2: "(if ?rs < ?vs then memset m1 (base + ucast ?rs) 0 (ucast (?vs - ?rs)) else Ret m1) = Ret m'"
    by (auto simp: place_section_def outcome_iff Let_def split: if_splits)
  have "\<not> in_range base (unat (ucast ?rs :: u64)) x"
    using out rs in_range_mono [of base "unat ?rs" x "unat ?vs"] by auto
  then have "m1 x = m x" using m1 memcpy_frame by (auto split: if_splits)
  moreover have "m' x = m1 x"
  proof (cases "?rs < ?vs")
    case True
    then have "unat (?vs - ?rs) = unat ?vs - unat ?rs"
      by (simp add: unat_sub order.strict_implies_order)
    then have "\<not> in_range (base + ucast ?rs) (unat (ucast (?vs - ?rs) :: u64)) x"
      using out rs in_range_shift [of base "ucast ?rs" "unat (?vs - ?rs)" x] by auto
    then show ?thesis using m2 True memset_frame by auto
  qed (use m2 in auto)
  ultimately show ?thesis by simp
qed

lemma place_section_stop: "place_section ctx sec base m rs = Ret (Stop err m' rs') \<Longrightarrow> m' = m"
  by (auto simp: place_section_def outcome_iff Let_def split: if_splits)

definition section_fits :: "PE_section_header \<Rightarrow> bool" where
  "section_fits sec \<longleftrightarrow>
     (sec_characteristics sec AND PE_SECTION_CNT_UNINITIALIZED_DATA = 0 \<longrightarrow>
        unat (size_of_raw_data sec) \<le> unat (virtual_size sec))"

lemma section_range:
  fixes va vs :: u32
  assumes base: "image_address buf sz (ucast va) \<noteq> 0"
    and last: "image_address buf sz (ucast (va + vs - 1)) \<noteq> 0"
    and le: "\<not> image_address buf sz (ucast (va + vs - 1)) < image_address buf sz (ucast va)"
    and x: "in_range (image_address buf sz (ucast va)) (unat vs) x"
  shows "in_range buf (unat sz + 1) x"
proof -
  let ?e = "va + vs - 1 :: u32"
  note b = image_address_nonzero [OF base] and e = image_address_nonzero [OF last]
  have ve: "unat va \<le> unat ?e" using le b(3) e(3) by (simp add: word_less_nat_alt)
  define v k where "v = unat va" and "k = unat (vs - 1)"
  have "0 < unat vs" using x by (auto simp: in_range_def)
  then have k: "unat vs = k + 1" by (simp add: k_def unat_minus_one unat_gt_0)
  have lt: "v < 2 ^ 32" "k < 2 ^ 32"
    using unsigned_less [of va, where ?'a = nat] unsigned_less [of "vs - 1", where ?'a = nat]
    by (simp_all add: v_def k_def)
  have "?e = va + (vs - 1)" by simp
  then have m: "unat ?e = (v + k) mod 2 ^ 32"
    unfolding v_def k_def by (simp only: unat_word_ariths(1)) simp
  have "v + k < 2 ^ 32"
  proof (rule ccontr)
    assume wrap: "\<not> v + k < 2 ^ 32"
    then have "unat ?e = v + k - 2 ^ 32" using m lt by (simp add: le_mod_geq)
    then show False using ve lt wrap unfolding v_def [symmetric] by linarith
  qed
  then have "unat ?e = v + k" using m by simp
  then have "unat va + unat vs \<le> unat sz + 1" using e(2) k by (simp add: v_def)
  moreover have "in_range buf (unat va + unat vs) x"
    using in_range_shift [of buf "ucast va" "unat vs" x] x b(1) by simp
  ultimately show ?thesis by (rule in_range_mono [rotated])
qed

lemma relocate_section_frame:
  assumes st: "relocate_section ctx buf rr sp m rs = Ret step"
    and ld: "load_section m sp = Ret sec" and fits: "section_fits sec"
    and out: "\<not> in_range buf (unat (ctx_size_of_image ctx) + 1) x"
  shows "(case step of Stop _ m' _ \<Rightarrow> m' | Continue m' _ \<Rightarrow> m') x = m x"
proof (cases "\<exists>err m' rs'. step = Stop err m' rs'")
  case True
  then show ?thesis using st
    by (auto simp: relocate_section_def outcome_iff Let_def dest!: place_section_stop
        split: if_splits)
next
  case False
  then obtain m' rs' where step: "step = Continue m' rs'" by (cases step) auto
  let ?base = "image_address buf (ctx_size_of_image ctx) (ucast (virtual_address sec))"
  let ?last = "image_address buf (ctx_size_of_image ctx)
    (ucast (virtual_address sec + virtual_size sec - 1))"
  consider "m' = m" | rs1 where "?base \<noteq> 0" "?last \<noteq> 0" "\<not> ?last < ?base"
      "place_section ctx sec ?base m rs1 = Ret (Continue m' rs')"
    using st ld step
    by (auto simp: relocate_section_def outcome_iff Let_def split: if_splits)
  then show ?thesis
  proof cases
    case (2 rs1)
    then have "\<not> in_range ?base (unat (virtual_size sec)) x" using out section_range by blast
    then show ?thesis
      using place_section_frame [OF 2(4)] fits step by (simp add: section_fits_def)
  qed (simp add: step)
qed

lemma sections_at_cong:
  "(\<And>x. in_range a (40 * n) x \<Longrightarrow> m' x = m x) \<Longrightarrow> sections_at n m' a = sections_at n m a"
proof (induction n arbitrary: a)
  case (Suc n)
  have "load_bytes m' a 40 = load_bytes m a 40"
    by (rule load_bytes_cong) (simp add: Suc.prems in_range_mono [of a 40])
  then have "load_section m' a = load_section m a"
    by (simp add: load_section_def sizeof_PE_section_header_def)
  moreover have "sections_at n m' (a + 40) = sections_at n m (a + 40)"
  proof (rule Suc.IH)
    fix x assume "in_range (a + 40) (40 * n) x"
    then have "in_range a (40 * Suc n) x" using in_range_shift [of a 40 "40 * n" x] by simp
    then show "m' x = m x" by (rule Suc.prems)
  qed
  ultimately show ?case by (simp add: sizeof_PE_section_header_def)
qed simp

lemma relocate_loop_frame:
  "relocate_loop n ctx buf rr sp m rs = Ret (err, m', rs') \<Longrightarrow>
   sections_at n m sp = Ret secs \<Longrightarrow> list_all section_fits secs \<Longrightarrow>
   \<forall>x. in_range sp (40 * n) x \<longrightarrow> \<not> in_range buf (unat (ctx_size_of_image ctx) + 1) x \<Longrightarrow>
   \<not> in_range buf (unat (ctx_size_of_image ctx) + 1) x \<Longrightarrow> m' x = m x"
proof (induction n arbitrary: sp m rs secs)
  case (Suc n)
  let ?R = "in_range buf (unat (ctx_size_of_image ctx) + 1)"
  from Suc.prems(2) obtain sec rest where sec: "load_section m sp = Ret sec"
      and rest: "sections_at n m (sp + 40) = Ret rest" and secs: "secs = sec # rest"
    by (auto simp: outcome_iff sizeof_PE_section_header_def)
  from Suc.prems(1) obtain step where step: "relocate_section ctx buf rr sp m rs = Ret step"
    by (auto simp: outcome_iff)
  have frame: "(case step of Stop _ m1 _ \<Rightarrow> m1 | Continue m1 _ \<Rightarrow> m1) y = m y" if "\<not> ?R y" for y
    using relocate_section_frame [OF step sec _ that] Suc.prems(3) secs by simp
  show ?case
  proof (cases step)
    case (Stop e m1 rs1)
    then show ?thesis using Suc.prems(1) step frame [OF Suc.prems(5)] by simp
  next
    case (Continue m1 rs1)
    then have m1: "m1 y = m y" if "\<not> ?R y" for y using frame [OF that] by simp
    have tail: "\<not> ?R y" if "in_range (sp + 40) (40 * n) y" for y
      using in_range_shift [of sp 40 "40 * n" y] that Suc.prems(4) by simp
    have "sections_at n m1 (sp + 40) = Ret rest"
      using sections_at_cong [of "sp + 40" n m1 m] m1 tail rest by simp
    then have "m' x = m1 x"
      using Suc.IH [of "sp + 40" m1 rs1 rest] Suc.prems(1,3,5) step Continue tail secs
      by (simp add: sizeof_PE_section_header_def)
    then show ?thesis using m1 [OF Suc.prems(5)] by simp
  qed
qed simp


text \<open>
  What a placed section holds: its raw data, followed by zeros up to the virtual size. All the
  raw data is copied, also when it is larger than the virtual size.
\<close>

theorem place_section_contents:
  assumes n_def: "n = unat (size_of_raw_data sec)" and k_def: "k = unat (virtual_size sec)"
    and src_def: "src = ctx_base ctx + ucast (pointer_to_raw_data sec)"
    and kind: "sec_characteristics sec AND PE_SECTION_CNT_UNINITIALIZED_DATA = 0"
    and ptr: "\<not> ucast (pointer_to_raw_data sec) < ctx_size_of_headers ctx"
    and data: "load_bytes m src n = Ret bs"
    and apart: "\<forall>x. in_range src n x \<longrightarrow> \<not> in_range base n x"
    and room: "mapped m base (max n k)"
  shows "\<exists>m'. place_section ctx sec base m rs = Ret (Continue m' rs)
    \<and> load_bytes m' base (max n k) = Ret (bs @ replicate (k - n) 0)"
proof -
  have n: "unat (ucast (size_of_raw_data sec) :: u64) = n" by (simp add: n_def)
  have lt: "n < 2 ^ 32" "k < 2 ^ 32"
    using unsigned_less [of "size_of_raw_data sec", where ?'a = nat]
      unsigned_less [of "virtual_size sec", where ?'a = nat] by (simp_all add: n_def k_def)
  have len: "length bs = n" using data by (rule load_bytes_length)
  have "\<exists>m1. (if base \<noteq> src \<and> size_of_raw_data sec > 0
      then memcpy m base src (ucast (size_of_raw_data sec)) else Ret m) = Ret m1
      \<and> load_bytes m1 base n = Ret bs \<and> dom m1 = dom m"
  proof (cases "n = 0")
    case True
    then show ?thesis using len by (simp add: n_def unat_eq_zero)
  next
    case False
    then have "in_range base n base" by (simp add: in_range_self)
    then have "base \<noteq> src" using apart by auto
    moreover have "size_of_raw_data sec > 0" using False by (simp add: n_def word_less_nat_alt)
    moreover obtain m1 where "memcpy m base src (ucast (size_of_raw_data sec)) = Ret m1"
        "load_bytes m1 base n = Ret bs"
      using memcpy_copies [of src "ucast (size_of_raw_data sec)" base m bs]
        apart data mapped_prefix [OF room, of n] by (auto simp: n_def)
    ultimately show ?thesis using memcpy_dom by auto
  qed
  then obtain m1 where m1: "(if base \<noteq> src \<and> size_of_raw_data sec > 0
      then memcpy m base src (ucast (size_of_raw_data sec)) else Ret m) = Ret m1"
      "load_bytes m1 base n = Ret bs" "dom m1 = dom m" by blast
  show ?thesis
  proof (cases "n < k")
    case False
    then have "place_section ctx sec base m rs = Ret (Continue m1 rs)"
      using kind ptr m1(1) by (auto simp: place_section_def src_def n_def k_def word_less_nat_alt Let_def
          split: if_splits)
    then show ?thesis using False m1(2) by (simp add: max_def)
  next
    case True
    let ?p = "base + ucast (size_of_raw_data sec)"
    have p: "?p = base + of_nat n" by (simp add: n_def)
    have z: "unat (ucast (virtual_size sec - size_of_raw_data sec) :: u64) = k - n"
      using True by (simp add: n_def k_def unat_sub word_le_nat_alt)
    have "mapped m1 ?p (k - n)"
      unfolding p using mapped_sub [of m base "max n k" n "k - n"] room True
        mapped_dom_cong [OF m1(3)] by simp
    then obtain m2 where m2: "store_bytes m1 ?p (replicate (k - n) 0) = Ret m2"
      using store_bytes_iff_mapped [of m1 ?p "replicate (k - n) 0"] by auto
    have "load_bytes m2 base n = load_bytes m1 base n"
      using lt True in_range_gap [of n "k - n" base]
      by (intro load_store_disjoint [OF m2]) (simp add: p)
    then have "load_bytes m2 base (n + (k - n)) = Ret (bs @ replicate (k - n) 0)"
      using load_store_same [OF m2] lt m1(2) by (intro load_bytes_append) (simp_all add: p)
    moreover have "place_section ctx sec base m rs = Ret (Continue m2 rs)"
      using kind ptr m1(1) m2 z True
      by (auto simp: place_section_def src_def memset_def memset_loop_store n_def k_def
          word_less_nat_alt Let_def split: if_splits)
    ultimately show ?thesis using True by (simp add: max_def)
  qed
qed

section \<open>Where fixups are written\<close>

lemma fixup_offset: "unat (ucast (f AND PE_RELOC_BASED_FIXUP_MASK) :: u64) \<le> 4095"
proof -
  have "f AND PE_RELOC_BASED_FIXUP_MASK \<le> PE_RELOC_BASED_FIXUP_MASK" by (rule word_and_le1)
  then show ?thesis by (simp add: word_le_nat_alt PE_RELOC_BASED_FIXUP_MASK_def)
qed

lemma apply_fixup_frame:
  assumes st: "apply_fixup adjust fb f m = Ret (err, m')" and out: "\<not> in_range fb 4103 x"
  shows "m' x = m x"
proof -
  let ?k = "ucast (f AND PE_RELOC_BASED_FIXUP_MASK) :: u64"
  have "\<not> in_range (fb + ?k) n x" if "n \<le> 8" for n
  proof
    assume "in_range (fb + ?k) n x"
    then have "in_range fb (unat ?k + n) x" by (rule in_range_shift)
    then have "in_range fb 4103 x" using fixup_offset [of f] that
      by (elim in_range_mono) linarith
    then show False using out by simp
  qed
  then show ?thesis using st
    by (auto simp: apply_fixup_def Let_def outcome_iff split: if_splits dest!: store_w_frame)
qed

lemma fixup_loop_frame:
  "fixup_loop adjust fb reloc i m = Ret (err, m') \<Longrightarrow> \<not> in_range fb 4103 x \<Longrightarrow> m' x = m x"
proof (induction adjust fb reloc i m rule: fixup_loop.induct)
  case (1 adjust fb reloc i m)
  from "1.prems"(1) obtain r where r: "load_relocation m reloc = Ret r"
    by (subst (asm) fixup_loop.simps) (auto simp: outcome_iff)
  show ?case
  proof (cases "ucast i < (ucast (size_of_block r) :: u64) div 2")
    case False
    then show ?thesis using "1.prems"(1) r
      by (subst (asm) fixup_loop.simps) simp
  next
    case True
    with "1.prems"(1) r obtain f e m1 where
      f: "load_w m (reloc + sizeof_PE_base_relocation + 2 * ucast i) = Ret f" and
      ap: "apply_fixup adjust fb f m = Ret (e, m1)" and
      rest: "if EFI_ERROR e then m' = m1 else fixup_loop adjust fb reloc (i + 1) m1 = Ret (err, m')"
      by (subst (asm) fixup_loop.simps) (auto simp: outcome_iff split: if_splits)
    have "m1 x = m x" by (rule apply_fixup_frame [OF ap "1.prems"(2)])
    moreover have "m' x = m1 x"
    proof (cases "EFI_ERROR e")
      case False
      then show ?thesis
        using "1.IH" [OF r _ f ap _ False] True rest "1.prems"(2) by simp
    qed (use rest in simp)
    ultimately show ?thesis by simp
  qed
qed

lemma reloc_loop_frame:
  "reloc_loop ctx adjust reloc reloc_end m = Ret (err, m') \<Longrightarrow>
   \<not> in_range (ctx_base ctx) (unat (ctx_size_of_image ctx) + 4103) x \<Longrightarrow> m' x = m x"
proof (induction ctx adjust reloc reloc_end m rule: reloc_loop.induct)
  case (1 ctx adjust reloc reloc_end m)
  show ?case
  proof (cases "reloc < reloc_end")
    case False
    then show ?thesis using "1.prems"(1) by (simp add: reloc_loop.simps)
  next
    case True
    from "1.prems"(1) True obtain r d where r: "load_relocation m reloc = Ret r"
      and d: "size_of_block r = 0 \<or> load_directory m (ctx_reloc_directory ctx) = Ret d"
      by (subst (asm) reloc_loop.simps) (auto simp: outcome_iff split: if_splits)
    let ?fb = "image_address (ctx_base ctx) (ctx_size_of_image ctx) (ucast (rel_virtual_address r))"
    show ?thesis
    proof (cases "size_of_block r = 0 \<or> size_of_block r > dir_size d \<or> ?fb = 0")
      case True
      then show ?thesis using "1.prems"(1) r d \<open>reloc < reloc_end\<close>
        by (subst (asm) reloc_loop.simps) (auto simp: Let_def split: if_splits)
    next
      case False
      with "1.prems"(1) r d True obtain e m1 where
        fl: "fixup_loop adjust ?fb reloc 0 m = Ret (e, m1)" and
        rest: "if EFI_ERROR e then m' = m1
          else (\<exists>r'. load_relocation m1 reloc = Ret r' \<and> \<not> reloc + reloc_stride r' \<le> reloc
            \<and> reloc_loop ctx adjust (reloc + reloc_stride r') reloc_end m1 = Ret (err, m'))"
        by (subst (asm) reloc_loop.simps)
          (auto simp: outcome_iff Let_def split: if_splits)
      note fb = image_address_nonzero [of "ctx_base ctx" "ctx_size_of_image ctx"
          "ucast (rel_virtual_address r)"]
      have "\<not> in_range ?fb 4103 x"
        using "1.prems"(2) in_range_shift [of "ctx_base ctx" "ucast (rel_virtual_address r)" 4103 x]
          fb False in_range_mono by fastforce
      then have m1: "m1 x = m x" by (rule fixup_loop_frame [OF fl])
      show ?thesis
      proof (cases "EFI_ERROR e")
        case True
        then show ?thesis using rest m1 by simp
      next
        case ok: False
        then obtain r' where r': "load_relocation m1 reloc = Ret r'"
            "\<not> reloc + reloc_stride r' \<le> reloc"
            "reloc_loop ctx adjust (reloc + reloc_stride r') reloc_end m1 = Ret (err, m')"
          using rest by auto
        have "m' x = m1 x"
          using "1.IH" [OF _ r _ _ _ refl _ fl refl ok r'(1) refl r'(2,3)] True False d "1.prems"(2)
          by auto
        then show ?thesis using m1 by simp
      qed
    qed
  qed
qed

text \<open>
  C13. Relocation patches the image file and never the loaded image: \<open>relocation_fixup\<close> changes
  only bytes from the start of the file up to 4103 bytes behind its \<open>size_of_image\<close>, so
  the pages the image was loaded into are as they were, whatever the fixups.
\<close>

theorem relocation_never_patches_image:
  assumes "relocation_fixup buf ctx m rs = Ret (err, m')"
    and "\<forall>x. in_range buf n x \<longrightarrow>
           \<not> in_range (ctx_base ctx) (unat (ctx_size_of_image ctx) + 4103) x"
  shows "load_bytes m' buf n = load_bytes m buf n"
proof (rule load_bytes_cong)
  fix x assume "in_range buf n x"
  then show "m' x = m x"
    using assms reloc_loop_frame [of ctx _ _ _ m err m' x]
    by (auto simp: relocation_fixup_def outcome_iff Let_def split: if_splits)
qed

text \<open>
  The step to the next block is eight times too long: when the directory ends before
  \<open>8 * (size_of_block + 8)\<close> bytes, the blocks behind the first one are not processed.
\<close>

theorem relocation_skips_blocks:
  assumes "reloc < reloc_end" and "load_relocation m reloc = Ret r"
    and "load_directory m (ctx_reloc_directory ctx) = Ret d"
    and "size_of_block r \<noteq> 0" and "size_of_block r \<le> dir_size d"
    and "image_address (ctx_base ctx) (ctx_size_of_image ctx) (ucast (rel_virtual_address r)) \<noteq> 0"
    and "fixup_loop adjust
           (image_address (ctx_base ctx) (ctx_size_of_image ctx) (ucast (rel_virtual_address r)))
           reloc 0 m = Ret (EFI_SUCCESS, m')"
    and "load_relocation m' reloc = Ret r"
    and "unat reloc + 8 * (unat (size_of_block r) + 8) < 2 ^ 64"
    and "unat reloc_end \<le> unat reloc + 8 * (unat (size_of_block r) + 8)"
  shows "reloc_loop ctx adjust reloc reloc_end m = Ret (EFI_SUCCESS, m')"
proof -
  let ?n = "unat (size_of_block r)"
  have n: "?n < 2 ^ 32" using unsigned_less [of "size_of_block r", where ?'a = nat] by simp
  then have a: "unat (ucast (size_of_block r) + 8 :: u64) = ?n + 8"
    by (subst unat_add_lem [THEN iffD1]) simp_all
  have stride: "unat (reloc_stride r) = 8 * (?n + 8)"
    unfolding reloc_stride_def using n a
    by (subst unat_mult_lem [THEN iffD1]) (simp_all add: sizeof_PE_base_relocation_def)
  then have step: "unat (reloc + reloc_stride r) = unat reloc + 8 * (?n + 8)"
    using assms(9) by (subst unat_add_lem [THEN iffD1]) simp_all
  then have fwd: "\<not> reloc + reloc_stride r \<le> reloc" "\<not> reloc + reloc_stride r < reloc_end"
    using assms(10) by (simp_all add: word_le_nat_alt word_less_nat_alt)
  then have "reloc_loop ctx adjust (reloc + reloc_stride r) reloc_end m' = Ret (EFI_SUCCESS, m')"
    by (simp add: reloc_loop.simps)
  then show ?thesis
    using assms fwd by (subst reloc_loop.simps) (simp add: Let_def word_less_nat_alt word_le_nat_alt)
qed

text \<open>
  A 64-bit fixup adds the distance between the address the image was loaded at and its
  preferred base to the location, and touches nothing else.
\<close>

theorem dir64_fixup_adds:
  assumes "f AND PE_RELOC_BASED_TYPE_MASK = PE_RELOC_BASED_DIR64"
    and "load_w m (fb + ucast (f AND PE_RELOC_BASED_FIXUP_MASK)) = Ret (v :: u64)"
  shows "\<exists>m'. apply_fixup adjust fb f m = Ret (EFI_SUCCESS, m')
    \<and> load_w m' (fb + ucast (f AND PE_RELOC_BASED_FIXUP_MASK)) = Ret (v + adjust)
    \<and> (\<forall>x. \<not> in_range (fb + ucast (f AND PE_RELOC_BASED_FIXUP_MASK)) 8 x \<longrightarrow> m' x = m x)"
proof -
  let ?a = "fb + ucast (f AND PE_RELOC_BASED_FIXUP_MASK) :: addr"
  have "mapped m ?a 8" using assms(2) by (auto simp: load_w_def outcome_iff dest: load_mappedI)
  then obtain m' where m': "store_w m ?a (v + adjust) = Ret m'"
    using store_bytes_iff_mapped [of m ?a "put_le (v + adjust)"] by (auto simp: store_w_def)
  then have "load_w m' ?a = Ret (v + adjust)"
    using load_store_same [of m ?a "put_le (v + adjust)" m']
    by (simp add: load_w_def store_w_def)
  moreover have "\<forall>x. \<not> in_range ?a 8 x \<longrightarrow> m' x = m x" using store_w_frame [OF m'] by simp
  moreover have "apply_fixup adjust fb f m = Ret (EFI_SUCCESS, m')"
    using assms m' by (simp add: apply_fixup_def PE_RELOC_BASED_DIR64_def
        PE_RELOC_BASED_ABSOLUTE_def PE_RELOC_BASED_HIGH_def PE_RELOC_BASED_LOW_def
        PE_RELOC_BASED_HIGHLOW_def)
  ultimately show ?thesis by blast
qed

section \<open>The whole load\<close>

lemma register_image_result:
  assumes run: "register_image BS g self u data sz out w = Ret (err, out', keep, w')"
  shows "(keep \<longleftrightarrow> \<not> EFI_ERROR err) \<and> out_entry_point out' = out_entry_point out
    \<and> (keep \<longrightarrow> err = EFI_SUCCESS \<and> (\<exists>dp w1 err'.
      install BS 0 [(efi_loaded_image_protocol_guid, out_loaded_image out'),
                    (efi_loaded_image_device_path_guid, dp)] w1 = (err', out_image out', w')
      \<and> \<not> EFI_ERROR err' \<and> out_loaded_image out' \<noteq> 0 \<and> dp \<noteq> 0
      \<and> load_loaded_image (wmem w1) (out_loaded_image out')
          = Ret (build_loaded_image g self u dp (buffer data) sz)))"
proof -
  obtain dp w1 where dp: "create_memory_mapped_device_path BS (EFI_POOL_ALLOCATION g) (raw data)
      (pages data * PAGE_SIZE) EFI_LOADER_DATA w = Ret (dp, w1)"
    using run by (auto simp: register_image_def outcome_iff)
  obtain lp w2 where lp: "malloc BS (EFI_POOL_ALLOCATION g) sizeof_loaded_image w1 = (lp, w2)"
    by fastforce
  show ?thesis
  proof (cases "dp = 0 \<or> lp = 0")
    case True
    then show ?thesis using run dp lp
      by (auto simp: register_image_def split: if_splits)
  next
    case False
    then obtain m where m: "store_bytes (wmem w2) lp
        (put_loaded_image (build_loaded_image g self u dp (buffer data) sz)) = Ret m"
      using run dp lp by (auto simp: register_image_def outcome_iff)
    obtain e h w3 where inst: "install BS 0 [(efi_loaded_image_protocol_guid, lp),
        (efi_loaded_image_device_path_guid, dp)] (w2\<lparr>wmem := m\<rparr>) = (e, h, w3)"
      by (metis prod_cases3)
    show ?thesis
    proof (cases "EFI_ERROR e")
      case True
      then show ?thesis using False run dp lp m inst by (auto simp: register_image_def Let_def)
    next
      case ok: False
      then have r: "err = EFI_SUCCESS" "keep" "w' = w3"
          "out' = out\<lparr>out_loaded_image := lp, out_image := h\<rparr>"
        using False run dp lp m inst by (auto simp: register_image_def Let_def)
      have "\<exists>dp w1 err'. install BS 0 [(efi_loaded_image_protocol_guid, lp),
            (efi_loaded_image_device_path_guid, dp)] w1 = (err', h, w3)
          \<and> \<not> EFI_ERROR err' \<and> dp \<noteq> 0
          \<and> load_loaded_image (wmem w1) lp = Ret (build_loaded_image g self u dp (buffer data) sz)"
        by (rule exI [of _ dp], rule exI [of _ "w2\<lparr>wmem := m\<rparr>"], rule exI [of _ e])
          (use False ok inst load_stored_loaded_image [OF m] in simp)
      then show ?thesis using False r by simp
    qed
  qed
qed

lemma read_headers_status:
  assumes "read_headers tgt m b ctx0 = Ret (err, ctx)" and "\<not> EFI_ERROR err"
  shows "err = EFI_SUCCESS"
  using assms unfolding read_headers_def Let_def by (elim outcome_elims c_assert_elim) auto

lemma PE_handle_image_cases:
  assumes run: "PE_handle_image BS tgt g u (Some b) True out w = Ret (err, out', w')"
  shows "(EFI_ERROR err \<and> w' = w) \<or> (\<exists>self ctx ok data w0 w1. 
      EFI_LOADED_IMAGE g = Some self
    \<and> read_headers tgt (wmem w) b zero_ctx = Ret (EFI_SUCCESS, ctx)
    \<and> allocate_aligned_buffer_ext BS (ctx_size_of_image ctx) EFI_LOADER_DATA
        (ucast (ctx_section_alignment ctx)) zero_aligned_buffer w = (ok, data, w0)
    \<and> (EFI_ERROR err \<and> w' = free_buffer_aligned BS data w1
       \<or> out_entry_point out' = image_address (buffer data) (ctx_size_of_image ctx) (ctx_entry_point ctx)
         \<and> out_entry_point out' \<noteq> 0 \<and>
         (\<exists>out1. register_image BS g self u data (ctx_size_of_image ctx) out1 w1
           = Ret (err, out', True, w'))))"
proof (cases "EFI_ERROR err \<and> w' = w")
  case False
  from run False obtain self len rerr ctx where self: "EFI_LOADED_IMAGE g = Some self"
    and img: "EFI_IMAGE g \<noteq> 0" "buffer b \<noteq> 0" "buffer_len b = Ret len" "len \<noteq> 0"
    and rd: "read_headers tgt (wmem w) b zero_ctx = Ret (rerr, ctx)" "\<not> EFI_ERROR rerr"
    by (auto simp: PE_handle_image_def outcome_iff split: option.splits if_splits)
  have rd: "read_headers tgt (wmem w) b zero_ctx = Ret (EFI_SUCCESS, ctx)"
    using rd read_headers_status by metis
  obtain ok data w0 where al: "allocate_aligned_buffer_ext BS (ctx_size_of_image ctx)
      EFI_LOADER_DATA (ucast (ctx_section_alignment ctx)) zero_aligned_buffer w = (ok, data, w0)"
    by (metis prod_cases3)
  let ?ep = "image_address (buffer data) (ctx_size_of_image ctx) (ctx_entry_point ctx)"
  note start = PE_handle_image_def self img rd al
  obtain m where m: "memcpy (wmem w0) (buffer data) (ctx_base ctx) (ctx_size_of_headers ctx) = Ret m"
    using run by (auto simp: start outcome_iff Let_def)
  have "(EFI_ERROR err \<and> (\<exists>w1. w' = free_buffer_aligned BS data w1))
    \<or> out_entry_point out' = ?ep \<and> ?ep \<noteq> 0 \<and>
       (\<exists>out1 w1. register_image BS g self u data (ctx_size_of_image ctx) out1 w1
         = Ret (err, out', True, w'))"
  proof (cases "?ep = 0")
    case True
    then show ?thesis using run m by (auto simp: start Let_def)
  next
    case ep: False
    then obtain serr m1 where ld: "load_sections ctx (buffer data) m = Ret (serr, m1)"
      using run m by (auto simp: start outcome_iff Let_def)
    show ?thesis
    proof (cases "EFI_ERROR serr")
      case True
      then show ?thesis using run m ep ld by (auto simp: start Let_def)
    next
      case False
      let ?out = "out\<lparr>out_entry_point := ?ep\<rparr>" and ?w = "w0\<lparr>wmem := m1\<rparr>"
      obtain rerr rout keep w2 where reg: "register_image BS g self u data (ctx_size_of_image ctx)
          ?out ?w = Ret (rerr, rout, keep, w2)"
        using run m ep ld False by (auto simp: start Let_def outcome_iff)
      then have r: "err = rerr" "out' = rout" "w' = (if keep then w2 else free_buffer_aligned BS data w2)"
        using run m ep ld False by (auto simp: start Let_def)
      note rr = register_image_result [OF reg]
      show ?thesis
      proof (cases keep)
        case True
        then show ?thesis using reg r rr ep by auto
      next
        case False
        then show ?thesis using r rr by auto
      qed
    qed
  qed
  then obtain w1 where res: "EFI_ERROR err \<and> w' = free_buffer_aligned BS data w1
    \<or> out_entry_point out' = ?ep \<and> ?ep \<noteq> 0 \<and>
       (\<exists>out1. register_image BS g self u data (ctx_size_of_image ctx) out1 w1
         = Ret (err, out', True, w'))"
    by blast
  show ?thesis
    by (rule disjI2, rule exI [of _ self], rule exI [of _ ctx], rule exI [of _ ok],
        rule exI [of _ data], rule exI [of _ w0], rule exI [of _ w1])
      (use res self rd al in auto)
qed simp



text \<open>The witnesses run a firmware that accepts every protocol, or none.\<close>

definition accepting_services :: "addr boot_services" where
  "accepting_services = bump_services\<lparr>install := (\<lambda>_ _ w. (EFI_SUCCESS, 0x77, w))\<rparr>"

definition demo_globals :: efilib_globals where
  "demo_globals = \<lparr>EFI_IMAGE = 1, EFI_ROOT = 0, ST = 2, EFI_POOL_ALLOCATION = 4,
     EFI_LOADED_IMAGE = Some \<lparr>li_revision = 0, li_parent_handle = 0, li_system_table = 0,
       li_device_handle = 0, li_file_path = 0, li_reserved = 0, li_load_options_size = 0,
       li_load_options = 0, li_image_base = 0, li_image_size = 0, li_image_code_type = 0,
       li_image_data_type = 0, li_unload = 0\<rparr>,
     BOOT_TIME_USECS = 0, freq = 0\<rparr>"

definition demo_headers :: PE_image_headers where
  "demo_headers = sample_headers\<lparr>optional_header := (optional_header sample_headers)
     \<lparr>opt_size_of_headers := 0, opt_number_of_RVA_and_sizes := 0\<rparr>\<rparr>"

lemma demo_headers_simps:
  "sample_ok demo_headers" "is_loadable X86_64 demo_headers = EFI_SUCCESS"
  "number_of_sections (file_header demo_headers) = 1"
  "size_of_optional_header (file_header demo_headers) = 240"
  "magic (optional_header demo_headers) = 0x20b"
  "opt_section_alignment (optional_header demo_headers) = 0x1000"
  "opt_file_alignment (optional_header demo_headers) = 0x200"
  "opt_size_of_image (optional_header demo_headers) = 0x2000"
  "opt_size_of_headers (optional_header demo_headers) = 0"
  "opt_number_of_RVA_and_sizes (optional_header demo_headers) = 0"
  "address_of_entry_point (optional_header demo_headers) = 0x1010"
proof -
  show "sample_ok demo_headers"
    using sample_wf(1)
    by (simp add: sample_ok_def wf_image_headers_def wf_optional_header_def demo_headers_def)
  show "is_loadable X86_64 demo_headers = EFI_SUCCESS"
    by (simp add: demo_headers_def is_loadable_def Let_def allow_64bit_def
        PE_HEADER_MACHINE_AMD64_def PE_HEADER_OPTIONAL_HDR32_MAGIC_def
        PE_HEADER_OPTIONAL_HDR64_MAGIC_def PE_HEADER_BYTES_REVERSED_LO_def
        PE_HEADER_BYTES_REVERSED_HI_def PE_HEADER_EXECUTABLE_IMAGE_def PE_HEADER_DLL_def
        PE_HEADER_RELOCS_STRIPPED_def)
qed (simp_all add: demo_headers_def sample_headers_def)

definition demo_world :: "addr world" where
  "demo_world = \<lparr>wmem = place 0x1000 (sample_image demo_headers), fw = 0x10000\<rparr>"

definition demo_buffer :: simple_buffer where
  "demo_buffer =
     \<lparr>buffer = 0x1000, blength = 368, bpos = 0, allocated = 368, bfree = Free_None\<rparr>"

lemma demo_read_headers:
  "\<exists>ctx. read_headers X86_64 (wmem demo_world) demo_buffer zero_ctx = Ret (EFI_SUCCESS, ctx)
     \<and> ctx_size_of_image ctx = 0x2000 \<and> ctx_section_alignment ctx = 0x1000
     \<and> ctx_size_of_headers ctx = 0 \<and> ctx_number_of_RVA_and_sizes ctx = 0
     \<and> ctx_entry_point ctx = 0x1010"
  using sample_loads [OF demo_headers_simps(1), of "0x1000"]
  by (simp add: read_headers_def demo_world_def demo_buffer_def sample_PE_header
      demo_headers_simps buffer_pos_def Let_def word_le_nat_alt word_less_nat_alt
      sizeof_PE_COFF_header_def sizeof_PE_section_header_def PE_HEADER_OPTIONAL_HDR32_MAGIC_def)

text \<open>The runs of the two firmwares differ in the last call only.\<close>

lemma demo_load:
  assumes pages: "allocate_pages BS = allocate_pages bump_services"
    and pool: "allocate_pool BS = allocate_pool bump_services"
    and inst: "install BS = (\<lambda>h ps w. (e, hf h, w))"
  shows "\<exists>err out' w'. PE_handle_image BS X86_64 demo_globals 9 (Some demo_buffer) True
      \<lparr>out_image = 0, out_loaded_image = 0, out_entry_point = 0\<rparr> demo_world = Ret (err, out', w')
    \<and> (EFI_ERROR err \<longleftrightarrow> EFI_ERROR e)"
proof -
  obtain ctx where rd: "read_headers X86_64 (wmem demo_world) demo_buffer zero_ctx
        = Ret (EFI_SUCCESS, ctx)"
    and c: "ctx_size_of_image ctx = 0x2000" "ctx_section_alignment ctx = 0x1000"
      "ctx_size_of_headers ctx = 0" "ctx_number_of_RVA_and_sizes ctx = 0"
      "ctx_entry_point ctx = 0x1010"
    using demo_read_headers by auto
  obtain ok data w0 where al: "allocate_aligned_buffer_ext BS 0x2000 EFI_LOADER_DATA 0x1000
      zero_aligned_buffer demo_world = (ok, data, w0)" "buffer data = 0x10000" "fw w0 = 0x13000"
    by (simp add: allocate_aligned_buffer_ext_def Let_def pages bump_services_def bump_alloc_def
        ALIGN_VALUE_def PAGE_SIZE_def demo_world_def EFI_SUCCESS_def)
  define w1 where "w1 = snd (snd (bump_alloc 4096 w0))"
  have a1: "allocate_pool BS 4 28 w0 = (EFI_SUCCESS, 0x13000, w1)"
    by (simp add: pool bump_services_def bump_alloc_def w1_def al(3))
  have "mapped (wmem w1) 0x13000 28"
    using bump_alloc_mapped [of 28 4096 w0] by (simp add: w1_def al(3))
  then obtain m1 where dp: "create_memory_mapped_device_path BS 4 (raw data)
      (pages data * PAGE_SIZE) EFI_LOADER_DATA w0 = Ret (0x13000, w1\<lparr>wmem := m1\<rparr>)"
    using create_memory_mapped_returns [OF a1] by fastforce
  define w2 where "w2 = snd (snd (bump_alloc 4096 (w1\<lparr>wmem := m1\<rparr>)))"
  have fw1: "fw w1 = 0x14000" by (simp add: w1_def al(3))
  have a2: "malloc BS 4 sizeof_loaded_image (w1\<lparr>wmem := m1\<rparr>) = (0x14000, w2)"
    by (simp add: malloc_def pool bump_services_def bump_alloc_def w2_def fw1
        sizeof_loaded_image_def)
  have "mapped (wmem w2) 0x14000 96"
    using bump_alloc_mapped [of 96 4096 "w1\<lparr>wmem := m1\<rparr>"] by (simp add: w2_def fw1)
  then have st: "\<exists>m2. store_bytes (wmem w2) 0x14000 (put_loaded_image l) = Ret m2" for l
    using store_bytes_iff_mapped [of "wmem w2" "0x14000" "put_loaded_image l"] by simp
  obtain self where self: "EFI_LOADED_IMAGE demo_globals = Some self"
    by (simp add: demo_globals_def)
  obtain m2 where m2: "store_bytes (wmem w2) 0x14000
      (put_loaded_image (build_loaded_image demo_globals self 9 0x13000 0x10000 0x2000)) = Ret m2"
    using st by blast
  have g: "EFI_IMAGE demo_globals \<noteq> 0" "EFI_POOL_ALLOCATION demo_globals = 4"
    by (simp_all add: demo_globals_def)
  have b: "buffer demo_buffer \<noteq> 0" "buffer_len demo_buffer = Ret 368"
    by (simp_all add: demo_buffer_def buffer_len_def)
  show ?thesis
    using rd c al dp a2 m2 self g b
    by (auto simp: PE_handle_image_def Let_def memcpy_def image_address_def load_sections_def
        register_image_def inst PE_HEADER_DIRECTORY_ENTRY_BASERELOC_def)
qed



section \<open>A concrete image file\<close>

text \<open>
  A file at \<open>0x1000\<close>: a word, a relocation block with one 64-bit fixup of that word, two
  section headers (one for the block, one for zeroed memory) and the relocation directory;
  and sixteen bytes of target memory at \<open>0x4000\<close>.
\<close>

definition demo_reloc :: PE_section_header where
  "demo_reloc = \<lparr>sec_name = [46, 114, 101, 108, 111, 99, 0, 0], virtual_size = 10,
     virtual_address = 0, size_of_raw_data = 4, pointer_to_raw_data = 16,
     pointer_to_relocations = 0, pointer_to_linenumbers = 0, number_of_relocations = 0,
     number_of_linenumbers = 0, sec_characteristics = 0\<rparr>"

definition demo_bss :: PE_section_header where
  "demo_bss = \<lparr>sec_name = [46, 98, 115, 115, 0, 0, 0, 0], virtual_size = 2,
     virtual_address = 4, size_of_raw_data = 0, pointer_to_raw_data = 0,
     pointer_to_relocations = 0, pointer_to_linenumbers = 0, number_of_relocations = 0,
     number_of_linenumbers = 0, sec_characteristics = PE_SECTION_CNT_UNINITIALIZED_DATA\<rparr>"

definition demo_file :: "u8 list" where
  "demo_file = [1, 0, 0, 0, 0, 0, 0, 0, 0, 0, 0, 0, 0, 0, 0, 0,
      0, 0, 0, 0, 2, 0, 0, 0, 0, 0xa0, 0, 0, 0, 0, 0, 0]
     @ put_PE_section_header demo_reloc @ put_PE_section_header demo_bss
     @ put_PE_data_directory \<lparr>dir_virtual_address = 0, dir_size = 2\<rparr>"

definition demo_mem :: mem where
  "demo_mem = (\<lambda>x. if x < 0x2000 then place 0x1000 demo_file x
                   else place 0x4000 (replicate 16 1) x)"

lemma demo_wf: "wf_section_header demo_reloc" "wf_section_header demo_bss"
  by (simp_all add: wf_section_header_def demo_reloc_def demo_bss_def
      PE_SECTION_SIZE_OF_SHORT_NAME_def)

lemma demo_lengths [simp]:
  "length (put_PE_section_header demo_reloc) = 40" "length (put_PE_section_header demo_bss) = 40"
  "length (put_PE_data_directory d) = 8" "length demo_file = 120"
  using section_codec.length_enc [OF demo_wf(1)] section_codec.length_enc [OF demo_wf(2)]
    dir_codec.length_enc
  by (simp_all add: demo_file_def sizeof_PE_section_header_def)

lemma demo_file_load:
  assumes "k + j \<le> 120"
  shows "load_bytes demo_mem (0x1000 + of_nat k) j = Ret (field k j demo_file)"
proof -
  have "load_bytes demo_mem (0x1000 + of_nat k) j
      = load_bytes (place 0x1000 demo_file) (0x1000 + of_nat k) j"
  proof (rule load_bytes_cong)
    fix x assume "in_range (0x1000 + of_nat k) j x"
    then have "in_range 0x1000 (unat (of_nat k :: addr) + j) x" by (rule in_range_shift)
    moreover have "unat (of_nat k :: addr) = k" using assms by (simp add: unat_of_nat)
    ultimately have "unat x < 0x2000" using assms by (auto simp: in_range_nowrap)
    then show "demo_mem x = place 0x1000 demo_file x" by (simp add: demo_mem_def word_less_nat_alt)
  qed
  also have "\<dots> = Ret (field k j demo_file)"
    using assms by (intro load_place_field) simp_all
  finally show ?thesis .
qed

lemma demo_fields:
  "field 0 8 demo_file = [1, 0, 0, 0, 0, 0, 0, 0]" "field 16 8 demo_file = [0, 0, 0, 0, 2, 0, 0, 0]"
  "field 24 2 demo_file = [0, 0xa0]" "field 16 4 demo_file = [0, 0, 0, 0]"
  "field 32 40 demo_file = put_PE_section_header demo_reloc"
  "field 72 40 demo_file = put_PE_section_header demo_bss"
  "field 112 8 demo_file = put_PE_data_directory \<lparr>dir_virtual_address = 0, dir_size = 2\<rparr>"
  by (simp_all add: demo_file_def field_def)

lemma demo_block:
  "get_PE_base_relocation [0, 0, 0, 0, 2, 0, 0, 0]
     = \<lparr>rel_virtual_address = 0, size_of_block = 2\<rparr>"
  by (simp add: get_PE_base_relocation_def field_def get_le_def)

lemma demo_loads:
  "load_w demo_mem 0x1000 = Ret (1 :: u64)"
  "load_relocation demo_mem 0x1010 = Ret \<lparr>rel_virtual_address = 0, size_of_block = 2\<rparr>"
  "load_w demo_mem 0x1018 = Ret (0xa000 :: u16)"
  "load_section demo_mem 0x1020 = Ret demo_reloc" "load_section demo_mem 0x1048 = Ret demo_bss"
  "load_directory demo_mem 0x1070 = Ret \<lparr>dir_virtual_address = 0, dir_size = 2\<rparr>"
  "load_bytes demo_mem 0x1010 4 = Ret [0, 0, 0, 0]"
  using demo_file_load [of 0 8] demo_file_load [of 16 8] demo_file_load [of 24 2] demo_file_load [of 32 40]
    demo_file_load [of 72 40] demo_file_load [of 112 8] demo_file_load [of 16 4]
    section_codec.dec_enc [OF demo_wf(1)] section_codec.dec_enc [OF demo_wf(2)]
    dir_codec.dec_enc [of "\<lparr>dir_virtual_address = 0, dir_size = 2\<rparr>"]
  by (simp_all add: load_w_def load_relocation_def load_section_def load_directory_def
      demo_fields demo_block get_le_def sizeof_PE_base_relocation_def sizeof_PE_section_header_def)

lemma demo_target: "k + j \<le> 16 \<Longrightarrow> mapped demo_mem (0x4000 + of_nat k) j"
proof (rule mapped_sub)
  show "mapped demo_mem 0x4000 16"
  proof (rule mapped_rangeI)
    fix x :: addr assume x: "in_range 0x4000 16 x"
    then have "\<not> x < 0x2000" by (simp add: in_range_nowrap word_less_nat_alt)
    then show "demo_mem x \<noteq> None" using x by (simp add: demo_mem_def place_def Let_def in_range_def)
  qed simp
qed

text \<open>The fixup of the block, by hand: it adds the distance to the word at the start of the file.\<close>

definition demo_patched :: "u64 \<Rightarrow> mem" where
  "demo_patched adjust = (case store_w demo_mem 0x1000 (1 + adjust) of Ret m \<Rightarrow> m | _ \<Rightarrow> demo_mem)"

lemma demo_patched: "store_w demo_mem 0x1000 (1 + adjust :: u64) = Ret (demo_patched adjust)"
proof -
  have "mapped demo_mem 0x1000 8" using demo_file_load [of 0 8] by (auto dest: load_mappedI)
  then obtain m where "store_bytes demo_mem 0x1000 (put_le (1 + adjust)) = Ret m"
    using store_bytes_iff_mapped [of demo_mem "0x1000" "put_le (1 + adjust)"] by auto
  then show ?thesis by (simp add: demo_patched_def store_w_def)
qed

lemma demo_patched_loads:
  "load_relocation (demo_patched a) 0x1010 = Ret \<lparr>rel_virtual_address = 0, size_of_block = 2\<rparr>"
  "load_directory (demo_patched a) 0x1070 = Ret \<lparr>dir_virtual_address = 0, dir_size = 2\<rparr>"
proof -
  have eq: "load_bytes (demo_patched a) p n = load_bytes demo_mem p n"
    if "unat p + n \<le> 2 ^ 64" "0x1008 \<le> unat p" for p n
  proof (rule load_bytes_cong)
    fix x assume "in_range p n x"
    then have "\<not> in_range 0x1000 8 x" using that by (auto simp: in_range_nowrap)
    then show "demo_patched a x = demo_mem x" using store_w_frame [OF demo_patched [of a]] by simp
  qed
  show "load_relocation (demo_patched a) 0x1010 = Ret \<lparr>rel_virtual_address = 0, size_of_block = 2\<rparr>"
    using demo_loads(2) by (simp add: load_relocation_def eq sizeof_PE_base_relocation_def)
  show "load_directory (demo_patched a) 0x1070 = Ret \<lparr>dir_virtual_address = 0, dir_size = 2\<rparr>"
    using demo_loads(6) by (simp add: load_directory_def eq)
qed

lemma demo_fixups: "fixup_loop adjust 0x1000 0x1010 0 demo_mem = Ret (EFI_SUCCESS, demo_patched adjust)"
proof -
  have ap: "apply_fixup adjust 0x1000 0xa000 demo_mem = Ret (EFI_SUCCESS, demo_patched adjust)"
    using demo_loads(1) demo_patched [of adjust]
    by (simp add: apply_fixup_def Let_def PE_RELOC_BASED_FIXUP_MASK_def PE_RELOC_BASED_TYPE_MASK_def
        PE_RELOC_BASED_DIR64_def PE_RELOC_BASED_ABSOLUTE_def PE_RELOC_BASED_HIGH_def
        PE_RELOC_BASED_LOW_def PE_RELOC_BASED_HIGHLOW_def)
  have "fixup_loop adjust 0x1000 0x1010 1 (demo_patched adjust)
      = Ret (EFI_SUCCESS, demo_patched adjust)"
    by (subst fixup_loop.simps) (simp add: demo_patched_loads)
  then show ?thesis
    using ap demo_loads(2,3)
    by (subst fixup_loop.simps) (simp add: sizeof_PE_base_relocation_def)
qed

definition demo_ctx :: pe_loader_ctx where
  "demo_ctx = zero_ctx\<lparr>ctx_size_of_image := 0x7f, ctx_number_of_sections := 2,
     ctx_first_section := 0x1020, ctx_reloc_directory := 0x1070, ctx_pe := 1,
     ctx_base := 0x1000\<rparr>"


theorem place_section_contents_witness:
  "\<exists>m'. place_section demo_ctx demo_reloc 0x4000 demo_mem 0 = Ret (Continue m' 0)
     \<and> load_bytes m' 0x4000 10 = Ret (replicate 10 0)"
proof -
  have "\<not> in_range 0x4000 4 x" if "in_range 0x1010 4 x" for x
    using that by (simp add: in_range_nowrap)
  then have "\<exists>m'. place_section demo_ctx demo_reloc 0x4000 demo_mem 0 = Ret (Continue m' 0)
      \<and> load_bytes m' 0x4000 (max 4 10) = Ret ([0, 0, 0, 0] @ replicate (10 - 4) 0)"
    using demo_loads(7) demo_target [of 0 10]
    by (intro place_section_contents [where src = "0x1010"])
      (simp_all add: demo_reloc_def demo_ctx_def zero_ctx_def)
  then show ?thesis by (simp add: numeral_eq_Suc)
qed

theorem relocation_never_patches_image_witness:
  "\<exists>m'. relocation_fixup 0x4000 demo_ctx demo_mem 0x1020 = Ret (EFI_SUCCESS, m')
     \<and> load_bytes m' 0x4000 16 = load_bytes demo_mem 0x4000 16"
proof -
  have "reloc_loop demo_ctx 0x4000 0x1010 0x101a demo_mem = Ret (EFI_SUCCESS, demo_patched 0x4000)"
    using demo_loads(2,6) demo_fixups [of "0x4000"] demo_patched_loads [of "0x4000"]
    by (subst reloc_loop.simps) (simp add: demo_ctx_def zero_ctx_def image_address_def
        reloc_stride_def sizeof_PE_base_relocation_def reloc_loop.simps [of _ _ "0x1060"]
        word_le_nat_alt)
  then have run: "relocation_fixup 0x4000 demo_ctx demo_mem 0x1020
      = Ret (EFI_SUCCESS, demo_patched 0x4000)"
    using demo_loads(4)
    by (simp add: relocation_fixup_def demo_ctx_def zero_ctx_def demo_reloc_def image_address_def
        Let_def)
  have "\<not> in_range 0x1000 (0x7f + 4103) x" if "in_range 0x4000 16 x" for x
    using that by (simp add: in_range_nowrap)
  then have "load_bytes (demo_patched 0x4000) 0x4000 16 = load_bytes demo_mem 0x4000 16"
    by (intro relocation_never_patches_image [OF run]) (simp add: demo_ctx_def zero_ctx_def)
  then show ?thesis using run by blast
qed

theorem relocation_skips_blocks_witness:
  "reloc_loop demo_ctx 7 0x1010 0x1060 demo_mem = Ret (EFI_SUCCESS, demo_patched 7)"
proof (rule relocation_skips_blocks)
  show "load_relocation demo_mem 0x1010 = Ret \<lparr>rel_virtual_address = 0, size_of_block = 2\<rparr>"
    by (rule demo_loads)
  show "load_directory demo_mem (ctx_reloc_directory demo_ctx)
      = Ret \<lparr>dir_virtual_address = 0, dir_size = 2\<rparr>"
    using demo_loads(6) by (simp add: demo_ctx_def)
qed (use demo_fixups [of 7] demo_patched_loads [of 7] in
    \<open>simp_all add: demo_ctx_def zero_ctx_def image_address_def\<close>)

theorem dir64_fixup_adds_witness:
  "\<exists>m'. apply_fixup 5 0x1000 0xa000 demo_mem = Ret (EFI_SUCCESS, m')
     \<and> load_w m' 0x1000 = Ret (6 :: u64)"
  using dir64_fixup_adds [of "0xa000" demo_mem "0x1000" 1 5] demo_loads(1)
  by (auto simp: PE_RELOC_BASED_TYPE_MASK_def PE_RELOC_BASED_DIR64_def
      PE_RELOC_BASED_FIXUP_MASK_def)

end
