(* ===== verification/Number_Text.thy ===== *)
theory Number_Text
  imports Strings RtLib Device_Path
begin

text \<open>
  The value formatters of \<^verbatim>\<open>lib/efilib/efiprint.c\<close>: decimal and hexadecimal numbers, GUIDs,
  times and status codes. A formatter is given by the characters it writes before the
  terminator; the pointer it returns is the position after them, except that
  \<open>status_to_string\<close> returns the start of the buffer for a named status.

  Both number formatters collect digits from the lowest up and write them back reversed;
  the locale \<open>radix\<close> holds what follows from that for any base, and is interpreted on both.
\<close>

unbundle bit_operations_syntax

section \<open>Characters\<close>

abbreviation wc :: "char \<Rightarrow> u16" where "wc c \<equiv> of_char c"

abbreviation ws :: "string \<Rightarrow> u16 list" where "ws \<equiv> map of_char"

abbreviation bs8 :: "string \<Rightarrow> u8 list" where "bs8 \<equiv> map of_char"

section \<open>Numbers\<close>

lemma c_quot_less: "v \<noteq> 0 \<Longrightarrow> \<bar>c_quot v 10\<bar> < \<bar>v\<bar>"
  by (auto simp: c_quot_def abs_mult abs_sgn_eq)

lemma sint_quot_bound: "- (2 ^ 63) \<le> c_quot (sint (v :: u64)) 10 \<and> c_quot (sint v) 10 < 2 ^ 63"
proof -
  have "- (2 ^ 63) \<le> sint v" "sint v < 2 ^ 63" using sint_range_size [of v] by (auto simp: word_size)
  moreover have "sint v = 0 \<or> \<bar>c_quot (sint v) 10\<bar> < \<bar>sint v\<bar>" using c_quot_less by blast
  ultimately show ?thesis by (auto simp: c_quot_def)
qed

text \<open>The stack \<open>str\<close> is the array of digits with its last element first.\<close>

function value_loop :: "u64 \<Rightarrow> u8 list \<Rightarrow> u8 list outcome" where
  "value_loop v str =
     (if v = 0 then Ret str
      else obind (lldiv v 10) (\<lambda>(quot, rem).
        value_loop quot (ucast ((ucast rem :: u16) + 48) # str)))"
  by pat_completeness auto
termination
proof (relation "measure (\<lambda>(v, _). nat \<bar>sint v\<bar>)")
  fix v :: u64 and str x a b
  assume v: "v \<noteq> 0" and r: "lldiv v 10 = Ret x" "(a, b) = x"
  then have "sint a = c_quot (sint v) 10"
    using sint_quot_bound [of v]
    by (auto simp: lldiv_def sint_sbintrunc' signed_take_bit_int_eq_self split: if_splits)
  moreover have "sint v \<noteq> 0" using v signed_word_eqI [of v 0] by auto
  ultimately show "((a, ucast ((ucast b :: u16) + 48) # str), v, str) \<in> measure (\<lambda>(v, _). nat \<bar>sint v\<bar>)"
    using c_quot_less by simp
qed simp

declare value_loop.simps [simp del]

text \<open>\<open>-v\<close> of the least 64-bit value overflows.\<close>

definition value_to_string :: "u64 \<Rightarrow> u16 list outcome" where
  "value_to_string v =
     (if v = 0 then Ret (ws ''0'')
      else if sint v < 0
      then (if sint v = - (2 ^ 63) then UB
            else obind (value_loop (- v) []) (\<lambda>str. Ret (wc CHR ''-'' # map ucast str)))
      else obind (value_loop v []) (\<lambda>str. Ret (map ucast str)))"

definition hex :: "u8 list" where "hex = bs8 ''0123456789abcdef''"

function hex_loop :: "u64 \<Rightarrow> u8 list \<Rightarrow> u8 list" where
  "hex_loop value str =
     (if value = 0 then str
      else hex_loop (drop_bit 4 value) (hex ! unat (value AND 0xf) # str))"
  by pat_completeness auto
termination
proof (relation "measure (\<lambda>(v, _). unat v)")
  fix v :: u64 and str
  assume "v \<noteq> 0"
  then have "unat v > 0" by (simp add: unat_gt_0)
  then show "((drop_bit 4 v, hex ! unat (v AND 0xf) # str), v, str) \<in> measure (\<lambda>(v, _). unat v)"
    by (simp add: drop_bit_eq_div unat_div)
qed simp

declare hex_loop.simps [simp del]

definition value_to_hex_string :: "u64 \<Rightarrow> u16 list" where
  "value_to_hex_string value =
     (if value = 0 then ws ''0'' else map ucast (hex_loop value []))"

section \<open>GUIDs and times\<close>

text \<open>
  The zeros one padding loop \<open>for (i = n; i--;) if (v < 0x10 << (4*i))\<close> writes. The shift is on
  \<open>int\<close> and then converted to the type of the comparison; shifting all bits out gives 0.
\<close>

primrec pad_zeros :: "nat \<Rightarrow> u32 \<Rightarrow> u16 list" where
  "pad_zeros 0 v = []"
| "pad_zeros (Suc i) v = (if v < push_bit (4 * i) 0x10 then [wc CHR ''0''] else []) @ pad_zeros i v"

definition hex_byte :: "u8 \<Rightarrow> u16 list" where
  "hex_byte b = (if b < 0x10 then [wc CHR ''0''] else []) @ value_to_hex_string (ucast b)"

definition guid_to_string :: "efi_guid \<Rightarrow> u16 list" where
  "guid_to_string guid =
     pad_zeros 8 (ms1 guid) @ value_to_hex_string (ucast (ms1 guid)) @ ws ''-''
     @ pad_zeros 2 (ucast (ms2 guid)) @ value_to_hex_string (ucast (ms2 guid)) @ ws ''-''
     @ pad_zeros 2 (ucast (ms3 guid)) @ value_to_hex_string (ucast (ms3 guid)) @ ws ''-''
     @ concat (map hex_byte (take 2 (ms4 guid))) @ ws ''-''
     @ concat (map hex_byte (take 6 (drop 2 (ms4 guid))))"

record efi_time =
  t_year :: u16
  t_month :: u8
  t_day :: u8
  t_hour :: u8
  t_minute :: u8
  t_second :: u8
  t_nanosecond :: u32
  t_timezone :: u16
  t_daylight :: u8

definition two_digits :: "u8 \<Rightarrow> u16 list outcome" where
  "two_digits v = obind (value_to_string (ucast v)) (\<lambda>s.
     Ret ((if v < 10 then ws ''0'' else []) @ s))"

definition time_to_string :: "efi_time \<Rightarrow> u16 list outcome" where
  "time_to_string time =
     obind (value_to_string (ucast (t_year time))) (\<lambda>year.
     obind (two_digits (t_month time)) (\<lambda>month.
     obind (two_digits (t_day time)) (\<lambda>day.
     obind (two_digits (t_hour time)) (\<lambda>hour.
     obind (two_digits (t_minute time)) (\<lambda>minute.
     obind (two_digits (t_second time)) (\<lambda>second.
     Ret ((if t_year time < 1000 then ws ''0'' else []) @ (if t_year time < 100 then ws ''0'' else [])
          @ (if t_year time < 10 then ws ''0'' else []) @ year @ ws ''-'' @ month @ ws ''-'' @ day
          @ ws ''T'' @ hour @ ws '':'' @ minute @ ws '':'' @ second)))))))"

section \<open>Status codes\<close>

definition error_codes :: "(efi_status \<times> string) list" where
  "error_codes =
     [(EFI_SUCCESS, ''Success''),
      (EFI_LOAD_ERROR, ''Load Error''),
      (EFI_INVALID_PARAMETER, ''Invalid Parameter''),
      (EFI_UNSUPPORTED, ''Unsupported''),
      (EFI_BAD_BUFFER_SIZE, ''Bad Buffer Size''),
      (EFI_BUFFER_TOO_SMALL, ''Buffer Too Small''),
      (EFI_NOT_READY, ''Not Ready''),
      (EFI_DEVICE_ERROR, ''Device Error''),
      (EFI_WRITE_PROTECTED, ''Write Protected''),
      (EFI_OUT_OF_RESOURCES, ''Out of Resources''),
      (EFI_VOLUME_CORRUPTED, ''Volume Corrupt''),
      (EFI_VOLUME_FULL, ''Volume Full''),
      (EFI_NO_MEDIA, ''No Media''),
      (EFI_MEDIA_CHANGED, ''Media changed''),
      (EFI_NOT_FOUND, ''Not Found''),
      (EFI_ACCESS_DENIED, ''Access Denied''),
      (EFI_NO_RESPONSE, ''No Response''),
      (EFI_NO_MAPPING, ''No mapping''),
      (EFI_TIMEOUT, ''Time out''),
      (EFI_NOT_STARTED, ''Not started''),
      (EFI_ALREADY_STARTED, ''Already started''),
      (EFI_ABORTED, ''Aborted''),
      (EFI_ICMP_ERROR, ''ICMP Error''),
      (EFI_TFTP_ERROR, ''TFTP Error''),
      (EFI_PROTOCOL_ERROR, ''Protocol Error''),
      (EFI_INCOMPATIBLE_VERSION, ''Incompatible Version''),
      (EFI_SECURITY_VIOLATION, ''Security Policy Violation''),
      (EFI_CRC_ERROR, ''CRC Error''),
      (EFI_END_OF_MEDIA, ''End of Media''),
      (EFI_END_OF_FILE, ''End of File''),
      (EFI_INVALID_LANGUAGE, ''Invalid Languages''),
      (EFI_COMPROMISED_DATA, ''Compromised Data''),
      (EFI_WARN_UNKNOWN_GLYPH, ''Warning Unknown Glyph''),
      (EFI_WARN_DELETE_FAILURE, ''Warning Delete Failure''),
      (EFI_WARN_WRITE_FAILURE, ''Warning Write Failure''),
      (EFI_WARN_BUFFER_TOO_SMALL, ''Warning Buffer Too Small'')]"

text \<open>The zeros of the loop in \<open>status_to_string\<close>, whose shift is \<open>0x10 << i\<close>.\<close>

primrec status_zeros :: "nat \<Rightarrow> efi_status \<Rightarrow> u16 list" where
  "status_zeros 0 s = []"
| "status_zeros (Suc i) s = (if s < push_bit i 0x10 then [wc CHR ''0''] else []) @ status_zeros i s"

definition status_to_string :: "efi_status \<Rightarrow> u16 list outcome" where
  "status_to_string status =
     (case map_of error_codes status of
        Some desc \<Rightarrow> obind (strlen (bs8 desc @ [0])) (\<lambda>n. mbstowcs (bs8 desc @ [0]) n)
      | None \<Rightarrow> Ret (status_zeros 14 status @ value_to_hex_string status))"

section \<open>Numbers in a base\<close>

text \<open>
  Reference texts: \<open>fixed\<close> writes the lowest \<open>n\<close> digits of a value, \<open>read_digits\<close> reads digits
  from the highest down, after the value \<open>acc\<close>.
\<close>

primrec fixed :: "nat \<Rightarrow> (nat \<Rightarrow> u8) \<Rightarrow> nat \<Rightarrow> nat \<Rightarrow> u16 list" where
  "fixed base digit 0 v = []"
| "fixed base digit (Suc n) v = fixed base digit n (v div base) @ [ucast (digit (v mod base))]"

lemma length_fixed [simp]: "length (fixed base digit n v) = n"
  by (induction n arbitrary: v) simp_all

fun read_digits :: "nat \<Rightarrow> (u16 \<Rightarrow> nat option) \<Rightarrow> nat \<Rightarrow> u16 list \<Rightarrow> nat option" where
  "read_digits base digit_of acc [] = Some acc"
| "read_digits base digit_of acc (c # cs) =
     (case digit_of c of None \<Rightarrow> None | Some d \<Rightarrow> read_digits base digit_of (acc * base + d) cs)"

lemma read_digits_append:
  "read_digits b f acc (xs @ ys) = Option.bind (read_digits b f acc xs) (\<lambda>v. read_digits b f v ys)"
  by (induction xs arbitrary: acc) (auto split: option.splits)

lemma fixed_zero_cons:
  assumes "0 < base" and "v < base ^ n"
  shows "fixed base digit (Suc n) v = ucast (digit 0) # fixed base digit n v"
  using assms(2)
proof (induction n arbitrary: v)
  case (Suc n)
  then have "v div base < base ^ n"
    by (simp add: less_mult_imp_div_less mult.commute)
  with Suc.IH show ?case by (subst fixed.simps) simp
qed simp

text \<open>
  A formatter \<open>run\<close> that pushes the digits of a value below \<open>limit\<close>, lowest first, on a stack.
\<close>

locale radix =
  fixes base :: nat and digit :: "nat \<Rightarrow> u8" and digit_of :: "u16 \<Rightarrow> nat option"
    and run :: "u64 \<Rightarrow> u8 list \<Rightarrow> u8 list outcome" and limit :: nat
  assumes base: "2 \<le> base" "base < 2 ^ 64"
    and digit_of: "i < base \<Longrightarrow> digit_of (ucast (digit i)) = Some i"
    and run_0: "run 0 str = Ret str"
    and run_step: "v \<noteq> 0 \<Longrightarrow> unat v < limit
      \<Longrightarrow> run v str = run (v div of_nat base) (digit (unat v mod base) # str)"
begin

lemma read_fixed:
  "v < base ^ n \<Longrightarrow> read_digits base digit_of acc (fixed base digit n v) = Some (acc * base ^ n + v)"
proof (induction n arbitrary: v)
  case (Suc n)
  then have "v div base < base ^ n" by (simp add: less_mult_imp_div_less mult.commute)
  then have "read_digits base digit_of acc (fixed base digit n (v div base))
      = Some (acc * base ^ n + v div base)" by (rule Suc.IH)
  moreover have "v mod base < base" using base by simp
  ultimately show ?case
    by (simp add: read_digits_append digit_of algebra_simps)
qed simp

lemma run_fixed:
  "base ^ k \<le> unat v \<Longrightarrow> unat v < base ^ Suc k \<Longrightarrow> unat v < limit
   \<Longrightarrow> \<exists>ds. run v str = Ret (ds @ str) \<and> map ucast ds = fixed base digit (Suc k) (unat v)"
proof (induction k arbitrary: v str)
  case 0
  then have "v \<noteq> 0" "unat v div base = 0" by auto
  moreover from this have "v div of_nat base = 0"
    using base(2) by (intro word_eq_unatI) (simp add: unat_div unat_of_nat)
  ultimately show ?case using 0 run_step [of v str] by (intro exI [of _ "[digit (unat v mod base)]"]) (simp add: run_0)
next
  case (Suc k)
  let ?q = "v div of_nat base" and ?d = "digit (unat v mod base)"
  have q: "unat ?q = unat v div base" using base(2) by (simp add: unat_div unat_of_nat)
  have "base ^ k \<le> unat ?q" using Suc.prems(1) base unfolding q
    by (simp add: less_eq_div_iff_mult_less_eq mult.commute)
  moreover have "unat ?q < base ^ Suc k" using Suc.prems(2) unfolding q
    by (intro less_mult_imp_div_less) (simp add: mult.commute)
  moreover have "unat ?q < limit"
    using Suc.prems(3) unfolding q by (meson div_le_dividend le_less_trans)
  ultimately obtain ds where ds: "run ?q (?d # str) = Ret (ds @ ?d # str)"
      "map ucast ds = fixed base digit (Suc k) (unat ?q)"
    using Suc.IH by blast
  have "v \<noteq> 0" using Suc.prems(1) base by (auto simp del: power_Suc)
  then show ?case using ds q run_step [OF _ Suc.prems(3), of str]
    by (intro exI [of _ "ds @ [?d]"]) (simp only: fixed.simps map_append list.map append_assoc, simp)
qed

lemma run_text:
  assumes "v \<noteq> 0" and "unat v < limit"
  obtains k ds where "base ^ k \<le> unat v" "unat v < base ^ Suc k" "run v [] = Ret ds"
    "map ucast ds = fixed base digit (Suc k) (unat v)"
proof -
  have "1 \<le> unat v" using assms(1) by (simp add: Suc_le_eq unat_gt_0)
  then obtain k where k: "base ^ k \<le> unat v" "unat v < base ^ (k + 1)"
    using ex_power_ivl1 [OF base(1)] by blast
  then show thesis using run_fixed [of k v "[]"] assms(2) that [of k] by auto
qed

end

definition dec_digit :: "nat \<Rightarrow> u8" where "dec_digit d = of_nat d + 48"

definition dec_digit_of :: "u16 \<Rightarrow> nat option" where
  "dec_digit_of c = (if 48 \<le> c \<and> c \<le> 57 then Some (unat c - 48) else None)"

definition hex_digit :: "nat \<Rightarrow> u8" where "hex_digit d = hex ! d"

definition hex_digit_of :: "u16 \<Rightarrow> nat option" where
  "hex_digit_of c = (if 97 \<le> c \<and> c \<le> 102 then Some (unat c - 87) else dec_digit_of c)"

lemma less_10_cases: "(i :: nat) < 10 \<Longrightarrow> i \<in> {0, 1, 2, 3, 4, 5, 6, 7, 8, 9}" by auto

lemma less_16_cases: "(i :: nat) < 16 \<Longrightarrow> i \<in> {0, 1, 2, 3, 4, 5, 6, 7, 8, 9, 10, 11, 12, 13, 14, 15}"
  by (simp only: insert_iff empty_iff) presburger

lemma c_quot_nat: "c_quot (int a) 10 = int (a div 10)"
  by (cases "a = 0") (simp_all add: c_quot_def zdiv_int)

lemma c_rem_nat: "c_rem (int a) 10 = int (a mod 10)"
  unfolding c_rem_def c_quot_nat by (simp add: zdiv_int zmod_int minus_div_mult_eq_mod)

lemma sint_small:
  assumes "unat v < 2 ^ 63"
  shows "sint (v :: u64) = int (unat v)"
proof -
  have "int (unat v) < int (2 ^ 63)" using assms by (simp only: of_nat_less_iff)
  then have "uint v < 2 ^ 63" by simp
  then have "signed_take_bit 63 (uint v) = uint v"
    by (intro signed_take_bit_int_eq_self) (rule order_trans [OF _ unsigned_greater_eq], simp_all)
  then show "sint v = int (unat v)" by (simp add: sint_uint)
qed

lemma lldiv_10:
  assumes "unat v < 2 ^ 63"
  shows "lldiv v 10 = Ret (v div 10, v mod 10)"
proof -
  have s: "sint v = int (unat v)" using assms by (rule sint_small)
  have q: "c_quot (sint v) 10 = int (unat v div 10)" "c_rem (sint v) 10 = int (unat v mod 10)"
    unfolding s by (rule c_quot_nat c_rem_nat)+
  have "(word_of_int (int (unat w)) :: u64) = w" for w by simp
  from this [of "v div 10"] this [of "v mod 10"]
  have "(word_of_int (int (unat v div 10)) :: u64) = v div 10"
      "(word_of_int (int (unat v mod 10)) :: u64) = v mod 10"
    by (simp_all only: unat_div unat_mod, simp_all)
  moreover have ten: "sint (10 :: u64) = 10" "(10 :: u64) \<noteq> 0" "(10 :: u64) \<noteq> -1" by simp_all
  ultimately show ?thesis unfolding lldiv_def ten(1) q using ten(2,3) by simp
qed

interpretation decimal: radix 10 dec_digit dec_digit_of value_loop "2 ^ 63"
proof unfold_locales
  show "dec_digit_of (ucast (dec_digit i)) = Some i" if "i < 10" for i
    using less_10_cases [OF that] by (auto simp: dec_digit_of_def dec_digit_def)
  show "value_loop 0 str = Ret str" for str by (simp add: value_loop.simps)
  show "value_loop v str = value_loop (v div of_nat 10) (dec_digit (unat v mod 10) # str)"
    if "v \<noteq> 0" "unat v < 2 ^ 63" for v str
  proof -
    have "(ucast ((ucast (v mod 10) :: u16) + 48) :: u8) = dec_digit (unat v mod 10)"
      by (intro word_eq_unatI) (simp add: dec_digit_def unsigned_ucast_eq unat_word_ariths unat_of_nat
          unat_mod take_bit_nat_def)
    then show ?thesis using that by (subst value_loop.simps) (simp add: lldiv_10)
  qed
qed simp_all

interpretation hexadecimal: radix 16 hex_digit hex_digit_of "\<lambda>v str. Ret (hex_loop v str)" "2 ^ 64"
proof unfold_locales
  show "hex_digit_of (ucast (hex_digit i)) = Some i" if "i < 16" for i
    using less_16_cases [OF that]
    by (auto simp: hex_digit_of_def dec_digit_of_def hex_digit_def hex_def)
  show "Ret (hex_loop 0 str) = Ret str" for str by (simp add: hex_loop.simps)
  show "Ret (hex_loop v str) = Ret (hex_loop (v div of_nat 16) (hex_digit (unat v mod 16) # str))"
    if "v \<noteq> 0" for v str
  proof -
    have "v AND 0xf = take_bit 4 v" by (simp add: take_bit_eq_mask mask_eq_exp_minus_1)
    then have "unat (v AND 0xf) = unat v mod 16"
      by (simp add: unsigned_take_bit_eq take_bit_nat_def)
    then show ?thesis using that
      by (subst hex_loop.simps) (simp add: hex_digit_def drop_bit_eq_div)
  qed
qed simp_all

section \<open>What the formatters write\<close>

abbreviation decimals :: "nat \<Rightarrow> nat \<Rightarrow> u16 list" where "decimals \<equiv> fixed 10 dec_digit"

abbreviation hexdigits :: "nat \<Rightarrow> nat \<Rightarrow> u16 list" where "hexdigits \<equiv> fixed 16 hex_digit"

definition read_int :: "u16 list \<Rightarrow> int option" where
  "read_int s =
     (case s of
        [] \<Rightarrow> None
      | c # cs \<Rightarrow>
          if c = wc CHR ''-'' then map_option (\<lambda>n. - int n) (read_digits 10 dec_digit_of 0 cs)
          else map_option int (read_digits 10 dec_digit_of 0 s))"

lemma fixed_Cons: "\<exists>c cs. fixed b d (Suc n) v = c # cs"
  using length_fixed [of b d "Suc n" v] by (cases "fixed b d (Suc n) v") auto

lemma dec_digit_of_minus [simp]: "dec_digit_of 45 = None"
  by (simp add: dec_digit_of_def)

lemma read_int_digits:
  "read_digits 10 dec_digit_of 0 s = Some n \<Longrightarrow> s \<noteq> [] \<Longrightarrow> read_int s = Some (int n)"
  by (cases s) (auto simp: read_int_def)

lemma sint_range64: "- (2 ^ 63) \<le> sint (v :: u64) \<and> sint v < 2 ^ 63"
  using sint_range_size [of v] by (auto simp: word_size)

lemma unat_of_int64: "0 \<le> k \<Longrightarrow> k < 2 ^ 64 \<Longrightarrow> unat (word_of_int k :: u64) = nat k"
  by (simp add: unsigned_of_int take_bit_int_eq_self)

text \<open>The text of a positive value below \<open>2 ^ 63\<close>.\<close>

lemma value_to_string_pos:
  assumes "v \<noteq> 0" and "unat v < 2 ^ 63"
  obtains k ds where "10 ^ k \<le> unat v" "unat v < 10 ^ Suc k" "k < 19" "value_loop v [] = Ret ds"
    "map ucast ds = decimals (Suc k) (unat v)"
proof -
  obtain k ds where k: "10 ^ k \<le> unat v" "unat v < 10 ^ Suc k" "value_loop v [] = Ret ds"
      "map ucast ds = decimals (Suc k) (unat v)"
    using decimal.run_text [OF assms] by blast
  have "(10 :: nat) ^ k < 10 ^ 19" using k(1) assms(2) by (intro le_less_trans [OF k(1)]) simp
  then have "k < 19" by (rule power_less_imp_less_exp [rotated]) simp
  with k show thesis by (intro that)
qed



lemma hex_zero: "hexdigits (Suc 0) 0 = [48]" "ucast (hex_digit 0) = (48 :: u16)"
  by (simp_all add: hex_digit_def hex_def)

text \<open>The digits of a hexadecimal text: one for 0, and as many as the value needs.\<close>

lemma value_to_hex_string_fixed:
  assumes "n = 0 \<or> 16 ^ n \<le> unat v" and "unat v < 16 ^ Suc n"
  shows "value_to_hex_string v = hexdigits (Suc n) (unat v)"
proof (cases "v = 0")
  case True
  then have "n = 0" using assms(1) by (cases n) simp_all
  then show ?thesis using True hex_zero by (simp add: value_to_hex_string_def)
next
  case False
  then have "16 ^ n \<le> unat v" using assms(1) by (auto simp: Suc_le_eq unat_gt_0)
  then show ?thesis
    using hexadecimal.run_fixed [of n v "[]"] assms(2) False unsigned_less [of v, where ?'a = nat]
    by (auto simp: value_to_hex_string_def simp del: fixed.simps)
qed

lemma hex_width:
  assumes "v < 16 ^ Suc m"
  obtains n where "n \<le> m" "n = 0 \<or> 16 ^ n \<le> v" "v < (16 :: nat) ^ Suc n"
proof (cases "v = 0")
  case True
  then show thesis by (intro that [of 0]) simp_all
next
  case False
  then obtain n where n: "16 ^ n \<le> v" "v < 16 ^ (n + 1)"
    using ex_power_ivl1 [of 16 v] by (auto simp: Suc_le_eq)
  have "(16 :: nat) ^ n < 16 ^ Suc m" using n(1) assms by (rule le_less_trans)
  then have "n < Suc m" by (rule power_less_imp_less_exp [rotated]) simp
  with n show thesis by (intro that [of n]) simp_all
qed

text \<open>
  \<open>value_to_hex_string\<close> writes the value in lower-case hexadecimal without leading zeros:
  the text reads back as the value, and has at most \<open>n\<close> characters exactly when the
  value is below \<open>16 ^ n\<close>.
\<close>

theorem value_to_hex_string_reads_back:
  "read_digits 16 hex_digit_of 0 (value_to_hex_string v) = Some (unat v)
   \<and> (length (value_to_hex_string v) \<le> Suc n \<longleftrightarrow> unat v < 16 ^ Suc n)"
proof -
  have "unat v < 16 ^ Suc 15" using unsigned_less [of v, where ?'a = nat] by simp
  then obtain k where k: "k = 0 \<or> 16 ^ k \<le> unat v" "unat v < 16 ^ Suc k" by (rule hex_width)
  have "k \<le> n \<longleftrightarrow> unat v < 16 ^ Suc n"
  proof
    assume "k \<le> n"
    then have "(16 :: nat) ^ Suc k \<le> 16 ^ Suc n" by (intro power_increasing) simp_all
    with k(2) show "unat v < 16 ^ Suc n" by (rule less_le_trans)
  next
    assume v: "unat v < 16 ^ Suc n"
    show "k \<le> n"
    proof (cases "k = 0")
      case False
      with k(1) v have "(16 :: nat) ^ k < 16 ^ Suc n" by (meson le_less_trans)
      then have "k < Suc n" by (rule power_less_imp_less_exp [rotated]) simp
      then show ?thesis by simp
    qed simp
  qed
  then show ?thesis
    using value_to_hex_string_fixed [OF k] hexadecimal.read_fixed [OF k(2), of 0]
    by (simp del: fixed.simps)
qed

text \<open>Padding: a loop of \<open>n\<close> tests fills a value below \<open>16 ^ Suc n\<close> up to \<open>Suc n\<close> digits.\<close>

lemma pad_limit:
  assumes "n < 7"
  shows "unat (push_bit (4 * n) 0x10 :: u32) = 16 ^ Suc n"
proof -
  have "n \<in> {0, 1, 2, 3, 4, 5, 6}" using assms by auto
  then show ?thesis by (auto simp: push_bit_eq_mult)
qed

lemma pad_hex:
  assumes "unat v < 16 ^ Suc n" and "n < 8"
  shows "pad_zeros n v @ value_to_hex_string (ucast v) = hexdigits (Suc n) (unat v)"
  using assms
proof (induction n)
  case 0
  then show ?case using value_to_hex_string_fixed [of 0 "ucast v"] by simp
next
  case (Suc n)
  have p: "unat (push_bit (4 * n) 0x10 :: u32) = 16 ^ Suc n"
    using Suc.prems(2) by (intro pad_limit) simp
  show ?case
  proof (cases "unat v < 16 ^ Suc n")
    case True
    with Suc p show ?thesis using fixed_zero_cons [of 16 "unat v" "Suc n" hex_digit]
      by (simp add: word_less_nat_alt hex_zero del: fixed.simps)
  next
    case False
    have z: "pad_zeros j v = []" if "j \<le> Suc n" for j
      using that
    proof (induction j)
      case (Suc j)
      have "unat (push_bit (4 * j) 0x10 :: u32) = 16 ^ Suc j"
        using Suc.prems \<open>Suc n < 8\<close> by (intro pad_limit) simp
      moreover have "(16 :: nat) ^ Suc j \<le> 16 ^ Suc n" using Suc.prems by (intro power_increasing) simp_all
      then have "16 ^ Suc j \<le> unat v" using False by linarith
      ultimately show ?case using Suc by (simp add: word_less_nat_alt)
    qed simp
    then show ?thesis using False Suc.prems value_to_hex_string_fixed [of "Suc n" "ucast v"]
      by (simp del: fixed.simps pad_zeros.simps)
  qed
qed


lemma pad_zeros_8: "pad_zeros 8 v = pad_zeros 7 v"
proof -
  have "push_bit (4 * 7) (0x10 :: u32) = 0" by (simp add: push_bit_eq_mult)
  then have "pad_zeros (Suc 7) v = pad_zeros 7 v" by (simp only: pad_zeros.simps) simp
  then show ?thesis by simp
qed

lemma pad_zeros_2:
  "pad_zeros 2 v = (if v < 0x100 then [48] else []) @ (if v < 0x10 then [48] else [])"
proof -
  have "pad_zeros (Suc (Suc 0)) v = (if v < 0x100 then [48] else []) @ (if v < 0x10 then [48] else [])"
    by (simp add: push_bit_eq_mult)
  then show ?thesis by (simp only: numeral_2_eq_2)
qed

lemma widen_widen:
  "ucast (ucast (w :: u16) :: u32) = (ucast w :: u64)" "ucast (ucast (b :: u8) :: u32) = (ucast b :: u64)"
  by (intro word_eq_unatI, simp)+

lemma guid_part_32: "pad_zeros 8 v @ value_to_hex_string (ucast v) = hexdigits 8 (unat v)"
  using pad_hex [of v 7] unsigned_less [of v, where ?'a = nat]
  by (simp add: pad_zeros_8 del: fixed.simps)

lemma guid_part_16:
  "pad_zeros 2 (ucast w) @ value_to_hex_string (ucast (w :: u16))
   = hexdigits (if w < 0x1000 then 3 else 4) (unat w)"
proof (cases "w < 0x1000")
  case True
  then show ?thesis using pad_hex [of "ucast w" 2]
    by (simp add: word_less_nat_alt widen_widen del: fixed.simps)
next
  case False
  have "unat w < 16 ^ Suc 3" using unsigned_less [of w, where ?'a = nat] by simp
  moreover from False have "16 ^ 3 \<le> unat w" by (simp add: word_less_nat_alt)
  moreover from this have "pad_zeros 2 (ucast w) = []"
    by (simp add: pad_zeros_2 word_less_nat_alt)
  ultimately show ?thesis using False value_to_hex_string_fixed [of 3 "ucast w"]
    by (simp del: fixed.simps)
qed

lemma hex_byte_fixed: "hex_byte = (\<lambda>b. hexdigits 2 (unat b))"
proof
  fix b
  have "hex_byte b = pad_zeros 1 (ucast b) @ value_to_hex_string (ucast (ucast b :: u32))"
    by (simp add: hex_byte_def word_less_nat_alt widen_widen)
  then show "hex_byte b = hexdigits 2 (unat b)"
    using pad_hex [of "ucast b" 1] unsigned_less [of b, where ?'a = nat]
    by (simp del: One_nat_def fixed.simps)
qed

text \<open>
  What \<open>guid_to_string\<close> prints. The first field always has its 8 digits and every byte its
  2, but the two 16-bit fields are padded to 3 digits only, one short of the standard
  text: a GUID with such a field below \<open>0x1000\<close> prints shorter than 36 characters.
\<close>

theorem guid_to_string_text:
  "guid_to_string g = hexdigits 8 (unat (ms1 g)) @ ws ''-''
     @ hexdigits (if ms2 g < 0x1000 then 3 else 4) (unat (ms2 g)) @ ws ''-''
     @ hexdigits (if ms3 g < 0x1000 then 3 else 4) (unat (ms3 g)) @ ws ''-''
     @ concat (map (\<lambda>b. hexdigits 2 (unat b)) (take 2 (ms4 g))) @ ws ''-''
     @ concat (map (\<lambda>b. hexdigits 2 (unat b)) (take 6 (drop 2 (ms4 g))))"
  using guid_part_32 [of "ms1 g"] guid_part_16 [of "ms2 g"] guid_part_16 [of "ms3 g"]
  by (simp only: guid_to_string_def hex_byte_fixed flip: append_assoc)

lemma value_to_string_fixed:
  assumes "n = 1 \<or> 1 < n \<and> 10 ^ (n - 1) \<le> unat v" and "unat v < 10 ^ n" and "unat v < 2 ^ 63"
  shows "value_to_string v = Ret (decimals n (unat v))"
proof (cases "v = 0")
  case True
  then have "n = 1" using assms(1) by auto
  then show ?thesis using True by (simp add: value_to_string_def dec_digit_def)
next
  case False
  obtain k where k: "n = Suc k" using assms(1) by (cases n) auto
  then have "10 ^ k \<le> unat v" using assms(1) False by (auto simp: Suc_le_eq unat_gt_0)
  moreover have "sint v = int (unat v)" using assms(3) by (rule sint_small)
  ultimately show ?thesis
    using decimal.run_fixed [of k v "[]"] assms(2,3) False k
    by (auto simp: value_to_string_def simp del: fixed.simps)
qed

lemma fixed_numeral:
  "fixed base digit (numeral n) v
   = fixed base digit (pred_numeral n) (v div base) @ [ucast (digit (v mod base))]"
  by (simp add: numeral_eq_Suc)

lemma decimals_pad: "v < 10 ^ n \<Longrightarrow> decimals (Suc n) v = 48 # decimals n v"
  using fixed_zero_cons [of 10 v n dec_digit] by (simp add: dec_digit_def)

lemma decimals_4:
  "v < 1000 \<Longrightarrow> decimals 4 v = 48 # decimals 3 v"
  "v < 100 \<Longrightarrow> decimals 3 v = 48 # decimals 2 v"
  "v < 10 \<Longrightarrow> decimals 2 v = 48 # decimals 1 v"
  using decimals_pad [of v 3] decimals_pad [of v 2] decimals_pad [of v 1]
  by (simp_all del: fixed.simps One_nat_def)

lemma two_digits_fixed:
  assumes "v < 100"
  shows "two_digits v = Ret (decimals 2 (unat v))"
proof (cases "v < 10")
  case True
  then show ?thesis using value_to_string_fixed [of 1 "ucast v"] decimals_4(3)
    by (simp add: two_digits_def word_less_nat_alt del: fixed.simps)
next
  case False
  then show ?thesis using assms value_to_string_fixed [of 2 "ucast v"]
    by (simp add: two_digits_def word_less_nat_alt del: fixed.simps)
qed

lemma year_fixed:
  assumes "y < 10000"
  obtains year where "value_to_string (ucast (y :: u16)) = Ret year"
    "(if y < 1000 then ws ''0'' else []) @ (if y < 100 then ws ''0'' else [])
     @ (if y < 10 then ws ''0'' else []) @ year = decimals 4 (unat y)"
proof -
  have y: "unat y < 10000" using assms by (simp add: word_less_nat_alt)
  have "\<exists>n \<in> {1, 2, 3, 4}. (n = 1 \<or> 1 < n \<and> 10 ^ (n - 1) \<le> unat y) \<and> unat y < 10 ^ n"
    using y by simp linarith
  then obtain n where n: "n \<in> {1, 2, 3, 4}" "n = 1 \<or> 1 < n \<and> 10 ^ (n - 1) \<le> unat y"
      "unat y < 10 ^ n" by blast
  have "value_to_string (ucast y) = Ret (decimals n (unat y))"
    using value_to_string_fixed [of n "ucast y"] n y by (auto simp del: fixed.simps)
  moreover have "(if y < 1000 then ws ''0'' else []) @ (if y < 100 then ws ''0'' else [])
      @ (if y < 10 then ws ''0'' else []) @ decimals n (unat y) = decimals 4 (unat y)"
    using n by (auto simp: word_less_nat_alt decimals_4 simp del: fixed.simps One_nat_def)
  ultimately show thesis by (rule that)
qed

text \<open>
  Every time with a four-digit year and two-digit fields prints as an ISO 8601 date and
  time, in exactly 19 characters.
\<close>

theorem time_to_string_iso8601:
  assumes "t_year t < 10000" and "t_month t < 100" and "t_day t < 100"
    and "t_hour t < 100" and "t_minute t < 100" and "t_second t < 100"
  shows "time_to_string t = Ret (decimals 4 (unat (t_year t)) @ ws ''-'' @ decimals 2 (unat (t_month t))
     @ ws ''-'' @ decimals 2 (unat (t_day t)) @ ws ''T'' @ decimals 2 (unat (t_hour t))
     @ ws '':'' @ decimals 2 (unat (t_minute t)) @ ws '':'' @ decimals 2 (unat (t_second t)))"
proof -
  obtain year where "value_to_string (ucast (t_year t)) = Ret year"
      "(if t_year t < 1000 then ws ''0'' else []) @ (if t_year t < 100 then ws ''0'' else [])
       @ (if t_year t < 10 then ws ''0'' else []) @ year = decimals 4 (unat (t_year t))"
    using year_fixed [OF assms(1)] by blast
  then show ?thesis using assms(2-)
    by (simp add: time_to_string_def two_digits_fixed flip: append_assoc del: fixed.simps)
qed

theorem time_to_string_iso8601_witness:
  "time_to_string \<lparr>t_year = 2021, t_month = 7, t_day = 18, t_hour = 9, t_minute = 5, t_second = 30,
     t_nanosecond = 0, t_timezone = 0, t_daylight = 0\<rparr> = Ret (ws ''2021-07-18T09:05:30'')"
  using time_to_string_iso8601 [of "\<lparr>t_year = 2021, t_month = 7, t_day = 18, t_hour = 9,
    t_minute = 5, t_second = 30, t_nanosecond = 0, t_timezone = 0, t_daylight = 0\<rparr>"]
  by (simp add: fixed_numeral dec_digit_def)

end
