(* ===== verification/Print.thy ===== *)
theory Print
  imports Number_Text
begin

text \<open>
  The \<open>printf\<close> engine of \<^verbatim>\<open>lib/efilib/efiprint.c\<close> and the entry points of
  \<^verbatim>\<open>include/efilib/print.h\<close>.

  \<open>struct ptr\<close> is a text, narrow or wide, and an index into it. The variable arguments are a
  list of values; reading one with another type than it has is \<open>UB\<close>. An integer argument
  is the 8-byte slot of both calling conventions, and a 32-bit read takes its low half.
  The output buffer is given by the characters between \<open>buffer\<close> and \<open>pos\<close>, its room (the
  characters the array has) and \<open>end - buffer\<close>. \<open>output\<close> and \<open>set_attr\<close> are either both the
  console's functions, whose calls are recorded in order, or both null.

  Decoding an invalid UTF-8 byte does not advance, so every loop over a narrow text may run
  for ever: the value of such a run is \<open>None\<close>. Two parameters stand for what the model
  leaves open: what is written for a device path (\<open>%D\<close>, with its terminator, and nothing for an
  empty path, whose text is then whatever the buffer held) and the text of a \<open>double\<close> (\<open>%f\<close>, which is
  floating point arithmetic of the machine).
\<close>

unbundle bit_operations_syntax

section \<open>Texts and state\<close>

datatype c_text = Ascii "u8 list" | Wide "u16 list"

record ptr =
  ptr_text :: c_text
  ptr_index :: nat

datatype print_arg =
    A_word u64
  | A_str "u8 list option"
  | A_wstr "u16 list option"
  | A_guid efi_guid
  | A_time efi_time
  | A_path addr
  | A_double u64

datatype console_op =
    Output_String "u16 list"
  | Set_Attribute u64
  | Set_Cursor_Position u64 u64

record pitem =
  it_text :: "c_text option"
  it_width :: u64
  it_field_width :: u64
  it_parse_field :: bool
  it_pad_char :: u16
  it_pad_before :: bool
  it_is_long :: bool
  it_is_short :: bool

record pstate =
  ps_fmt :: ptr
  ps_args :: "print_arg list"
  ps_out :: "u16 list"
  ps_room :: nat
  ps_end :: int
  ps_len :: u64
  ps_attr :: u64
  ps_restore_attr :: u64
  ps_attr_norm :: u64
  ps_attr_highlight :: u64
  ps_attr_error :: u64
  ps_add_cr :: bool
  ps_console :: bool
  ps_ops :: "console_op list"

record print_env =
  path_text :: "addr \<Rightarrow> u16 list outcome option"
  double_text :: "u64 \<Rightarrow> u16 list outcome"

text \<open>For formats with neither \<open>%D\<close> nor \<open>%f\<close>.\<close>

definition no_env :: print_env where
  "no_env = \<lparr>path_text = \<lambda>_. Some UB, double_text = \<lambda>_. UB\<rparr>"

definition PRINT_STRING_LEN :: nat where "PRINT_STRING_LEN = 200"
definition PRINT_ITEM_BUFFER_LEN :: nat where "PRINT_ITEM_BUFFER_LEN = 200"

section \<open>Output\<close>

definition ptr_flush :: "pstate \<Rightarrow> pstate" where
  "ptr_flush ps =
     (if ps_console ps
      then ps\<lparr>ps_ops := ps_ops ps @ [Output_String (ps_out ps)], ps_out := []\<rparr> else ps)"

definition ptr_setattr :: "u64 \<Rightarrow> pstate \<Rightarrow> pstate" where
  "ptr_setattr attr ps =
     (let ps = ptr_flush ps;
          ps = ps\<lparr>ps_restore_attr := ps_attr ps\<rparr>;
          ps = (if ps_console ps then ps\<lparr>ps_ops := ps_ops ps @ [Set_Attribute attr]\<rparr> else ps)
      in ps\<lparr>ps_attr := attr\<rparr>)"

text \<open>One character without the carriage return rule, and the whole \<open>ptr_putc\<close>.\<close>

definition put_plain :: "u16 \<Rightarrow> pstate \<Rightarrow> pstate outcome" where
  "put_plain c ps =
     (if length (ps_out ps) < ps_room ps
      then (let ps = ps\<lparr>ps_out := ps_out ps @ [c], ps_len := ps_len ps + 1\<rparr>
            in Ret (if int (length (ps_out ps)) \<ge> ps_end ps then ptr_flush ps else ps))
      else UB)"

definition ptr_putc :: "u16 \<Rightarrow> pstate \<Rightarrow> pstate outcome" where
  "ptr_putc c ps =
     (if c = wc CHR 0x0A \<and> ps_add_cr ps then obind (put_plain (wc CHR 0x0D) ps) (put_plain c)
      else put_plain c ps)"

primrec put_times :: "nat \<Rightarrow> u16 \<Rightarrow> pstate \<Rightarrow> pstate outcome" where
  "put_times 0 c ps = Ret ps"
| "put_times (Suc n) c ps = obind (ptr_putc c ps) (put_times n c)"

section \<open>Input\<close>

definition ptr_getc :: "ptr \<Rightarrow> (u16 \<times> ptr) outcome" where
  "ptr_getc p =
     (case ptr_text p of
        Ascii s \<Rightarrow>
          obind (mbtowc (drop (ptr_index p) s) 8) (\<lambda>(ret, c).
            Ret ((case c of Some c \<Rightarrow> c | None \<Rightarrow> wc CHR ''?''),
                 if ret > 0 then p\<lparr>ptr_index := ptr_index p + nat ret\<rparr> else p))
      | Wide s \<Rightarrow>
          if ptr_index p < length s then Ret (s ! ptr_index p, p\<lparr>ptr_index := ptr_index p + 1\<rparr>)
          else UB)"

text \<open>The first loop of \<open>ptr_item\<close>: the length of the item, at most its field width.\<close>

partial_function (option) item_len :: "ptr \<Rightarrow> u64 \<Rightarrow> nat outcome option" where
  "item_len p field_width =
     (if ptr_index p < unat field_width
      then once (ptr_getc p) (\<lambda>(c, p).
             if c = 0 then Some (Ret (ptr_index p - 1)) else item_len p field_width)
      else Some (Ret (ptr_index p)))"

text \<open>The loop that writes the item.\<close>

partial_function (option) item_put :: "ptr \<Rightarrow> nat \<Rightarrow> pstate \<Rightarrow> pstate outcome option" where
  "item_put p len ps =
     (if ptr_index p < len
      then once (ptr_getc p) (\<lambda>(c, p). once (ptr_putc c ps) (item_put p len))
      else Some (Ret ps))"

definition ptr_item :: "c_text \<Rightarrow> pitem \<Rightarrow> pstate \<Rightarrow> pstate outcome option" where
  "ptr_item txt item ps =
     (let p = \<lparr>ptr_text = txt, ptr_index = 0\<rparr>
      in rbind (item_len p (it_field_width item)) (\<lambda>len.
      let field_width = (if it_field_width item = -1 then of_nat len else it_field_width item);
          width = (if of_nat len > it_width item then of_nat len else it_width item);
          spaces = unat field_width - unat width
      in once (if it_pad_before item then put_times spaces (wc CHR '' '') ps else Ret ps) (\<lambda>ps.
         once (put_times (unat width - len) (it_pad_char item) ps) (\<lambda>ps.
         rbind (item_put p len ps) (\<lambda>ps.
         once (if \<not> it_pad_before item then put_times spaces (wc CHR '' '') ps else Ret ps) (\<lambda>ps.
         Some (Ret ps)))))))"

section \<open>Arguments\<close>

fun arg_word :: "print_arg list \<Rightarrow> (u64 \<times> print_arg list) outcome" where
  "arg_word (A_word v # as) = Ret (v, as)"
| "arg_word as = UB"

definition arg_u32 :: "print_arg list \<Rightarrow> (u32 \<times> print_arg list) outcome" where
  "arg_u32 as = obind (arg_word as) (\<lambda>(v, as). Ret (ucast v, as))"

fun arg_str :: "print_arg list \<Rightarrow> (u8 list option \<times> print_arg list) outcome" where
  "arg_str (A_str s # as) = Ret (s, as)"
| "arg_str as = UB"

fun arg_wstr :: "print_arg list \<Rightarrow> (u16 list option \<times> print_arg list) outcome" where
  "arg_wstr (A_wstr s # as) = Ret (s, as)"
| "arg_wstr as = UB"

fun arg_guid :: "print_arg list \<Rightarrow> (efi_guid \<times> print_arg list) outcome" where
  "arg_guid (A_guid g # as) = Ret (g, as)"
| "arg_guid as = UB"

fun arg_time :: "print_arg list \<Rightarrow> (efi_time \<times> print_arg list) outcome" where
  "arg_time (A_time t # as) = Ret (t, as)"
| "arg_time as = UB"

fun arg_path :: "print_arg list \<Rightarrow> (addr \<times> print_arg list) outcome" where
  "arg_path (A_path p # as) = Ret (p, as)"
| "arg_path as = UB"

fun arg_double :: "print_arg list \<Rightarrow> (u64 \<times> print_arg list) outcome" where
  "arg_double (A_double d # as) = Ret (d, as)"
| "arg_double as = UB"

text \<open>
  The number a conversion prints: 16 bits after \<open>h\<close>, 64 after \<open>l\<close> or \<open>z\<close>, else 32.
\<close>

definition arg_number :: "pitem \<Rightarrow> print_arg list \<Rightarrow> (u64 \<times> print_arg list) outcome" where
  "arg_number item as =
     (if it_is_short item then obind (arg_u32 as) (\<lambda>(v, as). Ret (ucast (ucast v :: u16), as))
      else if it_is_long item then arg_word as
      else obind (arg_u32 as) (\<lambda>(v, as). Ret (ucast v, as)))"

section \<open>Conversions\<close>

text \<open>Store a text and its terminator in \<open>item.scratch\<close>.\<close>

definition scratch :: "u16 list \<Rightarrow> pitem \<Rightarrow> pitem outcome" where
  "scratch s item =
     (if length s < PRINT_ITEM_BUFFER_LEN then Ret (item\<lparr>it_text := Some (Wide (s @ [0]))\<rparr>) else UB)"

definition set_width :: "u64 \<Rightarrow> pitem \<Rightarrow> pitem" where
  "set_width w item =
     (if it_parse_field item then item\<lparr>it_field_width := w\<rparr> else item\<lparr>it_width := w\<rparr>)"

text \<open>The decimal width: \<open>c\<close> is the digit just read.\<close>

partial_function (option) parse_width :: "ptr \<Rightarrow> u16 \<Rightarrow> u64 \<Rightarrow> (u64 \<times> ptr) outcome option" where
  "parse_width p c w =
     (let w = w * 10 + ucast c - 48
      in once (ptr_getc p) (\<lambda>(c, p).
           if c \<ge> 48 \<and> c \<le> 57 then parse_width p c w
           else Some (Ret (w, p\<lparr>ptr_index := ptr_index p - 1\<rparr>))))"

text \<open>The conversions that produce a text.\<close>

definition conv_text ::
    "print_env \<Rightarrow> u16 \<Rightarrow> pitem \<Rightarrow> print_arg list \<Rightarrow> (pitem \<times> print_arg list) outcome option" where
  "conv_text env c item as =
     (if c = wc CHR ''%'' then once (scratch (ws ''%'') item) (\<lambda>item. Some (Ret (item, as)))
      else if c = wc CHR ''s'' then
        (if it_is_long item
         then once (arg_wstr as) (\<lambda>(s, as). Some (Ret (item\<lparr>it_text :=
                Some (Wide (case s of None \<Rightarrow> ws ''(null)'' @ [0] | Some s \<Rightarrow> s))\<rparr>, as)))
         else once (arg_str as) (\<lambda>(s, as). Some (Ret (item\<lparr>it_text :=
                Some (Ascii (case s of None \<Rightarrow> bs8 ''(null)'' @ [0] | Some s \<Rightarrow> s))\<rparr>, as))))
      else if c = wc CHR ''c'' then
        once (arg_word as) (\<lambda>(v, as).
          Some (Ret (item\<lparr>it_text := Some (Wide [ucast v, 0])\<rparr>, as)))
      else if c \<in> {wc CHR ''p'', wc CHR ''X'', wc CHR ''x''} then
        (let item = (if c = wc CHR ''x'' then item
                     else item\<lparr>it_width := (if c = wc CHR ''p'' then 16
                                            else if it_is_short item then 4
                                            else if it_is_long item then 16 else 8),
                               it_pad_char := wc CHR ''0''\<rparr>)
         in once (arg_number item as) (\<lambda>(v, as).
            once (scratch (value_to_hex_string v) item) (\<lambda>item. Some (Ret (item, as)))))
      else if c = wc CHR ''D'' then
        once (arg_path as) (\<lambda>(p, as). rbind (path_text env p) (\<lambda>s.
          if length s \<le> PRINT_ITEM_BUFFER_LEN then Some (Ret (item\<lparr>it_text := Some (Wide s)\<rparr>, as))
          else Some UB))
      else if c = wc CHR ''g'' then
        once (arg_guid as) (\<lambda>(g, as).
          once (scratch (guid_to_string g) item) (\<lambda>item. Some (Ret (item, as))))
      else if c \<in> {wc CHR ''u'', wc CHR ''i'', wc CHR ''d''} then
        once (arg_number item as) (\<lambda>(v, as). once (value_to_string v) (\<lambda>s.
          once (scratch s item) (\<lambda>item. Some (Ret (item, as)))))
      else if c = wc CHR ''f'' then
        once (arg_double as) (\<lambda>(d, as). once (double_text env d) (\<lambda>s.
          once (scratch s item) (\<lambda>item. Some (Ret (item, as)))))
      else if c = wc CHR ''t'' then
        once (arg_time as) (\<lambda>(t, as). once (time_to_string t) (\<lambda>s.
          once (scratch s item) (\<lambda>item. Some (Ret (item, as)))))
      else if c = wc CHR ''r'' then
        once (arg_word as) (\<lambda>(v, as). once (status_to_string v) (\<lambda>s.
          once (scratch s item) (\<lambda>item. Some (Ret (item, as)))))
      else once (scratch (ws ''?'') item) (\<lambda>item. Some (Ret (item, as))))"

text \<open>
  One turn of the inner loop, the \<open>switch\<close> on the character \<open>c\<close>: flags and widths change the
  item, attribute letters the state or \<open>attr\<close>, all others produce a text.
\<close>

definition conv_char ::
    "print_env \<Rightarrow> u16 \<Rightarrow> pitem \<Rightarrow> u64 \<Rightarrow> pstate \<Rightarrow> (pitem \<times> u64 \<times> pstate) outcome option"
where
  "conv_char env c item attr ps =
     (if c = wc CHR ''0'' then Some (Ret (item\<lparr>it_pad_char := wc CHR ''0''\<rparr>, attr, ps))
      else if c = wc CHR ''-'' then Some (Ret (item\<lparr>it_pad_before := False\<rparr>, attr, ps))
      else if c = wc CHR ''.'' then Some (Ret (item\<lparr>it_parse_field := True\<rparr>, attr, ps))
      else if c = wc CHR ''*'' then
        once (arg_word (ps_args ps)) (\<lambda>(v, as).
          Some (Ret (set_width v item, attr, ps\<lparr>ps_args := as\<rparr>)))
      else if c \<ge> 49 \<and> c \<le> 57 then
        rbind (parse_width (ps_fmt ps) c 0) (\<lambda>(w, p).
          Some (Ret (set_width w item, attr, ps\<lparr>ps_fmt := p\<rparr>)))
      else if c = wc CHR ''h'' then Some (Ret (item\<lparr>it_is_short := True\<rparr>, attr, ps))
      else if c = wc CHR ''l'' then Some (Ret (item\<lparr>it_is_long := True\<rparr>, attr, ps))
      else if c = wc CHR ''z'' then Some (Ret (item\<lparr>it_is_long := True\<rparr>, attr, ps))
      else if c = wc CHR ''n'' then Some (Ret (item, attr, ptr_setattr (ps_attr_norm ps) ps))
      else if c = wc CHR ''b'' then Some (Ret (item, attr, ptr_setattr (ps_attr_highlight ps) ps))
      else if c = wc CHR ''e'' then Some (Ret (item, attr, ptr_setattr (ps_attr_error ps) ps))
      else if c = wc CHR ''T'' then
        once (arg_u32 (ps_args ps)) (\<lambda>(v, as).
          Some (Ret (item, (ucast v AND 0xf) OR (ps_attr ps AND 0xf0), ps\<lparr>ps_args := as\<rparr>)))
      else if c = wc CHR ''A'' then
        once (arg_u32 (ps_args ps)) (\<lambda>(v, as). Some (Ret (item, ucast v, ps\<lparr>ps_args := as\<rparr>)))
      else if c = wc CHR ''N'' then Some (Ret (item, ps_attr_norm ps, ps))
      else if c = wc CHR ''B'' then Some (Ret (item, ps_attr_highlight ps, ps))
      else if c = wc CHR ''E'' then Some (Ret (item, ps_attr_error ps, ps))
      else rbind (conv_text env c item (ps_args ps)) (\<lambda>(item, as).
             Some (Ret (item, attr, ps\<lparr>ps_args := as\<rparr>))))"

definition new_item :: pitem where
  "new_item = \<lparr>it_text = None, it_width = 0, it_field_width = -1, it_parse_field = False,
     it_pad_char = wc CHR '' '', it_pad_before = True, it_is_long = False, it_is_short = False\<rparr>"

text \<open>The inner loop, up to a \<open>break\<close> or the end of the format.\<close>

partial_function (option) conv_loop ::
    "print_env \<Rightarrow> pitem \<Rightarrow> u64 \<Rightarrow> pstate \<Rightarrow> pstate outcome option" where
  "conv_loop env item attr ps =
     once (ptr_getc (ps_fmt ps)) (\<lambda>(c, p).
       let ps = ps\<lparr>ps_fmt := p\<rparr> in
       if c = 0 then Some (Ret ps)
       else rbind (conv_char env c item attr ps) (\<lambda>(item, attr, ps).
         case it_text item of
           Some txt \<Rightarrow> ptr_item txt item ps
         | None \<Rightarrow>
             if attr \<noteq> 0 then Some (Ret ((ptr_setattr attr ps)\<lparr>ps_restore_attr := 0\<rparr>))
             else conv_loop env item attr ps))"

partial_function (option) print_loop ::
    "print_env \<Rightarrow> pstate \<Rightarrow> pstate outcome option" where
  "print_loop env ps =
     once (ptr_getc (ps_fmt ps)) (\<lambda>(c, p).
       let ps = ps\<lparr>ps_fmt := p\<rparr> in
       if c = 0 then Some (Ret ps)
       else if c \<noteq> wc CHR ''%'' then once (ptr_putc c ps) (print_loop env)
       else rbind (conv_loop env new_item 0 (ps\<lparr>ps_restore_attr := 0\<rparr>)) (\<lambda>ps.
         print_loop env
           (if ps_restore_attr ps \<noteq> 0 then ptr_setattr (ps_restore_attr ps) ps else ps)))"

definition print_fmt :: "print_env \<Rightarrow> pstate \<Rightarrow> (u64 \<times> pstate) outcome option" where
  "print_fmt env ps =
     rbind (print_loop env (ps\<lparr>ps_len := 0, ps_fmt := (ps_fmt ps)\<lparr>ptr_index := 0\<rparr>\<rparr>)) (\<lambda>ps.
       let ps = ptr_flush ps in Some (Ret (ps_len ps, ps)))"

section \<open>Entry points\<close>

definition EFI_LIGHTGRAY :: u64 where "EFI_LIGHTGRAY = 0x07"
definition EFI_YELLOW :: u64 where "EFI_YELLOW = 0x06 OR 0x08"
definition EFI_LIGHTRED :: u64 where "EFI_LIGHTRED = 0x04 OR 0x08"
definition EFI_BACKGROUND_BLACK :: u64 where "EFI_BACKGROUND_BLACK = 0x00"

text \<open>\<open>attribute\<close> is \<open>out->mode->attribute\<close>, a signed 32-bit value that is sign-extended.\<close>

definition console_state :: "u32 \<Rightarrow> c_text \<Rightarrow> print_arg list \<Rightarrow> pstate" where
  "console_state attribute fmt as =
     (let attr = (if attribute \<noteq> 0 then scast attribute else EFI_LIGHTGRAY OR EFI_BACKGROUND_BLACK)
      in \<lparr>ps_fmt = \<lparr>ptr_text = fmt, ptr_index = 0\<rparr>, ps_args = as, ps_out = [],
          ps_room = PRINT_STRING_LEN, ps_end = int PRINT_STRING_LEN - 1, ps_len = 0,
          ps_attr = attr, ps_restore_attr = 0, ps_attr_norm = attr AND 0xff,
          ps_attr_highlight = EFI_YELLOW OR (attr AND 0xf0),
          ps_attr_error = EFI_LIGHTRED OR (attr AND 0xf0), ps_add_cr = True, ps_console = True,
          ps_ops = []\<rparr>)"

text \<open>The result is the length and the calls on the console.\<close>

definition iprint ::
    "print_env \<Rightarrow> u32 \<Rightarrow> u64 \<Rightarrow> u64 \<Rightarrow> u16 list option \<Rightarrow> u8 list option \<Rightarrow> print_arg list
     \<Rightarrow> (u64 \<times> console_op list) outcome option" where
  "iprint env attribute column row fmt fmta as =
     (case (case fmt of Some f \<Rightarrow> Some (Wide f) | None \<Rightarrow> map_option Ascii fmta) of
        None \<Rightarrow> Some (Ret (0, []))
      | Some txt \<Rightarrow>
          rbind (print_fmt env (console_state attribute txt as)) (\<lambda>(ret, ps).
            Some (Ret (ret, (if column \<noteq> -1 then [Set_Cursor_Position column row] else []) @ ps_ops ps))))"

definition wprintf where
  "wprintf env attribute fmt as = iprint env attribute (-1) (-1) (Some fmt) None as"

definition wprintf_at where
  "wprintf_at env attribute column row fmt as = iprint env attribute column row (Some fmt) None as"

definition printf where
  "printf env attribute fmt as = iprint env attribute (-1) (-1) None (Some fmt) as"

definition printf_at where
  "printf_at env attribute column row fmt as = iprint env attribute column row None (Some fmt) as"

text \<open>
  \<open>vswprintf\<close>: \<open>room\<close> is the number of characters the array at \<open>str\<close> really has, \<open>maxlen\<close> the
  argument. The result is the length and the characters before the terminator.
\<close>

definition buffer_state :: "nat \<Rightarrow> nat \<Rightarrow> u16 list \<Rightarrow> print_arg list \<Rightarrow> pstate" where
  "buffer_state room maxlen fmt as =
     \<lparr>ps_fmt = \<lparr>ptr_text = Wide fmt, ptr_index = 0\<rparr>, ps_args = as, ps_out = [],
      ps_room = room, ps_end = int maxlen - 1, ps_len = 0, ps_attr = 0, ps_restore_attr = 0,
      ps_attr_norm = 0, ps_attr_highlight = 0, ps_attr_error = 0, ps_add_cr = False,
      ps_console = False, ps_ops = []\<rparr>"

definition vswprintf ::
    "print_env \<Rightarrow> nat \<Rightarrow> nat \<Rightarrow> u16 list \<Rightarrow> print_arg list \<Rightarrow> (u64 \<times> u16 list) outcome option" where
  "vswprintf env room maxlen fmt as =
     rbind (print_fmt env (buffer_state room maxlen fmt as)) (\<lambda>(ret, ps).
       if length (ps_out ps) < ps_room ps then Some (Ret (ret, ps_out ps)) else Some UB)"

definition wsprintf where
  "wsprintf env room maxlen fmt as = vswprintf env room maxlen fmt as"

end
