(* ===== verification/Print_Refine.thy ===== *)
theory Print_Refine
  imports Print
begin

text \<open>
  The format interpreter refines an abstract one. A format is a list of segments, plain text or
  a conversion with its flags; its text is the concatenation of the segments' texts, each
  conversion taking its arguments from the list. The interpreter, which reads characters,
  keeps flags in an item and writes through the output buffer, prints exactly that text.

  \<open>put_chars\<close> is the reference for output: the engine's loops over a well-formed text are
  \<open>put_chars\<close> of a list that the lemmas name.
\<close>

unbundle bit_operations_syntax

section \<open>Output\<close>

primrec put_chars :: "u16 list \<Rightarrow> pstate \<Rightarrow> pstate outcome" where
  "put_chars [] ps = Ret ps"
| "put_chars (c # cs) ps = obind (ptr_putc c ps) (put_chars cs)"

lemma put_chars_append: "put_chars (xs @ ys) = (\<lambda>ps. obind (put_chars xs ps) (put_chars ys))"
proof
  show "put_chars (xs @ ys) ps = obind (put_chars xs ps) (put_chars ys)" for ps
    by (induction xs arbitrary: ps) (auto simp: obind_assoc intro: obind_cong)
qed

lemma put_chars_Nil: "put_chars [] = Ret"
  by (rule ext) simp

lemma put_times_chars: "put_times n c = put_chars (replicate n c)"
proof
  show "put_times n c ps = put_chars (replicate n c) ps" for ps
    by (induction n arbitrary: ps) (auto intro: obind_cong)
qed

lemma once_Some: "once m (\<lambda>x. Some (f x)) = Some (obind m f)"
  by (cases m) simp_all

lemma obind_Ret: "obind m Ret = m"
  by (cases m) simp_all

section \<open>Items\<close>

abbreviation wide_at :: "u16 list \<Rightarrow> nat \<Rightarrow> ptr" where
  "wide_at s i \<equiv> \<lparr>ptr_text = Wide s, ptr_index = i\<rparr>"

lemma ptr_getc_wide:
  "i < length s \<Longrightarrow> ptr_getc (wide_at s i) = Ret (s ! i, wide_at s (Suc i))"
  by (simp add: ptr_getc_def)

lemma cstr_append [simp]: "0 \<notin> set cs \<Longrightarrow> cstr (cs @ 0 # rest) = cs"
  by (induction cs) auto

text \<open>A text with a terminator, its characters being \<open>cstr s\<close>.\<close>

lemma cstr_prefix:
  assumes "0 \<in> set s"
  obtains rest where "s = cstr s @ 0 # rest" "0 \<notin> set (cstr s)"
proof -
  obtain xs ys where "s = xs @ 0 # ys" "0 \<notin> set xs" using split_list_first [OF assms] by blast
  moreover from this have "cstr s = xs" by simp
  ultimately show thesis by (intro that [of ys]) simp_all
qed

lemma item_len_wide:
  assumes "0 \<notin> set cs" and "i \<le> length cs"
  shows "item_len (wide_at (cs @ 0 # rest) i) w
    = Some (Ret (if i < unat w then min (length cs) (unat w) else i))"
  using assms(2)
proof (induction "length cs - i" arbitrary: i)
  case 0
  then have "i = length cs" by simp
  then show ?case by (subst item_len.simps) (simp add: ptr_getc_wide nth_append)
next
  case (Suc n)
  then have i: "i < length cs" by simp
  then have "cs ! i \<noteq> 0" using assms(1) by (metis nth_mem)
  moreover have "item_len (wide_at (cs @ 0 # rest) (Suc i)) w
      = Some (Ret (if Suc i < unat w then min (length cs) (unat w) else Suc i))"
    using Suc i by (intro Suc.hyps(1)) simp_all
  ultimately show ?case using i
    by (subst item_len.simps) (auto simp: ptr_getc_wide nth_append)
qed

lemma item_put_wide:
  "len \<le> length s \<Longrightarrow> i \<le> len \<Longrightarrow>
   item_put (wide_at s i) len ps = Some (put_chars (take (len - i) (drop i s)) ps)"
proof (induction "len - i" arbitrary: i ps)
  case 0
  then show ?case by (subst item_put.simps) simp
next
  case (Suc n)
  then have i: "i < len" "i < length s" by simp_all
  have step: "take (len - i) (drop i s) = s ! i # take (len - Suc i) (drop (Suc i) s)"
    using i by (simp add: Cons_nth_drop_Suc [symmetric] Suc_diff_Suc [symmetric])
  have "item_put (wide_at s (Suc i)) len ps' = Some (put_chars (take (len - Suc i) (drop (Suc i) s)) ps')"
    for ps' using Suc i by (intro Suc.hyps(1)) simp_all
  then show ?case using i unfolding step
    by (subst item_put.simps) (cases "ptr_putc (s ! i) ps"; simp add: ptr_getc_wide)
qed

lemma unat_max_64: "unat (-1 :: u64) = 2 ^ 64 - 1"
  by (simp add: unsigned_minus_1_eq_mask mask_eq_exp_minus_1)

text \<open>The text an item prints as: pad characters up to its width, spaces up to its field width.\<close>

definition padded :: "pitem \<Rightarrow> u16 list \<Rightarrow> u16 list" where
  "padded item s =
     (let s = take (unat (it_field_width item)) s;
          width = max (length s) (unat (it_width item));
          field = (if it_field_width item = -1 then length s else unat (it_field_width item));
          spaces = replicate (field - width) (wc CHR '' '');
          body = replicate (width - length s) (it_pad_char item) @ s
      in if it_pad_before item then spaces @ body else body @ spaces)"

text \<open>
  An item is printed as its text, cut at the field width, padded on the left with the pad
  character up to the width, and aligned with spaces in the field on the side the flag
  \<open>-\<close> selects. This holds for every width, field width and text.
\<close>

lemma ptr_item_wide:
  assumes "0 \<in> set s" and "length s < 2 ^ 64"
  shows "ptr_item (Wide s) item ps = Some (put_chars (padded item (cstr s)) ps)"
proof -
  obtain rest where s: "s = cstr s @ 0 # rest" and nz: "0 \<notin> set (cstr s)"
    using cstr_prefix [OF assms(1)] by blast
  define len where "len = min (length (cstr s)) (unat (it_field_width item))"
  have "item_len (wide_at s 0) (it_field_width item) = Some (Ret len)"
    using item_len_wide [OF nz, of 0 rest "it_field_width item"] s
    by (auto simp: len_def split: if_splits)
  moreover have short: "len \<le> length s" "len < 2 ^ 64"
    using assms(2) arg_cong [OF s, of length] by (auto simp: len_def min_def)
  moreover from short(2) have "unat (of_nat len :: u64) = len" by (simp add: unat_of_nat)
  moreover define q where "q = take (unat (it_field_width item)) (cstr s)"
  moreover have "take len s = q" unfolding q_def by (subst s) (simp add: len_def min_def)
  moreover have "length q = len" by (simp add: q_def len_def min.commute)
  ultimately show ?thesis
    unfolding padded_def q_def [symmetric] Let_def ptr_item_def
    by (cases "it_pad_before item"; cases "it_field_width item = -1")
      (simp_all add: item_put_wide put_times_chars once_Some word_less_nat_alt max_def obind_Ret
        put_chars_append put_chars_Nil obind_assoc)
qed

section \<open>The format\<close>

text \<open>Output does not look at the format, the arguments or the attribute to restore.\<close>

definition reposition :: "ptr \<Rightarrow> print_arg list \<Rightarrow> u64 \<Rightarrow> pstate \<Rightarrow> pstate" where
  "reposition p as r ps = ps\<lparr>ps_fmt := p, ps_args := as, ps_restore_attr := r\<rparr>"

lemma reposition_simps [simp]:
  "ps_fmt (reposition p as r ps) = p" "ps_args (reposition p as r ps) = as"
  "ps_restore_attr (reposition p as r ps) = r"
  "reposition p as r ps\<lparr>ps_fmt := p'\<rparr> = reposition p' as r ps"
  "reposition p as r ps\<lparr>ps_args := as'\<rparr> = reposition p as' r ps"
  "reposition p as r ps\<lparr>ps_restore_attr := r'\<rparr> = reposition p as r' ps"
  by (simp_all add: reposition_def)

lemma put_plain_reposition:
  "put_plain c (reposition p as r ps) = obind (put_plain c ps) (\<lambda>ps. Ret (reposition p as r ps))"
  by (simp add: put_plain_def ptr_flush_def Let_def reposition_def)

lemma put_chars_reposition:
  "put_chars cs (reposition p as r ps) = obind (put_chars cs ps) (\<lambda>ps. Ret (reposition p as r ps))"
proof (induction cs arbitrary: ps)
  case (Cons c cs)
  have "ptr_putc c (reposition p as r ps) = obind (ptr_putc c ps) (\<lambda>ps. Ret (reposition p as r ps))"
    
    by (simp add: ptr_putc_def put_plain_reposition obind_assoc reposition_def [of p as r ps])
      (simp add: put_plain_reposition obind_assoc flip: reposition_def)
  then show ?case by (cases "ptr_putc c ps") (simp_all add: Cons.IH)
qed simp

lemma ptr_putc_reposition:
  "ptr_putc c (reposition p as r ps) = obind (ptr_putc c ps) (\<lambda>ps. Ret (reposition p as r ps))"
  using put_chars_reposition [where cs = "[c]" and p = p and as = as and r = r and ps = ps]
  by (cases "ptr_putc c (reposition p as r ps)"; cases "ptr_putc c ps") auto

lemma drop_Cons_nth:
  assumes "drop i f = c # rest"
  shows "i < length f" "f ! i = c" "drop (Suc i) f = rest"
proof -
  show "i < length f" using assms by (metis drop_all linorder_not_less list.distinct(1))
  show "f ! i = c" using assms by (rule nth_via_drop)
  show "drop (Suc i) f = rest" using assms by (metis drop_Suc tl_drop list.sel(3))
qed

lemma print_loop_plain:
  assumes "drop i f = cs @ rest" and "0 \<notin> set cs" and "wc CHR ''%'' \<notin> set cs"
  shows "print_loop env (reposition (wide_at f i) as r ps)
    = once (put_chars cs ps)
        (\<lambda>ps. print_loop env (reposition (wide_at f (i + length cs)) as r ps))"
  using assms
proof (induction cs arbitrary: i ps)
  case Nil
  then show ?case by simp
next
  case (Cons c cs)
  from Cons.prems(1) have d: "drop i f = c # cs @ rest" by simp
  note i = drop_Cons_nth [OF d]
  have "print_loop env (reposition (wide_at f (Suc i)) as r ps)
    = once (put_chars cs ps)
        (\<lambda>ps. print_loop env (reposition (wide_at f (Suc i + length cs)) as r ps))" for ps
    using i Cons by (intro Cons.IH) simp_all
  then show ?case using Cons.prems i
    by (subst print_loop.simps)
      (cases "ptr_putc c ps"; simp add: ptr_getc_wide Let_def ptr_putc_reposition)
qed

lemma print_loop_end:
  assumes "drop i f = 0 # rest"
  shows "print_loop env (reposition (wide_at f i) as r ps)
    = Some (Ret (reposition (wide_at f (Suc i)) as r ps))"
  using drop_Cons_nth [OF assms] by (subst print_loop.simps) (simp add: ptr_getc_wide Let_def)

text \<open>The letters that set a flag, a width or an attribute; any other one yields a text.\<close>

definition flag_letter :: "u16 \<Rightarrow> bool" where
  "flag_letter c \<longleftrightarrow> c \<in> set (ws ''0-.*hlznbeTANBE'') \<or> (49 \<le> c \<and> c \<le> 57)"

lemma conv_char_text:
  "\<not> flag_letter c \<Longrightarrow> conv_char env c item attr ps
     = rbind (conv_text env c item (ps_args ps)) (\<lambda>(item, as). Some (Ret (item, attr, ps\<lparr>ps_args := as\<rparr>)))"
  by (auto simp: conv_char_def flag_letter_def)

section \<open>Segments\<close>

datatype segment = Lit "u16 list" | Conv "u16 list" u16

definition flag_item :: "pitem \<Rightarrow> u16 \<Rightarrow> pitem" where
  "flag_item item c =
     (if c = wc CHR ''0'' then item\<lparr>it_pad_char := wc CHR ''0''\<rparr>
      else if c = wc CHR ''-'' then item\<lparr>it_pad_before := False\<rparr>
      else if c = wc CHR ''.'' then item\<lparr>it_parse_field := True\<rparr>
      else if c = wc CHR ''h'' then item\<lparr>it_is_short := True\<rparr>
      else item\<lparr>it_is_long := True\<rparr>)"

definition is_flag :: "u16 \<Rightarrow> bool" where
  "is_flag c \<longleftrightarrow> c \<in> set (ws ''0-.hlz'')"

definition plain :: "u16 list \<Rightarrow> bool" where
  "plain s \<longleftrightarrow> 0 \<notin> set s \<and> wc CHR ''%'' \<notin> set s"

primrec segment_format :: "segment \<Rightarrow> u16 list" where
  "segment_format (Lit s) = s"
| "segment_format (Conv flags c) = wc CHR ''%'' # flags @ [c]"

definition format_of :: "segment list \<Rightarrow> u16 list" where
  "format_of segs = concat (map segment_format segs)"

text \<open>The text of a conversion and the arguments left, if it has a text.\<close>

definition conv_result ::
    "print_env \<Rightarrow> u16 list \<Rightarrow> u16 \<Rightarrow> print_arg list \<Rightarrow> (u16 list \<times> print_arg list) option" where
  "conv_result env flags c as =
     (case conv_text env c (foldl flag_item new_item flags) as of
        Some (Ret (item, as')) \<Rightarrow>
          (case it_text item of
             Some (Wide t) \<Rightarrow>
               if 0 \<in> set t \<and> length t < 2 ^ 64 then Some (padded item (cstr t), as') else None
           | _ \<Rightarrow> None)
      | _ \<Rightarrow> None)"

fun segments_text :: "print_env \<Rightarrow> segment list \<Rightarrow> print_arg list \<Rightarrow> u16 list option" where
  "segments_text env [] as = Some []"
| "segments_text env (Lit s # segs) as =
     (if plain s then map_option (\<lambda>t. s @ t) (segments_text env segs as) else None)"
| "segments_text env (Conv flags c # segs) as =
     (if list_all is_flag flags \<and> c \<noteq> 0 \<and> \<not> flag_letter c
      then (case conv_result env flags c as of
              None \<Rightarrow> None
            | Some (s, as') \<Rightarrow> map_option (\<lambda>t. s @ t) (segments_text env segs as'))
      else None)"

section \<open>The interpreter on a segment\<close>

lemma is_flag_cases: "is_flag c \<Longrightarrow> c = 48 \<or> c = 45 \<or> c = 46 \<or> c = 104 \<or> c = 108 \<or> c = 122"
  by (simp add: is_flag_def)

lemma conv_char_flag:
  assumes "is_flag c"
  shows "conv_char env c item attr ps = Some (Ret (flag_item item c, attr, ps))"
  using is_flag_cases [OF assms]
  by (elim disjE) (simp_all add: conv_char_def flag_item_def)

lemma conv_loop_flag:
  assumes "drop i f = c # rest" and "is_flag c" and "it_text item = None"
  shows "conv_loop env item 0 (reposition (wide_at f i) as r ps)
    = conv_loop env (flag_item item c) 0 (reposition (wide_at f (Suc i)) as r ps)"
proof -
  have "c \<noteq> 0" using is_flag_cases [OF assms(2)] by auto
  moreover have "it_text (flag_item item c) = None" using assms(3) by (simp add: flag_item_def)
  ultimately show ?thesis using drop_Cons_nth [OF assms(1)]
    by (subst conv_loop.simps) (simp add: ptr_getc_wide Let_def conv_char_flag [OF assms(2)])
qed

lemma flag_item_text: "it_text (flag_item item c) = it_text item"
  by (simp add: flag_item_def)

lemma conv_loop_flags:
  assumes "drop i f = flags @ rest" and "list_all is_flag flags" and "it_text item = None"
  shows "conv_loop env item 0 (reposition (wide_at f i) as r ps)
    = conv_loop env (foldl flag_item item flags) 0 (reposition (wide_at f (i + length flags)) as r ps)"
  using assms
proof (induction flags arbitrary: i item)
  case (Cons c flags)
  from Cons.prems(1) have d: "drop i f = c # flags @ rest" by simp
  have "conv_loop env (flag_item item c) 0 (reposition (wide_at f (Suc i)) as r ps)
      = conv_loop env (foldl flag_item (flag_item item c) flags) 0
          (reposition (wide_at f (Suc i + length flags)) as r ps)"
    using Cons.prems drop_Cons_nth(3) [OF d] by (intro Cons.IH) (simp_all add: flag_item_text)
  then show ?case using conv_loop_flag [OF d] Cons.prems(2,3) by simp
qed simp

lemma print_loop_segment:
  assumes d: "drop i f = wc CHR ''%'' # flags @ c # rest"
    and c: "c \<noteq> 0" "\<not> flag_letter c" and fl: "list_all is_flag flags"
    and res: "conv_result env flags c as = Some (s, as')"
  shows "print_loop env (reposition (wide_at f i) as r ps)
    = once (put_chars s ps)
        (\<lambda>ps. print_loop env (reposition (wide_at f (i + length flags + 2)) as' 0 ps))"
proof -
  let ?item = "foldl flag_item new_item flags"
  obtain item t where conv: "conv_text env c ?item as = Some (Ret (item, as'))"
    and item: "it_text item = Some (Wide t)" "0 \<in> set t" "length t < 2 ^ 64"
    and s: "s = padded item (cstr t)"
    using res by (auto simp: conv_result_def split: option.splits outcome.splits prod.splits
        c_text.splits if_splits)
  note i = drop_Cons_nth [OF d]
  have j: "drop (Suc i + length flags) f = c # rest"
    using i(3) by (metis append_eq_conv_conj drop_drop add.commute)
  note j = drop_Cons_nth [OF j]
  have "conv_loop env new_item 0 (reposition (wide_at f (Suc i)) as 0 ps)
      = conv_loop env ?item 0 (reposition (wide_at f (Suc i + length flags)) as 0 ps)"
    using i(3) fl by (intro conv_loop_flags) (simp_all add: new_item_def)
  also have "\<dots> = Some (obind (put_chars s ps)
      (\<lambda>ps. Ret (reposition (wide_at f (Suc (Suc (i + length flags)))) as' 0 ps)))"
    using j c conv item s
    by (subst conv_loop.simps)
      (simp add: ptr_getc_wide Let_def conv_char_text ptr_item_wide put_chars_reposition)
  finally show ?thesis using i
    by (subst print_loop.simps)
      (cases "put_chars s ps"; simp add: ptr_getc_wide Let_def)
qed

lemma print_loop_segments:
  assumes "drop i f = format_of segs @ 0 # rest" and "segments_text env segs as = Some t"
  shows "\<exists>as' r' i'. print_loop env (reposition (wide_at f i) as r ps)
    = once (put_chars t ps) (\<lambda>ps. Some (Ret (reposition (wide_at f i') as' r' ps)))"
  using assms
proof (induction env segs as arbitrary: i r ps t rule: segments_text.induct)
  case (1 env as)
  then show ?case using print_loop_end [of i f rest env as r ps]
    by (auto simp: format_of_def)
next
  case (2 env s segs as)
  then obtain t' where t': "plain s" "segments_text env segs as = Some t'" "t = s @ t'"
    by (auto split: if_splits)
  have d: "drop i f = s @ format_of segs @ 0 # rest" using 2 by (simp add: format_of_def)
  then have d': "drop (i + length s) f = format_of segs @ 0 # rest"
    by (metis append_eq_conv_conj drop_drop add.commute)
  have "print_loop env (reposition (wide_at f i) as r ps) = once (put_chars s ps)
      (\<lambda>ps. print_loop env (reposition (wide_at f (i + length s)) as r ps))"
    using print_loop_plain [OF d] t'(1) by (simp add: plain_def)
  then show ?case using 2(1) [OF t'(1) d' t'(2)] t'(3)
    by (cases "put_chars s ps") (auto simp: put_chars_append)
next
  case (3 env flags c segs as)
  then obtain s as1 t' where c: "list_all is_flag flags" "c \<noteq> 0" "\<not> flag_letter c"
    and res: "conv_result env flags c as = Some (s, as1)"
    and t': "segments_text env segs as1 = Some t'" "t = s @ t'"
    by (auto split: if_splits option.splits)
  have d: "drop i f = wc CHR ''%'' # flags @ c # format_of segs @ 0 # rest"
    using 3 by (simp add: format_of_def)
  then have d': "drop (i + length flags + 2) f = format_of segs @ 0 # rest"
    using drop_drop [of "length flags + 2" i f] by (simp add: add.commute)
  show ?case
    using print_loop_segment [OF d c(2,3,1) res, of r ps] 3(1) [OF _ res _ d' t'(1)] c t'(2)
    by (cases "put_chars s ps") (auto simp: put_chars_append)
qed

section \<open>Printing to a buffer\<close>

lemma put_chars_buffer:
  assumes "\<not> ps_console ps" and "\<not> ps_add_cr ps" and "length (ps_out ps) \<le> ps_room ps"
  shows "put_chars cs ps =
    (if length (ps_out ps) + length cs \<le> ps_room ps
     then Ret (ps\<lparr>ps_out := ps_out ps @ cs, ps_len := ps_len ps + of_nat (length cs)\<rparr>) else UB)"
  using assms
proof (induction cs arbitrary: ps)
  case (Cons c cs)
  then show ?case
    by (simp add: ptr_putc_def put_plain_def ptr_flush_def Let_def add.assoc)
qed simp

text \<open>
  The whole call: \<open>vswprintf\<close> of a format whose segments have a text for the arguments.
\<close>

lemma vswprintf_segments:
  assumes "segments_text env segs as = Some t"
  shows "vswprintf env room maxlen (format_of segs @ [0]) as
    = Some (if length t < room then Ret (of_nat (length t), t) else UB)"
proof -
  define f where "f = format_of segs @ [0]"
  define ps where "ps = buffer_state room maxlen f as"
  have ps: "\<not> ps_console ps" "\<not> ps_add_cr ps" "ps_out ps = []" "ps_room ps = room" "ps_len ps = 0"
    by (simp_all add: ps_def buffer_state_def)
  have start: "ps\<lparr>ps_len := 0, ps_fmt := (ps_fmt ps)\<lparr>ptr_index := 0\<rparr>\<rparr>
      = reposition (wide_at f 0) as 0 ps"
    by (simp add: ps_def buffer_state_def reposition_def)
  obtain as' r' i' where run: "print_loop env (reposition (wide_at f 0) as 0 ps)
      = once (put_chars t ps) (\<lambda>ps. Some (Ret (reposition (wide_at f i') as' r' ps)))"
    using print_loop_segments [OF _ assms, of 0 f "[]" 0 ps] by (auto simp: f_def)
  have put: "put_chars t ps = (if length t \<le> room
      then Ret (ps\<lparr>ps_out := t, ps_len := of_nat (length t)\<rparr>) else UB)"
    using put_chars_buffer [of ps t] ps by simp
  show ?thesis
    unfolding vswprintf_def print_fmt_def f_def [symmetric] ps_def [symmetric] start run put
    using ps by (auto simp: Let_def ptr_flush_def reposition_def)
qed

lemma vswprintf_conversion:
  assumes "plain pre" and "plain post" and "c \<noteq> 0" and "\<not> flag_letter c"
    and "conv_text env c new_item as = Some (Ret (item, as'))"
    and "it_text item = Some (Wide t)" and "0 \<in> set t" and "length t < 2 ^ 64"
  defines "shown \<equiv> pre @ padded item (cstr t) @ post"
  shows "vswprintf env room maxlen (pre @ wc CHR ''%'' # c # post @ [0]) as
    = Some (if length shown < room then Ret (of_nat (length shown), shown) else UB)"
proof -
  have "segments_text env [Lit pre, Conv [] c, Lit post] as = Some shown"
    using assms by (simp add: conv_result_def)
  from vswprintf_segments [OF this, of room maxlen] show ?thesis by (simp add: format_of_def)
qed

section \<open>Digit texts\<close>

lemma fixed_pad:
  assumes "0 < base" and "v < base ^ n"
  shows "fixed base digit (k + n) v = replicate k (ucast (digit 0)) @ fixed base digit n v"
proof (induction k)
  case (Suc k)
  have "base ^ n \<le> base ^ (k + n)" using assms(1) by (simp add: power_increasing Suc_leI)
  then have "v < base ^ (k + n)" using assms(2) by linarith
  then show ?case using fixed_zero_cons [OF assms(1), of v "k + n" digit] Suc by simp
qed simp

text \<open>Characters of a digit text.\<close>

lemma fixed_chars:
  assumes "0 < base" and "\<And>i. i < base \<Longrightarrow> digit i \<noteq> 0"
  shows "0 \<notin> set (fixed base digit n v)"
proof (induction n arbitrary: v)
  case (Suc n)
  have "digit (v mod base) \<noteq> 0" using assms by simp
  then have "(ucast (digit (v mod base)) :: u16) \<noteq> 0" by (metis unat_widen(1) unat_eq_zero unat_0)
  with Suc show ?case by auto
qed simp

lemma hex_digit_nonzero: "i < 16 \<Longrightarrow> hex_digit i \<noteq> 0"
  using less_16_cases [of i] by (auto simp: hex_digit_def hex_def)

lemma dec_digit_nonzero: "i < 10 \<Longrightarrow> dec_digit i \<noteq> 0"
  using less_10_cases [of i] by (auto simp: dec_digit_def)

text \<open>The decimal text of a 32-bit value.\<close>

lemma value_to_string_u32:
  fixes x :: u64
  assumes "unat x < 2 ^ 32"
  obtains s where "value_to_string x = Ret s" "0 \<notin> set s" "s \<noteq> []" "length s \<le> 10"
    "read_digits 10 dec_digit_of 0 s = Some (unat x)"
proof -
  obtain n where n: "0 < n" "n \<le> 10" "n = 1 \<or> 1 < n \<and> 10 ^ (n - 1) \<le> unat x" "unat x < 10 ^ n"
  proof (cases "unat x = 0")
    case True
    then show thesis by (intro that [of 1]) simp_all
  next
    case False
    then obtain k where k: "10 ^ k \<le> unat x" "unat x < 10 ^ (k + 1)"
      using ex_power_ivl1 [of 10 "unat x"] by (auto simp: Suc_le_eq)
    then have "(10 :: nat) ^ k < 10 ^ 10" using assms by (intro le_less_trans [OF k(1)]) simp
    then have "k < 10" by (rule power_less_imp_less_exp [rotated]) simp
    with k show thesis by (intro that [of "Suc k"]) auto
  qed
  then have "value_to_string x = Ret (decimals n (unat x))" "length (decimals n (unat x)) = n"
      "0 \<notin> set (decimals n (unat x))"
    using value_to_string_fixed [OF n(3,4)] fixed_chars [of 10 dec_digit] dec_digit_nonzero assms
    by (simp_all del: fixed.simps)
  moreover have "read_digits 10 dec_digit_of 0 (decimals n (unat x)) = Some (unat x)"
    using decimal.read_fixed [OF n(4), of 0] by (simp del: fixed.simps)
  moreover have "decimals n (unat x) \<noteq> []" using n(1) by (cases n) simp_all
  ultimately show thesis using n(2) by (intro that [of "decimals n (unat x)"]) (simp_all del: fixed.simps)
qed

lemma hex_text_plain:
  "0 \<notin> set (value_to_hex_string v)" "length (value_to_hex_string v) \<le> 16"
proof -
  have "unat v < 16 ^ Suc 15" using unsigned_less [of v, where ?'a = nat] by simp
  then obtain k where "k \<le> 15" "k = 0 \<or> 16 ^ k \<le> unat v" "unat v < 16 ^ Suc k" by (rule hex_width)
  then show "0 \<notin> set (value_to_hex_string v)" "length (value_to_hex_string v) \<le> 16"
    using fixed_chars [of 16 hex_digit] hex_digit_nonzero
    by (simp_all add: value_to_hex_string_fixed del: fixed.simps)
qed

section \<open>The text of a number conversion\<close>

lemma conv_result_lx:
  "conv_result env (ws ''l'') (wc CHR ''x'') (A_word v # as) = Some (value_to_hex_string v, as)"
  using hex_text_plain [of v]
  by (simp add: conv_result_def conv_text_def flag_item_def new_item_def arg_number_def scratch_def
      PRINT_ITEM_BUFFER_LEN_def padded_def Let_def unat_max_64)

lemma conv_result_hu:
  assumes "value_to_string (ucast (ucast v :: u16)) = Ret s"
  shows "conv_result env (ws ''h'') (wc CHR ''u'') (A_word v # as) = Some (s, as)"
proof -
  have "unat (ucast (ucast v :: u16) :: u64) < 2 ^ 32"
    using unsigned_less [of "ucast v :: u16", where ?'a = nat] by simp
  then obtain t where "value_to_string (ucast (ucast v :: u16)) = Ret t" "0 \<notin> set t" "length t \<le> 10"
    by (rule value_to_string_u32)
  moreover have "(ucast (ucast v :: u32) :: u16) = ucast v"
    by (rule bit_word_eqI) (simp add: bit_simps)
  ultimately show ?thesis using assms
    by (simp add: conv_result_def conv_text_def flag_item_def new_item_def arg_number_def arg_u32_def
        scratch_def PRINT_ITEM_BUFFER_LEN_def padded_def Let_def unat_max_64)
qed

end
