(* ===== verification/Print_Ends.thy ===== *)
theory Print_Ends
  imports Print_Refine
begin

text \<open>
  Termination of the \<open>printf\<close> engine over wide texts. \<open>ends m Q\<close> is total correctness of a
  computation that may run for ever; its rules follow the structure of the engine, and the
  loops over the format keep the invariant \<open>at_format\<close>.
\<close>

unbundle bit_operations_syntax

section \<open>Termination over wide texts\<close>

fun_cases arg_word_RetE: "arg_word as = Ret x"
fun_cases arg_str_RetE: "arg_str as = Ret x"
fun_cases arg_wstr_RetE: "arg_wstr as = Ret x"
fun_cases arg_guid_RetE: "arg_guid as = Ret x"
fun_cases arg_time_RetE: "arg_time as = Ret x"
fun_cases arg_path_RetE: "arg_path as = Ret x"
fun_cases arg_double_RetE: "arg_double as = Ret x"

lemmas arg_elims = arg_word_RetE arg_str_RetE arg_wstr_RetE arg_guid_RetE arg_time_RetE
  arg_path_RetE arg_double_RetE

text \<open>
  \<open>ends m Q\<close>: the computation \<open>m\<close> ends, and when it returns its result satisfies \<open>Q\<close>.
\<close>

definition ends :: "'a outcome option \<Rightarrow> ('a \<Rightarrow> bool) \<Rightarrow> bool" where
  "ends m Q \<longleftrightarrow> m \<noteq> None \<and> (\<forall>x. m = Some (Ret x) \<longrightarrow> Q x)"

lemma ends_simps [simp]:
  "ends (Some (Ret x)) Q = Q x" "ends (Some (Exit s)) Q" "ends (Some UB) Q" "\<not> ends None Q"
  by (auto simp: ends_def)

lemma ends_rbind: "ends m P \<Longrightarrow> (\<And>x. P x \<Longrightarrow> ends (f x) Q) \<Longrightarrow> ends (rbind m f) Q"
  by (cases m; cases "the m") auto

lemma ends_once: "(\<And>x. m = Ret x \<Longrightarrow> ends (f x) Q) \<Longrightarrow> ends (once m f) Q"
  by (cases m) auto

lemma ends_if: "ends m1 Q \<Longrightarrow> ends m2 Q \<Longrightarrow> ends (if c then m1 else m2) Q"
  by simp

lemma ptr_getc_wide_eq:
  "ptr_getc (wide_at s i) = (if i < length s then Ret (s ! i, wide_at s (Suc i)) else UB)"
  by (simp add: ptr_getc_def)

lemma item_len_ends: "ends (item_len (wide_at s i) w) (\<lambda>_. True)"
proof (induction "length s - i" arbitrary: i)
  case 0
  then show ?case by (subst item_len.simps) (simp add: ptr_getc_wide_eq)
next
  case (Suc n)
  then have "ends (item_len (wide_at s (Suc i)) w) (\<lambda>_. True)" by (intro Suc.hyps(1)) simp
  then show ?case by (subst item_len.simps) (simp add: ptr_getc_wide_eq)
qed

text \<open>Output keeps the format and the arguments.\<close>

definition keeps :: "pstate \<Rightarrow> pstate \<Rightarrow> bool" where
  "keeps ps ps' \<longleftrightarrow> ps_fmt ps' = ps_fmt ps \<and> ps_args ps' = ps_args ps"

lemma keeps_refl [simp]: "keeps ps ps" and keeps_trans: "keeps ps ps' \<Longrightarrow> keeps ps' ps'' \<Longrightarrow> keeps ps ps''"
  by (simp_all add: keeps_def)

lemma ptr_putc_keeps:
  assumes "ptr_putc c ps = Ret ps'"
  shows "keeps ps ps'"
proof -
  have ps: "reposition (ps_fmt ps) (ps_args ps) (ps_restore_attr ps) ps = ps"
    by (simp add: reposition_def)
  show ?thesis
    using ptr_putc_reposition [of c "ps_fmt ps" "ps_args ps" "ps_restore_attr ps" ps] assms
    unfolding ps keeps_def by (metis obind.simps(1) outcome.inject(1) reposition_simps(1,2))
qed

lemma put_chars_keeps: "put_chars cs ps = Ret ps' \<Longrightarrow> keeps ps ps'"
  by (induction cs arbitrary: ps) (auto simp: outcome_iff dest: ptr_putc_keeps keeps_trans)

lemma ptr_flush_keeps: "keeps ps (ptr_flush ps)"
  by (simp add: ptr_flush_def keeps_def)

lemma ptr_setattr_keeps: "keeps ps (ptr_setattr a ps)"
  by (simp add: ptr_setattr_def ptr_flush_def keeps_def Let_def)

lemma item_put_ends: "ends (item_put (wide_at s i) len ps) (keeps ps)"
proof (induction "len - i" arbitrary: i ps)
  case 0
  then show ?case by (subst item_put.simps) simp
next
  case (Suc n)
  have "ends (item_put (wide_at s (Suc i)) len ps1) (keeps ps)" if "ptr_putc (s ! i) ps = Ret ps1" for ps1
    using Suc(1) [of "Suc i" ps1] Suc(2) ptr_putc_keeps [OF that] keeps_trans
    by (force simp: ends_def)
  then show ?case
    by (subst item_put.simps) (auto simp: ptr_getc_wide_eq intro!: ends_once)
qed

lemma ptr_item_ends: "ends (ptr_item (Wide s) item ps) (keeps ps)"
  unfolding ptr_item_def Let_def
proof (rule ends_rbind [OF item_len_ends], goal_cases)
  case (1 len)
  let ?len = "len"
  show ?case
    unfolding put_times_chars
    apply (intro ends_once ends_rbind [OF item_put_ends])
    subgoal for ps1 ps2 ps3 ps4
    by (auto split: if_splits dest!: put_chars_keeps intro: keeps_trans)
    done
qed

text \<open>An invariant of the format loops: a wide format, and no narrow string among the arguments.\<close>

definition wide_args :: "print_arg list \<Rightarrow> bool" where
  "wide_args as \<longleftrightarrow> (\<forall>s. A_str s \<notin> set as)"

definition at_format :: "u16 list \<Rightarrow> nat \<Rightarrow> pstate \<Rightarrow> bool" where
  "at_format f i ps \<longleftrightarrow> wide_args (ps_args ps) \<and> (\<exists>j\<ge>i. ps_fmt ps = wide_at f j)"

lemma parse_width_ends:
  "ends (parse_width (wide_at f i) c w) (\<lambda>(_, p). \<exists>j\<ge>i. p = wide_at f j)"
proof (induction "length f - i" arbitrary: i c w)
  case 0
  then show ?case by (subst parse_width.simps) (simp add: ptr_getc_wide_eq)
next
  case (Suc n)
  have "ends (parse_width (wide_at f (Suc i)) c' w') (\<lambda>(_, p). \<exists>j\<ge>i. p = wide_at f j)" for c' w'
    using Suc(1) [of "Suc i" c' w'] Suc(2) by (fastforce simp: ends_def)
  then show ?case by (subst parse_width.simps) (auto simp: ptr_getc_wide_eq Let_def)
qed

lemma wide_args_Cons [simp]: "wide_args (a # as) \<longleftrightarrow> (\<forall>s. a \<noteq> A_str s) \<and> wide_args as"
  by (auto simp: wide_args_def)

lemma arg_wide:
  "arg_word as = Ret (v, as') \<Longrightarrow> wide_args as \<Longrightarrow> wide_args as'"
  "arg_str as = Ret (s, as') \<Longrightarrow> wide_args as \<Longrightarrow> False"
  "arg_wstr as = Ret (s', as') \<Longrightarrow> wide_args as \<Longrightarrow> wide_args as'"
  "arg_guid as = Ret (g, as') \<Longrightarrow> wide_args as \<Longrightarrow> wide_args as'"
  "arg_time as = Ret (t, as') \<Longrightarrow> wide_args as \<Longrightarrow> wide_args as'"
  "arg_path as = Ret (p, as') \<Longrightarrow> wide_args as \<Longrightarrow> wide_args as'"
  "arg_double as = Ret (d, as') \<Longrightarrow> wide_args as \<Longrightarrow> wide_args as'"
  "arg_u32 as = Ret (u, as') \<Longrightarrow> wide_args as \<Longrightarrow> wide_args as'"
  by (auto simp: arg_u32_def outcome_iff elim!: arg_elims)

lemma arg_number_wide: "arg_number item as = Ret (v, as') \<Longrightarrow> wide_args as \<Longrightarrow> wide_args as'"
  by (auto simp: arg_number_def outcome_iff dest: arg_wide split: if_splits)

lemma scratch_wide: "scratch s item = Ret item' \<Longrightarrow> \<exists>t. it_text item' = Some (Wide t)"
  by (auto simp: scratch_def split: if_splits)

lemma conv_text_ends:
  assumes "\<And>p. path_text env p \<noteq> None" and "wide_args as"
  shows "ends (conv_text env c item as) (\<lambda>(item', as'). (\<exists>t. it_text item' = Some (Wide t)) \<and> wide_args as')"
proof -
  have path: "ends (path_text env p) (\<lambda>_. True)" for p
    using assms(1) by (simp add: ends_def)
  show ?thesis
    using assms(2) unfolding conv_text_def Let_def
    by (auto intro!: ends_once ends_rbind [OF path] dest!: scratch_wide dest: arg_wide arg_number_wide)
qed

lemma at_format_update:
  "at_format f i ps \<Longrightarrow> wide_args as \<Longrightarrow> at_format f i (ps\<lparr>ps_args := as\<rparr>)"
  by (auto simp: at_format_def)

lemma at_format_keeps: "at_format f i ps \<Longrightarrow> keeps ps ps' \<Longrightarrow> at_format f i ps'"
  by (simp add: at_format_def keeps_def)

lemma at_format_restore [simp]: "at_format f i (ps\<lparr>ps_restore_attr := r\<rparr>) = at_format f i ps"
  by (simp add: at_format_def)

lemma conv_char_ends:
  assumes env: "\<And>p. path_text env p \<noteq> None" and ps: "at_format f i ps" and item: "it_text item = None"
  shows "ends (conv_char env c item attr ps) (\<lambda>(item', attr', ps').
    at_format f i ps' \<and> (it_text item' = None \<or> (\<exists>t. it_text item' = Some (Wide t))))"
proof -
  obtain j where j: "j \<ge> i" "ps_fmt ps = wide_at f j" and as: "wide_args (ps_args ps)"
    using ps by (auto simp: at_format_def)
  have w: "ends (parse_width (ps_fmt ps) c 0) (\<lambda>(w, p). at_format f i (ps\<lparr>ps_fmt := p\<rparr>))"
    using parse_width_ends [of f j c 0] j as by (fastforce simp: ends_def at_format_def)
  note attr = at_format_keeps [OF ps ptr_setattr_keeps]
  show ?thesis
    using ps item as unfolding conv_char_def
    by (auto intro!: ends_once ends_rbind [OF w] ends_rbind [OF conv_text_ends [OF env as]] attr
        at_format_update dest: arg_wide simp: set_width_def split: if_splits)
qed

lemma at_format_mono: "at_format f j ps \<Longrightarrow> i \<le> j \<Longrightarrow> at_format f i ps"
  by (auto simp: at_format_def)

lemma ends_mono: "ends m P \<Longrightarrow> (\<And>x. P x \<Longrightarrow> Q x) \<Longrightarrow> ends m Q"
  by (auto simp: ends_def)

lemma conv_loop_ends:
  assumes env: "\<And>p. path_text env p \<noteq> None"
  shows "at_format f i ps \<Longrightarrow> it_text item = None
    \<Longrightarrow> ends (conv_loop env item attr ps) (at_format f (Suc i))"
proof (induction "length f - i" arbitrary: i ps item attr rule: less_induct)
  case less
  obtain j where j: "j \<ge> i" "ps_fmt ps = wide_at f j" and as: "wide_args (ps_args ps)"
    using less.prems by (auto simp: at_format_def)
  show ?case
  proof (cases "j < length f")
    case True
    define ps1 where "ps1 = ps\<lparr>ps_fmt := wide_at f (Suc j)\<rparr>"
    have ps1: "at_format f (Suc j) ps1" using as by (simp add: at_format_def ps1_def)
    have "ends (case it_text item' of Some x \<Rightarrow> ptr_item x item' ps'
        | None \<Rightarrow> if attr' \<noteq> 0 then Some (Ret ((ptr_setattr attr' ps')\<lparr>ps_restore_attr := 0\<rparr>))
                  else conv_loop env item' attr' ps') (at_format f (Suc i))"
      if ps': "at_format f (Suc j) ps'" and it: "it_text item' = None \<or> (\<exists>t. it_text item' = Some (Wide t))"
      for item' attr' ps'
    proof (cases "it_text item'")
      case None
      have "at_format f (Suc i) (ptr_setattr attr' ps')"
        using at_format_keeps [OF ps' ptr_setattr_keeps] j(1) by (auto intro: at_format_mono)
      moreover have "ends (conv_loop env item' attr' ps') (at_format f (Suc (Suc j)))"
        using True j(1) ps' None by (intro less.hyps) auto
      then have "ends (conv_loop env item' attr' ps') (at_format f (Suc i))"
        using j(1) by (auto elim!: ends_mono intro: at_format_mono)
      ultimately show ?thesis using None by (cases "attr' = 0") simp_all
    next
      case (Some x)
      then obtain t where "x = Wide t" using it by auto
      then show ?thesis using Some ps' j(1)
        by (auto intro!: ends_mono [OF ptr_item_ends] at_format_mono [OF at_format_keeps [OF ps']])
    qed
    then show ?thesis using True j ps1 less.prems(2)
      by (subst conv_loop.simps)
        (auto simp: ptr_getc_wide_eq Let_def simp flip: ps1_def intro: at_format_mono
          intro!: ends_rbind [OF conv_char_ends [OF env ps1]])
  qed (subst conv_loop.simps, simp add: j(2) ptr_getc_wide_eq)
qed

lemma print_loop_ends:
  assumes env: "\<And>p. path_text env p \<noteq> None"
  shows "at_format f i ps \<Longrightarrow> ends (print_loop env ps) (\<lambda>_. True)"
proof (induction "length f - i" arbitrary: i ps rule: less_induct)
  case less
  obtain j where j: "j \<ge> i" "ps_fmt ps = wide_at f j" and as: "wide_args (ps_args ps)"
    using less.prems by (auto simp: at_format_def)
  show ?case
  proof (cases "j < length f")
    case True
    define ps1 where "ps1 = ps\<lparr>ps_fmt := wide_at f (Suc j)\<rparr>"
    have ps1: "at_format f (Suc j) ps1" using as by (simp add: at_format_def ps1_def)
    have rec: "ends (print_loop env ps') (\<lambda>_. True)" if "at_format f (Suc j) ps'" for ps'
      using True j(1) that by (intro less.hyps [of "Suc j"]) auto
    have "ends (conv_loop env new_item 0 (ps1\<lparr>ps_restore_attr := 0\<rparr>)) (at_format f (Suc j))"
      using conv_loop_ends [OF env, of f "Suc j" "ps1\<lparr>ps_restore_attr := 0\<rparr>" new_item 0] ps1
      by (auto simp: new_item_def elim!: ends_mono intro: at_format_mono)
    note conv = ends_rbind [OF this]
    show ?thesis using True j ps1
      by (subst print_loop.simps)
        (auto simp: ptr_getc_wide_eq Let_def simp flip: ps1_def intro!: ends_once conv rec
          intro: at_format_keeps [OF _ ptr_setattr_keeps] at_format_keeps [OF _ ptr_putc_keeps])
  qed (subst print_loop.simps, simp add: j(2) ptr_getc_wide_eq)
qed

lemma print_fmt_ends:
  assumes "\<And>p. path_text env p \<noteq> None" and "wide_args (ps_args ps)" and "ptr_text (ps_fmt ps) = Wide fmt"
  shows "ends (print_fmt env ps) (\<lambda>_. True)"
proof -
  have "at_format fmt 0 (ps\<lparr>ps_len := 0, ps_fmt := (ps_fmt ps)\<lparr>ptr_index := 0\<rparr>\<rparr>)"
    using assms(2,3) by (cases "ps_fmt ps") (simp add: at_format_def)
  from print_loop_ends [OF assms(1) this] show ?thesis
    unfolding print_fmt_def by (rule ends_rbind) (simp add: Let_def)
qed

lemma vswprintf_ends:
  assumes "\<And>p. path_text env p \<noteq> None" and "wide_args as"
  shows "ends (vswprintf env room maxlen fmt as) (\<lambda>_. True)"
  unfolding vswprintf_def
  by (rule ends_rbind [OF print_fmt_ends [OF assms(1)]])
    (auto simp: buffer_state_def assms(2))

text \<open>
  C40. Printing always ends over a wide format whose arguments hold no narrow string, on the
  console and into a buffer, whatever the format, the other arguments and the attributes are.
\<close>

theorem wide_printing_ends:
  assumes "\<And>p. path_text env p \<noteq> None" and "\<And>s. A_str s \<notin> set as"
  shows "wprintf env attribute fmt as \<noteq> None \<and> vswprintf env room maxlen fmt as \<noteq> None"
proof -
  have as: "wide_args as" using assms(2) by (simp add: wide_args_def)
  have "ends (wprintf env attribute fmt as) (\<lambda>_. True)"
    unfolding wprintf_def iprint_def option.case
    by (rule ends_rbind [OF print_fmt_ends [OF assms(1)]])
      (auto simp: console_state_def Let_def as)
  then show ?thesis using vswprintf_ends [OF assms(1) as, of room maxlen fmt] by (auto simp: ends_def)
qed

theorem wide_printing_ends_witness:
  "wprintf \<lparr>path_text = \<lambda>_. Some UB, double_text = \<lambda>_. UB\<rparr> 0 (ws ''%*x %'' @ [0]) [A_word 5] \<noteq> None"
  using wide_printing_ends [of "\<lparr>path_text = \<lambda>_. Some UB, double_text = \<lambda>_. UB\<rparr>" "[A_word 5]" 0
    "ws ''%*x %'' @ [0]"] by simp

end
