(* ===== verification/Device_Path_Text.thy ===== *)
theory Device_Path_Text
  imports Print_Ends
begin

text \<open>
  \<^verbatim>\<open>lib/efilib/efidp.c\<close>: the text of a device path, without the firmware's text protocol. The
  buffer is given by its room and the characters \<open>out\<close> before the current position; a
  formatter returns \<open>out\<close> extended. Every \<open>wsprintf\<close> gets the constant length 199 whatever is
  left of the buffer. The formats used hold neither \<open>%D\<close> nor \<open>%f\<close>.
\<close>

unbundle bit_operations_syntax

section \<open>Fields of the nodes\<close>

definition ACPI_DEVICE_PATH :: u8 where "ACPI_DEVICE_PATH = 0x02"
definition ACPI_DP :: u8 where "ACPI_DP = 0x01"
definition MESSAGING_DEVICE_PATH :: u8 where "MESSAGING_DEVICE_PATH = 0x03"
definition HW_PCI_DP :: u8 where "HW_PCI_DP = 0x01"
definition HW_VENDOR_DP :: u8 where "HW_VENDOR_DP = 0x04"
definition MSG_SCSI_DP :: u8 where "MSG_SCSI_DP = 0x02"
definition MSG_USB_DP :: u8 where "MSG_USB_DP = 0x05"
definition MSG_SATA_DP :: u8 where "MSG_SATA_DP = 0x12"
definition MSG_SD_DP :: u8 where "MSG_SD_DP = 0x1A"
definition MEDIA_VENDOR_DP :: u8 where "MEDIA_VENDOR_DP = 0x03"
definition MEDIA_FILEPATH_DP :: u8 where "MEDIA_FILEPATH_DP = 0x04"
definition SIGNATURE_TYPE_MBR :: u8 where "SIGNATURE_TYPE_MBR = 0x01"

definition EISA_PNP_NUM :: "u32 \<Rightarrow> u16" where "EISA_PNP_NUM d = ucast (drop_bit 16 d)"

text \<open>Offsets in the packed structures of \<^verbatim>\<open>include/efi/device_path.h\<close>.\<close>

definition pci_function :: "mem \<Rightarrow> addr \<Rightarrow> u8 outcome" where "pci_function m dp = load_w m (dp + 4)"
definition pci_device :: "mem \<Rightarrow> addr \<Rightarrow> u8 outcome" where "pci_device m dp = load_w m (dp + 5)"
definition vendor_guid :: "mem \<Rightarrow> addr \<Rightarrow> efi_guid outcome" where
  "vendor_guid m dp = obind (load_bytes m (dp + 4) 16) (\<lambda>bs. Ret (get_efi_guid bs))"
definition vendor_data :: "addr \<Rightarrow> addr" where "vendor_data dp = dp + 20"
definition acpi_hid :: "mem \<Rightarrow> addr \<Rightarrow> u32 outcome" where "acpi_hid m dp = load_w m (dp + 4)"
definition acpi_uid :: "mem \<Rightarrow> addr \<Rightarrow> u32 outcome" where "acpi_uid m dp = load_w m (dp + 8)"
definition scsi_target :: "mem \<Rightarrow> addr \<Rightarrow> u16 outcome" where "scsi_target m dp = load_w m (dp + 4)"
definition scsi_lun :: "mem \<Rightarrow> addr \<Rightarrow> u16 outcome" where "scsi_lun m dp = load_w m (dp + 6)"
definition usb_port :: "mem \<Rightarrow> addr \<Rightarrow> u8 outcome" where "usb_port m dp = load_w m (dp + 4)"
definition usb_endpoint :: "mem \<Rightarrow> addr \<Rightarrow> u8 outcome" where "usb_endpoint m dp = load_w m (dp + 5)"
definition sata_hba_port :: "mem \<Rightarrow> addr \<Rightarrow> u16 outcome" where "sata_hba_port m dp = load_w m (dp + 4)"
definition sata_port_multiplier :: "mem \<Rightarrow> addr \<Rightarrow> u16 outcome" where
  "sata_port_multiplier m dp = load_w m (dp + 6)"
definition sata_lun :: "mem \<Rightarrow> addr \<Rightarrow> u16 outcome" where "sata_lun m dp = load_w m (dp + 8)"
definition sd_slot_number :: "mem \<Rightarrow> addr \<Rightarrow> u8 outcome" where "sd_slot_number m dp = load_w m (dp + 4)"
definition part_number :: "mem \<Rightarrow> addr \<Rightarrow> u32 outcome" where "part_number m dp = load_w m (dp + 4)"
definition part_signature :: "addr \<Rightarrow> addr" where "part_signature dp = dp + 24"
definition part_signature_type :: "mem \<Rightarrow> addr \<Rightarrow> u8 outcome" where
  "part_signature_type m dp = load_w m (dp + 41)"

section \<open>Formatters\<close>

definition dp_printf ::
    "nat \<Rightarrow> u16 list \<Rightarrow> string \<Rightarrow> print_arg list \<Rightarrow> u16 list outcome option" where
  "dp_printf room out fmt as =
     rbind (wsprintf no_env (room - length out) (PRINT_ITEM_BUFFER_LEN - 1) (ws fmt @ [0]) as)
       (\<lambda>(len, s). Some (Ret (out @ take (unat len) s)))"

text \<open>A store of one character at the position, which then moves on.\<close>

definition put_char :: "nat \<Rightarrow> u16 list \<Rightarrow> u16 \<Rightarrow> u16 list outcome" where
  "put_char room out c = (if length out < room then Ret (out @ [c]) else UB)"

abbreviation A8 :: "u8 \<Rightarrow> print_arg" where "A8 b \<equiv> A_word (ucast b)"
abbreviation A16 :: "u16 \<Rightarrow> print_arg" where "A16 h \<equiv> A_word (ucast h)"
abbreviation A32 :: "u32 \<Rightarrow> print_arg" where "A32 w \<equiv> A_word (ucast w)"

definition device_path_pci :: "mem \<Rightarrow> nat \<Rightarrow> addr \<Rightarrow> u16 list \<Rightarrow> u16 list outcome option" where
  "device_path_pci m room dp out =
     once (pci_device m dp) (\<lambda>d. once (pci_function m dp) (\<lambda>f.
       dp_printf room out ''Pci(0x%lx,0x%x)'' [A8 d, A8 f]))"

definition device_path_memmap :: "mem \<Rightarrow> nat \<Rightarrow> addr \<Rightarrow> u16 list \<Rightarrow> u16 list outcome option" where
  "device_path_memmap m room dp out =
     once (load_memory_dp m dp) (\<lambda>d.
       dp_printf room out ''MemMap(%hu,0x%lx,0x%lx)''
         [A32 (mdp_memory_type d), A_word (mdp_start d), A_word (mdp_end d)])"

definition uboot_guid :: efi_guid where
  "uboot_guid = \<lparr>ms1 = 0xe61d73b9, ms2 = 0xa384, ms3 = 0x4acc,
     ms4 = [0xae, 0xab, 0x82, 0xe8, 0x28, 0xf3, 0x62, 0x8b]\<rparr>"

definition uboot_virtio_guid :: efi_guid where
  "uboot_virtio_guid = \<lparr>ms1 = 0x63293792, ms2 = 0xadf5, ms3 = 0x9325,
     ms4 = [0xb9, 0x9f, 0x4e, 0x0e, 0x45, 0x5c, 0x1b, 0x1e]\<rparr>"

text \<open>The loop over the vendor data: the index has 16 bits, the bound 32.\<close>

lemma value_to_hex_string_Cons: "value_to_hex_string v \<noteq> []"
proof -
  have "unat v < 16 ^ Suc 15" using unsigned_less [of v, where ?'a = nat] by simp
  then obtain k where "k = 0 \<or> 16 ^ k \<le> unat v" "unat v < 16 ^ Suc k" by (rule hex_width)
  then show ?thesis by (simp add: value_to_hex_string_fixed)
qed

function vendor_data_loop ::
    "mem \<Rightarrow> nat \<Rightarrow> addr \<Rightarrow> u32 \<Rightarrow> u16 \<Rightarrow> u16 list \<Rightarrow> u16 list outcome" where
  "vendor_data_loop m room data n i out =
     (if ucast i < n
      then obind (load_w m (data + ucast i)) (\<lambda>b :: u8.
        let s = value_to_hex_string (ucast b)
        in if length out + length s < room then vendor_data_loop m room data n (i + 1) (out @ s)
           else UB)
      else Ret out)"
  by pat_completeness auto
termination
proof (relation "measure (\<lambda>(m, room, data, n, i, out). room - length out)")
  fix m room data n and i :: u16 and out s :: "u16 list" and b :: u8
  assume "s = value_to_hex_string (ucast b)" and "length out + length s < room"
  then show "((m, room, data, n, i + 1, out @ s), m, room, data, n, i, out)
      \<in> measure (\<lambda>(m, room, data, n, i, out). room - length out)"
    using value_to_hex_string_Cons [of "ucast b", folded length_greater_0_conv]
    by (simp add: diff_less_mono2)
qed simp

declare vendor_data_loop.simps [simp del]

text \<open>The part of the text before the vendor data, by the type of the node.\<close>

definition vendor_head :: "nat \<Rightarrow> u8 \<Rightarrow> efi_guid \<Rightarrow> u16 list \<Rightarrow> u16 list outcome option" where
  "vendor_head room t g out =
     (if t = HARDWARE_DEVICE_PATH then dp_printf room out ''VenHw(%g'' [A_guid g]
      else if t = MESSAGING_DEVICE_PATH then dp_printf room out ''VenMedia(%g'' [A_guid g]
      else if t = MEDIA_DEVICE_PATH then dp_printf room out ''VenMedia(%g'' [A_guid g]
      else dp_printf room out ''Ven?(%g'' [A_guid g])"

definition device_path_vendor :: "mem \<Rightarrow> nat \<Rightarrow> addr \<Rightarrow> u16 list \<Rightarrow> u16 list outcome option" where
  "device_path_vendor m room dp out =
     once (load_dp m dp) (\<lambda>hdr. once (vendor_guid m dp) (\<lambda>g.
     if guidcmp g uboot_guid then dp_printf room out ''UBoot'' []
     else if guidcmp g uboot_virtio_guid
     then once (load_w m (vendor_data dp)) (\<lambda>b. dp_printf room out ''Virtio(%u)'' [A8 b])
     else
     rbind (vendor_head room (dp_type hdr) g out) (\<lambda>out.
     let n = (ucast (ucast (dp_length hdr) - 20 :: u64) :: u32)
     in once (if n > 0
              then obind (put_char room out (wc CHR '','')) (vendor_data_loop m room (vendor_data dp) n 0)
              else Ret out) (\<lambda>out.
        once (put_char room out (wc CHR '')'')) (\<lambda>out. Some (Ret out))))))"

definition device_path_acpi :: "mem \<Rightarrow> nat \<Rightarrow> addr \<Rightarrow> u16 list \<Rightarrow> u16 list outcome option" where
  "device_path_acpi m room dp out =
     once (acpi_hid m dp) (\<lambda>hid. once (acpi_uid m dp) (\<lambda>uid.
       if EISA_PNP_NUM hid \<noteq> 0 then
         (if EISA_PNP_NUM hid = 0x60a then dp_printf room out ''Floppy(%d)'' [A32 uid]
          else if EISA_PNP_NUM hid = 0xa03 then dp_printf room out ''PciRoot(%d)'' [A32 uid]
          else if EISA_PNP_NUM hid = 0xa08 then dp_printf room out ''PcieRoot(%d)'' [A32 uid]
          else dp_printf room out ''Acpi(PNP%04x,%d)'' [A16 (EISA_PNP_NUM hid), A32 uid])
       else dp_printf room out ''Acpi(0x%X,%d)'' [A32 hid, A32 uid]))"

definition device_path_scsi :: "mem \<Rightarrow> nat \<Rightarrow> addr \<Rightarrow> u16 list \<Rightarrow> u16 list outcome option" where
  "device_path_scsi m room dp out =
     once (scsi_target m dp) (\<lambda>t. once (scsi_lun m dp) (\<lambda>l.
       dp_printf room out ''Scsi(%hu,%hu)'' [A16 t, A16 l]))"

definition device_path_usb :: "mem \<Rightarrow> nat \<Rightarrow> addr \<Rightarrow> u16 list \<Rightarrow> u16 list outcome option" where
  "device_path_usb m room dp out =
     once (usb_port m dp) (\<lambda>p. once (usb_endpoint m dp) (\<lambda>e.
       dp_printf room out ''USB(%hu,%hu)'' [A8 p, A8 e]))"

definition device_path_sata :: "mem \<Rightarrow> nat \<Rightarrow> addr \<Rightarrow> u16 list \<Rightarrow> u16 list outcome option" where
  "device_path_sata m room dp out =
     once (sata_hba_port m dp) (\<lambda>p. once (sata_port_multiplier m dp) (\<lambda>pm. once (sata_lun m dp) (\<lambda>l.
       dp_printf room out ''Sata(%hu,%hu,%hu)'' [A16 p, A16 pm, A16 l])))"

definition device_path_sd :: "mem \<Rightarrow> nat \<Rightarrow> addr \<Rightarrow> u16 list \<Rightarrow> u16 list outcome option" where
  "device_path_sd m room dp out =
     once (load_dp m dp) (\<lambda>hdr. once (sd_slot_number m dp) (\<lambda>n.
       dp_printf room out ''%ls(%hu)''
         [A_wstr (Some (ws (if dp_subtype hdr = MSG_SD_DP then ''SD'' else ''eMMC'') @ [0])), A8 n]))"

definition device_path_partition :: "mem \<Rightarrow> nat \<Rightarrow> addr \<Rightarrow> u16 list \<Rightarrow> u16 list outcome option" where
  "device_path_partition m room dp out =
     once (part_signature_type m dp) (\<lambda>st. once (part_number m dp) (\<lambda>n.
       if st = SIGNATURE_TYPE_GUID
       then once (load_bytes m (part_signature dp) 16) (\<lambda>bs.
              dp_printf room out ''HD(%hu,GPT,%g)'' [A32 n, A_guid (get_efi_guid bs)])
       else if st = SIGNATURE_TYPE_MBR
       then once (load_w m (part_signature dp)) (\<lambda>sig.
              dp_printf room out ''HD(%hu,MBR,0x%X)'' [A32 n, A32 sig])
       else dp_printf room out ''HD(%hu,%hu,0)'' [A32 n, A8 st]))"

text \<open>\<open>wcsncpy\<close> from the node to the buffer.\<close>

primrec filepath_loop :: "mem \<Rightarrow> nat \<Rightarrow> nat \<Rightarrow> addr \<Rightarrow> u16 list \<Rightarrow> u16 list outcome" where
  "filepath_loop m room 0 src out = Ret out"
| "filepath_loop m room (Suc n) src out =
     obind (load_w m src) (\<lambda>c.
       if c = 0 then Ret out
       else obind (put_char room out c) (filepath_loop m room n (src + 2)))"

definition device_path_filepath :: "mem \<Rightarrow> nat \<Rightarrow> addr \<Rightarrow> u16 list \<Rightarrow> u16 list outcome option" where
  "device_path_filepath m room dp out =
     once (load_dp m dp) (\<lambda>hdr.
       let len = min ((ucast (dp_length hdr) - 4) div 2 :: u64) (of_nat (PRINT_ITEM_BUFFER_LEN - 1))
       in Some (filepath_loop m room (unat len) (dp + 4) out))"

definition device_path_unknown :: "mem \<Rightarrow> nat \<Rightarrow> addr \<Rightarrow> u16 list \<Rightarrow> u16 list outcome option" where
  "device_path_unknown m room dp out =
     once (load_dp m dp) (\<lambda>hdr.
       if dp_type hdr = HARDWARE_DEVICE_PATH
       then dp_printf room out ''HardwarePath(%hu)'' [A8 (dp_subtype hdr)]
       else if dp_type hdr = ACPI_DEVICE_PATH
       then dp_printf room out ''AcpiPath(%hu)'' [A8 (dp_subtype hdr)]
       else if dp_type hdr = MESSAGING_DEVICE_PATH
       then dp_printf room out ''MsgPath(%hu)'' [A8 (dp_subtype hdr)]
       else if dp_type hdr = MEDIA_DEVICE_PATH
       then dp_printf room out ''MediaPath(%hu)'' [A8 (dp_subtype hdr)]
       else dp_printf room out ''Path(%hu,%hu)'' [A8 (dp_type hdr), A8 (dp_subtype hdr)])"

definition device_instance_end :: "nat \<Rightarrow> u16 list \<Rightarrow> u16 list outcome" where
  "device_instance_end room out = put_char room out (wc CHR '','')"

text \<open>The body of the loop: which formatter a node gets.\<close>

definition node_text :: "mem \<Rightarrow> nat \<Rightarrow> addr \<Rightarrow> efi_device_path \<Rightarrow> u16 list \<Rightarrow> u16 list outcome option" where
  "node_text m room dp d out =
     (let t = dp_type d; s = dp_subtype d in
      if t = HARDWARE_DEVICE_PATH then
        (if s = HW_PCI_DP then device_path_pci m room dp out
         else if s = HW_MEMMAP_DP then device_path_memmap m room dp out
         else if s = HW_VENDOR_DP then device_path_vendor m room dp out
         else device_path_unknown m room dp out)
      else if t = ACPI_DEVICE_PATH then
        (if s = ACPI_DP then device_path_acpi m room dp out else device_path_unknown m room dp out)
      else if t = MEDIA_DEVICE_PATH then
        (if s = MEDIA_PARTITION_DP then device_path_partition m room dp out
         else if s = MEDIA_VENDOR_DP then device_path_vendor m room dp out
         else if s = MEDIA_FILEPATH_DP then device_path_filepath m room dp out
         else device_path_unknown m room dp out)
      else if t = MESSAGING_DEVICE_PATH then
        (if s = MSG_SCSI_DP then device_path_scsi m room dp out
         else if s = MSG_SATA_DP then device_path_sata m room dp out
         else if s = MSG_USB_DP then device_path_usb m room dp out
         else if s = MSG_SD_DP then device_path_sd m room dp out
         else device_path_unknown m room dp out)
      else if t = END_DEVICE_PATH_TYPE then
        (if s = END_INSTANCE_DEVICE_PATH_SUBTYPE then Some (device_instance_end room out)
         else Some (Ret out))
      else device_path_unknown m room dp out)"

partial_function (option) device_path_loop ::
    "mem \<Rightarrow> nat \<Rightarrow> addr \<Rightarrow> u16 list \<Rightarrow> u16 list outcome option" where
  "device_path_loop m room dp out =
     once (load_dp m dp) (\<lambda>d.
       if IsDevicePathEndNode d then Some (Ret out)
       else once (put_char room out (wc CHR ''/'')) (\<lambda>out.
         rbind (node_text m room dp d out) (\<lambda>out.
         if length out < room then device_path_loop m room (NextDevicePathNode dp d) out
         else Some UB)))"

text \<open>
  What is written to the buffer: the text and its terminator, and nothing for an empty path.
\<close>

definition device_path_to_string :: "mem \<Rightarrow> nat \<Rightarrow> addr \<Rightarrow> u16 list outcome option" where
  "device_path_to_string m room dp =
     once (load_dp m dp) (\<lambda>d.
       if IsDevicePathEndNode d then Some (Ret [])
       else rbind (device_path_loop m room dp []) (\<lambda>out. Some (Ret (out @ [0]))))"

text \<open>The environment of a \<open>printf\<close> call on a machine with memory \<open>m\<close>.\<close>

definition print_env_of :: "mem \<Rightarrow> (u64 \<Rightarrow> u16 list outcome) \<Rightarrow> print_env" where
  "print_env_of m floats = \<lparr>path_text = device_path_to_string m PRINT_ITEM_BUFFER_LEN, double_text = floats\<rparr>"

end
