(* ===== verification/Device_Path_Text_Props.thy ===== *)
theory Device_Path_Text_Props
  imports Device_Path_Text
begin

text \<open>
  Properties of the device path text: writing it ends for every memory, and the text of a path
  that \<^verbatim>\<open>util.c\<close> made for a block of memory, through the whole chain from the store of the
  node over its accessors and the \<open>printf\<close> engine to the characters.
\<close>

unbundle bit_operations_syntax

section \<open>Termination\<close>

lemma no_env_path: "path_text no_env p \<noteq> None"
  by (simp add: no_env_def)

text \<open>A formatter only adds characters.\<close>

abbreviation extends :: "u16 list \<Rightarrow> u16 list \<Rightarrow> bool" where
  "extends out out' \<equiv> length out \<le> length out'"

lemma dp_printf_ends: "wide_args as \<Longrightarrow> ends (dp_printf room out fmt as) (extends out)"
  unfolding dp_printf_def wsprintf_def
  by (rule ends_rbind [OF vswprintf_ends [OF no_env_path]]) auto

lemma wide_args_Nil [simp]: "wide_args []"
  by (simp add: wide_args_def)

lemma vendor_data_extends: "vendor_data_loop m room data n i out = Ret out' \<Longrightarrow> extends out out'"
proof (induction m room data n i out rule: vendor_data_loop.induct)
  case (1 m room data n i out)
  from "1.prems" show ?case
    by (subst (asm) vendor_data_loop.simps)
      (auto simp: outcome_iff Let_def split: if_splits dest!: "1.IH")
qed

lemma filepath_extends: "filepath_loop m room n src out = Ret out' \<Longrightarrow> extends out out'"
  by (induction n arbitrary: src out)
    (fastforce simp: outcome_iff put_char_def split: if_splits)+

lemma put_char_extends: "put_char room out c = Ret out' \<Longrightarrow> length out' = Suc (length out) \<and> length out < room"
  by (auto simp: put_char_def split: if_splits)

lemma vendor_head_ends: "ends (vendor_head room t g out) (extends out)"
  by (simp add: vendor_head_def dp_printf_ends)

lemma vendor_tail_ends:
  "ends (once (if n > 0 then obind (put_char room out c) (vendor_data_loop m room data n 0) else Ret out)
      (\<lambda>out. once (put_char room out c') (\<lambda>out. Some (Ret out)))) (extends out)"
  by (intro ends_once) (auto dest!: put_char_extends vendor_data_extends simp: outcome_iff split: if_splits)

lemma device_path_vendor_ends: "ends (device_path_vendor m room dp out) (extends out)"
  unfolding device_path_vendor_def Let_def
proof (intro ends_once, goal_cases)
  case (1 hdr g)
  have "ends (rbind (vendor_head room (dp_type hdr) g out) f) (extends out)"
    if "\<And>out'. ends (f out') (extends out')" for f
    by (rule ends_rbind [OF vendor_head_ends])
      (use that in \<open>auto simp: ends_def intro: order_trans\<close>)
  from this [OF vendor_tail_ends] show ?case
    by (cases "guidcmp g uboot_guid"; cases "guidcmp g uboot_virtio_guid")
      (simp_all only: if_True if_False, auto intro!: ends_once dp_printf_ends)
qed

lemma formatters_end:
  "ends (device_path_pci m room dp out) (extends out)"
  "ends (device_path_memmap m room dp out) (extends out)"
  "ends (device_path_acpi m room dp out) (extends out)"
  "ends (device_path_scsi m room dp out) (extends out)"
  "ends (device_path_usb m room dp out) (extends out)"
  "ends (device_path_sata m room dp out) (extends out)"
  "ends (device_path_sd m room dp out) (extends out)"
  "ends (device_path_partition m room dp out) (extends out)"
  "ends (device_path_unknown m room dp out) (extends out)"
  unfolding device_path_pci_def device_path_memmap_def device_path_acpi_def device_path_scsi_def
    device_path_usb_def device_path_sata_def device_path_sd_def device_path_partition_def
    device_path_unknown_def
  by (intro ends_once ends_if; rule dp_printf_ends; simp)+

lemma node_text_ends: "ends (node_text m room dp d out) (extends out)"
proof -
  have "ends (device_path_filepath m room dp out) (extends out)"
    unfolding device_path_filepath_def Let_def
    by (intro ends_once) (auto simp: ends_def dest: filepath_extends)
  moreover have "ends (Some (device_instance_end room out)) (extends out)"
    by (auto simp: ends_def device_instance_end_def dest: put_char_extends)
  ultimately show ?thesis
    unfolding node_text_def Let_def
    by (intro ends_if formatters_end device_path_vendor_ends) simp_all
qed

lemma device_path_loop_ends: "ends (device_path_loop m room dp out) (\<lambda>_. True)"
proof (induction "room - length out" arbitrary: dp out rule: less_induct)
  case less
  have "ends (rbind (node_text m room dp d out1) (\<lambda>out.
      if length out < room then device_path_loop m room (NextDevicePathNode dp d) out else Some UB)) (\<lambda>_. True)"
    if "put_char room out (wc CHR ''/'') = Ret out1" for d out1
  proof (rule ends_rbind [OF node_text_ends])
    fix out2 assume "extends out1 out2"
    then show "ends (if length out2 < room then device_path_loop m room (NextDevicePathNode dp d) out2
        else Some UB) (\<lambda>_. True)"
      using put_char_extends [OF that] by (auto intro!: less.hyps)
  qed
  then show ?case by (subst device_path_loop.simps) (auto intro!: ends_once)
qed


section \<open>The text of a memory mapped path\<close>

lemma dp_printf_segments:
  assumes "ws fmt = format_of segs" and "segments_text no_env segs as = Some t"
    and "length out + length t < room" and "length t < 2 ^ 64"
  shows "dp_printf room out fmt as = Some (Ret (out @ t))"
proof -
  have "unat (of_nat (length t) :: u64) = length t" using assms(4) by (simp add: unsigned_of_nat take_bit_nat_eq_self)
  then show ?thesis using assms(3) vswprintf_segments [OF assms(2), of "room - length out"]
    by (simp add: dp_printf_def wsprintf_def assms(1))
qed

lemma value_to_string_length:
  assumes "value_to_string (ucast (v :: u16)) = Ret s"
  shows "length s \<le> 10"
proof -
  have "unat (ucast v :: u64) < 2 ^ 32" using unsigned_less [of v, where ?'a = nat] by simp
  then show ?thesis using value_to_string_u32 assms by (metis outcome.inject(1))
qed

lemma memmap_text:
  assumes "load_memory_dp m dp = Ret (memory_mapped_device_path address sz type)"
    and "value_to_string (ucast (ucast type :: u16)) = Ret tt" and "room = PRINT_ITEM_BUFFER_LEN"
  shows "device_path_memmap m room dp (ws ''/'') = Some (Ret (ws ''/MemMap('' @ tt @ ws '',0x'' @
    value_to_hex_string address @ ws '',0x'' @ value_to_hex_string (address + sz) @ ws '')''))"
proof -
  have tt: "value_to_string (ucast (ucast (ucast type :: u64) :: u16)) = Ret tt"
  proof -
    have "(ucast (ucast type :: u64) :: u16) = ucast type" by (rule bit_word_eqI) (simp add: bit_simps)
    then show ?thesis using assms(2) by simp
  qed
  have len: "length tt \<le> 10" using assms(2) by (rule value_to_string_length)
  let ?segs = "[Lit (ws ''MemMap(''), Conv (ws ''h'') (wc CHR ''u''), Lit (ws '',0x''),
     Conv (ws ''l'') (wc CHR ''x''), Lit (ws '',0x''), Conv (ws ''l'') (wc CHR ''x''), Lit (ws '')'')]"
  let ?t = "ws ''MemMap('' @ tt @ ws '',0x'' @ value_to_hex_string address @ ws '',0x'' @
     value_to_hex_string (address + sz) @ ws '')''"
  have seg: "segments_text no_env ?segs [A_word (ucast type), A_word address, A_word (address + sz)] = Some ?t"
    by (simp add: plain_def is_flag_def flag_letter_def conv_result_hu [OF tt, simplified]
        conv_result_lx [simplified])
  have fmt: "ws ''MemMap(%hu,0x%lx,0x%lx)'' = format_of ?segs" by (simp add: format_of_def)
  have "dp_printf room (ws ''/'') ''MemMap(%hu,0x%lx,0x%lx)''
      [A_word (ucast type), A_word address, A_word (address + sz)] = Some (Ret (ws ''/'' @ ?t))"
    using assms(3) len hex_text_plain(2) [of address] hex_text_plain(2) [of "address + sz"]
    by (intro dp_printf_segments [OF fmt seg]) (simp_all add: PRINT_ITEM_BUFFER_LEN_def)
  then show ?thesis using assms(1)
    by (simp add: device_path_memmap_def memory_mapped_device_path_def)
qed

text \<open>
  The text of a path that \<open>create_memory_mapped_device_path\<close> made: the node with the decimal
  low 16 bits of the memory type and the start and end addresses in hexadecimal.
\<close>

theorem memory_mapped_path_text:
  assumes "fresh_block BS pool 28 w dp w1" and "dp \<noteq> 0"
    and "create_memory_mapped_device_path BS pool address sz type w = Ret (dp', w')"
    and "value_to_string (ucast (ucast type :: u16)) = Ret tt"
  shows "device_path_to_string (wmem w') PRINT_ITEM_BUFFER_LEN dp' =
    Some (Ret (ws ''/MemMap('' @ tt @ ws '',0x'' @ value_to_hex_string address @ ws '',0x'' @
      value_to_hex_string (address + sz) @ ws '')'' @ [0]))"
proof -
  define m where "m = wmem w'"
  let ?hdr = "mdp_hdr (memory_mapped_device_path address sz type)"
  let ?t = "ws ''/MemMap('' @ tt @ ws '',0x'' @ value_to_hex_string address @ ws '',0x'' @
      value_to_hex_string (address + sz) @ ws '')''"
  have ld: "dp' = dp" "load_dp m dp = Ret ?hdr" "load_dp m (dp + 24) = Ret end_device_path"
      "load_memory_dp m dp = Ret (memory_mapped_device_path address sz type)"
    using memory_mapped_path_written [OF assms(1,2), of address sz type] assms(3) by (auto simp: m_def)
  have nodes: "\<not> IsDevicePathEndNode ?hdr" "IsDevicePathEndNode end_device_path"
      "NextDevicePathNode dp ?hdr = dp + 24"
    by (simp_all add: memory_mapped_device_path_def end_device_path_def IsDevicePathEndNode_def
        IsDevicePathNode_def HARDWARE_DEVICE_PATH_def END_DEVICE_PATH_TYPE_def NextDevicePathNode_def)
  have "node_text m PRINT_ITEM_BUFFER_LEN dp ?hdr (ws ''/'') = Some (Ret ?t)"
    using memmap_text [OF ld(4) assms(4) refl]
    by (simp add: node_text_def memory_mapped_device_path_def HARDWARE_DEVICE_PATH_def HW_MEMMAP_DP_def
        HW_PCI_DP_def)
  moreover have "length ?t < PRINT_ITEM_BUFFER_LEN"
    using value_to_string_length [OF assms(4)] hex_text_plain [of address] hex_text_plain [of "address + sz"]
    by (simp add: PRINT_ITEM_BUFFER_LEN_def)
  moreover have "device_path_loop m PRINT_ITEM_BUFFER_LEN (dp + 24) out = Some (Ret out)" for out
    using ld(3) nodes(2) by (subst device_path_loop.simps) simp
  ultimately have "device_path_loop m PRINT_ITEM_BUFFER_LEN dp [] = Some (Ret ?t)"
    using ld(2) nodes(1,3) by (subst device_path_loop.simps) (simp add: put_char_def PRINT_ITEM_BUFFER_LEN_def)
  then show ?thesis using ld(1,2) nodes(1) by (simp add: device_path_to_string_def flip: m_def)
qed

theorem memory_mapped_path_text_witness:
  "\<exists>dp' w'. create_memory_mapped_device_path bump_services 4 0x5000 0x1000 2
        \<lparr>wmem = Map.empty, fw = 0x2000\<rparr> = Ret (dp', w')
      \<and> device_path_to_string (wmem w') PRINT_ITEM_BUFFER_LEN dp'
        = Some (Ret (ws ''/MemMap(2,0x5000,0x6000)'' @ [0]))"
proof -
  have fresh: "fresh_block bump_services 4 28 \<lparr>wmem = Map.empty, fw = 0x2000\<rparr> 0x2000
      (snd (snd (bump_alloc 4096 \<lparr>wmem = Map.empty, fw = 0x2000\<rparr>)))"
    by (rule bump_fresh) simp_all
  obtain w' where w': "create_memory_mapped_device_path bump_services 4 0x5000 0x1000 2
        \<lparr>wmem = Map.empty, fw = 0x2000\<rparr> = Ret (0x2000, w')"
    using memory_mapped_path_written [OF fresh, of "0x5000" "0x1000" 2] by auto
  have "value_to_string (ucast (ucast (2 :: u32) :: u16)) = Ret (ws ''2'')"
    using value_to_string_fixed [of 1 2] by (simp add: dec_digit_def)
  from memory_mapped_path_text [OF fresh _ w' this]
  show ?thesis using w' value_to_hex_string_fixed [of 3 "0x5000"] value_to_hex_string_fixed [of 3 "0x6000"]
    by (auto simp: fixed_numeral hex_digit_def hex_def)
qed

end
