(* ===== verification/Print_Props.thy ===== *)
theory Print_Props
  imports Print_Refine
begin

text \<open>
  Properties of the \<open>printf\<close> engine: the refinement of the segment semantics, what \<open>%p\<close> and \<open>%d\<close>
  print, the console output of plain text, and a format for which printing never ends.
\<close>

unbundle bit_operations_syntax

section \<open>Formats\<close>



section \<open>Numbers\<close>

text \<open>
  \<open>%p\<close> between two plain texts prints 16 digits, but only the low half of the pointer: the
  conversion takes the argument as a 32-bit value unless an \<open>l\<close> precedes it. The length
  argument \<open>maxlen\<close> of \<open>vswprintf\<close> has no effect: what is longer than the array overruns it.
\<close>

theorem percent_p_low_half:
  assumes "plain pre" and "plain post"
  shows "vswprintf env room maxlen (pre @ ws ''%p'' @ post @ [0]) [A_word v]
    = Some (if length pre + 16 + length post < room
            then Ret (of_nat (length pre + 16 + length post),
                      pre @ hexdigits 16 (unat (ucast v :: u32)) @ post)
            else UB)"
proof -
  define x where "x = (ucast (ucast v :: u32) :: u64)"
  have x: "unat x < 16 ^ Suc 7" "unat x = unat (ucast v :: u32)"
    using unsigned_less [of "ucast v :: u32", where ?'a = nat] by (simp_all add: x_def)
  from x(1) obtain n where n: "n \<le> 7" "n = 0 \<or> 16 ^ n \<le> unat x" "unat x < 16 ^ Suc n"
    by (rule hex_width)
  define s where "s = hexdigits (Suc n) (unat x)"
  have s: "value_to_hex_string x = s" "length s = Suc n" "0 \<notin> set s"
    using value_to_hex_string_fixed [OF n(2,3)] fixed_chars [of 16 hex_digit] hex_digit_nonzero
    by (simp_all add: s_def del: fixed.simps)
  define item where "item = new_item\<lparr>it_width := 16, it_pad_char := wc CHR ''0'',
    it_text := Some (Wide (s @ [0]))\<rparr>"
  have conv: "conv_text env (wc CHR ''p'') new_item [A_word v] = Some (Ret (item, []))"
    using n(1) s by (simp add: conv_text_def arg_number_def arg_u32_def new_item_def scratch_def
        item_def PRINT_ITEM_BUFFER_LEN_def Let_def flip: x_def)
  have "hexdigits (16 - Suc n + Suc n) (unat x) = replicate (16 - Suc n) 48 @ s"
    using fixed_pad [OF _ n(3)] by (simp add: hex_zero s_def del: fixed.simps)
  then have pad: "padded item (cstr (s @ [0])) = hexdigits 16 (unat x)"
    using s n(1) by (simp add: padded_def item_def new_item_def Let_def unat_max_64 del: fixed.simps)
  have "vswprintf env room maxlen (pre @ wc CHR ''%'' # wc CHR ''p'' # post @ [0]) [A_word v]
      = Some (if length (pre @ hexdigits 16 (unat x) @ post) < room
              then Ret (of_nat (length (pre @ hexdigits 16 (unat x) @ post)),
                        pre @ hexdigits 16 (unat x) @ post) else UB)"
    unfolding pad [symmetric]
    by (rule vswprintf_conversion [OF assms _ _ conv])
      (use s n(1) in \<open>simp_all add: flag_letter_def item_def\<close>)
  then show ?thesis using x(2) by (simp add: add.assoc del: fixed.simps)
qed

theorem percent_p_low_half_witness:
  "vswprintf no_env 40 40 (ws ''at %p.'' @ [0]) [A_word 0xfedcba9876543210]
   = Some (Ret (20, ws ''at 0000000076543210.''))"
  using percent_p_low_half [of "ws ''at ''" "ws ''.''" no_env 40 40 "0xfedcba9876543210"]
  by (simp add: plain_def fixed_numeral hex_digit_def hex_def)

text \<open>
  \<open>%d\<close> takes its argument as an unsigned 32-bit value: the text always reads back as the
  value between 0 and \<open>2 ^ 32 - 1\<close>, also for a negative argument.
\<close>

theorem percent_d_unsigned:
  assumes "plain pre" and "plain post"
    and "length pre + 10 + length post < room"
  shows "\<exists>s. vswprintf env room maxlen (pre @ ws ''%d'' @ post @ [0]) [A_word v]
      = Some (Ret (of_nat (length (pre @ s @ post)), pre @ s @ post))
    \<and> read_int s = Some (uint (ucast v :: u32))"
proof -
  define x where "x = (ucast (ucast v :: u32) :: u64)"
  have x: "unat x < 2 ^ 32" "unat x = unat (ucast v :: u32)"
    using unsigned_less [of "ucast v :: u32", where ?'a = nat] by (simp_all add: x_def)
  obtain s where s: "value_to_string x = Ret s" "0 \<notin> set s" "s \<noteq> []" "length s \<le> 10"
      "read_digits 10 dec_digit_of 0 s = Some (unat x)"
    using x(1) by (rule value_to_string_u32)
  define item where "item = new_item\<lparr>it_text := Some (Wide (s @ [0]))\<rparr>"
  have conv: "conv_text env (wc CHR ''d'') new_item [A_word v] = Some (Ret (item, []))"
    using s by (simp add: conv_text_def arg_number_def arg_u32_def new_item_def scratch_def
        item_def PRINT_ITEM_BUFFER_LEN_def Let_def flip: x_def)
  have pad: "padded item (cstr (s @ [0])) = s"
    using s by (simp add: padded_def item_def new_item_def Let_def unat_max_64)
  have "vswprintf env room maxlen (pre @ wc CHR ''%'' # wc CHR ''d'' # post @ [0]) [A_word v]
      = Some (if length (pre @ s @ post) < room
              then Ret (of_nat (length (pre @ s @ post)), pre @ s @ post) else UB)"
    using vswprintf_conversion [OF assms(1,2) _ _ conv, of "s @ [0]" room maxlen] s pad
    by (simp add: flag_letter_def item_def)
  moreover have "read_int s = Some (int (unat x))" using s(5,3) by (rule read_int_digits)
  ultimately show ?thesis using assms(3) s(4) x(2) by (intro exI [of _ s]) simp
qed

theorem percent_d_unsigned_witness:
  "\<exists>s. vswprintf no_env 40 40 (ws ''n=%d;'' @ [0]) [A_word 0xffffffffffffffff]
      = Some (Ret (of_nat (length (ws ''n='' @ s @ ws '';'')), ws ''n='' @ s @ ws '';''))
    \<and> read_int s = Some 0xffffffff"
  using percent_d_unsigned [of "ws ''n=''" "ws '';''" 40 no_env 40 "0xffffffffffffffff"] by (simp add: plain_def)


section \<open>Printing to the console\<close>

definition console_ok :: "pstate \<Rightarrow> bool" where
  "console_ok ps \<longleftrightarrow> ps_console ps \<and> ps_add_cr ps \<and> 0 < ps_end ps \<and> ps_end ps < int (ps_room ps)
     \<and> int (length (ps_out ps)) < ps_end ps"

text \<open>From \<open>ps\<close> to \<open>ps'\<close> exactly the characters \<open>cs\<close> went out, in pieces that fit the buffer.\<close>

definition prints :: "pstate \<Rightarrow> u16 list \<Rightarrow> pstate \<Rightarrow> bool" where
  "prints ps cs ps' \<longleftrightarrow> console_ok ps' \<and> ps_end ps' = ps_end ps
     \<and> ps_len ps' = ps_len ps + of_nat (length cs)
     \<and> (\<exists>outs. ps_ops ps' = ps_ops ps @ map Output_String outs
          \<and> (\<forall>s\<in>set outs. int (length s) \<le> ps_end ps)
          \<and> concat outs @ ps_out ps' = ps_out ps @ cs)"

lemma prints_refl: "console_ok ps \<Longrightarrow> prints ps [] ps"
  unfolding prints_def by (auto intro: exI [of _ "[]"])

lemma prints_trans:
  assumes "prints ps xs ps1" and "prints ps1 ys ps2"
  shows "prints ps (xs @ ys) ps2"
proof -
  obtain outs1 where 1: "ps_ops ps1 = ps_ops ps @ map Output_String outs1"
      "\<forall>s\<in>set outs1. int (length s) \<le> ps_end ps" "concat outs1 @ ps_out ps1 = ps_out ps @ xs"
    using assms(1) unfolding prints_def by blast
  obtain outs2 where 2: "ps_ops ps2 = ps_ops ps1 @ map Output_String outs2"
      "\<forall>s\<in>set outs2. int (length s) \<le> ps_end ps1" "concat outs2 @ ps_out ps2 = ps_out ps1 @ ys"
    using assms(2) unfolding prints_def by blast
  have "concat (outs1 @ outs2) @ ps_out ps2 = ps_out ps @ xs @ ys"
    using 1(3) 2(3) by (metis append.assoc concat_append)
  then show ?thesis using assms 1 2 unfolding prints_def
    by (intro conjI exI [of _ "outs1 @ outs2"]) (auto simp: add.assoc)
qed

lemma put_plain_prints:
  assumes "console_ok ps"
  obtains ps' where "put_plain c ps = Ret ps'" "prints ps [c] ps'" "ps_fmt ps' = ps_fmt ps"
proof (cases "int (Suc (length (ps_out ps))) \<ge> ps_end ps")
  case True
  then show thesis using assms
    by (intro that [of "ps\<lparr>ps_ops := ps_ops ps @ [Output_String (ps_out ps @ [c])], ps_out := [],
          ps_len := ps_len ps + 1\<rparr>"])
      (auto simp: put_plain_def ptr_flush_def Let_def prints_def console_ok_def
        intro!: exI [of _ "[ps_out ps @ [c]]"])
next
  case False
  then show thesis using assms
    by (intro that [of "ps\<lparr>ps_out := ps_out ps @ [c], ps_len := ps_len ps + 1\<rparr>"])
      (auto simp: put_plain_def ptr_flush_def Let_def prints_def console_ok_def
        intro!: exI [of _ "[]"])
qed

definition crlf :: "u16 list \<Rightarrow> u16 list" where
  "crlf cs = concat (map (\<lambda>c. if c = 10 then [13, 10] else [c]) cs)"

lemma ptr_putc_prints:
  assumes "console_ok ps"
  obtains ps' where "ptr_putc c ps = Ret ps'" "prints ps (crlf [c]) ps'" "ps_fmt ps' = ps_fmt ps"
proof (cases "c = 10")
  case True
  obtain ps1 where 1: "put_plain 13 ps = Ret ps1" "prints ps [13] ps1" "ps_fmt ps1 = ps_fmt ps"
    using put_plain_prints [OF assms] by blast
  then have "console_ok ps1" by (simp add: prints_def)
  then obtain ps2 where 2: "put_plain 10 ps1 = Ret ps2" "prints ps1 [10] ps2" "ps_fmt ps2 = ps_fmt ps1"
    using put_plain_prints by blast
  show thesis
    using True assms 1 2 prints_trans [OF 1(2) 2(2)]
    by (intro that [of ps2]) (simp_all add: ptr_putc_def crlf_def console_ok_def)
next
  case False
  obtain ps1 where "put_plain c ps = Ret ps1" "prints ps [c] ps1" "ps_fmt ps1 = ps_fmt ps"
    using put_plain_prints [OF assms] by blast
  with False show thesis by (intro that [of ps1]) (simp_all add: ptr_putc_def crlf_def)
qed

lemma put_chars_prints: "console_ok ps \<Longrightarrow> \<exists>ps'. put_chars cs ps = Ret ps' \<and> prints ps (crlf cs) ps'"
proof (induction cs arbitrary: ps)
  case Nil
  then show ?case using prints_refl by (simp add: crlf_def)
next
  case (Cons c cs)
  obtain ps1 where 1: "ptr_putc c ps = Ret ps1" "prints ps (crlf [c]) ps1"
    using ptr_putc_prints [OF Cons.prems] by blast
  then have "console_ok ps1" by (simp add: prints_def)
  then obtain ps2 where 2: "put_chars cs ps1 = Ret ps2" "prints ps1 (crlf cs) ps2"
    using Cons.IH by blast
  have "crlf (c # cs) = crlf [c] @ crlf cs" by (simp add: crlf_def)
  then show ?case using 1 2 prints_trans by auto
qed

lemma console_state_ok: "console_ok (console_state attribute txt as)"
  by (simp add: console_ok_def console_state_def PRINT_STRING_LEN_def Let_def)

text \<open>
  Printing a text without \<open>%\<close> on the console ends, returns the number of characters written
  and writes exactly the text with every newline turned into carriage return and
  newline, in pieces of at most 199 characters that fit the buffer of 200.
\<close>

theorem wprintf_plain:
  assumes "0 \<in> set fmt" and "wc CHR ''%'' \<notin> set (cstr fmt)"
  shows "\<exists>outs. wprintf env attribute fmt as
      = Some (Ret (of_nat (length (crlf (cstr fmt))), map Output_String outs))
    \<and> concat outs = crlf (cstr fmt) \<and> (\<forall>s\<in>set outs. length s \<le> 199)"
proof -
  obtain rest where fmt: "fmt = cstr fmt @ 0 # rest" "0 \<notin> set (cstr fmt)"
    using cstr_prefix [OF assms(1)] by blast
  define ps where "ps = console_state attribute (Wide fmt) as"
  have ps: "ps\<lparr>ps_len := 0, ps_fmt := (ps_fmt ps)\<lparr>ptr_index := 0\<rparr>\<rparr>
      = reposition (wide_at fmt 0) as 0 ps" "ps_out ps = []" "ps_ops ps = []" "ps_len ps = 0"
    "ps_end ps = 199"
    by (simp_all add: ps_def console_state_def reposition_def Let_def PRINT_STRING_LEN_def)
  obtain ps' where ps': "put_chars (cstr fmt) ps = Ret ps'" "prints ps (crlf (cstr fmt)) ps'"
    using put_chars_prints [OF console_state_ok] unfolding ps_def by blast
  have "drop (length (cstr fmt)) fmt = 0 # rest" using fmt(1) by (metis append_eq_conv_conj)
  then have "print_loop env (reposition (wide_at fmt 0) as 0 ps)
      = Some (Ret (reposition (wide_at fmt (Suc (length (cstr fmt)))) as 0 ps'))"
    using print_loop_plain [of 0 fmt "cstr fmt" "0 # rest"] print_loop_end [of "length (cstr fmt)" fmt rest]
      assms(2) fmt ps'(1) by simp
  moreover obtain outs where outs: "ps_ops ps' = map Output_String outs"
      "\<forall>s\<in>set outs. length s \<le> 199" "concat outs @ ps_out ps' = crlf (cstr fmt)"
      "ps_len ps' = of_nat (length (crlf (cstr fmt)))" "length (ps_out ps') \<le> 199" "ps_console ps'"
    using ps'(2) ps(2-5) unfolding prints_def console_ok_def by auto
  ultimately show ?thesis
    by (intro exI [of _ "outs @ [ps_out ps']"])
      (auto simp: wprintf_def iprint_def print_fmt_def ps Let_def ptr_flush_def reposition_def
        simp flip: ps_def)
qed

theorem wprintf_plain_witness:
  "\<exists>outs. wprintf no_env 0 (ws ''ok'' @ [10, 0]) [] = Some (Ret (4, map Output_String outs))
     \<and> concat outs = [111, 107, 13, 10] \<and> (\<forall>s\<in>set outs. length s \<le> 199)"
  using wprintf_plain [of "ws ''ok'' @ [10, 0]" no_env 0 "[]"] by (simp add: crlf_def)

text \<open>
  A narrow format with an invalid UTF-8 lead byte is never left: \<open>mbtowc\<close> rejects the byte,
  the index stays, and \<open>printf\<close> writes question marks for ever.
\<close>

theorem printf_invalid_utf8_diverges:
  assumes "utf8_len b = None"
  shows "printf env attribute (b # rest) as = None"
proof -
  let ?p = "\<lparr>ptr_text = Ascii (b # rest), ptr_index = 0\<rparr>"
  have getc: "ptr_getc ?p = Ret (63, ?p)"
    using assms by (simp add: ptr_getc_def mbtowc_def)
  have never: "\<not> (console_ok ps \<and> ps_fmt ps = ?p)" if "print_loop env ps = Some r" for ps r
  proof (rule print_loop.raw_induct [OF _ that])
    fix f env ps r
    assume IH: "\<And>env ps r. f env ps = Some r \<Longrightarrow> \<not> (console_ok ps \<and> ps_fmt ps = ?p)"
      and run: "once (ptr_getc (ps_fmt ps)) (\<lambda>(c, p).
        let ps = ps\<lparr>ps_fmt := p\<rparr> in
        if c = 0 then Some (Ret ps)
        else if c \<noteq> wc CHR ''%'' then once (ptr_putc c ps) (f env)
        else rbind (conv_loop env new_item 0 (ps\<lparr>ps_restore_attr := 0\<rparr>)) (\<lambda>ps.
          f env (if ps_restore_attr ps \<noteq> 0 then ptr_setattr (ps_restore_attr ps) ps else ps)))
        = Some r"
    show "\<not> (console_ok ps \<and> ps_fmt ps = ?p)"
    proof
      assume ok: "console_ok ps \<and> ps_fmt ps = ?p"
      then have "console_ok (ps\<lparr>ps_fmt := ?p\<rparr>)" by (simp add: console_ok_def)
      then obtain ps' where "ptr_putc 63 (ps\<lparr>ps_fmt := ?p\<rparr>) = Ret ps'" "console_ok ps'"
          "ps_fmt ps' = ps_fmt (ps\<lparr>ps_fmt := ?p\<rparr>)"
        using ptr_putc_prints by (metis prints_def)
      then show False using IH run ok getc by (auto simp: Let_def)
    qed
  qed
  define q where "q = (console_state attribute (Ascii (b # rest)) as)\<lparr>ps_len := 0, ps_fmt := ?p\<rparr>"
  have "console_ok q \<and> ps_fmt q = ?p"
    using console_state_ok [of attribute "Ascii (b # rest)" as] by (simp add: console_ok_def q_def)
  then have "print_loop env q = None" using never [of q] by (cases "print_loop env q") auto
  moreover have "(console_state attribute (Ascii (b # rest)) as)\<lparr>ps_len := 0,
      ps_fmt := (ps_fmt (console_state attribute (Ascii (b # rest)) as))\<lparr>ptr_index := 0\<rparr>\<rparr> = q"
    by (simp add: q_def console_state_def Let_def)
  ultimately show ?thesis by (simp add: printf_def iprint_def print_fmt_def)
qed

theorem printf_invalid_utf8_diverges_witness: "printf no_env 7 [0xff, 0] [] = None"
  by (rule printf_invalid_utf8_diverges) (simp add: utf8_len_def)

end
