(* ===== verification/Efi_Lib.thy ===== *)
theory Efi_Lib
  imports PE_Locate Loaded_Image Device_Path_Text
begin

text \<open>
  \<^verbatim>\<open>lib/efilib/efilib.c\<close>: the tick counter, \<open>initialize_library\<close>, file information and the search for
  protocols; \<^verbatim>\<open>lib/efilib/efivar.c\<close> and \<^verbatim>\<open>include/efilib/var.h\<close>: firmware variables.

  \<open>platform\<close> collects what the code takes from the processor (the tick counter and, on the ARM
  target, its frequency) and from the file protocols; each is a parameter. An \<open>exit\<close> is the
  outcome \<open>Exit\<close>. The globals that \<open>initialize_library\<close> sets are its result; the loaded image
  protocol is the structure read at that time. The loops that ask the firmware again until its
  buffer is large enough are partial functions: \<open>None\<close> is a run that never ends.
\<close>

unbundle bit_operations_syntax

section \<open>Ticks\<close>

record 'w platform =
  rdtsc :: "'w world \<Rightarrow> u64 \<times> u64 \<times> 'w world"
  cntpct :: "'w world \<Rightarrow> u64 \<times> 'w world"
  cntfrq :: u64
  bs_stall :: "size_t \<Rightarrow> 'w world \<Rightarrow> efi_status \<times> 'w world"
  open_volume :: "addr \<Rightarrow> 'w world \<Rightarrow> efi_status \<times> addr \<times> 'w world"
  file_open :: "addr \<Rightarrow> u16 list \<Rightarrow> u64 \<Rightarrow> u64 \<Rightarrow> 'w world \<Rightarrow> efi_status \<times> addr \<times> 'w world"
  file_close :: "addr \<Rightarrow> 'w world \<Rightarrow> efi_status \<times> 'w world"
  file_read :: "addr \<Rightarrow> size_t \<Rightarrow> addr \<Rightarrow> 'w world \<Rightarrow> efi_status \<times> size_t \<times> 'w world"
  get_info :: "addr \<Rightarrow> efi_guid \<Rightarrow> size_t \<Rightarrow> addr \<Rightarrow> 'w world \<Rightarrow> efi_status \<times> size_t \<times> 'w world"

text \<open>\<open>rdtsc\<close> leaves the low half in \<open>a\<close> and the high half in \<open>d\<close>.\<close>

definition ticks_read :: "target \<Rightarrow> 'w platform \<Rightarrow> 'w world \<Rightarrow> u64 \<times> 'w world" where
  "ticks_read tgt pf w =
     (case tgt of
        X86_64 \<Rightarrow> (let (a, d, w) = rdtsc pf w in (push_bit 32 d OR a, w))
      | AARCH64 \<Rightarrow> cntpct pf w)"

definition stall :: "'w platform \<Rightarrow> size_t \<Rightarrow> 'w world \<Rightarrow> efi_status \<times> 'w world" where
  "stall pf microseconds w = bs_stall pf microseconds w"

definition ticks_freq :: "target \<Rightarrow> 'w platform \<Rightarrow> 'w world \<Rightarrow> u64 \<times> 'w world" where
  "ticks_freq tgt pf w =
     (case tgt of
        AARCH64 \<Rightarrow> (cntfrq pf, w)
      | X86_64 \<Rightarrow>
          (let (ticks_start, w) = ticks_read tgt pf w;
               (_, w) = stall pf 500 w;
               (t, w) = ticks_read tgt pf w
           in ((t - ticks_start) div 500, w)))"

definition monotonic_time_usec ::
    "target \<Rightarrow> 'w platform \<Rightarrow> efilib_globals \<Rightarrow> 'w world \<Rightarrow> u64 \<times> 'w world" where
  "monotonic_time_usec tgt pf g w =
     (let (ticks, w) = ticks_read tgt pf w
      in if ticks = 0 then (0, w)
         else if freq g = 0 then (0, w)
         else (1000000 * ticks div freq g, w))"

section \<open>Initialization\<close>

definition efi_simple_fs_protocol_guid :: efi_guid where
  "efi_simple_fs_protocol_guid = \<lparr>ms1 = 0x964e5b22, ms2 = 0x6459, ms3 = 0x11d2,
     ms4 = [0x8e, 0x39, 0x0, 0xa0, 0xc9, 0x69, 0x72, 0x3b]\<rparr>"

text \<open>\<open>ST->hdr.revision\<close>.\<close>

definition table_revision :: "mem \<Rightarrow> addr \<Rightarrow> u32 outcome" where
  "table_revision m st = load_w m (st + 8)"

definition get_pe_subsystem_version :: "mem \<Rightarrow> addr \<Rightarrow> u32 outcome" where
  "get_pe_subsystem_version m image_base =
     obind (load_w m (image_base + DOS_PE_OFFSET_LOCATION)) (\<lambda>off :: u32.
     obind (load_headers m (image_base + ucast off)) (\<lambda>pe.
     if signature (file_header pe) \<noteq> PE_HEADER_SIGNATURE then Exit EFI_UNSUPPORTED
     else Ret (push_bit 16 (ucast (major16 (subsystem_version (optional_header pe))))
               OR ucast (minor16 (subsystem_version (optional_header pe))))))"

text \<open>The second half of \<open>initialize_library\<close>: the root directory of the boot device.\<close>

definition open_root ::
    "'w boot_services \<Rightarrow> 'w platform \<Rightarrow> handle \<Rightarrow> efi_loaded_image \<Rightarrow> 'w world \<Rightarrow> (addr \<times> 'w world) outcome"
where
  "open_root BS pf img li w =
     (let (err, fs, w) = open_protocol BS (li_device_handle li) efi_simple_fs_protocol_guid img
            EFI_OPEN_PROTOCOL_BY_HANDLE_PROTOCOL w
      in if EFI_ERROR err then Exit EFI_INCOMPATIBLE_VERSION
         else let (err, root, w) = open_volume pf fs w
              in if EFI_ERROR err then Exit err else Ret (root, w))"

definition initialize_library ::
    "target \<Rightarrow> 'w boot_services \<Rightarrow> 'w platform \<Rightarrow> handle \<Rightarrow> addr \<Rightarrow> 'w world
     \<Rightarrow> (efilib_globals \<times> 'w world) outcome" where
  "initialize_library tgt BS pf img system_table w =
     (let (boot, w) = ticks_read tgt pf w in
      obind (table_revision (wmem w) system_table) (\<lambda>revision.
      if revision < 0x0001000 then Exit EFI_INCOMPATIBLE_VERSION
      else
      let (f, w) = ticks_freq tgt pf w in
      if f = 0 then UB
      else
      let boot = 1000000 * boot div f in
      if img = 0 then Exit EFI_UNSUPPORTED
      else
      let (err, lp, w) = open_protocol BS img efi_loaded_image_protocol_guid img
            EFI_OPEN_PROTOCOL_BY_HANDLE_PROTOCOL w in
      if EFI_ERROR err then Exit err
      else
      obind (load_loaded_image (wmem w) lp) (\<lambda>li.
      if li_image_base li = 0 then Exit EFI_UNSUPPORTED
      else
      obind (get_pe_subsystem_version (wmem w) (li_image_base li)) (\<lambda>version.
      obind (table_revision (wmem w) system_table) (\<lambda>revision.
      if revision < version then Exit EFI_INCOMPATIBLE_VERSION
      else
      obind (open_root BS pf img li w) (\<lambda>(root, w).
      Ret (\<lparr>EFI_IMAGE = img, EFI_ROOT = root, ST = system_table,
             EFI_POOL_ALLOCATION = li_image_data_type li, EFI_LOADED_IMAGE = Some li,
             BOOT_TIME_USECS = boot, freq = f\<rparr>, w)))))))"

section \<open>File information and protocols\<close>

definition sizeof_file_info :: size_t where "sizeof_file_info = 88"

text \<open>\<open>info->file_size\<close>.\<close>

definition file_size :: "mem \<Rightarrow> addr \<Rightarrow> u64 outcome" where
  "file_size m info = load_w m (info + 8)"

partial_function (option) file_info_loop ::
    "'w boot_services \<Rightarrow> 'w platform \<Rightarrow> u32 \<Rightarrow> addr \<Rightarrow> size_t \<Rightarrow> 'w world \<Rightarrow> (addr \<times> 'w world) option"
where
  "file_info_loop BS pf pool h sz w =
     (let (info, w) = malloc BS pool sz w
      in if info = 0 then Some (0, w)
         else
         let (err, sz, w) = get_info pf h efi_file_info_guid sz info w
         in if err = EFI_BUFFER_TOO_SMALL then file_info_loop BS pf pool h sz (c_free BS info w)
            else if EFI_ERROR err then Some (0, c_free BS info w)
            else Some (info, w))"

definition lib_get_file_info ::
    "'w boot_services \<Rightarrow> 'w platform \<Rightarrow> u32 \<Rightarrow> addr \<Rightarrow> 'w world \<Rightarrow> (addr \<times> 'w world) option" where
  "lib_get_file_info BS pf pool h w = file_info_loop BS pf pool h sizeof_file_info w"

text \<open>The result: status, number of handles, and the array \<open>*handles\<close>.\<close>

partial_function (option) find_handles_loop ::
    "'w boot_services \<Rightarrow> u32 \<Rightarrow> efi_guid \<Rightarrow> size_t \<Rightarrow> 'w world
     \<Rightarrow> (efi_status \<times> size_t \<times> addr \<times> 'w world) option"
where
  "find_handles_loop BS pool guid sz w =
     (let (handles, w) = malloc BS pool sz w
      in if handles = 0 then Some (EFI_OUT_OF_RESOURCES, 0, 0, w)
         else
         let (err, sz, w) = locate_handle BS guid sz handles w
         in if err = EFI_BUFFER_TOO_SMALL
            then find_handles_loop BS pool guid sz (c_free BS handles w)
            else if EFI_ERROR err then Some (err, 0, handles, c_free BS handles w)
            else Some (EFI_SUCCESS, sz div 8, handles, w))"

definition lib_find_handles ::
    "'w boot_services \<Rightarrow> u32 \<Rightarrow> efi_guid \<Rightarrow> 'w world
     \<Rightarrow> (efi_status \<times> size_t \<times> addr \<times> 'w world) option" where
  "lib_find_handles BS pool guid w = find_handles_loop BS pool guid 8 w"

text \<open>
  The loop over the handles, from index \<open>i\<close> with \<open>n\<close> left; \<open>handle\<close> is the address of the
  out-parameter, \<open>iface\<close> the value of \<open>*interface\<close>.
\<close>

primrec interface_loop ::
    "nat \<Rightarrow> 'w boot_services \<Rightarrow> handle \<Rightarrow> efi_guid \<Rightarrow> addr \<Rightarrow> size_t \<Rightarrow> addr \<Rightarrow> efi_status \<Rightarrow> addr
     \<Rightarrow> 'w world \<Rightarrow> (efi_status \<times> addr \<times> 'w world) outcome" where
  "interface_loop 0 BS img guid handles i handle err iface w = Ret (err, iface, w)"
| "interface_loop (Suc n) BS img guid handles i handle err iface w =
     obind (load_w (wmem w) (handles + 8 * i)) (\<lambda>h :: addr.
     let (err, p, w) = open_protocol BS h guid img EFI_OPEN_PROTOCOL_BY_HANDLE_PROTOCOL w;
         iface = (if EFI_ERROR err then iface else p)
     in if err = EFI_SUCCESS
        then (if handle = 0 then UB
              else obind (load_w (wmem w) handle) (\<lambda>old :: addr.
                   if old \<noteq> 0
                   then obind (store_w (wmem w) handle h) (\<lambda>m. Ret (err, iface, w\<lparr>wmem := m\<rparr>))
                   else Ret (err, iface, w)))
        else interface_loop n BS img guid handles (i + 1) handle err iface w)"

definition lib_get_protocol_interface ::
    "'w boot_services \<Rightarrow> efilib_globals \<Rightarrow> efi_guid \<Rightarrow> addr \<Rightarrow> addr \<Rightarrow> 'w world
     \<Rightarrow> (efi_status \<times> addr \<times> 'w world) outcome option" where
  "lib_get_protocol_interface BS g guid handle iface w =
     (case lib_find_handles BS (EFI_POOL_ALLOCATION g) guid w of
        None \<Rightarrow> None
      | Some (err, len, handles, w) \<Rightarrow>
          if EFI_ERROR err then Some (Ret (err, iface, w))
          else once (interface_loop (unat len) BS (EFI_IMAGE g) guid handles 0 handle err iface w)
            (\<lambda>(err, iface, w).
             let w = c_free BS handles w
             in if EFI_ERROR err then Some (Ret (err, iface, w)) else Some (Ret (EFI_SUCCESS, iface, w))))"

section \<open>Firmware variables\<close>

definition EFI_VARIABLE_NON_VOLATILE :: u32 where "EFI_VARIABLE_NON_VOLATILE = 1"
definition EFI_VARIABLE_BOOTSERVICE_ACCESS :: u32 where "EFI_VARIABLE_BOOTSERVICE_ACCESS = 2"
definition EFI_VARIABLE_RUNTIME_ACCESS :: u32 where "EFI_VARIABLE_RUNTIME_ACCESS = 4"
definition EFI_VARIABLE_TIME_BASED_AUTHENTICATED_WRITE_ACCESS :: u32 where
  "EFI_VARIABLE_TIME_BASED_AUTHENTICATED_WRITE_ACCESS = 0x20"

text \<open>The result holds \<open>*size\<close>; the attributes are dropped, as by a null pointer.\<close>

definition efi_var_get ::
    "'w runtime_services \<Rightarrow> efi_guid \<Rightarrow> u16 list \<Rightarrow> size_t \<Rightarrow> addr \<Rightarrow> 'w world
     \<Rightarrow> efi_status \<times> size_t \<times> 'w world" where
  "efi_var_get RT guid name sz data w =
     (let (err, _, sz, w) = get_variable RT name guid sz data w in (err, sz, w))"

definition efi_var_set ::
    "'w runtime_services \<Rightarrow> efi_guid \<Rightarrow> u16 list \<Rightarrow> u32 \<Rightarrow> size_t \<Rightarrow> addr \<Rightarrow> 'w world
     \<Rightarrow> efi_status \<times> 'w world" where
  "efi_var_set RT guid name attributes sz data w = set_variable RT name guid attributes sz data w"

definition efi_var_attributes ::
    "'w runtime_services \<Rightarrow> efi_guid \<Rightarrow> u16 list \<Rightarrow> 'w world \<Rightarrow> u32 \<times> 'w world" where
  "efi_var_attributes RT guid name w =
     (let (err, attributes, _, w) = get_variable RT name guid 0 0 w
      in if err = EFI_BUFFER_TOO_SMALL then (attributes, w) else (0, w))"

text \<open>\<open>old\<close> is the value of \<open>*buffer_size\<close>, which is only written on success.\<close>

definition efi_var_get_pool ::
    "'w boot_services \<Rightarrow> 'w runtime_services \<Rightarrow> u32 \<Rightarrow> efi_guid \<Rightarrow> u16 list \<Rightarrow> size_t \<Rightarrow> 'w world
     \<Rightarrow> addr \<times> size_t \<times> 'w world" where
  "efi_var_get_pool BS RT pool guid name old w =
     (let (err, _, sz, w) = get_variable RT name guid 0 0 w
      in if err \<noteq> EFI_BUFFER_TOO_SMALL then (0, old, w)
         else
         let (buf, w) = malloc BS pool sz w
         in if buf = 0 then (0, old, w)
            else
            let (err, _, sz, w) = get_variable RT name guid sz buf w
            in if EFI_ERROR err then (0, old, c_free BS buf w)
               else (buf, sz, w))"

definition PRINTF_MAXLEN :: nat where "PRINTF_MAXLEN = 100"

definition utf16_bytes :: "u16 list \<Rightarrow> u8 list" where "utf16_bytes s = concat (map put_le s)"

lemma length_utf16_bytes: "length (utf16_bytes s) = 2 * length s"
  by (induction s) (simp_all add: utf16_bytes_def)

text \<open>\<open>buff\<close> is the address of the automatic array; \<open>floats\<close> the text of a double.\<close>

definition efi_var_set_printf ::
    "'w runtime_services \<Rightarrow> (u64 \<Rightarrow> u16 list outcome) \<Rightarrow> addr \<Rightarrow> efi_guid \<Rightarrow> u16 list \<Rightarrow> u32 \<Rightarrow> string
     \<Rightarrow> print_arg list \<Rightarrow> 'w world \<Rightarrow> (efi_status \<times> 'w world) outcome option" where
  "efi_var_set_printf RT floats buff guid name attributes fmt as w =
     rbind (vswprintf (print_env_of (wmem w) floats) PRINTF_MAXLEN PRINTF_MAXLEN (ws fmt @ [0]) as)
       (\<lambda>(len, s).
        once (store_bytes (wmem w) buff (utf16_bytes (s @ [0]))) (\<lambda>m.
        Some (Ret (efi_var_set RT guid name attributes (2 * (len + 1)) buff (w\<lparr>wmem := m\<rparr>)))))"

end
