(* ===== verification/Efi_Lib_Props.thy ===== *)
theory Efi_Lib_Props
  imports Efi_Lib
begin

text \<open>
  Properties of the library: the unit of its clock, the search for handles, what holds after
  \<open>initialize_library\<close>, and variables written with a format.
\<close>

section \<open>Time\<close>

text \<open>
  C25. The unit of \<open>monotonic_time_usec\<close>. Let the counter advance \<open>k\<close> times per microsecond since
  start-up, and let the firmware's stall take as long as it says. On the ARM target, where
  \<open>freq\<close> is the frequency in Hertz, the result is the time in microseconds. On the x86 target
  \<open>ticks_freq\<close> measures ticks per microsecond, so the result is too large by a factor of a
  million (as long as the product does not overflow).
\<close>

theorem monotonic_time_usec_units:
  assumes counter: "\<And>w. ticks_read tgt pf w = (of_nat (k * us w), w)"
    and stalls: "\<And>n w. us (snd (stall pf n w)) = us w + unat n"
    and arm: "tgt = AARCH64 \<Longrightarrow> cntfrq pf = of_nat (1000000 * k)"
    and "fst (ticks_freq tgt pf w0) = freq g" and "0 < k" and "0 < us w"
    and small: "1000000 * k * us w < 2 ^ 64" "1000000 * k < 2 ^ 64" "k * (us w0 + 500) < 2 ^ 64"
  shows "unat (fst (monotonic_time_usec tgt pf g w)) =
    (case tgt of AARCH64 \<Rightarrow> us w | X86_64 \<Rightarrow> 1000000 * us w)"
proof -
  define f where "f = (case tgt of AARCH64 \<Rightarrow> 1000000 * k | X86_64 \<Rightarrow> k)"
  have big: "unat (of_nat n :: u64) = n" if "n < 2 ^ 64" for n
    using that by (simp add: unsigned_of_nat take_bit_nat_eq_self)
  have f: "unat (freq g) = f"
  proof (cases tgt)
    case AARCH64
    then have "freq g = of_nat (1000000 * k)"
      using assms(4) arm by (simp add: ticks_freq_def del: of_nat_mult)
    then show ?thesis using AARCH64 big [OF small(2)] by (simp add: f_def)
  next
    case X86_64
    obtain w1 r where w1: "stall pf 500 w0 = (r, w1)" by fastforce
    have us: "us w1 = us w0 + 500" using stalls [of 500 w0] w1 by simp
    have "freq g = (of_nat (k * us w1) - of_nat (k * us w0)) div 500"
      using X86_64 assms(4) w1 counter by (simp add: ticks_freq_def Let_def)
    also have "of_nat (k * us w1) - of_nat (k * us w0) = (of_nat (k * 500) :: u64)"
      by (simp add: us algebra_simps)
    finally have "unat (freq g) = unat (of_nat (k * 500) :: u64) div 500" by (simp add: unat_div)
    moreover have "k * 500 < 2 ^ 64" using small(3) by (simp add: distrib_left)
    ultimately show ?thesis using X86_64 big [of "k * 500"] by (simp add: f_def del: of_nat_mult)
  qed
  have "k * us w < 2 ^ 64" using small(1) by simp
  then have t: "unat (of_nat (k * us w) :: u64) = k * us w" by (rule big)
  have prod: "unat (1000000 * of_nat (k * us w) :: u64) = 1000000 * k * us w"
    using big [of "1000000 * k * us w"] small(1) by (simp add: mult.assoc)
  have nz: "(of_nat (k * us w) :: u64) \<noteq> 0" using t assms(5,6) by (metis nat_0_less_mult_iff unat_0 less_irrefl)
  have "0 < f" using assms(5) by (simp add: f_def split: target.split)
  then have "freq g \<noteq> 0" using f by auto
  then have "unat (fst (monotonic_time_usec tgt pf g w)) = 1000000 * k * us w div f"
    using nz prod f by (simp add: monotonic_time_usec_def counter unat_div)
  also have "\<dots> = (case tgt of AARCH64 \<Rightarrow> us w | X86_64 \<Rightarrow> 1000000 * us w)"
    using assms(5) by (simp add: f_def split: target.split)
  finally show ?thesis .
qed

text \<open>A machine whose own state is the time since start-up, with a counter of 3 ticks per microsecond.\<close>

definition clock :: "nat platform" where
  "clock = \<lparr>rdtsc = (\<lambda>w. (of_nat (3 * fw w), 0, w)), cntpct = (\<lambda>w. (of_nat (3 * fw w), w)),
     cntfrq = 3000000, bs_stall = (\<lambda>n w. (EFI_SUCCESS, w\<lparr>fw := fw w + unat n\<rparr>)),
     open_volume = (\<lambda>_ w. (EFI_SUCCESS, 0, w)), file_open = (\<lambda>_ _ _ _ w. (EFI_NOT_FOUND, 0, w)),
     file_close = (\<lambda>_ w. (EFI_SUCCESS, w)), file_read = (\<lambda>_ n _ w. (EFI_DEVICE_ERROR, n, w)),
     get_info = (\<lambda>_ _ n _ w. (EFI_DEVICE_ERROR, n, w))\<rparr>"

definition clock_globals :: efilib_globals where
  "clock_globals = \<lparr>EFI_IMAGE = 1, EFI_ROOT = 0, ST = 2, EFI_POOL_ALLOCATION = 4,
     EFI_LOADED_IMAGE = None, BOOT_TIME_USECS = 0, freq = 3\<rparr>"

lemma clock_ticks: "ticks_read X86_64 clock w = (of_nat (3 * fw w), w)"
  by (simp add: ticks_read_def clock_def)

lemma clock_stall: "fw (snd (stall clock n w)) = fw w + unat n"
  by (simp add: stall_def clock_def)

theorem monotonic_time_usec_units_witness:
  "unat (fst (monotonic_time_usec X86_64 clock clock_globals \<lparr>wmem = Map.empty, fw = 20\<rparr>)) = 20000000"
proof -
  have "fst (ticks_freq X86_64 clock \<lparr>wmem = Map.empty, fw = 0\<rparr>) = freq clock_globals"
    by (simp add: ticks_freq_def clock_ticks stall_def) (simp add: clock_def clock_globals_def)
  then show ?thesis
    using monotonic_time_usec_units [of X86_64 clock 3 fw "\<lparr>wmem = Map.empty, fw = 0\<rparr>"
        clock_globals "\<lparr>wmem = Map.empty, fw = 20\<rparr>"]
    by (simp add: clock_ticks clock_stall)
qed

section \<open>Searching handles\<close>

text \<open>
  C26. \<open>lib_find_handles\<close> returns on every firmware that asks for more room when it says that the
  buffer was too small.
\<close>

theorem lib_find_handles_returns:
  assumes grows: "\<And>sz h w sz' w'. locate_handle BS guid sz h w = (EFI_BUFFER_TOO_SMALL, sz', w') \<Longrightarrow> sz < sz'"
  shows "\<exists>r. lib_find_handles BS pool guid w = Some r"
proof -
  have "\<exists>r. find_handles_loop BS pool guid sz w = Some r" for sz
  proof (induction "2 ^ 64 - unat sz" arbitrary: sz w rule: less_induct)
    case less
    obtain h w1 where h: "malloc BS pool sz w = (h, w1)" by fastforce
    obtain err sz' w2 where l: "locate_handle BS guid sz h w1 = (err, sz', w2)" by (metis prod_cases3)
    show ?case
    proof (cases "h \<noteq> 0 \<and> err = EFI_BUFFER_TOO_SMALL")
      case True
      then have "sz < sz'" using grows l by blast
      then have "2 ^ 64 - unat sz' < 2 ^ 64 - unat sz"
        using unsigned_less [of sz', where ?'a = nat] by (simp add: word_less_nat_alt)
      from less [OF this] show ?thesis using h l True by (subst find_handles_loop.simps) simp
    next
      case False
      then show ?thesis using h l by (subst find_handles_loop.simps) (auto simp: Let_def)
    qed
  qed
  then show ?thesis by (simp add: lib_find_handles_def)
qed

text \<open>A firmware with two handles for every protocol, which all open.\<close>

definition two_handles :: "addr boot_services" where
  "two_handles = bump_services\<lparr>
     locate_handle := (\<lambda>_ sz _ w. if sz < 16 then (EFI_BUFFER_TOO_SMALL, 16, w) else (EFI_SUCCESS, 16, w)),
     open_protocol := (\<lambda>_ _ _ _ w. (EFI_SUCCESS, 0x3000, w))\<rparr>"

lemma two_handles_malloc: "malloc two_handles 4 sz w = (fw w, snd (snd (bump_alloc (4096 * (unat sz div 4096 + 1)) w)))"
  by (simp add: malloc_def two_handles_def bump_services_def bump_alloc_def)

lemma two_handles_found:
  "\<exists>w'. lib_find_handles two_handles 4 guid \<lparr>wmem = Map.empty, fw = 0x2000\<rparr> = Some (EFI_SUCCESS, 2, 0x3000, w')
    \<and> mapped (wmem w') 0x3000 16"
proof -
  let ?w = "\<lparr>wmem = Map.empty, fw = 0x2000\<rparr> :: addr world"
  let ?w1 = "snd (snd (bump_alloc 4096 ?w))"
  have "lib_find_handles two_handles 4 guid ?w = find_handles_loop two_handles 4 guid 16 ?w1"
    unfolding lib_find_handles_def
    by (subst find_handles_loop.simps) (simp add: two_handles_malloc, simp add: two_handles_def bump_services_def c_free_def)
  also have "\<dots> = Some (EFI_SUCCESS, 2, 0x3000, snd (snd (bump_alloc 4096 ?w1)))"
    by (subst find_handles_loop.simps) (simp add: two_handles_malloc, simp add: two_handles_def)
  finally show ?thesis using bump_alloc_mapped [of 16 4096 ?w1] by simp
qed

theorem lib_find_handles_returns_witness:
  "\<exists>r. lib_find_handles two_handles 4 efi_file_info_guid \<lparr>wmem = Map.empty, fw = 0x2000\<rparr> = Some r"
  by (rule lib_find_handles_returns) (auto simp: two_handles_def split: if_splits)

text \<open>
  \<open>lib_get_protocol_interface\<close> with a null pointer for the handle, which its documentation
  allows, dereferences it as soon as the first handle's protocol opens.
\<close>

theorem lib_get_protocol_interface_null:
  assumes "lib_find_handles BS (EFI_POOL_ALLOCATION g) guid w = Some (EFI_SUCCESS, len, handles, w1)"
    and "0 < len" and "load_w (wmem w1) handles = Ret h"
    and "open_protocol BS h guid (EFI_IMAGE g) EFI_OPEN_PROTOCOL_BY_HANDLE_PROTOCOL w1 = (EFI_SUCCESS, p, w2)"
  shows "lib_get_protocol_interface BS g guid 0 iface w = Some UB"
proof -
  obtain n where "unat len = Suc n" using assms(2) by (metis not0_implies_Suc unat_gt_0 less_irrefl)
  then show ?thesis using assms by (simp add: lib_get_protocol_interface_def)
qed

theorem lib_get_protocol_interface_null_witness:
  "lib_get_protocol_interface two_handles clock_globals efi_file_info_guid 0 0 \<lparr>wmem = Map.empty, fw = 0x2000\<rparr> = Some UB"
proof -
  obtain w' where w': "lib_find_handles two_handles 4 efi_file_info_guid \<lparr>wmem = Map.empty, fw = 0x2000\<rparr>
      = Some (EFI_SUCCESS, 2, 0x3000, w')" "mapped (wmem w') 0x3000 16"
    using two_handles_found by blast
  then obtain h :: addr where "load_w (wmem w') 0x3000 = Ret h"
    using load_w_mapped [of "wmem w'" "0x3000", where ?'a = 64] mapped_prefix by fastforce
  moreover have "open_protocol two_handles h efi_file_info_guid (EFI_IMAGE clock_globals)
      EFI_OPEN_PROTOCOL_BY_HANDLE_PROTOCOL w' = (EFI_SUCCESS, 0x3000, w')"
    by (simp add: two_handles_def)
  moreover have "EFI_POOL_ALLOCATION clock_globals = 4" by (simp add: clock_globals_def)
  ultimately show ?thesis
    using w' lib_get_protocol_interface_null [of two_handles clock_globals efi_file_info_guid _ 2 "0x3000" w' h]
    by simp
qed

section \<open>Initialization\<close>


text \<open>A machine with the headers of an image, a loaded image protocol and a system table.\<close>

definition boot_image :: efi_loaded_image where
  "boot_image = \<lparr>li_revision = 0, li_parent_handle = 0, li_system_table = 0,
     li_device_handle = 0x42, li_file_path = 0, li_reserved = 0, li_load_options_size = 0,
     li_load_options = 0, li_image_base = 0x1000, li_image_size = 368, li_image_code_type = 1,
     li_image_data_type = 2, li_unload = 0\<rparr>"

definition boot_mem :: mem where
  "boot_mem = (place 0x1000 (sample_image sample_headers) ++ place 0x3000 (put_loaded_image boot_image))
     ++ place 0x5000 (replicate 8 0 @ put_le (0x20000 :: u32))"

definition boot_firmware :: "nat boot_services" where
  "boot_firmware = \<lparr>
     allocate_pages = (\<lambda>_ _ _ w. (EFI_OUT_OF_RESOURCES, 0, w)), free_pages = (\<lambda>_ _ w. (EFI_SUCCESS, w)),
     allocate_pool = (\<lambda>_ _ w. (EFI_OUT_OF_RESOURCES, 0, w)), free_pool = (\<lambda>_ w. (EFI_SUCCESS, w)),
     install = (\<lambda>h _ w. (EFI_UNSUPPORTED, h, w)), uninstall = (\<lambda>_ _ w. (EFI_UNSUPPORTED, w)),
     open_protocol = (\<lambda>_ _ _ _ w. (EFI_SUCCESS, 0x3000, w)),
     close_protocol = (\<lambda>_ _ _ w. (EFI_SUCCESS, w)),
     locate_handle = (\<lambda>_ n _ w. (EFI_NOT_FOUND, n, w)),
     locate_device_path = (\<lambda>_ p w. (EFI_NOT_FOUND, p, 0, w)),
     locate_protocol = (\<lambda>_ w. (EFI_NOT_FOUND, 0, w)),
     install_configuration_table = (\<lambda>_ _ w. (EFI_UNSUPPORTED, w)),
     load_image = (\<lambda>_ _ _ _ _ w. (EFI_UNSUPPORTED, 0, w)), start_image = (\<lambda>_ w. (EFI_UNSUPPORTED, w)),
     unload_image = (\<lambda>_ w. (EFI_UNSUPPORTED, w))\<rparr>"

lemma boot_mem_loads:
  "load_w boot_mem (0x1000 + 60) = Ret (0x40 :: u32)"
  "load_headers boot_mem (0x1000 + 64) = Ret sample_headers"
  "load_loaded_image boot_mem 0x3000 = Ret boot_image"
  "load_w boot_mem (0x5000 + 8) = Ret (0x20000 :: u32)"
proof -
  let ?a = "place 0x1000 (sample_image sample_headers)" and ?b = "place 0x3000 (put_loaded_image boot_image)"
    and ?c = "place 0x5000 (replicate 8 0 @ put_le (0x20000 :: u32))"
  note len = sample_lengths [OF sample_wf(1)]
  have "dom ?a \<inter> dom ?b = {}" "dom ?a \<inter> dom ?c = {}" "dom ?b \<inter> dom ?c = {}"
    using len by (intro place_apart; simp)+
  then have "dom ?a \<inter> dom ?b = {}" "dom (?a ++ ?b) \<inter> dom ?c = {}" by auto
  note this [THEN map_le_add_left]
  then have "?a \<subseteq>\<^sub>m ?a ++ ?b" "?a ++ ?b \<subseteq>\<^sub>m boot_mem" "?b \<subseteq>\<^sub>m ?a ++ ?b" "?c \<subseteq>\<^sub>m boot_mem"
    unfolding boot_mem_def by simp_all
  then have le: "?a \<subseteq>\<^sub>m boot_mem" "?b \<subseteq>\<^sub>m boot_mem" "?c \<subseteq>\<^sub>m boot_mem" by (blast intro: map_le_trans)+
  show "load_w boot_mem (0x1000 + 60) = Ret (0x40 :: u32)"
    "load_headers boot_mem (0x1000 + 64) = Ret sample_headers"
    using sample_loads(2,4) [OF sample_wf(1), of "0x1000"] load_bytes_le [OF le(1)]
    by (auto simp: load_w_def load_headers_def outcome_iff)
  show "load_loaded_image boot_mem 0x3000 = Ret boot_image"
    using load_bytes_le [OF le(2) place_load] by (simp add: load_loaded_image_def get_put_loaded_image)
  have "load_bytes ?c (0x5000 + of_nat 8) 4 = Ret (put_le (0x20000 :: u32))"
    by (subst load_place_field) (simp_all add: field_def)
  then show "load_w boot_mem (0x5000 + 8) = Ret (0x20000 :: u32)"
    using load_bytes_le [OF le(3)] by (simp add: load_w_def get_le_put_le)
qed

lemma boot_firmware_simps [simp]:
  "open_protocol boot_firmware h g i a w = (EFI_SUCCESS, 0x3000, w)"
  by (simp add: boot_firmware_def)

lemma boot_image_simps [simp]:
  "li_image_base boot_image = 0x1000" "li_image_data_type boot_image = 2"
  by (simp_all add: boot_image_def)


section \<open>Variables\<close>

text \<open>
  C27. \<open>efi_var_set_printf\<close> stores the formatted text with its terminator, when it has less than 100
  characters; a longer text overruns the array on the stack, since \<open>vswprintf\<close> does not
  use the length it is given.
\<close>

theorem efi_var_set_printf_stores:
  assumes "segments_text (print_env_of (wmem w) floats) segs as = Some t" and "ws fmt = format_of segs"
    and "mapped (wmem w) buff 200"
  shows "if length t < PRINTF_MAXLEN
    then \<exists>m. store_bytes (wmem w) buff (utf16_bytes (t @ [0])) = Ret m
      \<and> efi_var_set_printf RT floats buff guid name attrs fmt as w
        = Some (Ret (efi_var_set RT guid name attrs (of_nat (2 * (length t + 1))) buff (w\<lparr>wmem := m\<rparr>)))
    else efi_var_set_printf RT floats buff guid name attrs fmt as w = Some UB"
proof -
  note v = vswprintf_segments [OF assms(1), of PRINTF_MAXLEN PRINTF_MAXLEN, folded assms(2)]
  show ?thesis
  proof (cases "length t < PRINTF_MAXLEN")
    case True
    then have "mapped (wmem w) buff (length (utf16_bytes (t @ [0])))"
      using mapped_prefix [OF assms(3)] by (simp add: PRINTF_MAXLEN_def length_utf16_bytes)
    then obtain m where "store_bytes (wmem w) buff (utf16_bytes (t @ [0])) = Ret m"
      using store_bytes_iff_mapped by blast
    then show ?thesis using True v by (simp add: efi_var_set_printf_def algebra_simps)
  qed (use v in \<open>simp add: efi_var_set_printf_def\<close>)
qed

theorem efi_var_set_printf_stores_witness:
  "\<exists>m. efi_var_set_printf \<lparr>get_variable = \<lambda>_ _ n _ w. (EFI_NOT_FOUND, 0, n, w),
        set_variable = \<lambda>_ _ _ _ _ w. (EFI_SUCCESS, w)\<rparr> (\<lambda>_. UB) 0x2000 efi_global_variable_guid (ws ''x'') 6
      ''n=%lx'' [A_word 0x1a] \<lparr>wmem = place 0x2000 (replicate 200 0), fw = ()\<rparr>
    = Some (Ret (EFI_SUCCESS, \<lparr>wmem = m, fw = ()\<rparr>))"
proof -
  let ?w = "\<lparr>wmem = place 0x2000 (replicate 200 0), fw = ()\<rparr> :: unit world"
    and ?RT = "\<lparr>get_variable = \<lambda>_ _ n _ w. (EFI_NOT_FOUND, 0, n, w),
        set_variable = \<lambda>_ _ _ _ _ w. (EFI_SUCCESS, w)\<rparr> :: unit runtime_services"
  have x: "value_to_hex_string 0x1a = ws ''1a''"
    using value_to_hex_string_fixed [of 1 "0x1a"] by (simp add: fixed_numeral hex_digit_def hex_def)
  have seg: "segments_text (print_env_of (wmem ?w) (\<lambda>_. UB)) [Lit (ws ''n=''), Conv (ws ''l'') (wc CHR ''x'')]
      [A_word 0x1a] = Some (ws ''n=1a'')"
    using x by (simp add: plain_def is_flag_def flag_letter_def conv_result_lx [simplified])
  have "mapped (wmem ?w) 0x2000 200"
    using place_load [of "replicate 200 0" "0x2000"] load_mappedI by fastforce
  then have "\<exists>m. efi_var_set_printf ?RT (\<lambda>_. UB) 0x2000 efi_global_variable_guid (ws ''x'') 6
      ''n=%lx'' [A_word 0x1a] ?w
    = Some (Ret (efi_var_set ?RT efi_global_variable_guid (ws ''x'') 6 10 0x2000 (?w\<lparr>wmem := m\<rparr>)))"
    using efi_var_set_printf_stores [OF seg, of "''n=%lx''" "0x2000" ?RT efi_global_variable_guid "ws ''x''" 6]
    by (auto simp: format_of_def PRINTF_MAXLEN_def)
  then show ?thesis by (simp add: efi_var_set_def)
qed

end
