(* ===== verification/Initrd.thy ===== *)
theory Initrd
  imports Efi_Lib
begin

text \<open>
  \<^verbatim>\<open>src/initrd.c\<close>: the initial ram disk offered to the kernel by a LoadFile2 protocol on a vendor
  device path. The two static variables are the record \<open>initrd_state\<close>; the addresses of the
  static objects that are passed to the firmware are the parameter \<open>initrd_statics\<close>.
\<close>

unbundle bit_operations_syntax

record initrd_statics =
  at_load_file2 :: addr
  at_initrd_dp :: addr
  at_initrd_handle :: addr

record initrd_state =
  initrd_buffer :: simple_buffer
  initrd_handle :: handle

definition initrd_zero :: initrd_state where
  "initrd_zero = \<lparr>initrd_buffer = zero_buffer, initrd_handle = 0\<rparr>"

definition LINUX_INITRD_MEDIA_GUID :: efi_guid where
  "LINUX_INITRD_MEDIA_GUID = \<lparr>ms1 = 0x5568e427, ms2 = 0x68fc, ms3 = 0x4f3d,
     ms4 = [0xac, 0x74, 0xca, 0x55, 0x52, 0x31, 0xcc, 0x68]\<rparr>"

text \<open>The bytes of the static device path: a vendor node and the end node.\<close>

definition efi_initrd_device_path :: "u8 list" where
  "efi_initrd_device_path =
     put_dp \<lparr>dp_type = MEDIA_DEVICE_PATH, dp_subtype = MEDIA_VENDOR_DP, dp_length = 20\<rparr>
     @ put_efi_guid LINUX_INITRD_MEDIA_GUID
     @ put_dp \<lparr>dp_type = END_DEVICE_PATH_TYPE, dp_subtype = END_ENTIRE_DEVICE_PATH_SUBTYPE, dp_length = 4\<rparr>"

text \<open>
  The callback: \<open>bsize\<close> is the address of \<open>*buffer_size\<close>, \<open>buf\<close> the caller's buffer, \<open>b\<close> the static
  \<open>initrd\<close>.
\<close>

definition fl2_load_file ::
    "initrd_statics \<Rightarrow> simple_buffer \<Rightarrow> addr \<Rightarrow> addr \<Rightarrow> bool \<Rightarrow> addr \<Rightarrow> addr \<Rightarrow> mem
     \<Rightarrow> (efi_status \<times> mem) outcome" where
  "fl2_load_file st b this file_path boot_policy bsize buf m =
     (if this = 0 \<or> this \<noteq> at_load_file2 st \<or> bsize = 0 \<or> file_path = 0
      then Ret (EFI_INVALID_PARAMETER, m)
      else if boot_policy then Ret (EFI_UNSUPPORTED, m)
      else obind (load_dp m file_path) (\<lambda>d.
      if \<not> (dp_type d = END_DEVICE_PATH_TYPE \<and> dp_subtype d = END_ENTIRE_DEVICE_PATH_SUBTYPE)
      then Ret (EFI_UNSUPPORTED, m)
      else if buffer b = 0 then Ret (EFI_NOT_FOUND, m)
      else obind (buffer_len b) (\<lambda>n.
      if n = 0 then Ret (EFI_NOT_FOUND, m)
      else obind (if buf = 0 then Ret True else obind (load_w m bsize) (\<lambda>room. Ret (room < n))) (\<lambda>small.
      if small then obind (store_w m bsize n) (\<lambda>m. Ret (EFI_BUFFER_TOO_SMALL, m))
      else
      obind (buffer_pos b) (\<lambda>p.
      obind (memcpy m buf p n) (\<lambda>m.
      obind (store_w m bsize n) (\<lambda>m. Ret (EFI_SUCCESS, m))))))))"

definition initrd_protocols :: "initrd_statics \<Rightarrow> (efi_guid \<times> addr) list" where
  "initrd_protocols st =
     [(efi_device_path_protocol_guid, at_initrd_dp st), (efi_load_file2_protocol_guid, at_load_file2 st)]"

text \<open>A device path that is already registered gets a message, and the code goes on.\<close>

definition initrd_register ::
    "'w boot_services \<Rightarrow> initrd_statics \<Rightarrow> simple_buffer option \<Rightarrow> initrd_state \<Rightarrow> 'w world
     \<Rightarrow> (efi_status \<times> initrd_state \<times> 'w world) outcome" where
  "initrd_register BS st arg s w =
     (case arg of None \<Rightarrow> Exit EFI_UNSUPPORTED
      | Some b \<Rightarrow>
        if buffer b = 0 \<or> blength b = 0 then Ret (EFI_SUCCESS, s, w)
        else
        let (_, _, _, w) = locate_device_path BS efi_load_file2_protocol_guid (at_initrd_dp st) w;
            s = s\<lparr>initrd_buffer := b\<rparr>;
            (err, h, w) = install BS (initrd_handle s) (initrd_protocols st) w
        in Ret (err, s\<lparr>initrd_handle := h\<rparr>, w))"

text \<open>The handle argument is the address of the variable, not its value.\<close>

definition initrd_deregister ::
    "'w boot_services \<Rightarrow> initrd_statics \<Rightarrow> initrd_state \<Rightarrow> 'w world
     \<Rightarrow> efi_status \<times> initrd_state \<times> 'w world" where
  "initrd_deregister BS st s w =
     (if initrd_handle s \<noteq> 0
      then let (err, w) = uninstall BS (at_initrd_handle st) (initrd_protocols st) w;
               s = (if err = EFI_SUCCESS then s\<lparr>initrd_handle := 0\<rparr> else s)
           in (err, s, w)
      else (EFI_SUCCESS, s, w))"

end
