(* ===== verification/Initrd_Props.thy ===== *)
theory Initrd_Props
  imports Initrd Efi_Lib_Props
begin

text \<open>
  Properties of the initial ram disk: what a client of the LoadFile2 protocol gets, and the state of
  the two static variables over every sequence of registrations and deregistrations.
\<close>

section \<open>The LoadFile2 protocol\<close>

lemma store_w64:
  fixes v :: u64
  assumes "mapped m a 8"
  shows "\<exists>m'. store_w m a v = Ret m' \<and> load_w m' a = Ret v \<and> dom m' = dom m
    \<and> (\<forall>x. \<not> in_range a 8 x \<longrightarrow> m' x = m x)"
proof -
  obtain m' where m': "store_w m a v = Ret m'"
    using assms store_bytes_iff_mapped [of m a "put_le v"] by (auto simp: store_w_def)
  moreover have "load_w m' a = Ret v"
    using load_store_same [of m a "put_le v" m'] m' by (simp add: store_w_def load_w_def get_le_put_le)
  ultimately show ?thesis using store_w_frame [OF m'] store_bytes_dom
    by (auto simp: store_w_def)
qed

text \<open>Where the client's objects are: its size variable, its path and its buffer.\<close>

definition client_at :: "mem \<Rightarrow> addr \<Rightarrow> addr \<Rightarrow> addr \<Rightarrow> addr \<Rightarrow> nat \<Rightarrow> bool" where
  "client_at m file_path bsize buf src n \<longleftrightarrow>
     bsize \<noteq> 0 \<and> buf \<noteq> 0 \<and> file_path \<noteq> 0 \<and> mapped m bsize 8 \<and> mapped m buf n
     \<and> load_dp m file_path = Ret end_device_path
     \<and> (\<forall>x. in_range bsize 8 x \<longrightarrow> \<not> in_range buf n x \<and> \<not> in_range src n x \<and> \<not> in_range file_path 4 x)
     \<and> (\<forall>x. in_range src n x \<longrightarrow> \<not> in_range buf n x)"

text \<open>
  C19. The two calls a kernel makes: with no buffer it learns the size, and with a buffer of that
  size it gets exactly the bytes that were registered; nothing but its buffer and
  its size variable changes.
\<close>

theorem fl2_load_file_two_calls:
  assumes b: "buffer b \<noteq> 0" "bpos b < blength b" "bpos b < allocated b"
    and self: "this \<noteq> 0" "this = at_load_file2 st"
    and n: "n = blength b - bpos b" and src: "load_bytes m (buffer b + bpos b) (unat n) = Ret bs"
    and client: "client_at m file_path bsize buf (buffer b + bpos b) (unat n)"
  shows "\<exists>m1 m2. fl2_load_file st b this file_path False bsize 0 m = Ret (EFI_BUFFER_TOO_SMALL, m1)
    \<and> load_w m1 bsize = Ret n
    \<and> fl2_load_file st b this file_path False bsize buf m1 = Ret (EFI_SUCCESS, m2)
    \<and> load_bytes m2 buf (unat n) = Ret bs \<and> load_w m2 bsize = Ret n
    \<and> (\<forall>x. \<not> in_range bsize 8 x \<and> \<not> in_range buf (unat n) x \<longrightarrow> m2 x = m x)"
proof -
  note c = client [unfolded client_at_def]
  have ok: "buffer_len b = Ret n" "n \<noteq> 0" "buffer_pos b = Ret (buffer b + bpos b)"
    using b n by (auto simp: buffer_len_def buffer_pos_def)
  obtain m1 where m1: "store_w m bsize n = Ret m1" "load_w m1 bsize = Ret n" "dom m1 = dom m"
      "\<And>x. \<not> in_range bsize 8 x \<Longrightarrow> m1 x = m x"
    using store_w64 c by metis
  have first: "fl2_load_file st b this file_path False bsize 0 m = Ret (EFI_BUFFER_TOO_SMALL, m1)"
    using self c b ok m1(1) by (simp add: fl2_load_file_def end_device_path_def)
  have "load_bytes m1 file_path 4 = load_bytes m file_path 4"
    by (rule load_bytes_cong) (use c m1(4) in blast)
  then have dp1: "load_dp m1 file_path = Ret end_device_path" using c by (simp add: load_dp_def)
  have "load_bytes m1 (buffer b + bpos b) (unat n) = load_bytes m (buffer b + bpos b) (unat n)"
    by (rule load_bytes_cong) (use c m1(4) in blast)
  then have src1: "load_bytes m1 (buffer b + bpos b) (unat n) = Ret bs" using src by simp
  have "mapped m1 buf (unat n)" using c mapped_dom_cong [OF m1(3)] by blast
  then obtain m2 where m2: "memcpy m1 buf (buffer b + bpos b) n = Ret m2" "load_bytes m2 buf (unat n) = Ret bs"
      "\<And>x. \<not> in_range buf (unat n) x \<Longrightarrow> m2 x = m1 x"
    using memcpy_copies [OF _ src1] c by metis
  have "mapped m2 bsize 8"
    using c mapped_dom_cong [OF memcpy_dom [OF m2(1)]] mapped_dom_cong [OF m1(3)] by blast
  then obtain m3 where m3: "store_w m2 bsize n = Ret m3" "load_w m3 bsize = Ret n"
      "\<And>x. \<not> in_range bsize 8 x \<Longrightarrow> m3 x = m2 x"
    using store_w64 by metis
  have "load_bytes m3 buf (unat n) = load_bytes m2 buf (unat n)"
    by (rule load_bytes_cong) (use c m3(3) in blast)
  then have "load_bytes m3 buf (unat n) = Ret bs" using m2(2) by simp
  moreover have "fl2_load_file st b this file_path False bsize buf m1 = Ret (EFI_SUCCESS, m3)"
    using self c b ok m1(2) dp1 m2(1) m3(1) by (simp add: fl2_load_file_def end_device_path_def)
  ultimately show ?thesis using first m1(2,4) m2(3) m3(2,3) by metis
qed

definition client_mem :: mem where
  "client_mem = place 0x1000 ([1, 2, 3] @ replicate 13 0 @ put_dp end_device_path @ [0, 0, 0])"

theorem fl2_load_file_two_calls_witness:
  "\<exists>m1 m2. fl2_load_file \<lparr>at_load_file2 = 8, at_initrd_dp = 16, at_initrd_handle = 24\<rparr>
      \<lparr>buffer = 0x1000, blength = 3, bpos = 1, allocated = 3, bfree = Free_None\<rparr>
      8 0x1010 False 0x1008 0 client_mem = Ret (EFI_BUFFER_TOO_SMALL, m1)
    \<and> fl2_load_file \<lparr>at_load_file2 = 8, at_initrd_dp = 16, at_initrd_handle = 24\<rparr>
      \<lparr>buffer = 0x1000, blength = 3, bpos = 1, allocated = 3, bfree = Free_None\<rparr>
      8 0x1010 False 0x1008 0x1014 m1 = Ret (EFI_SUCCESS, m2)
    \<and> load_bytes m2 0x1014 2 = Ret [2, 3]"
proof -
  let ?bs = "[1, 2, 3] @ replicate 13 0 @ put_dp end_device_path @ [0, 0, 0] :: u8 list"
  have len: "length ?bs = 23" by (simp add: dp_codec.length_enc)
  have f: "load_bytes client_mem (0x1000 + of_nat k) j = Ret (field k j ?bs)" if "k + j \<le> 23" for k j
    unfolding client_mem_def by (rule load_place_field) (use that len in simp_all)
  have ranges: "in_range a n x \<longleftrightarrow> unat a \<le> unat x \<and> unat x < unat a + n" if "unat a + n \<le> 0x2000" for a n x
    using that by (intro in_range_nowrap) simp
  let ?b = "\<lparr>buffer = 0x1000, blength = 3, bpos = 1, allocated = 3, bfree = Free_None\<rparr>"
    and ?st = "\<lparr>at_load_file2 = 8, at_initrd_dp = 16, at_initrd_handle = 24\<rparr>"
  have src: "load_bytes client_mem (buffer ?b + bpos ?b) (unat (2 :: u64)) = Ret [2, 3]"
    using f [of 1 2] by (simp add: field_def)
  have "load_dp client_mem 0x1010 = Ret end_device_path"
    using f [of 16 4] by (simp add: load_dp_def field_def dp_codec.length_enc dp_codec.dec_enc)
  moreover have "mapped client_mem 0x1008 8" "mapped client_mem 0x1014 2"
    using load_mappedI [OF f [of 8 8]] load_mappedI [OF f [of 20 2]] by simp_all
  ultimately have "client_at client_mem 0x1010 0x1008 0x1014 0x1001 2"
    by (auto simp: client_at_def ranges)
  then show ?thesis
    using fl2_load_file_two_calls [of ?b 8 ?st 2 client_mem "[2, 3]" "0x1010" "0x1008" "0x1014", OF _ _ _ _ _ _ src]
    by fastforce
qed

section \<open>Registration\<close>

text \<open>
  What can happen to the variables of \<^verbatim>\<open>initrd.c\<close>: the two functions of its interface, and anything
  else the machine does.
\<close>

datatype initrd_op = Register simple_buffer | Deregister efi_status | Machine

inductive initrd_run ::
    "'w boot_services \<Rightarrow> initrd_statics \<Rightarrow> initrd_op list \<Rightarrow> initrd_state \<Rightarrow> 'w world
     \<Rightarrow> initrd_state \<Rightarrow> 'w world \<Rightarrow> bool"
  for BS :: "'w boot_services" and st :: initrd_statics
where
  start: "initrd_run BS st [] s w s w"
| register: "initrd_run BS st ops s w s' w' \<Longrightarrow> initrd_register BS st (Some b) s' w' = Ret (err, s'', w'')
    \<Longrightarrow> initrd_run BS st (ops @ [Register b]) s w s'' w''"
| deregister: "initrd_run BS st ops s w s' w' \<Longrightarrow> initrd_deregister BS st s' w' = (err, s'', w'')
    \<Longrightarrow> initrd_run BS st (ops @ [Deregister err]) s w s'' w''"
| machine: "initrd_run BS st ops s w s' w' \<Longrightarrow> initrd_run BS st (ops @ [Machine]) s w s' w''"

text \<open>The last buffer with contents that was passed to \<open>initrd_register\<close>.\<close>

definition registered :: "simple_buffer \<Rightarrow> initrd_op list \<Rightarrow> simple_buffer" where
  "registered b0 ops = foldl (\<lambda>b op. case op of
      Register b' \<Rightarrow> if buffer b' = 0 \<or> blength b' = 0 then b else b' | _ \<Rightarrow> b) b0 ops"

text \<open>
  C20. In every run the buffer that LoadFile2 serves is the last one with contents that was passed to
  \<open>initrd_register\<close>: also when that registration failed, and also after \<open>initrd_deregister\<close>.
\<close>

theorem initrd_serves_last_registered:
  assumes "initrd_run BS st ops s w s' w'"
  shows "initrd_buffer s' = registered (initrd_buffer s) ops"
  using assms
proof (induction rule: initrd_run.induct)
  case (register ops s w s' w' b err s'' w'')
  then show ?case
    by (auto simp: initrd_register_def registered_def Let_def split: if_splits prod.splits)
next
  case (deregister ops s w s' w' err s'' w'')
  then show ?case
    by (auto simp: initrd_deregister_def registered_def Let_def split: if_splits prod.splits)
qed (simp_all add: registered_def)

definition a_ramdisk :: simple_buffer where
  "a_ramdisk = \<lparr>buffer = 0x1000, blength = 3, bpos = 0, allocated = 3, bfree = Free_None\<rparr>"

definition some_statics :: initrd_statics where
  "some_statics = \<lparr>at_load_file2 = 8, at_initrd_dp = 16, at_initrd_handle = 24\<rparr>"

text \<open>A firmware that installs every protocol on handle 7 and knows no other handle.\<close>

definition installing_firmware :: "nat boot_services" where
  "installing_firmware = boot_firmware\<lparr>
     install := (\<lambda>h _ w. (EFI_SUCCESS, if h = 0 then 7 else h, w)),
     uninstall := (\<lambda>h _ w. (if h = 7 then EFI_SUCCESS else EFI_INVALID_PARAMETER, w))\<rparr>"

lemma register_then_deregister:
  "initrd_run installing_firmware some_statics [Register a_ramdisk]
     initrd_zero w (initrd_zero\<lparr>initrd_buffer := a_ramdisk, initrd_handle := 7\<rparr>) w"
  "initrd_run installing_firmware some_statics [Deregister EFI_INVALID_PARAMETER]
     (initrd_zero\<lparr>initrd_buffer := a_ramdisk, initrd_handle := 7\<rparr>) w
     (initrd_zero\<lparr>initrd_buffer := a_ramdisk, initrd_handle := 7\<rparr>) w"
proof -
  have "initrd_register installing_firmware some_statics (Some a_ramdisk) initrd_zero w
      = Ret (EFI_SUCCESS, initrd_zero\<lparr>initrd_buffer := a_ramdisk, initrd_handle := 7\<rparr>, w)"
    by (simp add: initrd_register_def a_ramdisk_def initrd_zero_def)
      (simp add: installing_firmware_def boot_firmware_def)
  from initrd_run.register [OF initrd_run.start this]
  show "initrd_run installing_firmware some_statics [Register a_ramdisk]
     initrd_zero w (initrd_zero\<lparr>initrd_buffer := a_ramdisk, initrd_handle := 7\<rparr>) w" by simp
  have "initrd_deregister installing_firmware some_statics
      (initrd_zero\<lparr>initrd_buffer := a_ramdisk, initrd_handle := 7\<rparr>) w
      = (EFI_INVALID_PARAMETER, initrd_zero\<lparr>initrd_buffer := a_ramdisk, initrd_handle := 7\<rparr>, w)"
    by (simp add: initrd_deregister_def) (simp add: installing_firmware_def some_statics_def)
  from initrd_run.deregister [OF initrd_run.start this]
  show "initrd_run installing_firmware some_statics [Deregister EFI_INVALID_PARAMETER]
     (initrd_zero\<lparr>initrd_buffer := a_ramdisk, initrd_handle := 7\<rparr>) w
     (initrd_zero\<lparr>initrd_buffer := a_ramdisk, initrd_handle := 7\<rparr>) w" by simp
qed

theorem initrd_serves_last_registered_witness:
  "registered zero_buffer [Register a_ramdisk] = a_ramdisk
    \<and> initrd_buffer (initrd_zero\<lparr>initrd_buffer := a_ramdisk, initrd_handle := 7\<rparr>) = a_ramdisk"
  using initrd_serves_last_registered
      [OF register_then_deregister(1) [of "\<lparr>wmem = Map.empty, fw = 0\<rparr>"]]
  by (simp add: initrd_zero_def)

text \<open>
  C21. Once the protocols are installed they stay: \<open>initrd_deregister\<close> passes the address of the
  handle variable instead of the handle, so on a firmware that does not know that address as a
  handle (and keeps a handle it is given) every call fails and the handle is never cleared.
\<close>

theorem initrd_never_deregistered:
  assumes "initrd_run BS st ops s w s' w'" and "initrd_handle s \<noteq> 0"
    and keeps: "\<And>h ps w err h' w'. install BS h ps w = (err, h', w') \<Longrightarrow> h \<noteq> 0 \<Longrightarrow> h' = h"
    and unknown: "\<And>ps w. fst (uninstall BS (at_initrd_handle st) ps w) \<noteq> EFI_SUCCESS"
  shows "initrd_handle s' = initrd_handle s \<and> Deregister EFI_SUCCESS \<notin> set ops"
  using assms(1,2)
proof (induction rule: initrd_run.induct)
  case (register ops s w s' w' b err s'' w'')
  then show ?case using keeps
    by (auto simp: initrd_register_def Let_def split: if_splits prod.splits)
next
  case (deregister ops s w s' w' err s'' w'')
  then obtain e w1 where "uninstall BS (at_initrd_handle st) (initrd_protocols st) w' = (e, w1)" "e \<noteq> EFI_SUCCESS"
    using unknown by (metis prod.collapse fst_conv)
  with deregister show ?case by (auto simp: initrd_deregister_def Let_def)
qed simp_all

theorem initrd_never_deregistered_witness:
  "initrd_run installing_firmware some_statics [Deregister EFI_INVALID_PARAMETER]
     (initrd_zero\<lparr>initrd_buffer := a_ramdisk, initrd_handle := 7\<rparr>) \<lparr>wmem = Map.empty, fw = 0\<rparr>
     (initrd_zero\<lparr>initrd_buffer := a_ramdisk, initrd_handle := 7\<rparr>) \<lparr>wmem = Map.empty, fw = 0\<rparr>
   \<and> Deregister EFI_SUCCESS \<notin> set [Deregister EFI_INVALID_PARAMETER]"
  using initrd_never_deregistered
      [OF register_then_deregister(2) [of "\<lparr>wmem = Map.empty, fw = 0\<rparr>"]] register_then_deregister(2)
  by (simp add: installing_firmware_def some_statics_def)

end
