(* ===== verification/Lz4_Block.thy ===== *)
theory Lz4_Block
  imports RtLib
begin

text \<open>
  \<^verbatim>\<open>lib/lz4/lz4.c\<close>: decoding of LZ4 blocks. \<open>LZ4_decompress_generic\<close> copies in strides that may write
  behind the end of a copy ("wild copies"), handles overlapping matches by small tables, and has a
  fast loop for the part of the output that is far from its end and a safe loop for the rest.

  The two loops are the labels \<open>Fast_Loop\<close> and \<open>Safe_Loop\<close> of \<open>lz4_next\<close>; the other gotos only lead
  forward and are calls here (\<open>safe_literal_copy\<close>, \<open>copy_match\<close>, \<open>safe_match_copy\<close>). The
  directives of the C function are fields of \<open>lz4_call\<close>; \<open>fast_dec_loop\<close> is the build option
  \<open>LZ4_FAST_DEC_LOOP\<close>. The C variable \<open>match\<close> is always \<open>op - offset\<close>. Assertions are off in this
  file: it does not include \<^verbatim>\<open>assert.h\<close>.
\<close>

unbundle bit_operations_syntax

section \<open>Memory routines\<close>

text \<open>\<open>LZ4_memcpy\<close> is the builtin \<open>memcpy\<close>: copying a block onto one that overlaps it is undefined.\<close>

definition LZ4_memcpy :: "mem \<Rightarrow> addr \<Rightarrow> addr \<Rightarrow> size_t \<Rightarrow> mem outcome" where
  "LZ4_memcpy m d s n =
     (if n \<noteq> 0 \<and> (d - s < n \<or> s - d < n) then UB
      else obind (load_bytes m s (unat n)) (store_bytes m d))"

partial_function (option) LZ4_wildCopy8 :: "mem \<Rightarrow> addr \<Rightarrow> addr \<Rightarrow> addr \<Rightarrow> mem outcome option" where
  "LZ4_wildCopy8 m d s e =
     once (LZ4_memcpy m d s 8) (\<lambda>m.
       let d = d + 8; s = s + 8
       in if d < e then LZ4_wildCopy8 m d s e else Some (Ret m))"

partial_function (option) LZ4_wildCopy32 :: "mem \<Rightarrow> addr \<Rightarrow> addr \<Rightarrow> addr \<Rightarrow> mem outcome option" where
  "LZ4_wildCopy32 m d s e =
     once (obind (LZ4_memcpy m d s 16) (\<lambda>m. LZ4_memcpy m (d + 16) (s + 16) 16)) (\<lambda>m.
       let d = d + 32; s = s + 32
       in if d < e then LZ4_wildCopy32 m d s e else Some (Ret m))"

definition inc32table :: "addr list" where "inc32table = [0, 1, 2, 1, 0, 4, 4, 4]"
definition dec64table :: "addr list" where "dec64table = [0, 0, 0, -1, -4, 1, 2, 3]"

text \<open>
  The first eight bytes of a match: the result is the memory and the place to go on copying from,
  which is at least eight bytes behind. A match of offset 0 reads the zeros that are written first.
\<close>

definition copy_first8 :: "mem \<Rightarrow> addr \<Rightarrow> addr \<Rightarrow> size_t \<Rightarrow> (mem \<times> addr) outcome" where
  "copy_first8 m d s offset =
     (if offset < 8 then
        obind (store_w m d (0 :: u32)) (\<lambda>m.
        obind (load_w m s) (\<lambda>b. obind (store_w m d (b :: u8)) (\<lambda>m.
        obind (load_w m (s + 1)) (\<lambda>b. obind (store_w m (d + 1) (b :: u8)) (\<lambda>m.
        obind (load_w m (s + 2)) (\<lambda>b. obind (store_w m (d + 2) (b :: u8)) (\<lambda>m.
        obind (load_w m (s + 3)) (\<lambda>b. obind (store_w m (d + 3) (b :: u8)) (\<lambda>m.
        let s = s + inc32table ! unat offset in
        obind (LZ4_memcpy m (d + 4) s 4) (\<lambda>m.
        Ret (m, s - dec64table ! unat offset)))))))))))
      else obind (LZ4_memcpy m d s 8) (\<lambda>m. Ret (m, s + 8)))"

definition LZ4_memcpy_using_offset_base ::
    "mem \<Rightarrow> addr \<Rightarrow> addr \<Rightarrow> addr \<Rightarrow> size_t \<Rightarrow> mem outcome option" where
  "LZ4_memcpy_using_offset_base m d s e offset =
     once (copy_first8 m d s offset) (\<lambda>(m, s). LZ4_wildCopy8 m (d + 8) s e)"

partial_function (option) store_pattern :: "mem \<Rightarrow> addr \<Rightarrow> u8 list \<Rightarrow> addr \<Rightarrow> mem outcome option" where
  "store_pattern m d v e =
     (if d < e then once (store_bytes m d v) (\<lambda>m. store_pattern m (d + 8) v e) else Some (Ret m))"

definition LZ4_memcpy_using_offset ::
    "mem \<Rightarrow> addr \<Rightarrow> addr \<Rightarrow> addr \<Rightarrow> size_t \<Rightarrow> mem outcome option" where
  "LZ4_memcpy_using_offset m d s e offset =
     (let pattern = (\<lambda>n k. once (load_bytes m s n) (\<lambda>bs. let v = concat (replicate k bs) in
            once (store_bytes m d v) (\<lambda>m. store_pattern m (d + 8) v e)))
      in if offset = 1 then pattern 1 8
         else if offset = 2 then pattern 2 4
         else if offset = 4 then pattern 4 2
         else LZ4_memcpy_using_offset_base m d s e offset)"

lemma unat_Suc_less:
  fixes d e :: addr
  assumes "d < e"
  shows "unat (d + 1) = Suc (unat d)"
proof -
  have "unat d + 1 < 2 ^ 64"
    using assms unsigned_less [of e, where ?'a = nat] by (simp add: word_less_nat_alt)
  then show ?thesis by (simp add: unat_word_ariths)
qed

text \<open>\<open>while (op < e) { *op++ = *from++; }\<close>\<close>

function byte_copy :: "mem \<Rightarrow> addr \<Rightarrow> addr \<Rightarrow> addr \<Rightarrow> mem outcome" where
  "byte_copy m d s e =
     (if d < e then
        obind (load_w m s) (\<lambda>b. obind (store_w m d (b :: u8)) (\<lambda>m. byte_copy m (d + 1) (s + 1) e))
      else Ret m)"
  by pat_completeness auto
termination
proof (relation "measure (\<lambda>(m, d, s, e). unat e - unat d)")
  fix d e :: addr
  assume "d < e"
  then have "unat (d + 1) = Suc (unat d)" and "unat d < unat e"
    by (simp_all add: unat_Suc_less word_less_nat_alt)
  then show "((m', d + 1, s', e), m, d, s, e) \<in> measure (\<lambda>(m, d, s, e). unat e - unat d)" for m' s' m s
    by simp
qed simp

declare byte_copy.simps [simp del]

declare LZ4_wildCopy8.simps [code] LZ4_wildCopy32.simps [code] store_pattern.simps [code]

section \<open>Lengths\<close>

datatype variable_length_error = loop_error | initial_error | ok

partial_function (option) read_length_bytes ::
    "mem \<Rightarrow> addr \<Rightarrow> addr \<Rightarrow> bool \<Rightarrow> u32 \<Rightarrow> (u32 \<times> addr \<times> variable_length_error) outcome option" where
  "read_length_bytes m ip lencheck loop_check len =
     once (load_w m ip) (\<lambda>s.
       let ip = ip + 1; len = len + ucast (s :: u8)
       in if loop_check \<and> ip \<ge> lencheck then Some (Ret (len, ip, loop_error))
          else if s = 255 then read_length_bytes m ip lencheck loop_check len
          else Some (Ret (len, ip, ok)))"

declare read_length_bytes.simps [code]

definition read_variable_length ::
    "mem \<Rightarrow> addr \<Rightarrow> addr \<Rightarrow> bool \<Rightarrow> bool \<Rightarrow> (u32 \<times> addr \<times> variable_length_error) outcome option" where
  "read_variable_length m ip lencheck loop_check initial_check =
     (if initial_check \<and> ip \<ge> lencheck then Some (Ret (0, ip, initial_error))
      else read_length_bytes m ip lencheck loop_check 0)"

section \<open>The decoder\<close>

datatype dict_directive = noDict | withPrefix64k | usingExtDict | usingDictCtx

record lz4_call =
  lz_endOnInput :: bool
  lz_partial :: bool
  lz_dict :: dict_directive
  lz_src :: addr
  lz_iend :: addr
  lz_dst :: addr
  lz_oend :: addr
  lz_lowPrefix :: addr
  lz_dictEnd :: addr
  lz_dictSize :: size_t

definition lz_checkOffset :: "lz4_call \<Rightarrow> bool" where
  "lz_checkOffset K \<longleftrightarrow> lz_endOnInput K \<and> lz_dictSize K < 65536"

record 'w lz4_regs =
  r_ip :: addr
  r_op :: addr
  r_world :: "'w world"

datatype lz4_next = Fast_Loop | Safe_Loop | Decoded | Output_Error

abbreviation "r_mem s \<equiv> wmem (r_world s)"

definition set_mem :: "mem \<Rightarrow> 'w lz4_regs \<Rightarrow> 'w lz4_regs" where
  "set_mem m s = s\<lparr>r_world := (r_world s)\<lparr>wmem := m\<rparr>\<rparr>"

text \<open>A match that starts in the external dictionary, the same code in both loops.\<close>

definition ext_dict_match ::
    "'w boot_services \<Rightarrow> u32 \<Rightarrow> lz4_call \<Rightarrow> lz4_next \<Rightarrow> size_t \<Rightarrow> addr \<Rightarrow> 'w lz4_regs
     \<Rightarrow> (lz4_next \<times> 'w lz4_regs) outcome option" where
  "ext_dict_match BS pool K again len match s =
     (let op = r_op s; near_end = op + len > lz_oend K - 5 in
      if near_end \<and> \<not> lz_partial K then Some (Ret (Output_Error, s))
      else
      let len = (if near_end then min len (lz_oend K - op) else len);
          copySize = lz_lowPrefix K - match
      in if len \<le> copySize then
           once (memmove BS pool op (lz_dictEnd K - copySize) len (r_world s)) (\<lambda>w.
             Some (Ret (again, s\<lparr>r_op := op + len, r_world := w\<rparr>)))
         else
           let restSize = len - copySize in
           once (LZ4_memcpy (r_mem s) op (lz_dictEnd K - copySize) copySize) (\<lambda>m.
           let op = op + copySize in
           once (if restSize > op - lz_lowPrefix K then byte_copy m op (lz_lowPrefix K) (op + restSize)
                 else LZ4_memcpy m op (lz_lowPrefix K) restSize) (\<lambda>m.
             Some (Ret (again, set_mem m (s\<lparr>r_op := op + restSize\<rparr>))))))"

text \<open>The label \<open>safe_match_copy\<close>; the last part copies a match that lies in the output.\<close>

definition safe_copy_within ::
    "lz4_call \<Rightarrow> size_t \<Rightarrow> size_t \<Rightarrow> 'w lz4_regs \<Rightarrow> (lz4_next \<times> 'w lz4_regs) outcome option" where
  "safe_copy_within K len offset s =
     (let op = r_op s; match = op - offset; cpy = op + len in
      once (copy_first8 (r_mem s) op match offset) (\<lambda>(m, match).
      let op = op + 8; finish = (\<lambda>m. Some (Ret (Safe_Loop, set_mem m (s\<lparr>r_op := cpy\<rparr>)))) in
      if cpy > lz_oend K - 12 then
        let oCopyLimit = lz_oend K - 7 in
        if cpy > lz_oend K - 5 then Some (Ret (Output_Error, set_mem m (s\<lparr>r_op := op\<rparr>)))
        else if op < oCopyLimit then
          rbind (LZ4_wildCopy8 m op match oCopyLimit) (\<lambda>m.
          once (byte_copy m oCopyLimit (match + (oCopyLimit - op)) cpy) finish)
        else once (byte_copy m op match cpy) finish
      else
        once (LZ4_memcpy m op match 8) (\<lambda>m.
        if len > 16 then rbind (LZ4_wildCopy8 m (op + 8) (match + 8) cpy) finish else finish m)))"

definition partial_copy_within ::
    "lz4_call \<Rightarrow> size_t \<Rightarrow> size_t \<Rightarrow> 'w lz4_regs \<Rightarrow> (lz4_next \<times> 'w lz4_regs) outcome option" where
  "partial_copy_within K len offset s =
     (let op = r_op s; match = op - offset;
          mlen = min len (lz_oend K - op);
          matchEnd = match + mlen;
          copyEnd = op + mlen
      in once (if matchEnd > op then byte_copy (r_mem s) op match copyEnd
               else LZ4_memcpy (r_mem s) op match mlen) (\<lambda>m.
         Some (Ret (if copyEnd = lz_oend K then Decoded else Safe_Loop,
                    set_mem m (s\<lparr>r_op := copyEnd\<rparr>)))))"

definition safe_match_copy ::
    "'w boot_services \<Rightarrow> u32 \<Rightarrow> lz4_call \<Rightarrow> size_t \<Rightarrow> size_t \<Rightarrow> 'w lz4_regs
     \<Rightarrow> (lz4_next \<times> 'w lz4_regs) outcome option" where
  "safe_match_copy BS pool K len offset s =
     (let match = r_op s - offset; cpy = r_op s + len in
      if lz_checkOffset K \<and> match + lz_dictSize K < lz_lowPrefix K then Some (Ret (Output_Error, s))
      else if lz_dict K = usingExtDict \<and> match < lz_lowPrefix K
      then ext_dict_match BS pool K Safe_Loop len match s
      else if lz_partial K \<and> cpy > lz_oend K - 12 then partial_copy_within K len offset s
      else safe_copy_within K len offset s)"

text \<open>The label \<open>_copy_match\<close>; \<open>len\<close> is the low half of the token.\<close>

definition copy_match ::
    "'w boot_services \<Rightarrow> u32 \<Rightarrow> lz4_call \<Rightarrow> size_t \<Rightarrow> size_t \<Rightarrow> 'w lz4_regs
     \<Rightarrow> (lz4_next \<times> 'w lz4_regs) outcome option" where
  "copy_match BS pool K len offset s =
     (if len = 15 then
        rbind (read_variable_length (r_mem s) (r_ip s) (lz_iend K - 5 + 1) (lz_endOnInput K) False)
          (\<lambda>(l, ip, error).
        let len = len + ucast l; s = s\<lparr>r_ip := ip\<rparr> in
        if error \<noteq> ok then Some (Ret (Output_Error, s))
        else if lz_endOnInput K \<and> r_op s + len < r_op s then Some (Ret (Output_Error, s))
        else safe_match_copy BS pool K (len + 4) offset s)
      else safe_match_copy BS pool K (len + 4) offset s)"

text \<open>Reading the offset, before the label.\<close>

definition read_offset :: "'w lz4_regs \<Rightarrow> (size_t \<Rightarrow> 'w lz4_regs \<Rightarrow> 'b outcome option) \<Rightarrow> 'b outcome option" where
  "read_offset s k =
     once (load_w (r_mem s) (r_ip s)) (\<lambda>offset.
       k (ucast (offset :: u16)) (s\<lparr>r_ip := r_ip s + 2\<rparr>))"

text \<open>The label \<open>safe_literal_copy\<close>.\<close>

definition safe_literal_copy ::
    "'w boot_services \<Rightarrow> u32 \<Rightarrow> lz4_call \<Rightarrow> u8 \<Rightarrow> size_t \<Rightarrow> 'w lz4_regs
     \<Rightarrow> (lz4_next \<times> 'w lz4_regs) outcome option" where
  "safe_literal_copy BS pool K token len s =
     (let ip = r_ip s; op = r_op s; cpy = op + len;
          rest = (\<lambda>s. read_offset s (\<lambda>offset s.
            copy_match BS pool K (ucast (token AND 15)) offset s))
      in if lz_endOnInput K \<and> (cpy > lz_oend K - 12 \<or> ip + len > lz_iend K - 8)
            \<or> \<not> lz_endOnInput K \<and> cpy > lz_oend K - 8
         then
           let (len', cpy') = (if lz_partial K
                 then let (len, cpy) = (if ip + len > lz_iend K
                            then (lz_iend K - ip, op + (lz_iend K - ip)) else (len, cpy))
                      in if cpy > lz_oend K then (lz_oend K - op, lz_oend K) else (len, cpy)
                 else (len, cpy))
           in if \<not> lz_partial K \<and> (\<not> lz_endOnInput K \<and> cpy \<noteq> lz_oend K
                    \<or> lz_endOnInput K \<and> (ip + len \<noteq> lz_iend K \<or> cpy > lz_oend K))
              then Some (Ret (Output_Error, s))
              else
              once (memmove BS pool op ip len' (r_world s)) (\<lambda>w.
              let s = s\<lparr>r_ip := ip + len', r_op := op + len', r_world := w\<rparr> in
              if \<not> lz_partial K \<or> cpy' = lz_oend K \<or> r_ip s \<ge> lz_iend K - 2
              then Some (Ret (Decoded, s)) else rest s)
         else
           rbind (LZ4_wildCopy8 (r_mem s) op ip cpy) (\<lambda>m.
             rest (set_mem m (s\<lparr>r_ip := ip + len, r_op := cpy\<rparr>))))"

text \<open>The literal length of a token, with the checks that follow the long form.\<close>

definition literal_length ::
    "lz4_call \<Rightarrow> u8 \<Rightarrow> 'w lz4_regs \<Rightarrow> ((size_t \<times> 'w lz4_regs, 'w lz4_regs) sum) outcome option" where
  "literal_length K token s =
     (let len = ucast (drop_bit 4 token) in
      if len = 15 then
        rbind (read_variable_length (r_mem s) (r_ip s) (lz_iend K - 15) (lz_endOnInput K) (lz_endOnInput K))
          (\<lambda>(l, ip, error).
        let len = len + ucast l; s = s\<lparr>r_ip := ip\<rparr> in
        if error = initial_error then Some (Ret (Inr s))
        else if lz_endOnInput K \<and> (r_op s + len < r_op s \<or> ip + len < ip) then Some (Ret (Inr s))
        else Some (Ret (Inl (len, s))))
      else Some (Ret (Inl (len, s))))"

text \<open>One turn of the safe loop.\<close>

definition shortcut_copies ::
    "'w boot_services \<Rightarrow> u32 \<Rightarrow> lz4_call \<Rightarrow> u8 \<Rightarrow> 'w lz4_regs \<Rightarrow> (lz4_next \<times> 'w lz4_regs) outcome option" where
  "shortcut_copies BS pool K token s =
     (let ip = r_ip s; op = r_op s; len = ucast (drop_bit 4 token) in
      once (LZ4_memcpy (r_mem s) op ip (if lz_endOnInput K then 16 else 8)) (\<lambda>m.
      read_offset (set_mem m (s\<lparr>r_ip := ip + len, r_op := op + len\<rparr>)) (\<lambda>offset s.
      let len = ucast (token AND 15); op = r_op s; match = op - offset in
      if len \<noteq> 15 \<and> offset \<ge> 8 \<and> (lz_dict K = withPrefix64k \<or> match \<ge> lz_lowPrefix K) then
        once (obind (LZ4_memcpy (r_mem s) op match 8) (\<lambda>m.
              obind (LZ4_memcpy m (op + 8) (match + 8) 8) (\<lambda>m.
              LZ4_memcpy m (op + 16) (match + 16) 2))) (\<lambda>m.
          Some (Ret (Safe_Loop, set_mem m (s\<lparr>r_op := op + (len + 4)\<rparr>))))
      else copy_match BS pool K len offset s)))"

definition safe_step ::
    "'w boot_services \<Rightarrow> u32 \<Rightarrow> lz4_call \<Rightarrow> 'w lz4_regs \<Rightarrow> (lz4_next \<times> 'w lz4_regs) outcome option" where
  "safe_step BS pool K s =
     once (load_w (r_mem s) (r_ip s)) (\<lambda>token :: u8.
     let s = s\<lparr>r_ip := r_ip s + 1\<rparr>; len = drop_bit 4 token;
         shortiend = lz_iend K - (if lz_endOnInput K then 14 else 8) - 2;
         shortoend = lz_oend K - (if lz_endOnInput K then 14 else 8) - 18
     in if (if lz_endOnInput K then len \<noteq> 15 else len \<le> 8)
           \<and> (lz_endOnInput K \<longrightarrow> r_ip s < shortiend) \<and> r_op s \<le> shortoend
        then shortcut_copies BS pool K token s
        else rbind (literal_length K token s) (\<lambda>r. case r of
               Inr s \<Rightarrow> Some (Ret (Output_Error, s))
             | Inl (len, s) \<Rightarrow> safe_literal_copy BS pool K token len s))"

text \<open>One turn of the fast loop, from the copy of the literals on and from the offset on.\<close>

definition fast_match_copy ::
    "'w boot_services \<Rightarrow> u32 \<Rightarrow> lz4_call \<Rightarrow> size_t \<Rightarrow> size_t \<Rightarrow> 'w lz4_regs
     \<Rightarrow> (lz4_next \<times> 'w lz4_regs) outcome option" where
  "fast_match_copy BS pool K len offset s =
     (let op = r_op s; match = op - offset; cpy = op + len in
      if lz_checkOffset K \<and> match + lz_dictSize K < lz_lowPrefix K then Some (Ret (Output_Error, s))
      else if lz_dict K = usingExtDict \<and> match < lz_lowPrefix K
      then ext_dict_match BS pool K Fast_Loop len match s
      else rbind (if offset < 16 then LZ4_memcpy_using_offset (r_mem s) op match cpy offset
                  else LZ4_wildCopy32 (r_mem s) op match cpy) (\<lambda>m.
             Some (Ret (Fast_Loop, set_mem m (s\<lparr>r_op := cpy\<rparr>)))))"

definition fast_match ::
    "'w boot_services \<Rightarrow> u32 \<Rightarrow> lz4_call \<Rightarrow> u8 \<Rightarrow> size_t \<Rightarrow> 'w lz4_regs
     \<Rightarrow> (lz4_next \<times> 'w lz4_regs) outcome option" where
  "fast_match BS pool K token offset s =
     (let op = r_op s; match = op - offset; len = ucast (token AND 15) in
      if len = 15 then
        if lz_checkOffset K \<and> match + lz_dictSize K < lz_lowPrefix K then Some (Ret (Output_Error, s))
        else
        rbind (read_variable_length (r_mem s) (r_ip s) (lz_iend K - 5 + 1) (lz_endOnInput K) False)
          (\<lambda>(l, ip, error).
        let len = len + ucast l; s = s\<lparr>r_ip := ip\<rparr> in
        if error \<noteq> ok then Some (Ret (Output_Error, s))
        else if lz_endOnInput K \<and> op + len < op then Some (Ret (Output_Error, s))
        else if op + (len + 4) \<ge> lz_oend K - 64 then safe_match_copy BS pool K (len + 4) offset s
        else fast_match_copy BS pool K (len + 4) offset s)
      else if op + (len + 4) \<ge> lz_oend K - 64 then safe_match_copy BS pool K (len + 4) offset s
      else if (lz_dict K = withPrefix64k \<or> match \<ge> lz_lowPrefix K) \<and> offset \<ge> 8 then
        once (obind (LZ4_memcpy (r_mem s) op match 8) (\<lambda>m.
              obind (LZ4_memcpy m (op + 8) (match + 8) 8) (\<lambda>m.
              LZ4_memcpy m (op + 16) (match + 16) 2))) (\<lambda>m.
          Some (Ret (Fast_Loop, set_mem m (s\<lparr>r_op := op + (len + 4)\<rparr>))))
      else fast_match_copy BS pool K (len + 4) offset s)"

definition fast_literals ::
    "lz4_call \<Rightarrow> u8 \<Rightarrow> size_t \<Rightarrow> 'w lz4_regs \<Rightarrow> mem outcome option option" where
  "fast_literals K token len s =
     (let ip = r_ip s; op = r_op s; m = r_mem s; cpy = op + len in
      if drop_bit 4 token = 15 then
        if lz_endOnInput K then
          if cpy > lz_oend K - 32 \<or> ip + len > lz_iend K - 32 then None
          else Some (LZ4_wildCopy32 m op ip cpy)
        else if cpy > lz_oend K - 8 then None
        else Some (LZ4_wildCopy8 m op ip cpy)
      else
        if lz_endOnInput K then
          if ip > lz_iend K - (16 + 1) then None else Some (Some (LZ4_memcpy m op ip 16))
        else Some (Some (obind (LZ4_memcpy m op ip 8) (\<lambda>m.
               if len > 8 then LZ4_memcpy m (op + 8) (ip + 8) 8 else Ret m))))"

definition fast_step ::
    "'w boot_services \<Rightarrow> u32 \<Rightarrow> lz4_call \<Rightarrow> 'w lz4_regs \<Rightarrow> (lz4_next \<times> 'w lz4_regs) outcome option" where
  "fast_step BS pool K s =
     once (load_w (r_mem s) (r_ip s)) (\<lambda>token :: u8.
     rbind (literal_length K token (s\<lparr>r_ip := r_ip s + 1\<rparr>)) (\<lambda>r. case r of
       Inr s \<Rightarrow> Some (Ret (Output_Error, s))
     | Inl (len, s) \<Rightarrow>
         case fast_literals K token len s of
           None \<Rightarrow> safe_literal_copy BS pool K token len s
         | Some copied \<Rightarrow> rbind copied (\<lambda>m.
             read_offset (set_mem m (s\<lparr>r_ip := r_ip s + len, r_op := r_op s + len\<rparr>))
               (fast_match BS pool K token))))"

partial_function (option) lz4_run ::
    "'w boot_services \<Rightarrow> u32 \<Rightarrow> lz4_call \<Rightarrow> lz4_next \<Rightarrow> 'w lz4_regs
     \<Rightarrow> (lz4_next \<times> 'w lz4_regs) outcome option" where
  "lz4_run BS pool K next s =
     (case next of
        Fast_Loop \<Rightarrow> rbind (fast_step BS pool K s) (\<lambda>(next, s). lz4_run BS pool K next s)
      | Safe_Loop \<Rightarrow> rbind (safe_step BS pool K s) (\<lambda>(next, s). lz4_run BS pool K next s)
      | _ \<Rightarrow> Some (Ret (next, s)))"

declare lz4_run.simps [code]

text \<open>The narrowing conversions to \<open>int\<close> at the end.\<close>

definition lz4_result :: "lz4_call \<Rightarrow> lz4_next \<Rightarrow> 'w lz4_regs \<Rightarrow> int" where
  "lz4_result K next s =
     (if next = Decoded then
        if lz_endOnInput K then sint (ucast (r_op s - lz_dst K) :: u32)
        else sint (ucast (r_ip s - lz_src K) :: u32)
      else sint (ucast (- (r_ip s - lz_src K)) :: u32) - 1)"

definition LZ4_decompress_generic ::
    "bool \<Rightarrow> 'w boot_services \<Rightarrow> u32 \<Rightarrow> addr \<Rightarrow> addr \<Rightarrow> int \<Rightarrow> int \<Rightarrow> bool \<Rightarrow> bool \<Rightarrow> dict_directive
     \<Rightarrow> addr \<Rightarrow> addr \<Rightarrow> size_t \<Rightarrow> 'w world \<Rightarrow> (int \<times> 'w world) outcome option" where
  "LZ4_decompress_generic fast_dec_loop BS pool src dst srcSize outputSize
       endOnInput partialDecoding dict lowPrefix dictStart dictSize w =
     (if src = 0 \<or> outputSize < 0 then Some (Ret (-1, w))
      else
      let K = \<lparr>lz_endOnInput = endOnInput, lz_partial = partialDecoding, lz_dict = dict,
               lz_src = src, lz_iend = src + word_of_int srcSize,
               lz_dst = dst, lz_oend = dst + word_of_int outputSize, lz_lowPrefix = lowPrefix,
               lz_dictEnd = (if dictStart = 0 then 0 else dictStart + dictSize),
               lz_dictSize = dictSize\<rparr>
      in if endOnInput \<and> outputSize = 0 then
           if partialDecoding then Some (Ret (0, w))
           else if srcSize \<noteq> 1 then Some (Ret (-1, w))
           else once (load_w (wmem w) src) (\<lambda>b :: u8. Some (Ret (if b = 0 then 0 else -1, w)))
         else if \<not> endOnInput \<and> outputSize = 0
         then once (load_w (wmem w) src) (\<lambda>b :: u8. Some (Ret (if b = 0 then 1 else -1, w)))
         else if endOnInput \<and> srcSize = 0 then Some (Ret (-1, w))
         else
         rbind (lz4_run BS pool K (if fast_dec_loop \<and> outputSize \<ge> 64 then Fast_Loop else Safe_Loop)
                  \<lparr>r_ip = src, r_op = dst, r_world = w\<rparr>)
           (\<lambda>(next, s). Some (Ret (lz4_result K next s, r_world s))))"

section \<open>The entry points\<close>

definition LZ4_decompress_safe where
  "LZ4_decompress_safe fast_dec_loop BS pool source dest compressedSize maxDecompressedSize =
     LZ4_decompress_generic fast_dec_loop BS pool source dest compressedSize maxDecompressedSize
       True False noDict dest 0 0"

definition LZ4_decompress_safe_partial where
  "LZ4_decompress_safe_partial fast_dec_loop BS pool src dst compressedSize targetOutputSize dstCapacity =
     LZ4_decompress_generic fast_dec_loop BS pool src dst compressedSize (min targetOutputSize dstCapacity)
       True True noDict dst 0 0"

definition LZ4_decompress_fast where
  "LZ4_decompress_fast fast_dec_loop BS pool source dest originalSize =
     LZ4_decompress_generic fast_dec_loop BS pool source dest 0 originalSize
       False False withPrefix64k (dest - 65536) 0 0"

definition LZ4_decompress_safe_withPrefix64k where
  "LZ4_decompress_safe_withPrefix64k fast_dec_loop BS pool source dest compressedSize maxOutputSize =
     LZ4_decompress_generic fast_dec_loop BS pool source dest compressedSize maxOutputSize
       True False withPrefix64k (dest - 65536) 0 0"

definition LZ4_decompress_safe_withSmallPrefix where
  "LZ4_decompress_safe_withSmallPrefix fast_dec_loop BS pool source dest compressedSize maxOutputSize prefixSize =
     LZ4_decompress_generic fast_dec_loop BS pool source dest compressedSize maxOutputSize
       True False noDict (dest - prefixSize) 0 0"

definition LZ4_decompress_safe_forceExtDict where
  "LZ4_decompress_safe_forceExtDict fast_dec_loop BS pool source dest compressedSize maxOutputSize dictStart dictSize =
     LZ4_decompress_generic fast_dec_loop BS pool source dest compressedSize maxOutputSize
       True False usingExtDict dest dictStart dictSize"

definition LZ4_decompress_safe_usingDict ::
    "bool \<Rightarrow> 'w boot_services \<Rightarrow> u32 \<Rightarrow> addr \<Rightarrow> addr \<Rightarrow> int \<Rightarrow> int \<Rightarrow> addr \<Rightarrow> int \<Rightarrow> 'w world
     \<Rightarrow> (int \<times> 'w world) outcome option" where
  "LZ4_decompress_safe_usingDict fast_dec_loop BS pool source dest compressedSize maxOutputSize dictStart dictSize =
     (if dictSize = 0
      then LZ4_decompress_safe fast_dec_loop BS pool source dest compressedSize maxOutputSize
      else if dictStart + word_of_int dictSize = dest then
        if dictSize \<ge> 65535
        then LZ4_decompress_safe_withPrefix64k fast_dec_loop BS pool source dest compressedSize maxOutputSize
        else LZ4_decompress_safe_withSmallPrefix fast_dec_loop BS pool source dest compressedSize maxOutputSize
               (word_of_int dictSize)
      else LZ4_decompress_safe_forceExtDict fast_dec_loop BS pool source dest compressedSize maxOutputSize
             dictStart (word_of_int dictSize))"

end
