(* ===== verification/Lz4_Copy.thy ===== *)
theory Lz4_Copy
  imports Lz4_Block
begin

text \<open>
  What the copying routines of \<^verbatim>\<open>lib/lz4/lz4.c\<close> do. All of them move a block forward in strides and may
  write some bytes more than asked for. The common specification is \<open>copy_ok m m' d s n W\<close>: writing
  stays inside the \<open>W\<close> bytes from \<open>d\<close> on, and afterwards each of the first \<open>n\<close> bytes equals the byte
  at the same distance from \<open>s\<close>, \<^emph>\<open>in the new memory\<close>; for a source right before the destination
  that is the repetition which an overlapping match means.
\<close>

section \<open>Pointers as numbers\<close>

named_theorems ptr \<open>pointer arithmetic that does not wrap around, as arithmetic of numbers\<close>

lemma unat_plus [ptr]: "unat a + unat b < 18446744073709551616 \<Longrightarrow> unat (a + b) = unat a + unat b"
  for a b :: addr
  by (simp add: unat_word_ariths)

lemma unat_minus [ptr]: "unat b \<le> unat a \<Longrightarrow> unat (a - b) = unat a - unat b"
  for a b :: addr
  by (simp add: unat_sub_if_size)

lemma unat_of_nat_addr [ptr]: "n < 18446744073709551616 \<Longrightarrow> unat (of_nat n :: addr) = n"
  by (simp add: unat_of_nat)

lemmas [ptr] = word_less_nat_alt word_le_nat_alt

definition mapped_in :: "mem \<Rightarrow> nat \<Rightarrow> nat \<Rightarrow> bool" where
  "mapped_in m lo hi \<longleftrightarrow> (\<forall>x. lo \<le> unat x \<and> unat x < hi \<longrightarrow> m x \<noteq> None)"

definition writes_in :: "mem \<Rightarrow> mem \<Rightarrow> nat \<Rightarrow> nat \<Rightarrow> bool" where
  "writes_in m m' lo hi \<longleftrightarrow> dom m' = dom m \<and> (\<forall>x. unat x < lo \<or> hi \<le> unat x \<longrightarrow> m' x = m x)"

definition copied :: "mem \<Rightarrow> addr \<Rightarrow> addr \<Rightarrow> nat \<Rightarrow> bool" where
  "copied m d s n \<longleftrightarrow> (\<forall>i<n. m (d + of_nat i) = m (s + of_nat i))"

definition copy_ok :: "mem \<Rightarrow> mem \<Rightarrow> addr \<Rightarrow> addr \<Rightarrow> nat \<Rightarrow> nat \<Rightarrow> bool" where
  "copy_ok m m' d s n W \<longleftrightarrow> writes_in m m' (unat d) (unat d + W) \<and> copied m' d s n"

lemma mapped_in_mono: "mapped_in m lo hi \<Longrightarrow> lo \<le> lo' \<Longrightarrow> hi' \<le> hi \<Longrightarrow> mapped_in m lo' hi'"
  by (simp add: mapped_in_def)

lemma writes_in_mapped: "writes_in m m' lo hi \<Longrightarrow> mapped_in m' a b = mapped_in m a b"
  unfolding writes_in_def mapped_in_def by (metis domIff)

lemma writes_in_refl [simp]: "writes_in m m lo hi"
  by (simp add: writes_in_def)

lemma writes_in_trans:
  "writes_in m m1 a b \<Longrightarrow> writes_in m1 m2 c d \<Longrightarrow> lo \<le> a \<Longrightarrow> lo \<le> c \<Longrightarrow> b \<le> hi \<Longrightarrow> d \<le> hi
   \<Longrightarrow> writes_in m m2 lo hi"
  by (auto simp: writes_in_def)

lemma writes_in_mono: "writes_in m m' a b \<Longrightarrow> lo \<le> a \<Longrightarrow> b \<le> hi \<Longrightarrow> writes_in m m' lo hi"
  using writes_in_trans [of m m' a b m' lo lo lo hi] by (simp add: writes_in_def)

lemma mapped_in_iff:
  assumes "unat a + n \<le> 18446744073709551616"
  shows "mapped_in m (unat a) (unat a + n) = mapped m a n"
proof
  assume "mapped_in m (unat a) (unat a + n)"
  then show "mapped m a n" using assms by (auto simp: mapped_in_def mapped_def ptr)
next
  assume mp: "mapped m a n"
  show "mapped_in m (unat a) (unat a + n)"
    unfolding mapped_in_def
  proof (intro allI impI)
    fix x :: addr assume "unat a \<le> unat x \<and> unat x < unat a + n"
    then have "in_range a n x" using assms by (subst in_range_nowrap) simp_all
    with mp show "m x \<noteq> None" by (rule mapped_range)
  qed
qed

lemma copy_okD: "copy_ok m m' d s n W \<Longrightarrow> writes_in m m' (unat d) (unat d + W)"
  by (simp add: copy_ok_def)

lemma copied_append:
  assumes c1: "copied m1 d s a" and w: "writes_in m1 m2 (unat d + a) hi" and c2: "copied m2 (d + of_nat a) (s + of_nat a) b"
    and ord: "unat s \<le> unat d \<or> hi \<le> unat s"
    and top: "unat d + a \<le> hi" "hi < 18446744073709551616" "unat s + a < 18446744073709551616"
  shows "copied m2 d s (a + b)"
  unfolding copied_def
proof (intro allI impI)
  fix i assume i: "i < a + b"
  show "m2 (d + of_nat i) = m2 (s + of_nat i)"
  proof (cases "i < a")
    case True
    have "m2 (d + of_nat i) = m1 (d + of_nat i)" "m2 (s + of_nat i) = m1 (s + of_nat i)"
      using w True top ord by (auto simp: writes_in_def ptr)
    with c1 True show ?thesis by (simp add: copied_def)
  next
    case False
    then obtain j where "i = a + j" "j < b" using i le_Suc_ex by (metis add_less_cancel_left linorder_not_le)
    with c2 show ?thesis by (simp add: copied_def add.assoc)
  qed
qed

lemma copy_ok_append:
  assumes c1: "copy_ok m m1 d s a W1" and c2: "copy_ok m1 m2 (d + of_nat a) (s + of_nat a) b W"
    and W1: "W1 \<le> a + W" and ord: "unat s \<le> unat d \<or> unat d + (a + W) \<le> unat s"
    and top: "unat d + (a + W) < 18446744073709551616" "unat s + a < 18446744073709551616"
  shows "copy_ok m m2 d s (a + b) (a + W)"
proof -
  have w: "writes_in m1 m2 (unat d + a) (unat d + (a + W))"
    using c2 top by (simp add: copy_ok_def ptr add.assoc)
  have "writes_in m m2 (unat d) (unat d + (a + W))"
    using writes_in_trans [of m m1 "unat d" "unat d + W1" m2 "unat d + a" "unat d + (a + W)"] c1 w W1
    by (simp add: copy_ok_def)
  moreover have "copied m2 d s (a + b)"
    using c1 c2 ord top by (intro copied_append [OF _ w]) (auto simp: copy_ok_def)
  ultimately show ?thesis by (simp add: copy_ok_def)
qed

lemma copy_ok_less: "copy_ok m m' d s n W \<Longrightarrow> n' \<le> n \<Longrightarrow> W \<le> W' \<Longrightarrow> copy_ok m m' d s n' W'"
  by (auto simp: copy_ok_def copied_def elim: writes_in_mono)

lemma copy_ok_0 [simp]: "copy_ok m m d s 0 W"
  by (simp add: copy_ok_def copied_def)

section \<open>The routines\<close>

lemma LZ4_memcpy_ok:
  assumes n: "n = unat N" and mp: "mapped_in m (unat d) (unat d + n)" "mapped_in m (unat s) (unat s + n)"
    and top: "unat d + n < 18446744073709551616" "unat s + n < 18446744073709551616"
    and apart: "unat s + n \<le> unat d \<or> unat d + n \<le> unat s"
  shows "\<exists>m'. LZ4_memcpy m d s N = Ret m' \<and> copy_ok m m' d s n n"
proof -
  have wrap: "unat (a - b) = 18446744073709551616 + unat a - unat b" if "unat a < unat b" for a b :: addr
    using that by (simp add: unat_sub_if_size word_size)
  have guard: "\<not> (N \<noteq> 0 \<and> (d - s < N \<or> s - d < N))"
  proof (cases "n = 0")
    case True
    then show ?thesis using n by (simp add: unat_eq_zero)
  next
    case False
    then have "unat d < unat s \<or> unat s < unat d" using apart by linarith
    then show ?thesis using apart top n False wrap [of d s] wrap [of s d] by (auto simp: ptr)
  qed
  obtain bs where bs: "load_bytes m s n = Ret bs"
    using mp(2) mapped_in_iff [of s n m] top load_bytes_mapped [of m s n] by auto
  have len: "length bs = n" using bs by (rule load_bytes_length)
  have "mapped m d n" using mp(1) mapped_in_iff [of d n m] top by simp
  then obtain m' where m': "store_bytes m d bs = Ret m'"
    using store_bytes_iff_mapped [of m d bs] len by auto
  have out: "m' x = m x" if "unat x < unat d \<or> unat d + n \<le> unat x" for x
    using store_bytes_frame [OF m', of x] len that top by (simp add: in_range_nowrap) linarith
  have "m' (d + of_nat i) = m' (s + of_nat i)" if "i < n" for i
  proof -
    have "m' (s + of_nat i) = m (s + of_nat i)"
      using that top apart by (intro out) (auto simp: ptr)
    also have "\<dots> = Some (bs ! i)" using bs that by (simp add: load_bytes_iff)
    finally show ?thesis using store_bytes_at [OF m', of i] len that top by simp
  qed
  then have "copy_ok m m' d s n n"
    using out store_bytes_dom [OF m'] by (simp add: copy_ok_def writes_in_def copied_def)
  then show ?thesis using guard bs m' n by (simp add: LZ4_memcpy_def)
qed

lemma LZ4_wildCopy8_ok:
  assumes "n = unat e - unat d" "n + 7 \<le> W" "8 \<le> W"
    and "mapped_in m (unat d) (unat d + W)" "mapped_in m (unat s) (unat s + W)"
    and "unat d + W < 18446744073709551608" "unat s + W < 18446744073709551608"
    and "unat s + 8 \<le> unat d \<or> unat d + W \<le> unat s"
  shows "\<exists>m'. LZ4_wildCopy8 m d s e = Some (Ret m') \<and> copy_ok m m' d s n W"
  using assms
proof (induction n arbitrary: m d s W rule: less_induct)
  case (less n)
  have "mapped_in m (unat d) (unat d + 8)" "mapped_in m (unat s) (unat s + 8)"
    using less.prems by (auto elim: mapped_in_mono)
  then obtain m1 where m1: "LZ4_memcpy m d s 8 = Ret m1" "copy_ok m m1 d s 8 8"
    using LZ4_memcpy_ok [of 8 8 m d s] less.prems by auto
  show ?case
  proof (cases "d + 8 < e")
    case False
    then have "n \<le> 8" using less.prems by (simp add: ptr)
    then have "copy_ok m m1 d s n W" using less.prems by (intro copy_ok_less [OF m1(2)]) auto
    then show ?thesis using m1(1) False by (subst LZ4_wildCopy8.simps) simp
  next
    case True
    then have n: "8 < n" using less.prems by (simp add: ptr)
    have "\<exists>m'. LZ4_wildCopy8 m1 (d + 8) (s + 8) e = Some (Ret m') \<and> copy_ok m1 m' (d + 8) (s + 8) (n - 8) (W - 8)"
    proof (rule less.IH)
      show "mapped_in m1 (unat (d + 8)) (unat (d + 8) + (W - 8))"
        and "mapped_in m1 (unat (s + 8)) (unat (s + 8) + (W - 8))"
        using less.prems writes_in_mapped [OF copy_okD [OF m1(2)]] by (auto simp: ptr elim: mapped_in_mono)
    qed (use n less.prems in \<open>auto simp: ptr\<close>)
    then obtain m2 where m2: "LZ4_wildCopy8 m1 (d + 8) (s + 8) e = Some (Ret m2)"
      and ok2: "copy_ok m1 m2 (d + of_nat 8) (s + of_nat 8) (n - 8) (W - 8)" by auto
    have "copy_ok m m2 d s (8 + (n - 8)) (8 + (W - 8))"
      using less.prems n by (intro copy_ok_append [OF m1(2) ok2]) auto
    then show ?thesis using m1(1) m2 True n less.prems by (subst LZ4_wildCopy8.simps) simp
  qed
qed

lemma LZ4_wildCopy32_ok:
  assumes "n = unat e - unat d" "n + 31 \<le> W" "32 \<le> W"
    and "mapped_in m (unat d) (unat d + W)" "mapped_in m (unat s) (unat s + W)"
    and "unat d + W < 18446744073709551584" "unat s + W < 18446744073709551584"
    and "unat s + 16 \<le> unat d \<or> unat d + W \<le> unat s"
  shows "\<exists>m'. LZ4_wildCopy32 m d s e = Some (Ret m') \<and> copy_ok m m' d s n W"
  using assms
proof (induction n arbitrary: m d s W rule: less_induct)
  case (less n)
  have "mapped_in m (unat d) (unat d + 16)" "mapped_in m (unat s) (unat s + 16)"
    using less.prems by (auto elim: mapped_in_mono)
  then obtain m1 where m1: "LZ4_memcpy m d s 16 = Ret m1" "copy_ok m m1 d s 16 16"
    using LZ4_memcpy_ok [of 16 16 m d s] less.prems by auto
  have "mapped_in m1 (unat (d + 16)) (unat (d + 16) + 16)" "mapped_in m1 (unat (s + 16)) (unat (s + 16) + 16)"
    using less.prems writes_in_mapped [OF copy_okD [OF m1(2)]] by (auto simp: ptr elim: mapped_in_mono)
  then obtain m2 where m2: "LZ4_memcpy m1 (d + 16) (s + 16) 16 = Ret m2"
    and ok2: "copy_ok m1 m2 (d + of_nat 16) (s + of_nat 16) 16 16"
    using LZ4_memcpy_ok [of 16 16 m1 "d + 16" "s + 16"] less.prems by (auto simp: ptr)
  have both: "copy_ok m m2 d s 32 32"
    using copy_ok_append [OF m1(2) ok2] less.prems by fastforce
  have step: "obind (LZ4_memcpy m d s 16) (\<lambda>m. LZ4_memcpy m (d + 16) (s + 16) 16) = Ret m2"
    using m1(1) m2 by simp
  show ?case
  proof (cases "d + 32 < e")
    case False
    then have "n \<le> 32" using less.prems by (simp add: ptr)
    then have "copy_ok m m2 d s n W" using less.prems by (intro copy_ok_less [OF both]) auto
    then show ?thesis using step False by (subst LZ4_wildCopy32.simps) simp
  next
    case True
    then have n: "32 < n" using less.prems by (simp add: ptr)
    have "\<exists>m'. LZ4_wildCopy32 m2 (d + 32) (s + 32) e = Some (Ret m') \<and> copy_ok m2 m' (d + 32) (s + 32) (n - 32) (W - 32)"
    proof (rule less.IH)
      show "mapped_in m2 (unat (d + 32)) (unat (d + 32) + (W - 32))"
        and "mapped_in m2 (unat (s + 32)) (unat (s + 32) + (W - 32))"
        using less.prems writes_in_mapped [OF copy_okD [OF both]] by (auto simp: ptr elim: mapped_in_mono)
    qed (use n less.prems in \<open>auto simp: ptr\<close>)
    then obtain m3 where m3: "LZ4_wildCopy32 m2 (d + 32) (s + 32) e = Some (Ret m3)"
      and ok3: "copy_ok m2 m3 (d + of_nat 32) (s + of_nat 32) (n - 32) (W - 32)" by auto
    have "copy_ok m m3 d s (32 + (n - 32)) (32 + (W - 32))"
      using less.prems n by (intro copy_ok_append [OF both ok3]) auto
    then show ?thesis using step m3 True n less.prems by (subst LZ4_wildCopy32.simps) simp
  qed
qed

lemma load_w_byte: "load_w m a = (case m a of None \<Rightarrow> UB | Some b \<Rightarrow> Ret (b :: u8))"
  by (simp add: load_w_def get_le_def split: option.split)

lemma store_w_byte: "store_w m a (b :: u8) = (if m a = None then UB else Ret (m(a \<mapsto> b)))"
  by (simp add: store_w_def put_le_def)

lemma mapped_inD: "mapped_in m lo hi \<Longrightarrow> lo \<le> unat x \<Longrightarrow> unat x < hi \<Longrightarrow> \<exists>b. m x = Some b"
  by (auto simp: mapped_in_def)

lemma byte_copy_ok:
  assumes "n = unat e - unat d"
    and "mapped_in m (unat d) (unat d + n)" "mapped_in m (unat s) (unat s + n)"
    and "unat d + n < 18446744073709551615" "unat s + n < 18446744073709551615"
    and "unat s \<le> unat d \<or> unat d + n \<le> unat s"
  shows "\<exists>m'. byte_copy m d s e = Ret m' \<and> copy_ok m m' d s n n"
  using assms
proof (induction n arbitrary: m d s)
  case 0
  then have "\<not> d < e" by (simp add: ptr)
  then show ?case by (subst byte_copy.simps) simp
next
  case (Suc n)
  then have de: "d < e" by (simp add: ptr)
  obtain b b' where b: "m s = Some b" "m d = Some b'"
    using mapped_inD [OF Suc.prems(2), of d] mapped_inD [OF Suc.prems(3), of s] by auto
  let ?m = "m(d \<mapsto> b)"
  have w: "writes_in m ?m (unat d) (unat d + 1)" using b by (auto simp: writes_in_def)
  have "\<exists>m'. byte_copy ?m (d + 1) (s + 1) e = Ret m' \<and> copy_ok ?m m' (d + 1) (s + 1) n n"
  proof (rule Suc.IH)
    show "mapped_in ?m (unat (d + 1)) (unat (d + 1) + n)" and "mapped_in ?m (unat (s + 1)) (unat (s + 1) + n)"
      unfolding writes_in_mapped [OF w] using Suc.prems by (auto simp: ptr elim: mapped_in_mono)
  qed (use Suc.prems in \<open>auto simp: ptr\<close>)
  then obtain m2 where m2: "byte_copy ?m (d + 1) (s + 1) e = Ret m2"
    and ok2: "copy_ok ?m m2 (d + of_nat 1) (s + of_nat 1) n n" by auto
  have "copy_ok m ?m d s 1 1" using w b by (simp add: copy_ok_def copied_def)
  then have "copy_ok m m2 d s (1 + n) (1 + n)" using ok2 Suc.prems by (intro copy_ok_append) auto
  moreover have "byte_copy m d s e = Ret m2"
    using de b m2 by (subst byte_copy.simps) (simp add: load_w_byte store_w_byte)
  ultimately show ?case by simp
qed

lemma byte_copy_self:
  assumes "mapped_in m (unat d) (unat e)"
  shows "byte_copy m d d e = Ret m"
  using assms
proof (induction "unat e - unat d" arbitrary: d)
  case 0
  then have "\<not> d < e" by (simp add: ptr)
  then show ?case by (subst byte_copy.simps) simp
next
  case (Suc n)
  then have "d < e" by (simp add: ptr)
  then have "unat (d + 1) = Suc (unat d)" by (rule unat_Suc_less)
  moreover obtain b where "m d = Some b" using mapped_inD [OF Suc.prems, of d] Suc.hyps(2) by fastforce
  ultimately show ?case
    using Suc.hyps(1) [of "d + 1"] Suc.hyps(2) Suc.prems \<open>d < e\<close>
    by (subst byte_copy.simps) (simp add: load_w_byte store_w_byte fun_upd_idem mapped_in_mono)
qed

section \<open>Overlapping matches\<close>

text \<open>
  A match of distance \<open>off\<close>: what comes out repeats the bytes before the destination. Distance 0,
  which the format does not allow, gives zeros.
\<close>

definition match_ok :: "mem \<Rightarrow> mem \<Rightarrow> addr \<Rightarrow> nat \<Rightarrow> nat \<Rightarrow> nat \<Rightarrow> bool" where
  "match_ok m m' d off n W \<longleftrightarrow> writes_in m m' (unat d) (unat d + W)
     \<and> (if off = 0 then \<forall>i<n. m' (d + of_nat i) = Some 0 else copied m' d (d - of_nat off) n)"

lemma periodic_back:
  fixes f :: "nat \<Rightarrow> 'a"
  assumes "\<And>i. i < n \<Longrightarrow> f (i + p) = f i"
  shows "q * p \<le> i \<Longrightarrow> i < n + p \<Longrightarrow> f i = f (i - q * p)"
proof (induction q)
  case (Suc q)
  have "f (i - q * p) = f (i - Suc q * p + p)" using Suc.prems(1) by (simp add: add.commute)
  also have "\<dots> = f (i - Suc q * p)" using Suc.prems by (intro assms) auto
  finally show ?case using Suc by simp
qed simp

lemma periodic_extend:
  fixes f :: "nat \<Rightarrow> 'a"
  assumes near: "\<And>i. i < n \<Longrightarrow> f (i + p) = f i"
    and far: "\<And>i. i < k \<Longrightarrow> f (n + i + p) = f (n + i + p - g)"
    and g: "g = Suc q * p" "g \<le> n + p"
  shows "i < n + k \<Longrightarrow> f (i + p) = f i"
proof (induction i rule: less_induct)
  case (less i)
  show ?case
  proof (cases "i < n")
    case True
    then show ?thesis by (rule near)
  next
    case False
    then obtain j where j: "i = n + j" "j < k" using less.prems le_Suc_ex by fastforce
    have "f (i + p) = f (i + p - g)" using far [of j] j by simp
    also have "i + p - g = i - q * p" using g by simp
    also have "f (i - q * p) = f i"
      using periodic_back [of i f p q i] less g False by (cases "p = 0") simp_all
    finally show ?thesis .
  qed
qed

lemma copied_period:
  assumes "copied m d (d - of_nat p) n" and "copied m (d + of_nat n) (d + of_nat n - of_nat g) k"
    and "g = Suc q * p" "g \<le> n + p"
  shows "copied m d (d - of_nat p) (n + k)"
proof -
  define f where "f j = m (d - of_nat p + of_nat j)" for j
  have near: "f (i + p) = f i" if "i < n" for i
    using assms(1) that by (simp add: copied_def f_def algebra_simps)
  have far: "f (n + i + p) = f (n + i + p - g)" if "i < k" for i
  proof -
    have "d + of_nat n - of_nat g + of_nat i = d - of_nat p + (of_nat (n + i + p - g) :: addr)"
      using assms(4) by (simp add: of_nat_diff algebra_simps)
    moreover have "m (d + of_nat n + of_nat i) = m (d + of_nat n - of_nat g + of_nat i)"
      using assms(2) that by (simp add: copied_def)
    moreover have "d - of_nat p + of_nat (n + i + p) = d + of_nat n + (of_nat i :: addr)" by simp
    ultimately show ?thesis unfolding f_def by metis
  qed
  show ?thesis
    using periodic_extend [of n f p k g q, OF near far assms(3,4)] by (simp add: copied_def f_def algebra_simps)
qed

lemma zeros_period:
  assumes "\<And>i. i < n \<Longrightarrow> m (d + of_nat i) = Some 0" and "copied m (d + of_nat n) (d + of_nat n - of_nat n) k"
    and "0 < n"
  shows "i < n + k \<Longrightarrow> m (d + of_nat i) = Some (0 :: u8)"
proof (induction i rule: less_induct)
  case (less i)
  show ?case
  proof (cases "i < n")
    case False
    then obtain j where j: "i = n + j" "j < k" using less.prems le_Suc_ex by fastforce
    then have "m (d + of_nat i) = m (d + of_nat j)" using assms(2) by (simp add: copied_def algebra_simps)
    also have "\<dots> = Some 0" using less.IH [of j] j assms(3) by simp
    finally show ?thesis .
  qed (rule assms(1))
qed

text \<open>Going on with a match from a place that is a multiple of its distance behind.\<close>

definition stride :: "nat \<Rightarrow> nat \<Rightarrow> nat \<Rightarrow> bool" where
  "stride off n g \<longleftrightarrow> n \<le> g \<and> g \<le> n + off \<and> (off = 0 \<or> (\<exists>q. g = Suc q * off))"

lemma match_ok_extend:
  assumes m1: "match_ok m m1 d off n n" and ok: "copy_ok m1 m2 (d + of_nat n) (d + of_nat n - of_nat g) k W"
    and g: "stride off n g" and n: "0 < n"
    and top: "unat d + (n + W) < 18446744073709551616" "off \<le> unat d"
  shows "match_ok m m2 d off (n + k) (n + W)"
proof -
  have w1: "writes_in m m1 (unat d) (unat d + n)"
    and w2: "writes_in m1 m2 (unat d + n) (unat d + (n + W))"
    using m1 ok top by (simp_all add: match_ok_def copy_ok_def ptr add.assoc)
  have w: "writes_in m m2 (unat d) (unat d + (n + W))" by (rule writes_in_trans [OF w1 w2]) simp_all
  have same: "m2 x = m1 x" if "unat x < unat d + n" for x
    using w2 that by (simp add: writes_in_def)
  show ?thesis
  proof (cases "off = 0")
    case True
    then have "g = n" using g by (simp add: stride_def)
    have "m2 (d + of_nat i) = Some 0" if "i < n" for i
      using that m1 True same [of "d + of_nat i"] top by (simp add: match_ok_def ptr)
    then show ?thesis
      using zeros_period [of n m2 d k] ok n w True \<open>g = n\<close> by (simp add: match_ok_def copy_ok_def)
  next
    case False
    have "copied m2 d (d - of_nat off) n"
      unfolding copied_def
    proof (intro allI impI)
      fix i assume i: "i < n"
      have "unat (d - of_nat off + of_nat i) < unat d + n" using i top by (simp add: ptr)
      then show "m2 (d + of_nat i) = m2 (d - of_nat off + of_nat i)"
        using same [of "d + of_nat i"] same i m1 False top by (simp add: match_ok_def copied_def ptr)
    qed
    then show ?thesis
      using copied_period [of m2 d off n g k] ok g w False by (auto simp: match_ok_def copy_ok_def stride_def)
  qed
qed

lemma first8_tables:
  assumes "off < 8"
  shows "\<exists>inc g. inc32table ! off = of_nat inc \<and> inc \<le> off \<and> stride off 4 (4 + off - inc)
    \<and> of_nat inc - dec64table ! off = of_nat off + 8 - of_nat g \<and> stride off 8 g"
proof -
  define inc :: nat where "inc = [0, 1, 2, 1, 0, 4, 4, 4] ! off"
  define g :: nat where "g = [8, 8, 8, 9, 8, 10, 12, 14] ! off"
  define q1 :: nat where "q1 = [0, 3, 1, 1, 1, 0, 0, 0] ! off"
  define q2 :: nat where "q2 = [0, 7, 3, 2, 1, 1, 1, 1] ! off"
  have "off \<in> {0, 1, 2, 3, 4, 5, 6, 7}" using assms by auto
  then have "inc32table ! off = of_nat inc \<and> inc \<le> off \<and> 4 \<le> 4 + off - inc \<and> (off = 0 \<or> 4 + off - inc = Suc q1 * off)
      \<and> of_nat inc - dec64table ! off = of_nat off + 8 - of_nat g \<and> 8 \<le> g \<and> g \<le> 8 + off \<and> (off = 0 \<or> g = Suc q2 * off)"
    by (auto simp: inc32table_def dec64table_def inc_def g_def q1_def q2_def)
  then show ?thesis unfolding stride_def by (intro exI [of _ inc] exI [of _ g]) auto
qed

lemma obind_unit: "obind m Ret = m"
  by (cases m) simp_all

lemma byte_copy_four:
  assumes "unat d + 4 < 18446744073709551616"
  shows "byte_copy m d s (d + 4) =
    obind (load_w m s) (\<lambda>b. obind (store_w m d (b :: u8)) (\<lambda>m.
    obind (load_w m (s + 1)) (\<lambda>b. obind (store_w m (d + 1) (b :: u8)) (\<lambda>m.
    obind (load_w m (s + 2)) (\<lambda>b. obind (store_w m (d + 2) (b :: u8)) (\<lambda>m.
    obind (load_w m (s + 3)) (\<lambda>b. store_w m (d + 3) (b :: u8))))))))"
proof -
  have "unat (d + k) = unat d + unat k" if "unat k \<le> 4" for k
    using assms that by (simp add: unat_plus)
  then have lt: "d < d + 4" "d + 1 < d + 4" "d + 2 < d + 4" "d + 3 < d + 4"
    unfolding word_less_nat_alt by simp_all
  have next4: "d + 1 + 1 = d + 2" "d + 2 + 1 = d + 3" "d + 3 + 1 = d + 4"
      "s + 1 + 1 = s + 2" "s + 2 + 1 = s + 3" by simp_all
  have 4: "byte_copy m (d + 4) s' (d + 4) = Ret m" for m s' by (subst byte_copy.simps) simp
  have 3: "byte_copy m (d + 3) (s + 3) (d + 4) = obind (load_w m (s + 3)) (\<lambda>b. store_w m (d + 3) (b :: u8))" for m
    by (subst byte_copy.simps) (simp only: lt if_True next4 4 obind_unit)
  have 2: "byte_copy m (d + 2) (s + 2) (d + 4) = obind (load_w m (s + 2)) (\<lambda>b. obind (store_w m (d + 2) (b :: u8))
      (\<lambda>m. byte_copy m (d + 3) (s + 3) (d + 4)))" for m
    by (subst byte_copy.simps) (simp only: lt if_True next4)
  have 1: "byte_copy m (d + 1) (s + 1) (d + 4) = obind (load_w m (s + 1)) (\<lambda>b. obind (store_w m (d + 1) (b :: u8))
      (\<lambda>m. byte_copy m (d + 2) (s + 2) (d + 4)))" for m
    by (subst byte_copy.simps) (simp only: lt if_True next4)
  show ?thesis
    by (subst byte_copy.simps) (simp only: lt if_True 1 2 3)
qed

lemma store_zero32:
  assumes "mapped_in m (unat d) (unat d + 4)" and "unat d + 4 < 18446744073709551616"
  shows "\<exists>m'. store_w m d (0 :: u32) = Ret m' \<and> writes_in m m' (unat d) (unat d + 4)
    \<and> (\<forall>i<4. m' (d + of_nat i) = Some 0)"
proof -
  have put: "put_le (0 :: u32) = [0, 0, 0, 0]" by (simp add: put_le_def le_bytes_numeral)
  have len: "length [0, 0, 0, 0 :: u8] = 4" by simp
  have "mapped m d (length [0, 0, 0, 0 :: u8])" unfolding len using mapped_in_iff [of d 4 m] assms by simp
  then obtain m' where m': "store_bytes m d [0, 0, 0, 0 :: u8] = Ret m'"
    unfolding store_bytes_iff_mapped [symmetric] by blast
  have "m' x = m x" if "unat x < unat d \<or> unat d + 4 \<le> unat x" for x
    using store_bytes_frame [OF m', of x] that assms(2) by (simp add: in_range_nowrap) linarith
  moreover have "m' (d + of_nat i) = Some 0" if "i < 4" for i
  proof -
    have "i \<in> {0, 1, 2, 3}" using that by auto
    then have "[0, 0, 0, 0 :: u8] ! i = 0" by auto
    then show ?thesis using store_bytes_at [OF m', of i] that by simp
  qed
  ultimately show ?thesis
    using m' store_bytes_dom [OF m'] unfolding store_w_def put writes_in_def by blast
qed

lemma copy_first8_ok:
  assumes off: "off = unat offset" "off \<le> unat d"
    and mp: "mapped_in m (unat d - off) (unat d + 8)" and top: "unat d + 8 < 18446744073709551616"
  shows "\<exists>m' g. copy_first8 m d (d - offset) offset = Ret (m', d + 8 - of_nat g)
    \<and> match_ok m m' d off 8 8 \<and> stride off 8 g"
proof (cases "off < 8")
  case False
  have s: "unat (d - offset) = unat d - off" using off by (simp add: ptr)
  have far: "unat (d - offset) + 8 \<le> unat d" using False off s by linarith
  have "mapped_in m (unat d) (unat d + 8)" "mapped_in m (unat (d - offset)) (unat (d - offset) + 8)"
    using mp far s by (auto elim: mapped_in_mono)
  then obtain m' where m': "LZ4_memcpy m d (d - offset) 8 = Ret m'" "copy_ok m m' d (d - offset) 8 8"
    using LZ4_memcpy_ok [of 8 8 m d "d - offset"] far top by auto
  have "stride off 8 off" using False by (auto simp: stride_def intro: exI [of _ 0])
  moreover have "match_ok m m' d off 8 8" using m'(2) False off by (simp add: match_ok_def copy_ok_def)
  moreover have "d - offset + 8 = d + 8 - of_nat off" using off(1) by simp
  ultimately show ?thesis
    using m'(1) False off by (intro exI [of _ m'] exI [of _ off]) (simp add: copy_first8_def ptr)
next
  case True
  obtain inc g where t: "inc32table ! off = of_nat inc" "inc \<le> off" "stride off 4 (4 + off - inc)"
      "of_nat inc - dec64table ! off = of_nat off + 8 - of_nat g" "stride off 8 g"
    using first8_tables [OF True] by blast
  define s where "s = d - offset"
  have offset: "offset = of_nat off" and s: "unat s + off = unat d" using off by (simp_all add: s_def ptr)
  then have so: "unat d - off = unat s" by linarith
  note map = mp [unfolded so]
  obtain m0 where m0: "store_w m d (0 :: u32) = Ret m0" "writes_in m m0 (unat d) (unat d + 4)"
      "\<And>i. i < 4 \<Longrightarrow> m0 (d + of_nat i) = Some 0"
    using store_zero32 [of m d] mapped_in_mono [OF map, of "unat d" "unat d + 4"] s top by auto
  have "mapped_in m0 (unat s) (unat d + 8)" using map writes_in_mapped [OF m0(2)] by simp
  then have mp0: "mapped_in m0 (unat d) (unat d + 4)" "mapped_in m0 (unat s) (unat s + 4)"
    using s by (auto elim!: mapped_in_mono)
  obtain m1 where m1: "byte_copy m0 d s (d + 4) = Ret m1" "copy_ok m0 m1 d s 4 4"
    using byte_copy_ok [of 4 "d + 4" d m0 s] mp0 s top by (auto simp: unat_plus)
  have w1: "writes_in m m1 (unat d) (unat d + 4)"
    using writes_in_trans [OF m0(2) copy_okD [OF m1(2)]] by simp
  have "m1 = m0" if "off = 0"
    using byte_copy_self [of m0 d "d + 4"] m1(1) that offset mp0 top by (simp add: unat_plus s_def)
  then have ok1: "match_ok m m1 d off 4 4"
    using m1(2) m0(3) w1 offset by (auto simp: match_ok_def copy_ok_def s_def)
  have s': "unat (s + of_nat inc) = unat s + inc" using s t(2) True top by (simp add: ptr)
  have "mapped_in m1 (unat s) (unat d + 8)" using map writes_in_mapped [OF w1] by simp
  then have mp1: "mapped_in m1 (unat d + 4) (unat d + 4 + 4)" "mapped_in m1 (unat s + inc) (unat s + inc + 4)"
    using s t(2) by (auto elim!: mapped_in_mono)
  obtain m2 where m2: "LZ4_memcpy m1 (d + 4) (s + of_nat inc) 4 = Ret m2" "copy_ok m1 m2 (d + 4) (s + of_nat inc) 4 4"
    using LZ4_memcpy_ok [of 4 4 m1 "d + 4" "s + of_nat inc"] mp1 s s' t(2) top unat_plus [of d 4] by auto
  have "d + of_nat 4 - of_nat (4 + off - inc) = s + of_nat inc"
    using t(2) offset by (simp add: of_nat_diff s_def)
  then have ok2: "match_ok m m2 d off 8 8"
    using match_ok_extend [OF ok1 _ t(3), of m2 4 4] m2(2) top off by simp
  have bk: "s + of_nat inc - dec64table ! off = d + 8 - of_nat g"
    using t(4) offset by (simp add: algebra_simps s_def)
  have lt: "offset < 8" using True off by (simp add: word_less_nat_alt)
  have "copy_first8 m d s offset = Ret (m2, d + 8 - of_nat g)"
    using m1(1) byte_copy_four [of d m0 s] top unfolding copy_first8_def
    by (auto simp: lt m0(1) outcome_iff off(1) [symmetric] t(1) m2(1) bk Let_def)
  then show ?thesis using ok2 t(5) unfolding s_def by blast
qed

text \<open>The rest of a match, from the place \<open>copy_first8\<close> leaves.\<close>

lemma after_first8:
  assumes first: "match_ok m m1 d off 8 8" "stride off 8 g" and off: "off \<le> unat d"
    and map: "mapped_in m (unat d - off) (unat d + (8 + W))" and top: "unat d + (8 + W) < 18446744073709551608"
  shows "unat (d + 8 - of_nat g) = unat d + 8 - g" and "unat d - off \<le> unat d + 8 - g" and "g \<le> unat d + 8"
    and "mapped_in m1 (unat (d + 8)) (unat (d + 8) + W)"
    and "mapped_in m1 (unat (d + 8 - of_nat g)) (unat (d + 8 - of_nat g) + W)"
    and "unat (d + 8 - of_nat g) + 8 \<le> unat (d + 8)"
    and "copy_ok m1 m2 (d + 8) (d + 8 - of_nat g) k W \<Longrightarrow> match_ok m m2 d off (8 + k) (8 + W)"
proof -
  have g: "8 \<le> g" "g \<le> 8 + off" using first(2) by (simp_all add: stride_def)
  then have "unat (of_nat g :: addr) = g" using off top by (simp add: ptr)
  then show s: "unat (d + 8 - of_nat g) = unat d + 8 - g" using g off top by (simp add: ptr)
  show "unat d - off \<le> unat d + 8 - g" "g \<le> unat d + 8" using g off by linarith+
  have "mapped_in m1 (unat d - off) (unat d + (8 + W))"
    using map writes_in_mapped [of m m1 "unat d" "unat d + 8"] first(1) by (simp add: match_ok_def)
  then show "mapped_in m1 (unat (d + 8)) (unat (d + 8) + W)"
    and "mapped_in m1 (unat (d + 8 - of_nat g)) (unat (d + 8 - of_nat g) + W)"
    unfolding s using g off top by (auto simp: ptr elim!: mapped_in_mono)
  show "unat (d + 8 - of_nat g) + 8 \<le> unat (d + 8)" unfolding s using g top by (simp add: ptr)
  show "match_ok m m2 d off (8 + k) (8 + W)" if "copy_ok m1 m2 (d + 8) (d + 8 - of_nat g) k W"
    using match_ok_extend [OF first(1) _ first(2), of m2 k W] that top off by simp
qed

lemma match_ok_less: "match_ok m m' d off n W \<Longrightarrow> n' \<le> n \<Longrightarrow> W \<le> W' \<Longrightarrow> match_ok m m' d off n' W'"
  by (auto simp: match_ok_def copied_def elim: writes_in_mono)

lemma copy_ok_match: "copy_ok m m' d (d - of_nat off) n W \<Longrightarrow> 0 < off \<Longrightarrow> match_ok m m' d off n W"
  by (simp add: copy_ok_def match_ok_def)

lemma LZ4_memcpy_using_offset_base_ok:
  assumes off: "off = unat offset" "off \<le> unat d"
    and n: "n = unat e - unat d" "n + 7 \<le> W" "16 \<le> W"
    and mp: "mapped_in m (unat d - off) (unat d + W)" and top: "unat d + W < 18446744073709551600"
  shows "\<exists>m'. LZ4_memcpy_using_offset_base m d (d - offset) e offset = Some (Ret m') \<and> match_ok m m' d off n W"
proof -
  have "mapped_in m (unat d - off) (unat d + 8)" using mp n by (auto elim: mapped_in_mono)
  then obtain m1 g where m1: "copy_first8 m d (d - offset) offset = Ret (m1, d + 8 - of_nat g)"
    and first: "match_ok m m1 d off 8 8" "stride off 8 g"
    using copy_first8_ok [OF off, of m] top by auto
  have W: "8 + (W - 8) = W" using n by simp
  note rest = after_first8 [OF first off(2), of "W - 8", unfolded W, OF mp]
  have "\<exists>m2. LZ4_wildCopy8 m1 (d + 8) (d + 8 - of_nat g) e = Some (Ret m2)
      \<and> copy_ok m1 m2 (d + 8) (d + 8 - of_nat g) (n - 8) (W - 8)"
    using rest(1-6) n top by (intro LZ4_wildCopy8_ok) (auto simp: ptr)
  then obtain m2 where m2: "LZ4_wildCopy8 m1 (d + 8) (d + 8 - of_nat g) e = Some (Ret m2)"
    "copy_ok m1 m2 (d + 8) (d + 8 - of_nat g) (n - 8) (W - 8)" by blast
  have "match_ok m m2 d off n W"
    using match_ok_less [OF rest(7) [OF _ m2(2)], of n W] top by simp
  then show ?thesis using m1 m2(1) by (simp add: LZ4_memcpy_using_offset_base_def)
qed

lemma store_block_ok:
  assumes "length v = n" and "mapped_in m (unat d) (unat d + n)" and "unat d + n < 18446744073709551616"
  shows "\<exists>m'. store_bytes m d v = Ret m' \<and> writes_in m m' (unat d) (unat d + n)
    \<and> (\<forall>i<n. m' (d + of_nat i) = Some (v ! i))"
proof -
  have "mapped m d (length v)" using mapped_in_iff [of d n m] assms by simp
  then obtain m' where m': "store_bytes m d v = Ret m'" unfolding store_bytes_iff_mapped [symmetric] by blast
  have "m' x = m x" if "unat x < unat d \<or> unat d + n \<le> unat x" for x
    using store_bytes_frame [OF m', of x] that assms(1,3) by (simp add: in_range_nowrap) linarith
  then show ?thesis using m' store_bytes_at [OF m'] store_bytes_dom [OF m'] assms by (auto simp: writes_in_def)
qed

lemma store_pattern_ok:
  assumes "length v = 8" "n = unat e - unat d" "n = 0 \<or> n + 7 \<le> W"
    and "mapped_in m (unat d) (unat d + W)" "unat d + W < 18446744073709551608"
  shows "\<exists>m'. store_pattern m d v e = Some (Ret m') \<and> writes_in m m' (unat d) (unat d + W)
    \<and> (\<forall>i<n. m' (d + of_nat i) = Some (v ! (i mod 8)))"
  using assms
proof (induction n arbitrary: m d W rule: less_induct)
  case (less n)
  show ?case
  proof (cases "d < e")
    case False
    then show ?thesis using less.prems by (subst store_pattern.simps) (simp add: ptr)
  next
    case True
    then have n: "0 < n" "n + 7 \<le> W" using less.prems by (auto simp: ptr)
    then have W: "8 \<le> W" by simp
    obtain m1 where m1: "store_bytes m d v = Ret m1" and w1: "writes_in m m1 (unat d) (unat d + 8)"
      and v1: "\<And>i. i < 8 \<Longrightarrow> m1 (d + of_nat i) = Some (v ! i)"
      using store_block_ok [of v 8 m d] less.prems W mapped_in_mono [OF less.prems(4), of "unat d" "unat d + 8"] by auto
    have d8: "unat (d + 8) = unat d + 8" using less.prems(5) W by (simp add: unat_plus)
    have mp: "mapped_in m1 (unat (d + 8)) (unat (d + 8) + (W - 8))"
      unfolding writes_in_mapped [OF w1] d8 using less.prems(4) W by (auto elim: mapped_in_mono)
    have fits: "n - 8 < n" "n - 8 = unat e - unat (d + 8)" "n - 8 = 0 \<or> n - 8 + 7 \<le> W - 8"
        "unat (d + 8) + (W - 8) < 18446744073709551608"
      using less.prems(2,5) n W d8 by auto
    have end8: "unat d + 8 + (W - 8) = unat d + W" using W by simp
    obtain m2 where m2: "store_pattern m1 (d + 8) v e = Some (Ret m2)"
      and w2: "writes_in m1 m2 (unat d + 8) (unat d + W)"
      and v2: "\<And>i. i < n - 8 \<Longrightarrow> m2 (d + 8 + of_nat i) = Some (v ! (i mod 8))"
      using less.IH [OF fits(1) less.prems(1) fits(2,3) mp fits(4)] unfolding d8 end8 by blast
    have "m2 (d + of_nat i) = Some (v ! (i mod 8))" if "i < n" for i
    proof (cases "i < 8")
      case True
      then have "unat (d + of_nat i) < unat d + 8" using less.prems(5) W by (simp add: ptr)
      then have "m2 (d + of_nat i) = m1 (d + of_nat i)" using w2 by (simp add: writes_in_def)
      then show ?thesis using v1 True by simp
    next
      case False
      then obtain j where j: "i = 8 + j" using le_Suc_ex by (metis linorder_not_less)
      then show ?thesis using v2 [of j] that by (simp add: add.assoc)
    qed
    moreover have "writes_in m m2 (unat d) (unat d + W)"
      using W by (intro writes_in_trans [OF w1 w2]) auto
    ultimately show ?thesis using m1 m2 True by (subst store_pattern.simps) simp
  qed
qed

lemma nth_concat_replicate:
  "i < k * length bs \<Longrightarrow> concat (replicate k bs) ! i = bs ! (i mod length bs)"
proof (induction k arbitrary: i)
  case (Suc k)
  show ?case
  proof (cases "i < length bs")
    case False
    then have "i - length bs < k * length bs" "(i - length bs) mod length bs = i mod length bs"
      using Suc.prems by (auto simp: le_mod_geq)
    then show ?thesis using Suc.IH False by (simp add: nth_append)
  qed (simp add: nth_append)
qed simp

lemma pattern_copied:
  assumes "load_bytes m s off = Ret bs" and "off * k = 8" and "unat s + off = unat d" and W: "n + 7 \<le> W" "8 \<le> W"
    and mp: "mapped_in m (unat d) (unat d + W)" and top: "unat d + W < 18446744073709551600"
    and e: "n = unat e - unat d"
  shows "\<exists>m'. once (store_bytes m d (concat (replicate k bs))) (\<lambda>m. store_pattern m (d + 8) (concat (replicate k bs)) e)
      = Some (Ret m') \<and> match_ok m m' d off n W"
proof -
  let ?v = "concat (replicate k bs)"
  have bs: "length bs = off" using assms(1) by (rule load_bytes_length)
  have "0 < off" using assms(2) by (cases off) simp_all
  moreover have "s = d - of_nat off" using assms(3) top by (intro word_eq_unatI) (simp add: ptr)
  ultimately have off: "0 < off" "s = d - of_nat off" by simp_all
  have "sum_list (map length (replicate k bs)) = 8" using bs assms(2) by (simp add: sum_list_replicate mult.commute)
  then have v: "length ?v = 8" by (simp add: length_concat)
  have nth: "?v ! (i mod 8) = bs ! (i mod off)" for i
  proof -
    have "off dvd 8" using assms(2) by (metis dvd_triv_left)
    then show ?thesis
      using nth_concat_replicate [of "i mod 8" k bs] bs assms(2) by (simp add: mult.commute mod_mod_cancel)
  qed
  have d8: "unat (d + 8) = unat d + 8" using top W by (simp add: unat_plus)
  obtain m1 where m1: "store_bytes m d ?v = Ret m1" and w1: "writes_in m m1 (unat d) (unat d + 8)"
    and v1: "\<And>i. i < 8 \<Longrightarrow> m1 (d + of_nat i) = Some (?v ! i)"
    using store_block_ok [OF v, of m d] top W mapped_in_mono [OF mp, of "unat d" "unat d + 8"] by auto
  have mp1: "mapped_in m1 (unat (d + 8)) (unat (d + 8) + (W - 8))"
    unfolding writes_in_mapped [OF w1] d8 using mp W by (auto elim: mapped_in_mono)
  have fits: "n - 8 = unat e - unat (d + 8)" "n - 8 = 0 \<or> n - 8 + 7 \<le> W - 8"
      "unat (d + 8) + (W - 8) < 18446744073709551608"
    using e W d8 top by auto
  have end8: "unat d + 8 + (W - 8) = unat d + W" using W by simp
  obtain m2 where m2: "store_pattern m1 (d + 8) ?v e = Some (Ret m2)"
    and w2: "writes_in m1 m2 (unat d + 8) (unat d + W)"
    and v2: "\<And>i. i < n - 8 \<Longrightarrow> m2 (d + 8 + of_nat i) = Some (?v ! (i mod 8))"
    using store_pattern_ok [OF v fits(1,2) mp1 fits(3)] unfolding d8 end8 by blast
  have w: "writes_in m m2 (unat d) (unat d + W)" using W by (intro writes_in_trans [OF w1 w2]) auto
  have new: "m2 (d + of_nat i) = Some (bs ! (i mod off))" if "i < n" for i
  proof (cases "i < 8")
    case True
    then have "unat (d + of_nat i) < unat d + 8" using top W by (simp add: ptr)
    then have "m2 (d + of_nat i) = m1 (d + of_nat i)" using w2 by (simp add: writes_in_def)
    then show ?thesis using v1 True nth [of i] by simp
  next
    case False
    then obtain j where j: "i = 8 + j" using le_Suc_ex by (metis linorder_not_less)
    then show ?thesis using v2 [of j] that nth [of i] by (simp add: add.assoc)
  qed
  have old: "m2 (s + of_nat i) = Some (bs ! i)" if "i < off" for i
  proof -
    have "unat (s + of_nat i) < unat d" using that assms(3) top by (simp add: ptr)
    then show ?thesis using w assms(1) that by (simp add: writes_in_def load_bytes_iff)
  qed
  have "copied m2 d s n"
    unfolding copied_def
  proof (intro allI impI)
    fix i assume i: "i < n"
    show "m2 (d + of_nat i) = m2 (s + of_nat i)"
    proof (cases "i < off")
      case True
      then show ?thesis using new [OF i] old by simp
    next
      case False
      then have "s + of_nat i = d + of_nat (i - off)" using off(2) by (simp add: of_nat_diff)
      then have "m2 (s + of_nat i) = Some (bs ! ((i - off) mod off))" using new [of "i - off"] i by (metis less_imp_diff_less)
      then show ?thesis using new [OF i] False by (simp add: le_mod_geq)
    qed
  qed
  then show ?thesis using m1 m2 w off by (simp add: match_ok_def)
qed

lemma LZ4_memcpy_using_offset_ok:
  assumes off: "off = unat offset" "off \<le> unat d"
    and n: "n = unat e - unat d" "n + 7 \<le> W" "16 \<le> W"
    and mp: "mapped_in m (unat d - off) (unat d + W)" and top: "unat d + W < 18446744073709551600"
  shows "\<exists>m'. LZ4_memcpy_using_offset m d (d - offset) e offset = Some (Ret m') \<and> match_ok m m' d off n W"
proof -
  define s where "s = d - offset"
  have s: "unat s + off = unat d" using off by (simp add: s_def ptr)
  have mp_d: "mapped_in m (unat d) (unat d + W)" and mp_s: "mapped_in m (unat s) (unat s + off)"
    using mp s by (auto elim!: mapped_in_mono)
  have pattern: "\<exists>m'. once (load_bytes m s off) (\<lambda>bs. let v = concat (replicate k bs) in
        once (store_bytes m d v) (\<lambda>m. store_pattern m (d + 8) v e)) = Some (Ret m') \<and> match_ok m m' d off n W"
    if "off * k = 8" for k
  proof -
    obtain bs where bs: "load_bytes m s off = Ret bs"
      using mp_s mapped_in_iff [of s off m] s top load_bytes_mapped [of m s off] by auto
    then show ?thesis using pattern_copied [OF bs that s n(2) _ mp_d top n(1)] n by (simp add: Let_def)
  qed
  have off124: "offset = 1 \<longleftrightarrow> off = 1" "offset = 2 \<longleftrightarrow> off = 2" "offset = 4 \<longleftrightarrow> off = 4"
    using off(1) by (auto intro: word_eq_unatI)
  show ?thesis
    using pattern [of 8] pattern [of 4] pattern [of 2] LZ4_memcpy_using_offset_base_ok [OF off n mp top]
    unfolding s_def [symmetric] LZ4_memcpy_using_offset_def Let_def off124 by auto
qed

text \<open>A match in the output, as the fast loop copies it.\<close>

lemma fast_match_copy_ok:
  assumes off: "off = unat offset" "off \<le> unat d"
    and n: "n = unat e - unat d" "n + 31 \<le> W" "32 \<le> W"
    and mp: "mapped_in m (unat d - off) (unat d + W)" and top: "unat d + W < 18446744073709551584"
  shows "\<exists>m'. (if offset < 16 then LZ4_memcpy_using_offset m d (d - offset) e offset
       else LZ4_wildCopy32 m d (d - offset) e) = Some (Ret m') \<and> match_ok m m' d off n W"
proof (cases "offset < 16")
  case True
  then show ?thesis using LZ4_memcpy_using_offset_ok [OF off n(1) _ _ mp] n top by simp
next
  case False
  define s where "s = d - offset"
  have s: "unat s + off = unat d" using off by (simp add: s_def ptr)
  have far: "16 \<le> off" using False off by (simp add: ptr)
  have "mapped_in m (unat d) (unat d + W)" "mapped_in m (unat s) (unat s + W)"
    using mp s by (auto elim!: mapped_in_mono)
  then obtain m' where "LZ4_wildCopy32 m d s e = Some (Ret m')" "copy_ok m m' d s n W"
    using LZ4_wildCopy32_ok [OF n, of m s] s far top by auto
  then show ?thesis using copy_ok_match [of m m' d off n W] far False off by (auto simp: s_def)
qed

text \<open>A short match: eighteen bytes, in three pieces.\<close>

lemma copy18_ok:
  assumes off: "8 \<le> unat offset" "unat offset \<le> unat d"
    and mp: "mapped_in m (unat d - unat offset) (unat d + 18)" and top: "unat d + 18 < 18446744073709551616"
  shows "\<exists>m'. obind (LZ4_memcpy m d (d - offset) 8) (\<lambda>m.
      obind (LZ4_memcpy m (d + 8) (d - offset + 8) 8) (\<lambda>m.
      LZ4_memcpy m (d + 16) (d - offset + 16) 2)) = Ret m' \<and> match_ok m m' d (unat offset) 18 18"
proof -
  define s where "s = d - offset"
  have s: "unat s + unat offset = unat d" using off by (simp add: s_def ptr)
  have so: "unat d - unat offset = unat s" using s by linarith
  have at: "unat (d + 8) = unat d + 8" "unat (d + 16) = unat d + 16" "unat (s + 8) = unat s + 8" "unat (s + 16) = unat s + 16"
    using top s by (simp_all add: unat_plus)
  have part: "mapped_in m' (unat d + k) (unat d + k + j)" "mapped_in m' (unat s + k) (unat s + k + j)"
    if "k + j \<le> 18" "writes_in m m' a b" for m' k j a b
    unfolding writes_in_mapped [OF that(2)] using mp [unfolded so] that(1) s by (auto elim!: mapped_in_mono)
  obtain m1 where m1: "LZ4_memcpy m d s 8 = Ret m1" "copy_ok m m1 d s 8 8"
    using LZ4_memcpy_ok [of 8 8 m d s] part [of 0 8 m] s off top by auto
  obtain m2 where m2: "LZ4_memcpy m1 (d + 8) (s + 8) 8 = Ret m2" "copy_ok m1 m2 (d + of_nat 8) (s + of_nat 8) 8 8"
    using LZ4_memcpy_ok [of 8 8 m1 "d + 8" "s + 8"] part [OF _ copy_okD [OF m1(2)], of 8 8] s off top by (auto simp: at)
  have ok2: "copy_ok m m2 d s 16 16" using copy_ok_append [OF m1(2) m2(2)] s top by simp
  obtain m3 where m3: "LZ4_memcpy m2 (d + 16) (s + 16) 2 = Ret m3" "copy_ok m2 m3 (d + of_nat 16) (s + of_nat 16) 2 2"
    using LZ4_memcpy_ok [of 2 2 m2 "d + 16" "s + 16"] part [OF _ copy_okD [OF ok2], of 16 2] s off top by (auto simp: at)
  have "copy_ok m m3 d s 18 18" using copy_ok_append [OF ok2 m3(2)] s top by simp
  then show ?thesis using m1(1) m2(1) m3(1) off copy_ok_match [of m m3 d "unat offset" 18 18]
    by (simp add: s_def)
qed

text \<open>A match in the output, as the safe loop copies it.\<close>

lemma safe_tail_ok:
  assumes n: "n = unat cpy - unat d" and room: "unat cpy + 5 \<le> unat oend" and lim: "unat d < unat oend - 7"
    and mp: "mapped_in m (unat d) (unat oend)" "mapped_in m (unat s) (unat s + (unat oend - unat d))"
    and top: "unat oend < 18446744073709551600" and apart: "unat s + 8 \<le> unat d"
  shows "\<exists>m1 m'. LZ4_wildCopy8 m d s (oend - 7) = Some (Ret m1)
    \<and> byte_copy m1 (oend - 7) (s + (oend - 7 - d)) cpy = Ret m' \<and> copy_ok m m' d s n (unat oend - unat d)"
proof -
  have lim7: "unat (oend - 7) = unat oend - 7" using lim by (simp add: unat_minus)
  define k where "k = unat oend - 7 - unat d"
  have k: "unat d + (k + 7) = unat oend" "0 < k" using lim by (simp_all add: k_def)
  have W: "unat oend - unat d = k + 7" using k by simp
  have k7: "k = unat (oend - 7) - unat d" using lim7 k by simp
  have mpd: "mapped_in m (unat d) (unat d + (k + 7))" and mps: "mapped_in m (unat s) (unat s + (k + 7))"
    using mp k(1) W by simp_all
  have bounds: "k + 7 \<le> k + 7" "8 \<le> k + 7" "unat d + (k + 7) < 18446744073709551608" "unat s + (k + 7) < 18446744073709551608"
      "unat s + 8 \<le> unat d \<or> unat d + (k + 7) \<le> unat s"
    using k top apart by linarith+
  obtain m1 where m1: "LZ4_wildCopy8 m d s (oend - 7) = Some (Ret m1)" "copy_ok m m1 d s k (k + 7)"
    using LZ4_wildCopy8_ok [OF k7 bounds(1,2) mpd mps bounds(3-5)] by blast
  have pos: "oend - 7 = d + of_nat k" "oend - 7 - d = of_nat k"
    using lim7 k top by (auto intro!: word_eq_unatI simp: ptr)
  have mp1: "mapped_in m1 (unat d) (unat oend)" "mapped_in m1 (unat s) (unat s + (k + 7))"
    using mp writes_in_mapped [OF copy_okD [OF m1(2)]] unfolding W by simp_all
  have sk: "unat (s + of_nat k) = unat s + k" and dk: "unat (d + of_nat k) = unat d + k"
    using k top apart by (simp_all add: ptr)
  define j where "j = unat cpy - unat (d + of_nat k)"
  have j: "j \<le> 2" "n \<le> k + j" using room k n dk by (auto simp: j_def)
  have mpd1: "mapped_in m1 (unat (d + of_nat k)) (unat (d + of_nat k) + j)"
    using j k by (intro mapped_in_mono [OF mp1(1)]) (simp_all add: dk)
  have mps1: "mapped_in m1 (unat (s + of_nat k)) (unat (s + of_nat k) + j)"
    using j k by (intro mapped_in_mono [OF mp1(2)]) (simp_all add: sk)
  have ends: "unat (d + of_nat k) + j < 18446744073709551615" "unat (s + of_nat k) + j < 18446744073709551615"
      "unat (s + of_nat k) \<le> unat (d + of_nat k) \<or> unat (d + of_nat k) + j \<le> unat (s + of_nat k)"
    unfolding sk dk using j k top apart by linarith+
  obtain m2 where m2: "byte_copy m1 (d + of_nat k) (s + of_nat k) cpy = Ret m2"
    "copy_ok m1 m2 (d + of_nat k) (s + of_nat k) j j"
    using byte_copy_ok [OF j_def mpd1 mps1 ends] by blast
  have "copy_ok m1 m2 (d + of_nat k) (s + of_nat k) j 7" using j by (intro copy_ok_less [OF m2(2)]) simp_all
  then have "copy_ok m m2 d s (k + j) (k + 7)"
    by (rule copy_ok_append [OF m1(2)]) (use k top apart in linarith)+
  then have "copy_ok m m2 d s n (k + 7)" using j by (auto intro: copy_ok_less)
  then show ?thesis using m1(1) m2(1) unfolding pos W by auto
qed

lemma safe_copy_within_ok:
  assumes off: "off = unat offset" "off \<le> unat (r_op s)" and op: "op = r_op s" and oend: "oend = lz_oend K"
    and len: "4 \<le> unat len" "unat op + unat len < 18446744073709551616" and room: "unat op + 12 \<le> unat oend"
    and mp: "mapped_in (r_mem s) (unat op - off) (unat oend)" and top: "unat oend < 18446744073709551600"
  shows "\<exists>nxt m' op'. safe_copy_within K len offset s = Some (Ret (nxt, set_mem m' (s\<lparr>r_op := op'\<rparr>)))
    \<and> writes_in (r_mem s) m' (unat op) (unat oend)
    \<and> (nxt = Output_Error \<or> nxt = Safe_Loop \<and> op' = op + len \<and> unat op + unat len + 5 \<le> unat oend
         \<and> match_ok (r_mem s) m' op off (unat len) (unat oend - unat op))"
proof -
  let ?m = "r_mem s"
  have offop: "off \<le> unat op" using off(2) op by simp
  have top8: "unat op + 8 < 18446744073709551616" using room top by linarith
  have "mapped_in ?m (unat op - off) (unat op + 8)" using mp room by (auto elim: mapped_in_mono)
  then obtain m1 g where first: "copy_first8 ?m op (op - offset) offset = Ret (m1, op + 8 - of_nat g)"
    and m1: "match_ok ?m m1 op off 8 8" "stride off 8 g"
    using copy_first8_ok [OF off(1) offop, of ?m] top8 by blast
  define W where "W = unat oend - unat op - 8"
  have W: "unat op + (8 + W) = unat oend" "4 \<le> W" using room by (simp_all add: W_def)
  define d where "d = op + 8"
  define s' where "s' = op + 8 - of_nat g"
  have d: "unat d = unat op + 8" using top8 by (simp add: d_def unat_plus)
  have rest: "mapped_in m1 (unat d) (unat d + W)" "mapped_in m1 (unat s') (unat s' + W)" "unat s' + 8 \<le> unat d"
    and more: "\<And>m2 k. copy_ok m1 m2 d s' k W \<Longrightarrow> match_ok ?m m2 op off (8 + k) (8 + W)"
    using after_first8 [OF m1 offop, of W] mp W top unfolding d_def s'_def by simp_all
  have w: "writes_in ?m m2 (unat op) (unat oend)" if "copy_ok m1 m2 d s' k W" for m2 k
    using more [OF that] W(1) by (simp add: match_ok_def)
  have w1: "writes_in ?m m1 (unat op) (unat oend)" using w [of m1 0] by simp
  have dW: "unat d + W = unat oend" "unat oend - unat d = W" "unat oend - unat op = 8 + W" using d W by linarith+
  have fin: ?thesis if eq: "safe_copy_within K len offset s = Some (Ret (Safe_Loop, set_mem m2 (s\<lparr>r_op := op + len\<rparr>)))"
    and ok: "copy_ok m1 m2 d s' k W" and k: "unat len \<le> 8 + k" and fits: "unat op + unat len + 5 \<le> unat oend" for m2 k
    using eq fits w [OF ok] match_ok_less [OF more [OF ok] k order.refl] unfolding dW(3) by blast
  have run: "safe_copy_within K len offset s =
    (let cpy = op + len; finish = (\<lambda>m. Some (Ret (Safe_Loop, set_mem m (s\<lparr>r_op := cpy\<rparr>)))) in
      if cpy > oend - 12 then
        if cpy > oend - 5 then Some (Ret (Output_Error, set_mem m1 (s\<lparr>r_op := d\<rparr>)))
        else if d < oend - 7 then
          rbind (LZ4_wildCopy8 m1 d s' (oend - 7)) (\<lambda>m. once (byte_copy m (oend - 7) (s' + (oend - 7 - d)) cpy) finish)
        else once (byte_copy m1 d s' cpy) finish
      else
        once (LZ4_memcpy m1 d s' 8) (\<lambda>m.
        if len > 16 then rbind (LZ4_wildCopy8 m (d + 8) (s' + 8) cpy) finish else finish m))"
    using first unfolding d_def s'_def op oend by (simp add: safe_copy_within_def Let_def)
  have cpy: "unat (op + len) = unat op + unat len" using len(2) by (simp add: unat_plus)
  have lims: "unat (oend - 12) = unat oend - 12" "unat (oend - 5) = unat oend - 5" "unat (oend - 7) = unat oend - 7"
    using room by (simp_all add: unat_minus)
  have gt: "op + len > oend - 12 \<longleftrightarrow> unat oend < unat op + unat len + 12" "op + len > oend - 5 \<longleftrightarrow> unat oend < unat op + unat len + 5"
      "d < oend - 7 \<longleftrightarrow> unat d + 7 < unat oend"
    unfolding word_less_nat_alt cpy lims using room by linarith+
  consider (far) "unat op + unat len + 12 \<le> unat oend" | (err) "unat oend < unat op + unat len + 5"
    | (tail) "unat oend < unat op + unat len + 12" "unat op + unat len + 5 \<le> unat oend" "unat d + 7 < unat oend"
    | (last) "unat oend < unat op + unat len + 12" "unat op + unat len + 5 \<le> unat oend" "unat oend \<le> unat d + 7"
    by linarith
  then show ?thesis
  proof cases
    case err
    then have "safe_copy_within K len offset s = Some (Ret (Output_Error, set_mem m1 (s\<lparr>r_op := d\<rparr>)))"
      unfolding run Let_def gt by auto
    then show ?thesis using w1 by blast
  next
    case tail
    have lim: "unat d < unat oend - 7" "unat (op + len) + 5 \<le> unat oend" using tail cpy by linarith+
    obtain m2 m3 where m3: "LZ4_wildCopy8 m1 d s' (oend - 7) = Some (Ret m2)"
        "byte_copy m2 (oend - 7) (s' + (oend - 7 - d)) (op + len) = Ret m3"
      and ok: "copy_ok m1 m3 d s' (unat (op + len) - unat d) W"
      using safe_tail_ok [OF refl lim(2,1), of m1 s'] rest top unfolding dW(1,2) by blast
    have "safe_copy_within K len offset s = Some (Ret (Safe_Loop, set_mem m3 (s\<lparr>r_op := op + len\<rparr>)))"
      unfolding run Let_def gt using tail m3 by (simp add: not_less)
    moreover have "unat len \<le> 8 + (unat (op + len) - unat d)" by (simp add: cpy d)
    ultimately show ?thesis by (rule fin [OF _ ok _ tail(2)])
  next
    case last
    define k where "k = unat (op + len) - unat d"
    have k: "k \<le> W" "unat len \<le> 8 + k" using last cpy d W by (auto simp: k_def)
    have "mapped_in m1 (unat d) (unat d + k)" "mapped_in m1 (unat s') (unat s' + k)"
      using mapped_in_mono [OF rest(1)] mapped_in_mono [OF rest(2)] k(1) by simp_all
    moreover have "unat d + k < 18446744073709551615" "unat s' + k < 18446744073709551615"
        "unat s' \<le> unat d \<or> unat d + k \<le> unat s'"
      using rest(3) k dW(1) top by linarith+
    ultimately obtain m2 where m2: "byte_copy m1 d s' (op + len) = Ret m2" "copy_ok m1 m2 d s' k k"
      using byte_copy_ok [OF k_def] by blast
    have "safe_copy_within K len offset s = Some (Ret (Safe_Loop, set_mem m2 (s\<lparr>r_op := op + len\<rparr>)))"
      unfolding run Let_def gt using last m2 by (simp add: not_less)
    moreover have "copy_ok m1 m2 d s' k W" using k(1) by (intro copy_ok_less [OF m2(2)]) simp_all
    ultimately show ?thesis using k(2) last(2) by (rule fin)
  next
    case far
    have W8: "8 \<le> W" using far len W by linarith
    have bounds: "unat d + 8 < 18446744073709551616" "unat s' + 8 < 18446744073709551616"
        "unat s' + 8 \<le> unat d \<or> unat d + 8 \<le> unat s'"
      using rest(3) d W top W8 by linarith+
    have "mapped_in m1 (unat d) (unat d + 8)" "mapped_in m1 (unat s') (unat s' + 8)"
      using mapped_in_mono [OF rest(1)] mapped_in_mono [OF rest(2)] W8 by simp_all
    then obtain m2 where m2: "LZ4_memcpy m1 d s' 8 = Ret m2" "copy_ok m1 m2 d s' 8 8"
      using LZ4_memcpy_ok [of 8 8 m1 d s'] bounds by auto
    show ?thesis
    proof (cases "len > 16")
      case False
      then have "unat len \<le> 8 + 8" by (simp add: word_less_nat_alt)
      have "safe_copy_within K len offset s = Some (Ret (Safe_Loop, set_mem m2 (s\<lparr>r_op := op + len\<rparr>)))"
        unfolding run Let_def gt using far m2 False by (simp add: not_less [of "unat oend"])
      moreover have "copy_ok m1 m2 d s' 8 W" using W8 by (intro copy_ok_less [OF m2(2)]) simp_all
      ultimately show ?thesis using \<open>unat len \<le> 8 + 8\<close> far by (intro fin) auto
    next
      case True
      then have L: "16 < unat len" by (simp add: word_less_nat_alt)
      have W16: "unat len - 16 + 7 \<le> W - 8" "8 \<le> W - 8" "8 + (W - 8) = W" using L far W by linarith+
      have at8: "unat (d + 8) = unat d + 8" "unat (s' + 8) = unat s' + 8" using bounds by (simp_all add: unat_plus)
      have n: "unat len - 16 = unat (op + len) - unat (d + 8)" using cpy d at8 by simp
      have all: "mapped_in m2 (unat d) (unat d + W)" "mapped_in m2 (unat s') (unat s' + W)"
        using rest(1,2) writes_in_mapped [OF copy_okD [OF m2(2)]] by simp_all
      have mp2: "mapped_in m2 (unat (d + 8)) (unat (d + 8) + (W - 8))" "mapped_in m2 (unat (s' + 8)) (unat (s' + 8) + (W - 8))"
        unfolding at8 using mapped_in_mono [OF all(1)] mapped_in_mono [OF all(2)] W16 by simp_all
      have bnd: "unat (d + 8) + (W - 8) < 18446744073709551608" "unat (s' + 8) + (W - 8) < 18446744073709551608"
          "unat (s' + 8) + 8 \<le> unat (d + 8) \<or> unat (d + 8) + (W - 8) \<le> unat (s' + 8)"
        unfolding at8 using rest(3) dW(1) W16 top by linarith+
      obtain m3 where m3: "LZ4_wildCopy8 m2 (d + 8) (s' + 8) (op + len) = Some (Ret m3)"
        and ok3: "copy_ok m2 m3 (d + of_nat 8) (s' + of_nat 8) (unat len - 16) (W - 8)"
        using LZ4_wildCopy8_ok [OF n W16(1,2) mp2 bnd] by auto
      have "copy_ok m1 m3 d s' (8 + (unat len - 16)) (8 + (W - 8))"
        by (rule copy_ok_append [OF m2(2) ok3]) (use rest(3) dW(1) W16 top in linarith)+
      then have ok: "copy_ok m1 m3 d s' (unat len - 8) W" using L W16(3) by simp
      have "safe_copy_within K len offset s = Some (Ret (Safe_Loop, set_mem m3 (s\<lparr>r_op := op + len\<rparr>)))"
        unfolding run Let_def gt using far m2 m3 True by (simp add: not_less)
      then show ?thesis using ok L far by (intro fin) auto
    qed
  qed
qed

section \<open>Blocks that are apart\<close>

text \<open>\<open>memmove\<close> of this program copies directly when there is a gap between the two blocks.\<close>

lemma memmove_apart:
  assumes n: "n = unat N" and mp: "mapped_in (wmem w) (unat d) (unat d + n)" "mapped_in (wmem w) (unat s) (unat s + n)"
    and top: "unat d + n < 18446744073709551615" "unat s + n < 18446744073709551615"
    and apart: "unat s + n < unat d \<or> unat d + n < unat s"
  shows "\<exists>m'. memmove BS pool d s N w = Ret (w\<lparr>wmem := m'\<rparr>) \<and> copy_ok (wmem w) m' d s n n"
proof -
  obtain bs where bs: "load_bytes (wmem w) s n = Ret bs"
    using mp(2) mapped_in_iff [of s n "wmem w"] top load_bytes_mapped [of "wmem w" s n] by auto
  have dis: "\<not> in_range d (unat N) x" if "in_range s (unat N) x" for x
    using that apart top n by (auto simp: in_range_nowrap)
  obtain m' where m': "LZ4_memcpy (wmem w) d s N = Ret m'" "copy_ok (wmem w) m' d s n n"
    using LZ4_memcpy_ok [OF n mp] top apart by auto
  have "memcpy (wmem w) d s N = store_bytes (wmem w) d bs"
    using memcpy_disjoint [of s N d "wmem w" bs] dis bs n by simp
  moreover have "store_bytes (wmem w) d bs = Ret m'"
    using m'(1) bs n by (simp add: LZ4_memcpy_def split: if_splits)
  moreover have "d + N < s \<or> s + N < d"
    using apart top n by (auto simp: word_less_nat_alt unat_plus)
  ultimately have "memmove BS pool d s N w = Ret (w\<lparr>wmem := m'\<rparr>)" by (simp add: memmove_def)
  then show ?thesis using m'(2) by blast
qed

end
