(* ===== verification/Lz4_Format.thy ===== *)
theory Lz4_Format
  imports Lz4_Copy
begin

text \<open>
  The LZ4 block format as a function on byte lists, without memory: what a block means, given the bytes
  that precede its output. A block is a series of sequences; a sequence is a token with two lengths
  of four bits, which go on in the following bytes when they are 15, some literals, and a match given
  by its distance. The last sequence ends after its literals. Here a match of distance 0 stands for
  zeros, as this decoder treats it.
\<close>

unbundle bit_operations_syntax

fun ext_length :: "u8 list \<Rightarrow> (nat \<times> u8 list) option" where
  "ext_length [] = None"
| "ext_length (b # bs) =
     (if b = 255 then map_option (\<lambda>(n, r). (255 + n, r)) (ext_length bs) else Some (unat b, bs))"

definition seq_length :: "nat \<Rightarrow> u8 list \<Rightarrow> (nat \<times> u8 list) option" where
  "seq_length h bs = (if h = 15 then map_option (\<lambda>(n, r). (15 + n, r)) (ext_length bs) else Some (h, bs))"

text \<open>The bytes a match of distance \<open>off\<close> and length \<open>n\<close> adds behind \<open>xs\<close>.\<close>

primrec match_bytes :: "nat \<Rightarrow> nat \<Rightarrow> u8 list \<Rightarrow> u8 list" where
  "match_bytes off 0 xs = []"
| "match_bytes off (Suc n) xs =
     (let b = (if off = 0 then 0 else xs ! (length xs - off)) in b # match_bytes off n (xs @ [b]))"

definition parse_match :: "u8 \<Rightarrow> u8 list \<Rightarrow> (nat \<times> nat \<times> u8 list) option" where
  "parse_match t bs =
     (if length bs < 2 then None
      else map_option (\<lambda>(ml, r). (le_val (take 2 bs), ml + 4, r)) (seq_length (unat (t AND 15)) (drop 2 bs)))"

lemma ext_length_shorter: "ext_length bs = Some (n, r) \<Longrightarrow> length r < length bs"
  by (induction bs arbitrary: n rule: ext_length.induct) (auto split: if_splits)

lemma seq_length_shorter: "seq_length h bs = Some (n, r) \<Longrightarrow> length r \<le> length bs"
  using ext_length_shorter by (fastforce simp: seq_length_def split: if_splits)

lemma parse_match_shorter: "parse_match t bs = Some (off, n, r) \<Longrightarrow> length r < length bs"
  using seq_length_shorter by (fastforce simp: parse_match_def split: if_splits)

text \<open>\<open>xs\<close> is what was there before the block, followed by the output so far.\<close>

function block_decode :: "u8 list \<Rightarrow> u8 list \<Rightarrow> u8 list option" where
  "block_decode xs [] = None"
| "block_decode xs (t # bs) =
     (case seq_length (unat (drop_bit 4 t)) bs of None \<Rightarrow> None
      | Some (ll, lits) \<Rightarrow>
          if length lits < ll then None
          else if length lits = ll then Some (xs @ lits)
          else case parse_match t (drop ll lits) of None \<Rightarrow> None
               | Some (off, ml, r) \<Rightarrow>
                   let ys = xs @ take ll lits in
                   if off > length ys then None else block_decode (ys @ match_bytes off ml ys) r)"
  by pat_completeness auto
termination
proof (relation "measure (\<lambda>(xs, bs). length bs)")
  fix xs :: "u8 list" and t bs p ll lits q off y ml r zs
  assume a: "seq_length (unat (drop_bit 4 t)) bs = Some p" "(ll, lits) = p"
    and b: "parse_match t (drop ll lits) = Some q" "(off, y) = q" "(ml, r) = y"
  have "length r < length (drop ll lits)" using parse_match_shorter b by blast
  moreover have "length lits \<le> length bs" using seq_length_shorter a by blast
  ultimately show "((zs @ match_bytes off ml zs, r), xs, t # bs) \<in> measure (\<lambda>(xs, bs). length bs)"
    by simp
qed simp

definition match_part :: "u8 \<Rightarrow> u8 list \<Rightarrow> u8 list \<Rightarrow> u8 list option" where
  "match_part t ys bs =
     (case parse_match t bs of None \<Rightarrow> None
      | Some (off, ml, r) \<Rightarrow> if off > length ys then None else block_decode (ys @ match_bytes off ml ys) r)"

definition literal_part :: "u8 \<Rightarrow> u8 list \<Rightarrow> nat \<Rightarrow> u8 list \<Rightarrow> u8 list option" where
  "literal_part t xs ll lits =
     (if length lits < ll then None
      else if length lits = ll then Some (xs @ lits)
      else match_part t (xs @ take ll lits) (drop ll lits))"

lemma block_decode_parts:
  "block_decode xs (t # bs) =
     (case seq_length (unat (drop_bit 4 t)) bs of None \<Rightarrow> None
      | Some (ll, lits) \<Rightarrow> literal_part t xs ll lits)"
  by (simp add: literal_part_def match_part_def Let_def split: option.split)

text \<open>The bytes of a match are the only solution of their equations.\<close>

lemma length_match_bytes [simp]: "length (match_bytes off n xs) = n"
  by (induction n arbitrary: xs) (simp_all add: Let_def)

lemma match_bytes_unique:
  assumes "length ys = n" and "off \<le> length xs"
    and "\<And>i. i < n \<Longrightarrow> ys ! i = (if off = 0 then 0 else (xs @ ys) ! (length xs + i - off))"
  shows "ys = match_bytes off n xs"
  using assms
proof (induction n arbitrary: xs ys)
  case (Suc n)
  then obtain y zs where ys: "ys = y # zs" by (cases ys) auto
  have y: "y = (if off = 0 then 0 else xs ! (length xs - off))"
    using Suc.prems(3) [of 0] Suc.prems(2) ys by (auto simp: nth_append)
  have "zs = match_bytes off n (xs @ [y])"
  proof (rule Suc.IH)
    fix i assume "i < n"
    then show "zs ! i = (if off = 0 then 0 else ((xs @ [y]) @ zs) ! (length (xs @ [y]) + i - off))"
      using Suc.prems(3) [of "Suc i"] ys by simp
  qed (use Suc.prems ys in auto)
  then show ?case using ys y by (simp add: Let_def)
qed simp

lemma match_bytes_append:
  "match_bytes off (m + n) xs = match_bytes off m xs @ match_bytes off n (xs @ match_bytes off m xs)"
  by (induction m arbitrary: xs) (simp_all add: Let_def)

lemma match_bytes_history:
  assumes "off = length out + c" "0 < off" "n \<le> c" "c \<le> length hist"
  shows "match_bytes off n (hist @ out) = take n (drop (length hist - c) hist)"
proof (rule match_bytes_unique [symmetric])
  fix i assume i: "i < n"
  have "length (hist @ out) + i - off = length hist - c + i" "length hist - c + i < length hist"
    using assms i by simp_all
  then show "take n (drop (length hist - c) hist) ! i
      = (if off = 0 then 0 else ((hist @ out) @ take n (drop (length hist - c) hist)) ! (length (hist @ out) + i - off))"
    using assms i by (simp add: nth_append)
qed (use assms in auto)

end
