(* ===== verification/Lz4_Block_Props.thy ===== *)
theory Lz4_Block_Props
  imports Lz4_Format
begin

text \<open>
  The block decoder of \<^verbatim>\<open>lib/lz4/lz4.c\<close> against the format: for every input it ends, stays inside its
  output, and when it reports success the output is what the block means.
\<close>

unbundle bit_operations_syntax

section \<open>The invariant\<close>

text \<open>
  The arguments of a call that decodes a whole block \<open>S\<close> into \<open>dst\<close>, with the bytes \<open>hist\<close> before the
  output, either in memory right before it or in a dictionary elsewhere. The memory before the call
  is \<open>m0\<close>. Buffers are below \<open>2 ^ 63\<close> and not in the first pages, and a byte apart.
\<close>

definition far_apart :: "nat \<Rightarrow> nat \<Rightarrow> nat \<Rightarrow> nat \<Rightarrow> bool" where
  "far_apart a b c d \<longleftrightarrow> b < c \<or> d < a"

definition history_ok :: "lz4_call \<Rightarrow> mem \<Rightarrow> u8 list \<Rightarrow> bool" where
  "history_ok K m0 hist \<longleftrightarrow>
     (if lz_dict K = usingExtDict then
        lz_lowPrefix K = lz_dst K \<and> lz_dictSize K = of_nat (length hist) \<and> length hist < 2 ^ 32
        \<and> length hist \<le> unat (lz_dictEnd K) \<and> unat (lz_dictEnd K) < 2 ^ 63
        \<and> load_bytes m0 (lz_dictEnd K - of_nat (length hist)) (length hist) = Ret hist
        \<and> far_apart (unat (lz_dictEnd K) - length hist) (unat (lz_dictEnd K)) (unat (lz_dst K)) (unat (lz_oend K))
      else
        lz_dictSize K = 0 \<and> length hist \<le> unat (lz_dst K)
        \<and> load_bytes m0 (lz_dst K - of_nat (length hist)) (length hist) = Ret hist
        \<and> (lz_lowPrefix K = lz_dst K - of_nat (length hist) \<and> lz_dict K \<noteq> withPrefix64k
           \<or> lz_lowPrefix K = lz_dst K - 65536 \<and> 65535 \<le> length hist))"

definition call_ok :: "lz4_call \<Rightarrow> mem \<Rightarrow> u8 list \<Rightarrow> u8 list \<Rightarrow> bool" where
  "call_ok K m0 hist S \<longleftrightarrow> lz_endOnInput K \<and> \<not> lz_partial K
     \<and> 0 < length S \<and> length S \<le> 2 ^ 24 \<and> load_bytes m0 (lz_src K) (length S) = Ret S
     \<and> unat (lz_iend K) = unat (lz_src K) + length S \<and> 64 \<le> unat (lz_src K) \<and> unat (lz_iend K) < 2 ^ 63
     \<and> unat (lz_dst K) \<le> unat (lz_oend K) \<and> 65600 \<le> unat (lz_dst K) \<and> unat (lz_oend K) < 2 ^ 63
     \<and> mapped_in m0 (unat (lz_dst K)) (unat (lz_oend K))
     \<and> far_apart (unat (lz_src K)) (unat (lz_iend K)) (unat (lz_dst K)) (unat (lz_oend K))
     \<and> history_ok K m0 hist"

definition writes_output :: "lz4_call \<Rightarrow> 'w world \<Rightarrow> 'w lz4_regs \<Rightarrow> bool" where
  "writes_output K w0 s \<longleftrightarrow> r_world s = w0\<lparr>wmem := r_mem s\<rparr>
     \<and> writes_in (wmem w0) (r_mem s) (unat (lz_dst K)) (unat (lz_oend K))"

text \<open>\<open>i\<close> bytes of the block are read and \<open>out\<close> is written.\<close>

definition at_seq :: "lz4_call \<Rightarrow> 'w world \<Rightarrow> u8 list \<Rightarrow> 'w lz4_regs \<Rightarrow> nat \<Rightarrow> u8 list \<Rightarrow> bool" where
  "at_seq K w0 S s i out \<longleftrightarrow> writes_output K w0 s
     \<and> load_bytes (r_mem s) (lz_dst K) (length out) = Ret out
     \<and> unat (r_op s) = unat (lz_dst K) + length out \<and> unat (r_op s) \<le> unat (lz_oend K)
     \<and> unat (r_ip s) = unat (lz_src K) + i \<and> i \<le> length S"

text \<open>The result of one turn of a loop that started with \<open>i\<close> bytes read; \<open>dec\<close> is the meaning of the block.\<close>

definition turn_ok :: "lz4_call \<Rightarrow> 'w world \<Rightarrow> u8 list \<Rightarrow> u8 list \<Rightarrow> u8 list option \<Rightarrow> nat
    \<Rightarrow> lz4_next \<times> 'w lz4_regs \<Rightarrow> bool" where
  "turn_ok K w0 hist S dec i r = (case r of (nxt, s) \<Rightarrow> (case nxt of
       Output_Error \<Rightarrow> writes_output K w0 s \<and> (\<exists>j\<le>length S. unat (r_ip s) = unat (lz_src K) + j)
     | Decoded \<Rightarrow> (\<exists>out. at_seq K w0 S s (length S) out \<and> dec = Some (hist @ out))
     | _ \<Rightarrow> (\<exists>j out. i < j \<and> j < length S \<and> at_seq K w0 S s j out \<and> dec = block_decode (hist @ out) (drop j S)
          \<and> (nxt = Fast_Loop \<longrightarrow> unat (r_op s) + 64 \<le> unat (lz_oend K)))))"

lemma call_okD:
  assumes "call_ok K m0 hist S"
  shows "lz_endOnInput K" "\<not> lz_partial K" "0 < length S" "length S \<le> 16777216"
    "load_bytes m0 (lz_src K) (length S) = Ret S"
    "unat (lz_iend K) = unat (lz_src K) + length S" "64 \<le> unat (lz_src K)" "unat (lz_iend K) < 9223372036854775808"
    "unat (lz_dst K) \<le> unat (lz_oend K)" "65600 \<le> unat (lz_dst K)" "unat (lz_oend K) < 9223372036854775808"
    "mapped_in m0 (unat (lz_dst K)) (unat (lz_oend K))"
    "unat (lz_iend K) < unat (lz_dst K) \<or> unat (lz_oend K) < unat (lz_src K)" "history_ok K m0 hist"
  using assms by (auto simp: call_ok_def far_apart_def)

lemma at_seqD:
  assumes "at_seq K w0 S s i out"
  shows "writes_output K w0 s" "load_bytes (r_mem s) (lz_dst K) (length out) = Ret out"
    "unat (r_op s) = unat (lz_dst K) + length out" "unat (r_op s) \<le> unat (lz_oend K)"
    "unat (r_ip s) = unat (lz_src K) + i" "i \<le> length S"
    "writes_in (wmem w0) (r_mem s) (unat (lz_dst K)) (unat (lz_oend K))"
  using assms by (simp_all add: at_seq_def writes_output_def)

lemma set_mem_simps [simp]:
  "r_ip (set_mem m s) = r_ip s" "r_op (set_mem m s) = r_op s" "r_world (set_mem m s) = (r_world s)\<lparr>wmem := m\<rparr>"
  by (simp_all add: set_mem_def)

text \<open>The input and the memory behind the output stay what they were.\<close>

lemma src_byte:
  assumes "call_ok K (wmem w0) hist S" and "writes_output K w0 s" and "i < length S"
  shows "r_mem s (lz_src K + of_nat i) = Some (S ! i)"
proof -
  note c = call_okD [OF assms(1)]
  have "unat (lz_src K + of_nat i) = unat (lz_src K) + i" using c assms(3) by (simp add: ptr)
  then have "r_mem s (lz_src K + of_nat i) = wmem w0 (lz_src K + of_nat i)"
    using assms(2,3) c(6,9,13) by (auto simp: writes_output_def writes_in_def)
  then show ?thesis using c(5) assms(3) by (simp add: load_bytes_iff)
qed

lemma addr_split: "unat p = unat a + n \<Longrightarrow> p = a + of_nat n" for p a :: addr
  by (metis add_diff_cancel_left' diff_add_cancel of_nat_unat unat_sub_if' ucast_id le_add1 add.commute)

lemma write_more:
  assumes "writes_output K w0 s" and "writes_in (r_mem s) m' lo hi" and "unat (lz_dst K) \<le> lo" "hi \<le> unat (lz_oend K)"
  shows "writes_output K w0 (set_mem m' s)" "writes_output K w0 (set_mem m' (s\<lparr>r_ip := ip\<rparr>))"
    "writes_output K w0 (set_mem m' (s\<lparr>r_op := op\<rparr>))" "writes_output K w0 (set_mem m' (s\<lparr>r_ip := ip, r_op := op\<rparr>))"
proof -
  have "writes_in (wmem w0) m' (unat (lz_dst K)) (unat (lz_oend K))"
    using assms 
    by (intro writes_in_trans [of "wmem w0" "r_mem s" "unat (lz_dst K)" "unat (lz_oend K)" m' lo hi])
      (auto simp: writes_output_def)
  moreover have "r_world s = w0\<lparr>wmem := r_mem s\<rparr>" using assms(1) by (simp add: writes_output_def)
  then have "(r_world s)\<lparr>wmem := m'\<rparr> = w0\<lparr>wmem := m'\<rparr>"
    by (cases "r_world s"; cases w0) simp
  ultimately show "writes_output K w0 (set_mem m' s)" "writes_output K w0 (set_mem m' (s\<lparr>r_ip := ip\<rparr>))"
    "writes_output K w0 (set_mem m' (s\<lparr>r_op := op\<rparr>))" "writes_output K w0 (set_mem m' (s\<lparr>r_ip := ip, r_op := op\<rparr>))"
    by (simp_all add: writes_output_def)
qed

text \<open>Appending bytes to the output.\<close>

lemma at_seq_extend:
  assumes c: "call_ok K (wmem w0) hist S" and s: "at_seq K w0 S s i out"
    and w: "writes_in (r_mem s) m' (unat (r_op s)) (unat (lz_oend K))"
    and ys: "length ys = n" "\<And>k. k < n \<Longrightarrow> m' (r_op s + of_nat k) = Some (ys ! k)"
    and op: "unat op' = unat (r_op s) + n" "unat op' \<le> unat (lz_oend K)"
    and ip: "unat ip' = unat (lz_src K) + j" "j \<le> length S"
  shows "at_seq K w0 S (set_mem m' (s\<lparr>r_ip := ip', r_op := op'\<rparr>)) j (out @ ys)"
proof -
  note a = at_seqD [OF s]
  have "load_bytes m' (lz_dst K) (length out) = load_bytes (r_mem s) (lz_dst K) (length out)"
  proof (rule load_bytes_cong)
    fix x assume "in_range (lz_dst K) (length out) x"
    then have "unat x < unat (r_op s)" using a(3) by (subst (asm) in_range_nowrap) (use a call_okD(11) [OF c] in auto)
    then show "m' x = r_mem s x" using w by (simp add: writes_in_def)
  qed
  moreover have "load_bytes m' (lz_dst K + of_nat (length out)) n = Ret ys"
    using ys addr_split [OF a(3)] by (simp add: load_bytes_iff)
  ultimately have "load_bytes m' (lz_dst K) (length out + n) = Ret (out @ ys)"
    using a(2) by (intro load_bytes_append) simp_all
  moreover have "writes_output K w0 (set_mem m' (s\<lparr>r_ip := ip', r_op := op'\<rparr>))"
    using write_more(4) [OF a(1) w] a(3) by simp
  ultimately show ?thesis using a op ip ys(1) by (simp add: at_seq_def)
qed

section \<open>Literals and matches\<close>

lemma literals_ok:
  assumes c: "call_ok K (wmem w0) hist S" and s: "at_seq K w0 S s i out"
    and copy: "copy_ok (r_mem s) m' (r_op s) (r_ip s) n W" and W: "unat (r_op s) + W \<le> unat (lz_oend K)" "n \<le> W"
    and src: "i + n \<le> length S" and n: "n = unat len"
  shows "at_seq K w0 S (set_mem m' (s\<lparr>r_ip := r_ip s + len, r_op := r_op s + len\<rparr>)) (i + n) (out @ take n (drop i S))"
proof (rule at_seq_extend [OF c s])
  note a = at_seqD [OF s] and b = call_okD [OF c]
  have w: "writes_in (r_mem s) m' (unat (r_op s)) (unat (r_op s) + W)" using copy by (simp add: copy_ok_def)
  then show w': "writes_in (r_mem s) m' (unat (r_op s)) (unat (lz_oend K))" using W by (auto elim: writes_in_mono)
  show "length (take n (drop i S)) = n" using src by simp
  fix k assume k: "k < n"
  have "m' (r_op s + of_nat k) = m' (r_ip s + of_nat k)" using copy k by (simp add: copy_ok_def copied_def)
  also have "r_ip s + of_nat k = lz_src K + of_nat (i + k)" using addr_split [OF a(5)] by simp
  also have "m' (lz_src K + of_nat (i + k)) = Some (S ! (i + k))"
    using src_byte [OF c write_more(1) [OF a(1) w'], of "i + k"] a(3) k src by simp
  finally show "m' (r_op s + of_nat k) = Some (take n (drop i S) ! k)" using k src by simp
qed (use at_seqD [OF s] call_okD [OF c] W src n in \<open>auto simp: ptr\<close>)

lemma history_byte:
  assumes c: "call_ok K (wmem w0) hist S" and s: "writes_output K w0 s"
    and "lz_dict K \<noteq> usingExtDict" "0 < j" "j \<le> length hist"
  shows "r_mem s (lz_dst K - of_nat j) = Some (hist ! (length hist - j))"
proof -
  note b = call_okD [OF c]
  have h: "length hist \<le> unat (lz_dst K)" and ld: "load_bytes (wmem w0) (lz_dst K - of_nat (length hist)) (length hist) = Ret hist"
    using b(14) assms(3) by (auto simp: history_ok_def)
  have "lz_dst K - of_nat (length hist) + of_nat (length hist - j) = lz_dst K - of_nat j"
    using assms(5) by (simp add: of_nat_diff)
  then have "wmem w0 (lz_dst K - of_nat j) = Some (hist ! (length hist - j))"
    using ld assms(4) unfolding load_bytes_iff
    by (metis assms(5) diff_less order_less_le_trans)
  moreover have "unat (lz_dst K - of_nat j) < unat (lz_dst K)" using h assms(4,5) b by (simp add: ptr)
  ultimately show ?thesis using s by (simp add: writes_output_def writes_in_def)
qed

text \<open>A match in the output or in the bytes right before it.\<close>

lemma match_seq_ok:
  assumes c: "call_ok K (wmem w0) hist S" and s: "at_seq K w0 S s i out"
    and m: "match_ok (r_mem s) m' (r_op s) off n W" and W: "unat (r_op s) + W \<le> unat (lz_oend K)" "n \<le> W"
    and off: "off \<le> length (hist @ out)" "lz_dict K \<noteq> usingExtDict \<or> off \<le> length out" and n: "n = unat len"
  shows "at_seq K w0 S (set_mem m' (s\<lparr>r_op := r_op s + len\<rparr>)) i (out @ match_bytes off n (hist @ out))"
proof -
  note a = at_seqD [OF s] and b = call_okD [OF c]
  define ys where "ys = map (\<lambda>k. the (m' (r_op s + of_nat k))) [0..<n]"
  have w: "writes_in (r_mem s) m' (unat (r_op s)) (unat (r_op s) + W)" using m by (simp add: match_ok_def)
  then have w': "writes_in (r_mem s) m' (unat (r_op s)) (unat (lz_oend K))" using W by (auto elim: writes_in_mono)
  have op: "unat (r_op s + len) = unat (r_op s) + n" using W n b by (simp add: ptr)
  have mp: "mapped_in m' (unat (lz_dst K)) (unat (lz_oend K))"
    using b(12) writes_in_mapped [OF a(7)] writes_in_mapped [OF w'] by simp
  have new: "m' (r_op s + of_nat k) = Some (ys ! k)" if "k < n" for k
    using mapped_inD [OF mp, of "r_op s + of_nat k"] that W a(3) b by (auto simp: ptr ys_def)
  have "at_seq K w0 S (set_mem m' (s\<lparr>r_ip := r_ip s, r_op := r_op s + len\<rparr>)) i (out @ ys)"
    using a new op W by (intro at_seq_extend [OF c s w', of ys n]) (auto simp: ys_def)
  then have s': "at_seq K w0 S (set_mem m' (s\<lparr>r_op := r_op s + len\<rparr>)) i (out @ ys)" by simp
  note a' = at_seqD [OF s']
  have "ys = match_bytes off n (hist @ out)"
  proof (rule match_bytes_unique [OF _ off(1)])
    show "length ys = n" by (simp add: ys_def)
    fix k assume k: "k < n"
    show "ys ! k = (if off = 0 then 0 else ((hist @ out) @ ys) ! (length (hist @ out) + k - off))"
    proof (cases "off = 0")
      case True
      then show ?thesis using m k new [OF k] by (simp add: match_ok_def)
    next
      case False
      then have "m' (r_op s + of_nat k) = m' (r_op s - of_nat off + of_nat k)"
        using m k by (simp add: match_ok_def copied_def)
      moreover have op: "r_op s = lz_dst K + of_nat (length out)" by (rule addr_split [OF a(3)])
      moreover have "m' (r_op s - of_nat off + of_nat k) = Some (((hist @ out) @ ys) ! (length (hist @ out) + k - off))"
      proof (cases "off \<le> length out + k")
        case True
        then have "r_op s - of_nat off + of_nat k = lz_dst K + of_nat (length out + k - off)"
          by (simp add: op of_nat_diff)
        moreover have "length out + k - off < length (out @ ys)" using False k by (simp add: ys_def)
        ultimately have "m' (r_op s - of_nat off + of_nat k) = Some ((out @ ys) ! (length out + k - off))"
          using a'(2) by (simp add: load_bytes_iff)
        moreover have "length (hist @ out) + k - off = length hist + (length out + k - off)" using True by simp
        ultimately show ?thesis by (simp only: append_assoc nth_append_length_plus)
      next
        case early: False
        define j where "j = off - (length out + k)"
        have j: "0 < j" "j \<le> length hist" "off = length out + k + j" using early off by (simp_all add: j_def)
        then have "lz_dict K \<noteq> usingExtDict" using off(2) by auto
        then have "m' (lz_dst K - of_nat j) = Some (hist ! (length hist - j))"
          using history_byte [OF c a'(1) _ j(1,2)] by simp
        moreover have addr: "r_op s - of_nat off + of_nat k = lz_dst K - of_nat j" by (simp add: op j(3))
        moreover have idx: "length (hist @ out) + k - off = length hist - j" using j by simp
        moreover have "((hist @ out) @ ys) ! (length hist - j) = hist ! (length hist - j)"
        proof -
          have "length hist - j < length hist" using j(1,2) by linarith
          then show ?thesis by (simp add: nth_append)
        qed
        ultimately show ?thesis unfolding addr idx by simp
      qed
      ultimately show ?thesis using False new [OF k] by simp
    qed
  qed
  then show ?thesis using s' by simp
qed

text \<open>A match in an external dictionary.\<close>

lemma dict_facts:
  assumes c: "call_ok K (wmem w0) hist S" and d: "lz_dict K = usingExtDict" and s: "writes_output K w0 s"
    and n: "n \<le> length hist"
  shows "unat (lz_dictEnd K - of_nat n) = unat (lz_dictEnd K) - n"
    and "mapped_in (r_mem s) (unat (lz_dictEnd K) - n) (unat (lz_dictEnd K))"
    and "\<And>k. k < n \<Longrightarrow> r_mem s (lz_dictEnd K - of_nat n + of_nat k) = Some (hist ! (length hist - n + k))"
    and "unat (lz_dictEnd K) < unat (lz_dst K) \<or> unat (lz_oend K) < unat (lz_dictEnd K) - n"
    and "unat (lz_dictEnd K) < 9223372036854775808" and "length hist \<le> unat (lz_dictEnd K)"
proof -
  let ?e = "lz_dictEnd K" and ?h = "length hist"
  have h: "?h \<le> unat ?e" "unat ?e < 9223372036854775808" "load_bytes (wmem w0) (?e - of_nat ?h) ?h = Ret hist"
    and far: "unat ?e < unat (lz_dst K) \<or> unat (lz_oend K) < unat ?e - ?h"
    using call_okD(14) [OF c] d by (auto simp: history_ok_def far_apart_def)
  show e: "unat (?e - of_nat n) = unat ?e - n" using h n by (simp add: ptr)
  show "unat ?e < unat (lz_dst K) \<or> unat (lz_oend K) < unat ?e - n" using far n by linarith
  show "unat ?e < 9223372036854775808" "?h \<le> unat ?e" using h by simp_all
  have eh: "unat (?e - of_nat ?h) = unat ?e - ?h" using h by (simp add: ptr)
  show "r_mem s (?e - of_nat n + of_nat k) = Some (hist ! (?h - n + k))" if k: "k < n" for k
  proof -
    have eq: "?e - of_nat n + of_nat k = ?e - of_nat ?h + of_nat (?h - n + k)" using n by (simp add: of_nat_diff)
    have "wmem w0 (?e - of_nat ?h + of_nat (?h - n + k)) = Some (hist ! (?h - n + k))"
      using h(3) k n unfolding load_bytes_iff by (metis add.commute add_diff_inverse_nat nat_add_left_cancel_less linorder_not_less)
    moreover have "unat (?e - of_nat n + of_nat k) = unat ?e - n + k"
      using unat_plus [of "?e - of_nat n" "of_nat k"] e k h n by (simp add: unat_of_nat_addr)
    then have "r_mem s (?e - of_nat n + of_nat k) = wmem w0 (?e - of_nat n + of_nat k)"
      using s far k n h(1) by (auto simp: writes_output_def writes_in_def)
    ultimately show ?thesis by (simp add: eq)
  qed
  have "mapped_in (wmem w0) (unat (?e - of_nat ?h)) (unat (?e - of_nat ?h) + ?h)"
    using mapped_in_iff [of "?e - of_nat ?h" ?h] load_mappedI [OF h(3)] eh h by simp
  then have "mapped_in (r_mem s) (unat ?e - ?h) (unat ?e)"
    using s h(1) writes_in_mapped unfolding eh writes_output_def by fastforce
  then show "mapped_in (r_mem s) (unat ?e - n) (unat ?e)" using n by (auto elim: mapped_in_mono)
qed

lemma turn_okI:
  assumes "at_seq K w0 S s j out" "i < j" "j < length S" "dec = block_decode (hist @ out) (drop j S)"
    and "nxt = Safe_Loop \<or> nxt = Fast_Loop \<and> unat (r_op s) + 64 \<le> unat (lz_oend K)"
  shows "turn_ok K w0 hist S dec i (nxt, s)"
  using assms by (auto simp: turn_ok_def intro!: exI [of _ j] exI [of _ out])

lemma error_ok:
  assumes "at_seq K w0 S s j out"
  shows "turn_ok K w0 hist S dec i (Output_Error, s)"
  using at_seqD [OF assms] by (auto simp: turn_ok_def)

lemma ext_dict_match_ok:
  assumes c: "call_ok K (wmem w0) hist S" and s: "at_seq K w0 S s i out" and d: "lz_dict K = usingExtDict"
    and off: "off = unat offset" "length out < off" "off \<le> length hist + length out" "off < 65536"
    and n: "n = unat len" "n < 8589934592" and i: "i0 < i" "i < length S"
    and dec: "dec = block_decode (hist @ out @ match_bytes off n (hist @ out)) (drop i S)"
    and again: "again = Safe_Loop \<or> again = Fast_Loop \<and> unat (r_op s) + n + 64 \<le> unat (lz_oend K)"
  shows "\<exists>r. ext_dict_match BS pool K again len (r_op s - offset) s = Some (Ret r) \<and> turn_ok K w0 hist S dec i0 r"
proof -
  note a = at_seqD [OF s] and b = call_okD [OF c]
  define m where "m = off - length out"
  have m: "0 < m" "off = length out + m" "m \<le> length hist" using off by (simp_all add: m_def)
  note df = dict_facts [OF c d a(1) m(3)]
  have low: "lz_lowPrefix K = lz_dst K" using b(14) d by (simp add: history_ok_def)
  have "unat (r_op s - offset) = unat (r_op s) - off" using off b a by (simp add: unat_minus)
  then have copySize: "unat (lz_lowPrefix K - (r_op s - offset)) = m"
    using m a(3) b(10) off unfolding low by (subst unat_minus) (simp_all)
  define cs where "cs = lz_lowPrefix K - (r_op s - offset)"
  have cs: "unat cs = m" "cs = of_nat m" using copySize by (auto simp: cs_def intro!: word_eq_unatI simp: ptr)
  have end5: "r_op s + len > lz_oend K - 5 \<longleftrightarrow> unat (lz_oend K) < unat (r_op s) + n + 5"
    using b(9-11) a(4) n by (simp add: ptr) linarith
  show ?thesis
  proof (cases "r_op s + len > lz_oend K - 5")
    case True
    then show ?thesis using b(2) error_ok [OF s] by (simp add: ext_dict_match_def Let_def)
  next
    case False
    then have fits: "unat (r_op s) + n + 5 \<le> unat (lz_oend K)" using end5 by simp
    have op: "unat (r_op s + of_nat k) = unat (r_op s) + k" if "k \<le> n" for k
      using that fits b(11) by (simp add: ptr)
    have mpd: "mapped_in (r_mem s) (unat (r_op s)) (unat (r_op s) + n)"
      using b(12) writes_in_mapped [OF a(7)] a(3) fits by (auto elim: mapped_in_mono)
    have new: "m' (r_op s + of_nat k) = Some (drop (length hist - m) hist ! k)"
      if cp: "copy_ok (r_mem s) m' (r_op s) (lz_dictEnd K - cs) j j" and k: "k < j" "j \<le> n" "j \<le> m" for m' j k
    proof -
      have "m' (r_op s + of_nat k) = m' (lz_dictEnd K - of_nat m + of_nat k)"
        using cp k by (simp add: copy_ok_def copied_def cs(2))
      moreover have "unat (lz_dictEnd K - of_nat m + of_nat k) = unat (lz_dictEnd K) - m + k"
        using df(1,5,6) m(3) k by (simp add: ptr)
      then have "m' (lz_dictEnd K - of_nat m + of_nat k) = r_mem s (lz_dictEnd K - of_nat m + of_nat k)"
        using cp df(4,6) k m(3) fits a(3) by (auto simp: copy_ok_def writes_in_def)
      ultimately show ?thesis using df(3) [of k] k m(3) by simp
    qed
    show ?thesis
    proof (cases "len \<le> cs")
      case True
      then have nm: "n \<le> m" using cs n by (simp add: word_le_nat_alt)
      have s1: "unat (lz_dictEnd K - cs) = unat (lz_dictEnd K) - m" using df(1) cs(2) by simp
      have mps: "mapped_in (r_mem s) (unat (lz_dictEnd K - cs)) (unat (lz_dictEnd K - cs) + n)"
        unfolding s1 using df(2,6) nm m(3) by (auto elim!: mapped_in_mono)
      have bounds: "unat (r_op s) + n < 18446744073709551615" "unat (lz_dictEnd K - cs) + n < 18446744073709551615"
          "unat (lz_dictEnd K - cs) + n < unat (r_op s) \<or> unat (r_op s) + n < unat (lz_dictEnd K - cs)"
        unfolding s1 using fits df(4-6) nm m(3) b(11) a(3) by linarith+
      obtain m' where m': "memmove BS pool (r_op s) (lz_dictEnd K - cs) len (r_world s) = Ret ((r_world s)\<lparr>wmem := m'\<rparr>)"
        and cp: "copy_ok (r_mem s) m' (r_op s) (lz_dictEnd K - cs) n n"
        using memmove_apart [OF n(1) mpd mps bounds] by blast
      have "writes_in (r_mem s) m' (unat (r_op s)) (unat (lz_oend K))"
        using cp fits by (auto simp: copy_ok_def elim: writes_in_mono)
      then have "at_seq K w0 S (set_mem m' (s\<lparr>r_ip := r_ip s, r_op := r_op s + len\<rparr>)) i (out @ take n (drop (length hist - m) hist))"
        using new [OF cp] nm m(3) op [of n] n fits a(5,6)
        by (intro at_seq_extend [OF c s, where n = n]) auto
      then have s': "at_seq K w0 S (set_mem m' (s\<lparr>r_op := r_op s + len\<rparr>)) i (out @ match_bytes off n (hist @ out))"
        using match_bytes_history [of off out m n hist] m nm by simp
      have run: "ext_dict_match BS pool K again len (r_op s - offset) s = Some (Ret (again, set_mem m' (s\<lparr>r_op := r_op s + len\<rparr>)))"
        using False True m' by (simp add: ext_dict_match_def Let_def cs_def set_mem_def)
      have "turn_ok K w0 hist S dec i0 (again, set_mem m' (s\<lparr>r_op := r_op s + len\<rparr>))"
        using again op [of n] n by (intro turn_okI [OF s' i dec]) auto
      then show ?thesis using run by blast
    next
      case far: False
      then have mn: "m < n" using cs n by (simp add: word_le_nat_alt)
      have s1: "unat (lz_dictEnd K - cs) = unat (lz_dictEnd K) - m" using df(1) cs(2) by simp
      have mps: "mapped_in (r_mem s) (unat (lz_dictEnd K - cs)) (unat (lz_dictEnd K - cs) + m)"
        unfolding s1 using df(2,6) m(3) by simp
      have mpd1: "mapped_in (r_mem s) (unat (r_op s)) (unat (r_op s) + m)" using mpd mn by (auto elim: mapped_in_mono)
      have bounds: "unat (r_op s) + m < 18446744073709551616" "unat (lz_dictEnd K - cs) + m < 18446744073709551616"
          "unat (lz_dictEnd K - cs) + m \<le> unat (r_op s) \<or> unat (r_op s) + m \<le> unat (lz_dictEnd K - cs)"
        unfolding s1 using fits df(4-6) mn m(3) b(11) a(3) by linarith+
      obtain m1 where m1: "LZ4_memcpy (r_mem s) (r_op s) (lz_dictEnd K - cs) cs = Ret m1"
        and cp: "copy_ok (r_mem s) m1 (r_op s) (lz_dictEnd K - cs) m m"
        using LZ4_memcpy_ok [OF cs(1) [symmetric] mpd1 mps bounds] by blast
      define op1 where "op1 = r_op s + cs"
      have op1: "unat op1 = unat (r_op s) + m" using op [of m] mn cs(2) by (simp add: op1_def)
      define s2 where "s2 = set_mem m1 (s\<lparr>r_op := op1\<rparr>)"
      have w1: "writes_in (r_mem s) m1 (unat (r_op s)) (unat (lz_oend K))"
        using cp fits mn by (auto simp: copy_ok_def elim: writes_in_mono)
      have "at_seq K w0 S (set_mem m1 (s\<lparr>r_ip := r_ip s, r_op := op1\<rparr>)) i (out @ drop (length hist - m) hist)"
        using new [OF cp] mn m(3) op1 fits a(5,6)
        by (intro at_seq_extend [OF c s w1, where n = m]) auto
      then have s2: "at_seq K w0 S s2 i (out @ match_bytes off m (hist @ out))"
        using match_bytes_history [of off out m m hist] m by (simp add: s2_def)
      have r: "unat (len - cs) = n - m" using mn cs(1) n(1) by (simp add: unat_minus)
      define rest where "rest = n - m"
      have rest: "0 < rest" "unat op1 + rest + 5 \<le> unat (lz_oend K)" "m + rest = n"
        using mn op1 fits by (simp_all add: rest_def)
      have e: "unat (op1 + (len - cs)) = unat op1 + rest" "op1 + (len - cs) = r_op s + len"
        using unat_plus [of op1 "len - cs"] r rest b(11) rest_def by (simp, simp add: op1_def)
      have below: "unat op1 = unat (lz_dst K) + off" using op1 a(3) m(2) by simp
      have m1w: "mapped_in m1 (unat (lz_dst K)) (unat (lz_oend K))"
        using b(12) writes_in_mapped [OF a(7)] writes_in_mapped [OF w1] by simp
      have mp2: "mapped_in m1 (unat op1) (unat op1 + rest)" "mapped_in m1 (unat (lz_dst K)) (unat (lz_dst K) + rest)"
        using mapped_in_mono [OF m1w] rest below by simp_all
      have gt: "len - cs > op1 - lz_lowPrefix K \<longleftrightarrow> off < rest"
        using below r by (simp add: low word_less_nat_alt unat_minus rest_def)
      have top: "unat op1 + rest < 18446744073709551615" "unat (lz_dst K) + rest < 18446744073709551615" "unat (lz_dst K) \<le> unat op1"
        using rest below b(11) by linarith+
      have "\<exists>m2. (if len - cs > op1 - lz_lowPrefix K then byte_copy m1 op1 (lz_lowPrefix K) (op1 + (len - cs))
            else LZ4_memcpy m1 op1 (lz_lowPrefix K) (len - cs)) = Ret m2 \<and> copy_ok m1 m2 op1 (lz_dst K) rest rest"
      proof (cases "off < rest")
        case True
        have "rest = unat (op1 + (len - cs)) - unat op1" using e(1) by simp
        from byte_copy_ok [OF this mp2 top(1,2)] top(3) True show ?thesis unfolding low gt [unfolded low] by simp
      next
        case False
        have "rest = unat (len - cs)" using r by (simp add: rest_def)
        from LZ4_memcpy_ok [OF this mp2] top False below show ?thesis unfolding low gt [unfolded low] by simp
      qed
      then obtain m2 where m2: "(if len - cs > op1 - lz_lowPrefix K then byte_copy m1 op1 (lz_lowPrefix K) (op1 + (len - cs))
            else LZ4_memcpy m1 op1 (lz_lowPrefix K) (len - cs)) = Ret m2" "copy_ok m1 m2 op1 (lz_dst K) rest rest" by blast
      have "lz_dst K = op1 - of_nat off" using addr_split [OF below] by simp
      then have ok: "match_ok (r_mem s2) m2 (r_op s2) off rest rest"
        using copy_ok_match [of m1 m2 op1 off rest rest] m2(2) m by (simp add: s2_def)
      have "at_seq K w0 S (set_mem m2 (s2\<lparr>r_op := r_op s2 + (len - cs)\<rparr>)) i
          ((out @ match_bytes off m (hist @ out)) @ match_bytes off rest (hist @ out @ match_bytes off m (hist @ out)))"
        using rest m r by (intro match_seq_ok [OF c s2 ok]) (auto simp: s2_def rest_def)
      moreover have "set_mem m2 (s2\<lparr>r_op := r_op s2 + (len - cs)\<rparr>) = set_mem m2 (s\<lparr>r_op := r_op s + len\<rparr>)"
        using e(2) by (simp add: s2_def set_mem_def)
      ultimately have s3: "at_seq K w0 S (set_mem m2 (s\<lparr>r_op := r_op s + len\<rparr>)) i (out @ match_bytes off n (hist @ out))"
        using match_bytes_append [of off m rest "hist @ out"] rest(3) by simp
      have run: "ext_dict_match BS pool K again len (r_op s - offset) s = Some (Ret (again, set_mem m2 (s\<lparr>r_op := r_op s + len\<rparr>)))"
      proof -
        have "ext_dict_match BS pool K again len (r_op s - offset) s =
            once (LZ4_memcpy (r_mem s) (r_op s) (lz_dictEnd K - cs) cs) (\<lambda>m.
            once (if len - cs > op1 - lz_lowPrefix K then byte_copy m op1 (lz_lowPrefix K) (op1 + (len - cs))
              else LZ4_memcpy m op1 (lz_lowPrefix K) (len - cs)) (\<lambda>m.
            Some (Ret (again, set_mem m (s\<lparr>r_op := op1 + (len - cs)\<rparr>)))))"
          using False far unfolding cs_def op1_def ext_dict_match_def Let_def by simp
        then show ?thesis by (simp only: m1 e(2) m2(1) [unfolded e(2)] rbind_simps)
      qed
      have "turn_ok K w0 hist S dec i0 (again, set_mem m2 (s\<lparr>r_op := r_op s + len\<rparr>))"
        using again op [of n] n by (intro turn_okI [OF s3 i dec]) auto
      then show ?thesis using run by blast
    qed
  qed
qed

section \<open>Lengths\<close>

lemma read_length_bytes_ok:
  assumes src: "\<And>k. k < length S \<Longrightarrow> m (src + of_nat k) = Some (S ! k)"
    and "unat src + length S < 9223372036854775808" and lc: "unat lencheck \<le> unat src + length S"
    and "i < length S" "unat ip = unat src + i" and "unat l + 255 * (length S - i) < 4294967296"
  shows "\<exists>l' ip' err j n. read_length_bytes m ip lencheck True l = Some (Ret (l', ip', err))
    \<and> unat ip' = unat src + j \<and> i < j \<and> j \<le> length S \<and> unat l' = unat l + n \<and> n < 4294967296
    \<and> (err = ok \<and> j < length S \<and> unat ip' < unat lencheck \<and> ext_length (drop i S) = Some (n, drop j S)
       \<or> err = loop_error \<and> unat lencheck \<le> unat ip' \<and> (n = 0 \<longrightarrow> ext_length (drop i S) = Some (0, drop j S)))"
  using assms(4-)
proof (induction "length S - i" arbitrary: i ip l)
  case 0
  then show ?case by simp
next
  case (Suc x)
  let ?b = "S ! i"
  have ip: "ip = src + of_nat i" by (rule addr_split [OF Suc.prems(2)])
  then have ld: "load_w m ip = Ret ?b" using src [OF Suc.prems(1)] by (simp add: load_w_byte)
  have ip1: "unat (ip + 1) = unat src + Suc i" using Suc.prems assms(2) by (simp add: unat_plus)
  have bv: "unat ?b < 256" by (rule unat_u8_lt)
  have left: "length S - i = Suc (length S - Suc i)" using Suc.prems(1) by simp
  have l1: "unat (l + ucast ?b) = unat l + unat ?b"
  proof -
    have "unat l + unat ?b < 2 ^ 32" using Suc.prems(3) bv left by simp
    then show ?thesis by (simp add: unat_word_ariths)
  qed
  have full: "?b = 255 \<longleftrightarrow> unat ?b = 255" by (auto intro: word_eq_unatI)
  have dr: "drop i S = ?b # drop (Suc i) S" using Suc.prems(1) by (simp add: Cons_nth_drop_Suc)
  show ?case
  proof (cases "ip + 1 \<ge> lencheck")
    case True
    have "read_length_bytes m ip lencheck True l = Some (Ret (l + ucast ?b, ip + 1, loop_error))"
      using True ld by (subst read_length_bytes.simps) simp
    then show ?thesis using True ip1 l1 bv Suc.prems(1) full dr
      by (intro exI [of _ "l + ucast ?b"] exI [of _ "ip + 1"] exI [of _ loop_error] exI [of _ "Suc i"] exI [of _ "unat ?b"])
        (auto simp: word_le_nat_alt)
  next
    case False
    then have more: "Suc i < length S" "unat (ip + 1) < unat lencheck" using ip1 lc by (simp_all add: word_le_nat_alt)
    show ?thesis
    proof (cases "?b = 255")
      case short: False
      have "read_length_bytes m ip lencheck True l = Some (Ret (l + ucast ?b, ip + 1, ok))"
        using False short ld by (subst read_length_bytes.simps) simp
      then show ?thesis using ip1 l1 bv more short dr
        by (intro exI [of _ "l + ucast ?b"] exI [of _ "ip + 1"] exI [of _ ok] exI [of _ "Suc i"] exI [of _ "unat ?b"]) auto
    next
      case True
      have run: "read_length_bytes m ip lencheck True l = read_length_bytes m (ip + 1) lencheck True (l + ucast ?b)"
        using False True ld by (subst read_length_bytes.simps) simp
      have b255: "unat ?b = 255" using True full by simp
      have "unat (l + ucast ?b) + 255 * (length S - Suc i) < 4294967296"
        using Suc.prems(3) l1 b255 left by simp
      then have pre: "x = length S - Suc i" "unat (l + ucast ?b) + 255 * (length S - Suc i) < 4294967296"
        using Suc.hyps(2) by simp_all
      obtain l' ip' err j n where r: "read_length_bytes m (ip + 1) lencheck True (l + ucast ?b) = Some (Ret (l', ip', err))"
        "unat ip' = unat src + j" "Suc i < j" "j \<le> length S" "unat l' = unat (l + ucast ?b) + n"
        "err = ok \<and> j < length S \<and> unat ip' < unat lencheck \<and> ext_length (drop (Suc i) S) = Some (n, drop j S)
          \<or> err = loop_error \<and> unat lencheck \<le> unat ip' \<and> (n = 0 \<longrightarrow> ext_length (drop (Suc i) S) = Some (0, drop j S))"
        using Suc.hyps(1) [OF pre(1) more(1) ip1 pre(2)] by blast
      have "255 + n < 4294967296" using r(5) l1 b255 unsigned_less [of l', where ?'a = nat] by simp
      then show ?thesis using r run l1 b255 True dr
        by (intro exI [of _ l'] exI [of _ ip'] exI [of _ err] exI [of _ j] exI [of _ "255 + n"]) auto
    qed
  qed
qed

section \<open>One turn\<close>

text \<open>What the tests of the offset establish.\<close>

lemma match_pointer:
  assumes "call_ok K (wmem w0) hist S" and "at_seq K w0 S s i out" and "unat offset < 65536"
  shows "unat (r_op s - offset) + unat offset = unat (lz_dst K) + length out" and "unat offset \<le> unat (r_op s)"
proof -
  show "unat offset \<le> unat (r_op s)" using assms call_okD(10) at_seqD(3) by fastforce
  then show "unat (r_op s - offset) + unat offset = unat (lz_dst K) + length out"
    using at_seqD(3) [OF assms(2)] by (simp add: unat_minus)
qed

lemma low_prefix:
  assumes "call_ok K (wmem w0) hist S"
  shows "lz_dict K = usingExtDict \<Longrightarrow> lz_lowPrefix K = lz_dst K \<and> unat (lz_dictSize K) = length hist \<and> length hist < 4294967296"
    and "lz_dict K \<noteq> usingExtDict \<Longrightarrow> lz_dictSize K = 0 \<and> length hist \<le> unat (lz_dst K)
      \<and> (unat (lz_lowPrefix K) + length hist = unat (lz_dst K) \<and> lz_dict K \<noteq> withPrefix64k \<or> 65535 \<le> length hist)"
proof -
  note h = call_okD(14) [OF assms, unfolded history_ok_def]
  show "lz_dict K = usingExtDict \<Longrightarrow> lz_lowPrefix K = lz_dst K \<and> unat (lz_dictSize K) = length hist \<and> length hist < 4294967296"
    using h by (auto simp: unat_of_nat_addr)
  assume "lz_dict K \<noteq> usingExtDict"
  then have h': "lz_dictSize K = 0" "length hist \<le> unat (lz_dst K)"
    "lz_lowPrefix K = lz_dst K - of_nat (length hist) \<and> lz_dict K \<noteq> withPrefix64k \<or> 65535 \<le> length hist"
    using h by auto
  have "unat (lz_dst K - of_nat (length hist)) + length hist = unat (lz_dst K)"
    using h'(2) call_okD(9,11) [OF assms] by (simp add: ptr)
  with h' show "lz_dictSize K = 0 \<and> length hist \<le> unat (lz_dst K)
      \<and> (unat (lz_lowPrefix K) + length hist = unat (lz_dst K) \<and> lz_dict K \<noteq> withPrefix64k \<or> 65535 \<le> length hist)" by auto
qed

lemma offset_checked:
  assumes c: "call_ok K (wmem w0) hist S" and s: "at_seq K w0 S s i out" and off: "unat offset < 65536"
    and chk: "\<not> (lz_checkOffset K \<and> r_op s - offset + lz_dictSize K < lz_lowPrefix K)"
  shows "unat offset \<le> length (hist @ out)"
    and "lz_dict K = usingExtDict \<Longrightarrow> r_op s - offset < lz_lowPrefix K \<longleftrightarrow> length out < unat offset"
proof -
  note b = call_okD [OF c] and mp = match_pointer [OF c s off]
  show "lz_dict K = usingExtDict \<Longrightarrow> r_op s - offset < lz_lowPrefix K \<longleftrightarrow> length out < unat offset"
    using low_prefix(1) [OF c] mp(1) by (auto simp: word_less_nat_alt)
  show "unat offset \<le> length (hist @ out)"
  proof (cases "lz_dict K = usingExtDict")
    case True
    then have l: "lz_lowPrefix K = lz_dst K" "unat (lz_dictSize K) = length hist" "length hist < 4294967296"
      using low_prefix(1) [OF c] by auto
    show ?thesis
    proof (cases "length hist < 65536")
      case small: True
      then have "lz_checkOffset K" using b(1) l by (simp add: lz_checkOffset_def word_less_nat_alt)
      then have "unat (lz_dst K) \<le> unat (r_op s - offset + lz_dictSize K)"
        using chk l by (simp add: word_less_nat_alt)
      also have "\<dots> = unat (r_op s - offset) + length hist"
        using l mp(1) b at_seqD(4) [OF s] at_seqD(3) [OF s] by (simp add: unat_plus)
      finally show ?thesis using mp(1) by simp
    qed (use off in simp)
  next
    case False
    note l = low_prefix(2) [OF c False]
    then have "lz_checkOffset K" using b(1) by (simp add: lz_checkOffset_def)
    then have "unat (lz_lowPrefix K) \<le> unat (r_op s - offset)" using chk l by (simp add: word_less_nat_alt)
    then show ?thesis using l mp(1) off by auto
  qed
qed

lemma offset_near:
  assumes c: "call_ok K (wmem w0) hist S" and s: "at_seq K w0 S s i out" and off: "unat offset < 65536"
    and near: "lz_dict K = withPrefix64k \<or> r_op s - offset \<ge> lz_lowPrefix K"
  shows "unat offset \<le> length (hist @ out)" and "lz_dict K \<noteq> usingExtDict \<or> unat offset \<le> length out"
proof -
  note mp = match_pointer [OF c s off]
  show "lz_dict K \<noteq> usingExtDict \<or> unat offset \<le> length out"
    using near mp(1) low_prefix(1) [OF c] by (cases "lz_dict K") (auto simp: word_le_nat_alt)
  then show "unat offset \<le> length (hist @ out)"
    using near mp(1) low_prefix(2) [OF c] off by (cases "lz_dict K") (auto simp: word_le_nat_alt)
qed

text \<open>A match that is copied inside the output.\<close>

lemma mapped_back:
  assumes c: "call_ok K (wmem w0) hist S" and s: "at_seq K w0 S s i out" and off: "off \<le> length (hist @ out)" "off < 65536"
    and near: "lz_dict K \<noteq> usingExtDict \<or> off \<le> length out"
  shows "mapped_in (r_mem s) (unat (r_op s) - off) (unat (lz_oend K))"
proof -
  note b = call_okD [OF c] and a = at_seqD [OF s]
  have out: "mapped_in (r_mem s) (unat (lz_dst K)) (unat (lz_oend K))" using b(12) writes_in_mapped [OF a(7)] by simp
  show ?thesis
    unfolding mapped_in_def
  proof (intro allI impI)
    fix x :: addr assume x: "unat (r_op s) - off \<le> unat x \<and> unat x < unat (lz_oend K)"
    show "r_mem s x \<noteq> None"
    proof (cases "unat (lz_dst K) \<le> unat x")
      case True
      then show ?thesis using out x by (simp add: mapped_in_def)
    next
      case False
      define j where "j = unat (lz_dst K) - unat x"
      have j: "0 < j" "unat x + j = unat (lz_dst K)" using False by (simp_all add: j_def)
      then have "j \<le> length hist" "lz_dict K \<noteq> usingExtDict" using x a(3) off near by auto
      moreover have "x = lz_dst K - of_nat j" using addr_split [of "lz_dst K" x j] j by simp
      ultimately show ?thesis using history_byte [OF c a(1) _ j(1)] by simp
    qed
  qed
qed

definition match_dec :: "u8 list \<Rightarrow> u8 list \<Rightarrow> u8 list \<Rightarrow> nat \<Rightarrow> nat \<Rightarrow> nat \<Rightarrow> u8 list option" where
  "match_dec hist out S i off n =
     (if off > length (hist @ out) then None
      else block_decode ((hist @ out) @ match_bytes off n (hist @ out)) (drop i S))"

lemma safe_match_copy_ok:
  assumes c: "call_ok K (wmem w0) hist S" and s: "at_seq K w0 S s i out" and i: "i0 < i" "i < length S"
    and off: "off = unat offset" "off < 65536" and n: "n = unat len" "4 \<le> n" "n < 8589934592"
    and room: "unat (r_op s) + 12 \<le> unat (lz_oend K)" and dec: "dec = match_dec hist out S i off n"
  shows "\<exists>r. safe_match_copy BS pool K len offset s = Some (Ret r) \<and> turn_ok K w0 hist S dec i0 r"
proof (cases "lz_checkOffset K \<and> r_op s - offset + lz_dictSize K < lz_lowPrefix K")
  case True
  then show ?thesis using error_ok [OF s] by (simp add: safe_match_copy_def Let_def)
next
  case False
  note b = call_okD [OF c] and a = at_seqD [OF s]
  note chk = offset_checked [OF c s off(2) [unfolded off(1)] False]
  have dec': "dec = block_decode (hist @ out @ match_bytes off n (hist @ out)) (drop i S)"
    using dec chk(1) off(1) by (simp add: match_dec_def)
  show ?thesis
  proof (cases "lz_dict K = usingExtDict \<and> r_op s - offset < lz_lowPrefix K")
    case True
    then have "length out < off" "off \<le> length hist + length out" using chk off by simp_all
    moreover have "safe_match_copy BS pool K len offset s = ext_dict_match BS pool K Safe_Loop len (r_op s - offset) s"
      using True False by (auto simp: safe_match_copy_def Let_def)
    ultimately show ?thesis
      using ext_dict_match_ok [OF c s _ off(1) _ _ off(2) n(1,3) i dec', of Safe_Loop BS pool] True by simp
  next
    case near: False
    then have near': "lz_dict K \<noteq> usingExtDict \<or> off \<le> length out" using chk(2) off by auto
    have run: "safe_match_copy BS pool K len offset s = safe_copy_within K len offset s"
      using False near b(2) by (auto simp: safe_match_copy_def Let_def)
    have offop: "off \<le> unat (r_op s)" using match_pointer(2) [OF c s] off by simp
    have bounds: "unat (r_op s) + unat len < 18446744073709551616" "unat (lz_oend K) < 18446744073709551600"
      using a(4) b(11) n by linarith+
    have mp: "mapped_in (r_mem s) (unat (r_op s) - off) (unat (lz_oend K))"
      using mapped_back [OF c s _ off(2) near'] chk(1) off(1) by simp
    obtain nxt m' op' where r: "safe_copy_within K len offset s = Some (Ret (nxt, set_mem m' (s\<lparr>r_op := op'\<rparr>)))"
      and w: "writes_in (r_mem s) m' (unat (r_op s)) (unat (lz_oend K))"
      and cases: "nxt = Output_Error \<or> nxt = Safe_Loop \<and> op' = r_op s + len
        \<and> unat (r_op s) + unat len + 5 \<le> unat (lz_oend K)
        \<and> match_ok (r_mem s) m' (r_op s) off (unat len) (unat (lz_oend K) - unat (r_op s))"
      using safe_copy_within_ok [OF off(1) offop refl refl n(2) [unfolded n(1)] bounds(1) room mp bounds(2)] by blast
    show ?thesis
      using cases
    proof
      assume "nxt = Output_Error"
      moreover have "writes_output K w0 (set_mem m' (s\<lparr>r_op := op'\<rparr>))" using write_more(3) [OF a(1) w] a(3) by simp
      ultimately have "turn_ok K w0 hist S dec i0 (nxt, set_mem m' (s\<lparr>r_op := op'\<rparr>))"
        using a(5,6) by (auto simp: turn_ok_def)
      then show ?thesis using run r by auto
    next
      assume ok: "nxt = Safe_Loop \<and> op' = r_op s + len \<and> unat (r_op s) + unat len + 5 \<le> unat (lz_oend K)
        \<and> match_ok (r_mem s) m' (r_op s) off (unat len) (unat (lz_oend K) - unat (r_op s))"
      then have "at_seq K w0 S (set_mem m' (s\<lparr>r_op := r_op s + len\<rparr>)) i (out @ match_bytes off n (hist @ out))"
        using a(4) n(1) chk(1) off(1) near'
        by (intro match_seq_ok [OF c s, where W = "unat (lz_oend K) - unat (r_op s)"]) auto
      then have "turn_ok K w0 hist S dec i0 (Safe_Loop, set_mem m' (s\<lparr>r_op := r_op s + len\<rparr>))"
        using i dec' by (intro turn_okI) auto
      then show ?thesis using run r ok by auto
    qed
  qed
qed

text \<open>Reading the block.\<close>

lemma at_seq_ip:
  "at_seq K w0 S s i out \<Longrightarrow> unat ip = unat (lz_src K) + j \<Longrightarrow> j \<le> length S \<Longrightarrow> at_seq K w0 S (s\<lparr>r_ip := ip\<rparr>) j out"
  by (simp add: at_seq_def writes_output_def)

lemma src_mapped:
  assumes c: "call_ok K (wmem w0) hist S" and s: "writes_output K w0 s"
  shows "mapped_in (r_mem s) (unat (lz_src K)) (unat (lz_iend K))"
proof -
  note b = call_okD [OF c]
  have "mapped_in (wmem w0) (unat (lz_src K)) (unat (lz_iend K))"
    using mapped_in_iff [of "lz_src K" "length S"] load_mappedI [OF b(5)] b by simp
  then show ?thesis using s writes_in_mapped by (fastforce simp: writes_output_def)
qed

lemma src_load:
  assumes c: "call_ok K (wmem w0) hist S" and s: "at_seq K w0 S s i out" and "i + n \<le> length S"
  shows "load_bytes (r_mem s) (r_ip s) n = Ret (take n (drop i S))"
proof -
  note a = at_seqD [OF s]
  have "r_mem s (r_ip s + of_nat k) = Some (S ! (i + k))" if "k < n" for k
    using src_byte [OF c a(1), of "i + k"] addr_split [OF a(5)] that assms(3) by (simp add: add.assoc)
  then show ?thesis using assms(3) by (simp add: load_bytes_iff)
qed

lemma src_apart:
  assumes c: "call_ok K (wmem w0) hist S" and s: "at_seq K w0 S s i out"
    and "i + n \<le> length S" "unat (r_op s) + W \<le> unat (lz_oend K)"
  shows "unat (r_ip s) + n < unat (r_op s) \<or> unat (r_op s) + W < unat (r_ip s)"
  using assms(3,4) call_okD(6,13) [OF c] at_seqD(3,5) [OF s] by linarith

definition nibble_dec :: "u8 list \<Rightarrow> u8 list \<Rightarrow> u8 list \<Rightarrow> nat \<Rightarrow> nat \<Rightarrow> nat \<Rightarrow> u8 list option" where
  "nibble_dec hist out S i off nib =
     (case seq_length nib (drop i S) of None \<Rightarrow> None
      | Some (ml, r) \<Rightarrow> if off > length (hist @ out) then None
          else block_decode ((hist @ out) @ match_bytes off (ml + 4) (hist @ out)) r)"

lemma read_offset_exists:
  fixes s :: "'w lz4_regs"
  assumes c: "call_ok K (wmem w0) hist S" and s: "at_seq K w0 S s i out" and i: "i + 2 \<le> length S"
  shows "\<exists>offset. (\<forall>k :: size_t \<Rightarrow> 'w lz4_regs \<Rightarrow> (lz4_next \<times> 'w lz4_regs) outcome option.
        read_offset s k = k offset (s\<lparr>r_ip := r_ip s + 2\<rparr>)) \<and> unat offset < 65536
    \<and> at_seq K w0 S (s\<lparr>r_ip := r_ip s + 2\<rparr>) (i + 2) out
    \<and> match_part t (hist @ out) (drop i S) = nibble_dec hist out S (i + 2) (unat offset) (unat (t AND 15))"
proof -
  note b = call_okD [OF c] and a = at_seqD [OF s]
  define bs where "bs = take 2 (drop i S)"
  have len: "length bs = 2" using i by (simp add: bs_def)
  have ld: "load_w (r_mem s) (r_ip s) = Ret (get_le bs :: u16)"
    using src_load [OF c s i] by (simp add: load_w_def bs_def)
  have lt: "le_val bs < 65536" using le_val_lt [of bs] len by simp
  then have "unat (get_le bs :: u16) = le_val bs" by (simp add: get_le_def unat_of_nat)
  then have off: "unat (ucast (get_le bs :: u16) :: size_t) = le_val bs" by simp
  have ip: "unat (r_ip s + 2) = unat (lz_src K) + (i + 2)" using a(5) b(6,8) i by (simp add: unat_plus)
  have "match_part t (hist @ out) (drop i S) = nibble_dec hist out S (i + 2) (le_val bs) (unat (t AND 15))"
  proof -
    have "\<not> length (drop i S) < 2" using i by simp
    then show ?thesis
      by (simp add: match_part_def parse_match_def nibble_dec_def bs_def add.commute split: option.split)
  qed
  then show ?thesis
    using ld off lt at_seq_ip [OF s ip i] by (intro exI [of _ "ucast (get_le bs :: u16)"]) (simp add: read_offset_def)
qed

lemma read_variable_length_ok:
  assumes c: "call_ok K (wmem w0) hist S" and s: "at_seq K w0 S s i out" and i: "i < length S"
    and lc: "unat lencheck \<le> unat (lz_src K) + length S" and chk: "initial_check \<Longrightarrow> \<not> r_ip s \<ge> lencheck"
  shows "\<exists>l' ip' err j n. read_variable_length (r_mem s) (r_ip s) lencheck True initial_check = Some (Ret (l', ip', err))
    \<and> at_seq K w0 S (s\<lparr>r_ip := ip'\<rparr>) j out \<and> i < j \<and> unat l' = n \<and> n < 4294967296
    \<and> (err = ok \<and> j < length S \<and> ext_length (drop i S) = Some (n, drop j S)
       \<or> err = loop_error \<and> unat lencheck \<le> unat (lz_src K) + j \<and> (n = 0 \<longrightarrow> ext_length (drop i S) = Some (0, drop j S)))"
proof -
  note b = call_okD [OF c] and a = at_seqD [OF s]
  have bnd: "unat (lz_src K) + length S < 9223372036854775808" "unat (0 :: u32) + 255 * (length S - i) < 4294967296"
    using b by simp_all
  obtain l' ip' err j n where "read_length_bytes (r_mem s) (r_ip s) lencheck True 0 = Some (Ret (l', ip', err))"
    "unat ip' = unat (lz_src K) + j" "i < j" "j \<le> length S" "unat l' = unat (0 :: u32) + n" "n < 4294967296"
    "err = ok \<and> j < length S \<and> unat ip' < unat lencheck \<and> ext_length (drop i S) = Some (n, drop j S)
       \<or> err = loop_error \<and> unat lencheck \<le> unat ip' \<and> (n = 0 \<longrightarrow> ext_length (drop i S) = Some (0, drop j S))"
    using read_length_bytes_ok [OF src_byte [OF c a(1)] bnd(1) lc i a(5) bnd(2)] by blast
  then show ?thesis
    using at_seq_ip [OF s, of ip' j] chk
    by (intro exI [of _ l'] exI [of _ ip'] exI [of _ err] exI [of _ j] exI [of _ n])
      (auto simp: read_variable_length_def)
qed

lemma iend_minus: "call_ok K (wmem w0) hist S \<Longrightarrow> unat k \<le> 64 \<Longrightarrow> unat (lz_iend K - k) = unat (lz_src K) + length S - unat k"
  using call_okD(6,7) by (subst unat_minus) fastforce+

lemma oend_minus: "call_ok K (wmem w0) hist S \<Longrightarrow> unat k \<le> 64 \<Longrightarrow> unat (lz_oend K - k) = unat (lz_oend K) - unat k"
  using call_okD(9,10) by (subst unat_minus) fastforce+

lemma copy_match_ok:
  assumes c: "call_ok K (wmem w0) hist S" and s: "at_seq K w0 S s i out" and i: "i0 < i" "i < length S"
    and off: "off = unat offset" "off < 65536" and nib: "nib = unat len" "nib \<le> 15"
    and room: "unat (r_op s) + 12 \<le> unat (lz_oend K)" and dec: "dec = nibble_dec hist out S i off nib"
  shows "\<exists>r. copy_match BS pool K len offset s = Some (Ret r) \<and> turn_ok K w0 hist S dec i0 r"
proof (cases "len = 15")
  case False
  then have "nib \<noteq> 15" using nib by (auto dest: word_eq_unatI [of len 15, simplified])
  moreover have n: "nib + 4 = unat (len + 4)" using nib by (simp add: unat_plus)
  ultimately have "dec = match_dec hist out S i off (nib + 4)"
    using dec by (simp add: nibble_dec_def seq_length_def match_dec_def)
  moreover have "copy_match BS pool K len offset s = safe_match_copy BS pool K (len + 4) offset s"
    using False by (simp add: copy_match_def)
  ultimately show ?thesis
    using safe_match_copy_ok [OF c s i off n _ _ room, of dec BS pool] nib(2) by simp
next
  case True
  note b = call_okD [OF c] and a = at_seqD [OF s]
  have lc: "unat (lz_iend K - 5 + 1) \<le> unat (lz_src K) + length S"
    using iend_minus [OF c, of 5] b unat_plus [of "lz_iend K - 5" 1] by simp
  obtain l' ip' err j n where r: "read_variable_length (r_mem s) (r_ip s) (lz_iend K - 5 + 1) True False = Some (Ret (l', ip', err))"
    and s': "at_seq K w0 S (s\<lparr>r_ip := ip'\<rparr>) j out" and j: "i < j" and n: "unat l' = n" "n < 4294967296"
    and e: "err = ok \<and> j < length S \<and> ext_length (drop i S) = Some (n, drop j S) \<or> err = loop_error"
    using read_variable_length_ok [OF c s i(2) lc, of False] by auto
  show ?thesis
  proof (cases "err = ok")
    case False
    then show ?thesis using r error_ok [OF s'] True b(1) by (simp add: copy_match_def)
  next
    case ok: True
    have l15: "unat (len + ucast l') = 15 + n" using True n by (simp add: unat_plus)
    then have len: "n + 19 = unat (len + ucast l' + 4)" using n by (simp add: unat_plus)
    have "\<not> r_op s + (len + ucast l') < r_op s"
      using l15 n a(4) b(11) by (simp add: word_less_nat_alt unat_plus)
    then have run: "copy_match BS pool K len offset s = safe_match_copy BS pool K (len + ucast l' + 4) offset (s\<lparr>r_ip := ip'\<rparr>)"
      using r ok True b(1) by (simp add: copy_match_def Let_def)
    have "nib = 15" using True nib by simp
    then have "dec = match_dec hist out S j off (n + 19)"
      using dec e ok by (auto simp: nibble_dec_def seq_length_def match_dec_def add.commute)
    then show ?thesis
      using safe_match_copy_ok [OF c s' _ _ off len, of i0 dec BS pool] i j e ok n room run by auto
  qed
qed

lemma nibble_low: "unat (ucast (t AND 15 :: u8) :: size_t) = unat (t AND 15)" "unat (t AND 15 :: u8) \<le> 15"
proof -
  show "unat (ucast (t AND 15 :: u8) :: size_t) = unat (t AND 15)" by simp
  have "t AND 15 \<le> (15 :: u8)" by (rule word_and_le1)
  then show "unat (t AND 15 :: u8) \<le> 15" by (simp add: word_le_nat_alt)
qed

lemma nibble_high: "unat (ucast (drop_bit 4 t :: u8) :: size_t) = unat (drop_bit 4 t)" "unat (drop_bit 4 t :: u8) \<le> 15"
proof -
  show "unat (ucast (drop_bit 4 t :: u8) :: size_t) = unat (drop_bit 4 t)" by simp
  have "unat (drop_bit 4 t) = unat t div 16" 
    by (subst unat_drop_bit_eq, subst drop_bit_eq_div) simp
  then show "unat (drop_bit 4 t :: u8) \<le> 15" using unat_u8_lt [of t] by simp
qed

lemma safe_literal_copy_ok:
  fixes s :: "'w lz4_regs"
  assumes c: "call_ok K (wmem w0) hist S" and s: "at_seq K w0 S s i out" and i: "i0 < i"
    and n: "n = unat len" "n < 8589934592"
    and dec: "i + n \<le> length S \<Longrightarrow> dec = literal_part t (hist @ out) n (drop i S)"
  shows "\<exists>r. safe_literal_copy BS pool K t len s = Some (Ret r) \<and> turn_ok K w0 hist S dec i0 r"
proof -
  note b = call_okD [OF c] and a = at_seqD [OF s]
  have ip: "unat (r_ip s + len) = unat (lz_src K) + (i + n)" using a(5,6) b(6,8) n by (simp add: unat_plus)
  have op: "unat (r_op s + len) = unat (r_op s) + n" using a(4) b(11) n by (simp add: unat_plus)
  have ends: "r_op s + len > lz_oend K - 12 \<longleftrightarrow> unat (lz_oend K) < unat (r_op s) + n + 12"
      "r_ip s + len > lz_iend K - 8 \<longleftrightarrow> length S < i + n + 8"
      "r_op s + len > lz_oend K \<longleftrightarrow> unat (lz_oend K) < unat (r_op s) + n"
      "r_ip s + len = lz_iend K \<longleftrightarrow> i + n = length S"
    using oend_minus [OF c, of 12] iend_minus [OF c, of 8] ip op b(6,7,9,10)
    by (auto simp: word_less_nat_alt intro: word_eq_unatI)
  show ?thesis
  proof (cases "unat (lz_oend K) < unat (r_op s) + n + 12 \<or> length S < i + n + 8")
    case True
    show ?thesis
    proof (cases "i + n = length S \<and> unat (r_op s) + n \<le> unat (lz_oend K)")
      case False
      then have "safe_literal_copy BS pool K t len s = Some (Ret (Output_Error, s))"
        using True b(1,2) by (auto simp: safe_literal_copy_def Let_def ends)
      then show ?thesis using error_ok [OF s] by simp
    next
      case fits: True
      then have src: "i + n \<le> length S" by simp
      have apart: "unat (r_ip s) + n < unat (r_op s) \<or> unat (r_op s) + n < unat (r_ip s)"
        using src_apart [OF c s src] fits by simp
      have mpd: "mapped_in (r_mem s) (unat (r_op s)) (unat (r_op s) + n)"
        using b(12) writes_in_mapped [OF a(7)] a(3) fits by (auto elim: mapped_in_mono)
      have mps: "mapped_in (r_mem s) (unat (r_ip s)) (unat (r_ip s) + n)"
        using src_mapped [OF c a(1)] a(5) b(6) fits by (auto elim: mapped_in_mono)
      obtain m' where m': "memmove BS pool (r_op s) (r_ip s) len (r_world s) = Ret ((r_world s)\<lparr>wmem := m'\<rparr>)"
        and cp: "copy_ok (r_mem s) m' (r_op s) (r_ip s) n n"
        using memmove_apart [OF n(1) mpd mps _ _ apart, of BS pool] b(8,11) fits a(5,6) b(6) by auto
      have s': "at_seq K w0 S (set_mem m' (s\<lparr>r_ip := r_ip s + len, r_op := r_op s + len\<rparr>)) (i + n) (out @ take n (drop i S))"
        using literals_ok [OF c s cp _ _ src n(1)] fits by simp
      have "length (drop i S) = n" using fits by auto
      then have "dec = Some (hist @ out @ take n (drop i S))" using dec [OF src] by (simp add: literal_part_def)
      then have "turn_ok K w0 hist S dec i0 (Decoded, set_mem m' (s\<lparr>r_ip := r_ip s + len, r_op := r_op s + len\<rparr>))"
        using s' fits by (auto simp: turn_ok_def)
      moreover have "safe_literal_copy BS pool K t len s
          = Some (Ret (Decoded, set_mem m' (s\<lparr>r_ip := r_ip s + len, r_op := r_op s + len\<rparr>)))"
        using True fits b(1,2) m' by (auto simp: safe_literal_copy_def Let_def ends set_mem_def)
      ultimately show ?thesis by blast
    qed
  next
    case False
    then have fits: "unat (r_op s) + n + 12 \<le> unat (lz_oend K)" "i + n + 8 \<le> length S" by simp_all
    have apart: "unat (r_ip s) + 8 \<le> unat (r_op s) \<or> unat (r_op s) + (n + 8) \<le> unat (r_ip s)"
      using src_apart [OF c s, of "n + 8" "n + 8"] fits by simp linarith
    have mpd: "mapped_in (r_mem s) (unat (r_op s)) (unat (r_op s) + (n + 8))"
      using b(12) writes_in_mapped [OF a(7)] a(3) fits by (auto elim: mapped_in_mono)
    have mps: "mapped_in (r_mem s) (unat (r_ip s)) (unat (r_ip s) + (n + 8))"
      using src_mapped [OF c a(1)] a(5) b(6) fits by (auto elim: mapped_in_mono)
    have n': "n = unat (r_op s + len) - unat (r_op s)" using op by simp
    have bnd: "n + 7 \<le> n + 8" "8 \<le> n + 8" "unat (r_op s) + (n + 8) < 18446744073709551608" "unat (r_ip s) + (n + 8) < 18446744073709551608"
      using fits b(6,8,11) a(5) by linarith+
    obtain m' where m': "LZ4_wildCopy8 (r_mem s) (r_op s) (r_ip s) (r_op s + len) = Some (Ret m')"
      and cp: "copy_ok (r_mem s) m' (r_op s) (r_ip s) n (n + 8)"
      using LZ4_wildCopy8_ok [OF n' bnd(1,2) mpd mps bnd(3,4) apart] by blast
    define s1 where "s1 = set_mem m' (s\<lparr>r_ip := r_ip s + len, r_op := r_op s + len\<rparr>)"
    have s1: "at_seq K w0 S s1 (i + n) (out @ take n (drop i S))"
      unfolding s1_def using literals_ok [OF c s cp _ _ _ n(1)] fits by simp
    have "\<not> length (drop i S) < n" "length (drop i S) \<noteq> n" using fits by auto
    then have "dec = match_part t (hist @ out @ take n (drop i S)) (drop (i + n) S)"
      using dec fits by (simp add: literal_part_def add.commute)
    moreover obtain offset where o: "\<And>k :: size_t \<Rightarrow> 'w lz4_regs \<Rightarrow> (lz4_next \<times> 'w lz4_regs) outcome option.
          read_offset s1 k = k offset (s1\<lparr>r_ip := r_ip s1 + 2\<rparr>)" "unat offset < 65536"
      and s2: "at_seq K w0 S (s1\<lparr>r_ip := r_ip s1 + 2\<rparr>) (i + n + 2) (out @ take n (drop i S))"
      and d2: "match_part t (hist @ out @ take n (drop i S)) (drop (i + n) S)
         = nibble_dec hist (out @ take n (drop i S)) S (i + n + 2) (unat offset) (unat (t AND 15))"
      using read_offset_exists [OF c s1, of t] fits by auto
    ultimately have d3: "dec = nibble_dec hist (out @ take n (drop i S)) S (i + n + 2) (unat offset) (unat (t AND 15))" by simp
    have "unat (r_op s1) + 12 \<le> unat (lz_oend K)" using op fits by (simp add: s1_def)
    then obtain r where "copy_match BS pool K (ucast (t AND 15)) offset (s1\<lparr>r_ip := r_ip s1 + 2\<rparr>) = Some (Ret r)"
      "turn_ok K w0 hist S dec i0 r"
      using copy_match_ok [OF c s2 _ _ refl o(2) refl _ _ d3 [unfolded nibble_low(1) [symmetric]], of i0 BS pool]
        i fits nibble_low by auto
    moreover have "safe_literal_copy BS pool K t len s = copy_match BS pool K (ucast (t AND 15)) offset (s1\<lparr>r_ip := r_ip s1 + 2\<rparr>)"
      using False b(1,2) m' o(1) by (simp add: safe_literal_copy_def Let_def ends s1_def)
    ultimately show ?thesis by auto
  qed
qed

lemma literal_length_ok:
  assumes c: "call_ok K (wmem w0) hist S" and s: "at_seq K w0 S s i out"
  shows "(\<exists>s' j. literal_length K t s = Some (Ret (Inr s')) \<and> at_seq K w0 S s' j out)
    \<or> (\<exists>len s' j. literal_length K t s = Some (Ret (Inl (len, s'))) \<and> at_seq K w0 S s' j out \<and> i \<le> j
         \<and> unat len < 8589934592 \<and> (drop_bit 4 t \<noteq> 15 \<longrightarrow> s' = s \<and> j = i \<and> len = ucast (drop_bit 4 t))
         \<and> (j + unat len \<le> length S \<longrightarrow> seq_length (unat (drop_bit 4 t)) (drop i S) = Some (unat len, drop j S)))"
proof (cases "drop_bit 4 t = 15")
  case False
  then have h: "unat (drop_bit 4 t) \<noteq> 15" using word_eq_unatI [of "drop_bit 4 t" 15] by auto
  then have "(ucast (drop_bit 4 t) :: size_t) \<noteq> 15" using nibble_high(1) [of t] by fastforce
  with h have "literal_length K t s = Some (Ret (Inl (ucast (drop_bit 4 t), s)))"
    and "seq_length (unat (drop_bit 4 t)) (drop i S) = Some (unat (drop_bit 4 t), drop i S)"
    by (simp_all add: literal_length_def seq_length_def)
  then show ?thesis using s nibble_high [of t] False
    by (intro disjI2 exI [of _ "ucast (drop_bit 4 t)"] exI [of _ s] exI [of _ i]) simp
next
  case True
  note b = call_okD [OF c] and a = at_seqD [OF s]
  let ?lc = "lz_iend K - 15"
  have lc: "unat ?lc = unat (lz_src K) + length S - 15" using iend_minus [OF c, of 15] by simp
  then have lc': "unat ?lc \<le> unat (lz_src K) + length S" by simp
  show ?thesis
  proof (cases "r_ip s \<ge> ?lc")
    case late: True
    then have "literal_length K t s = Some (Ret (Inr (s\<lparr>r_ip := r_ip s\<rparr>)))"
      using True b(1) by (simp add: literal_length_def read_variable_length_def)
    then show ?thesis using s by auto
  next
    case False
    then have "i < length S" using lc' a(5) by (simp add: word_le_nat_alt)
    then obtain l' ip' err j n where r: "read_variable_length (r_mem s) (r_ip s) ?lc True True = Some (Ret (l', ip', err))"
      and s': "at_seq K w0 S (s\<lparr>r_ip := ip'\<rparr>) j out" and j: "i < j" and n: "unat l' = n" "n < 4294967296"
      and e: "err = ok \<and> ext_length (drop i S) = Some (n, drop j S)
        \<or> err = loop_error \<and> unat ?lc \<le> unat (lz_src K) + j \<and> (n = 0 \<longrightarrow> ext_length (drop i S) = Some (0, drop j S))"
      using read_variable_length_ok [OF c s _ lc', of True] False by auto
    have l15: "unat (15 + ucast l' :: size_t) = 15 + n" using n by (simp add: unat_plus)
    have "\<not> r_op s + (15 + ucast l') < r_op s" "\<not> ip' + (15 + ucast l') < ip'"
      using l15 n a(4) b(6,8,11) at_seqD(5,6) [OF s'] by (simp_all add: word_less_nat_alt unat_plus)
    then have run: "literal_length K t s = Some (Ret (Inl (15 + ucast l', s\<lparr>r_ip := ip'\<rparr>)))"
      using r e True b(1) by (auto simp: literal_length_def Let_def)
    have "ext_length (drop i S) = Some (n, drop j S)" if "j + (15 + n) \<le> length S"
      using e that lc b(7) by auto
    then have "j + unat (15 + ucast l' :: size_t) \<le> length S \<longrightarrow>
        seq_length (unat (drop_bit 4 t)) (drop i S) = Some (unat (15 + ucast l' :: size_t), drop j S)"
      unfolding l15 using True by (simp add: seq_length_def)
    then show ?thesis using run s' j l15 n True by auto
  qed
qed

lemma token_ok:
  assumes c: "call_ok K (wmem w0) hist S" and s: "at_seq K w0 S s i out" and i: "i < length S"
  shows "load_w (r_mem s) (r_ip s) = Ret (S ! i)"
    and "at_seq K w0 S (s\<lparr>r_ip := r_ip s + 1\<rparr>) (i + 1) out"
    and "block_decode (hist @ out) (drop i S) =
      (case seq_length (unat (drop_bit 4 (S ! i))) (drop (i + 1) S) of None \<Rightarrow> None
       | Some (ll, lits) \<Rightarrow> literal_part (S ! i) (hist @ out) ll lits)"
proof -
  note a = at_seqD [OF s]
  show "load_w (r_mem s) (r_ip s) = Ret (S ! i)"
    using src_byte [OF c a(1) i] addr_split [OF a(5)] by (simp add: load_w_byte)
  show "at_seq K w0 S (s\<lparr>r_ip := r_ip s + 1\<rparr>) (i + 1) out"
    using a(5) call_okD(6,8) [OF c] i by (intro at_seq_ip [OF s]) (simp_all add: unat_plus)
  have "drop i S = S ! i # drop (i + 1) S" using i by (simp add: Cons_nth_drop_Suc)
  then show "block_decode (hist @ out) (drop i S) =
      (case seq_length (unat (drop_bit 4 (S ! i))) (drop (i + 1) S) of None \<Rightarrow> None
       | Some (ll, lits) \<Rightarrow> literal_part (S ! i) (hist @ out) ll lits)"
    by (simp only: block_decode_parts)
qed

text \<open>A match of at most eighteen bytes, copied as eighteen bytes.\<close>

lemma short_match_ok:
  assumes c: "call_ok K (wmem w0) hist S" and s: "at_seq K w0 S s i out" and i: "i0 < i" "i < length S"
    and off: "8 \<le> unat offset" "unat offset < 65536" and len: "n = unat len" "n < 15"
    and near: "lz_dict K = withPrefix64k \<or> r_op s - offset \<ge> lz_lowPrefix K"
    and room: "unat (r_op s) + 18 \<le> unat (lz_oend K)" and dec: "dec = nibble_dec hist out S i (unat offset) n"
    and nxt: "nxt = Safe_Loop \<or> nxt = Fast_Loop \<and> unat (r_op s) + (n + 4) + 64 \<le> unat (lz_oend K)"
  shows "\<exists>m. obind (LZ4_memcpy (r_mem s) (r_op s) (r_op s - offset) 8) (\<lambda>m.
        obind (LZ4_memcpy m (r_op s + 8) (r_op s - offset + 8) 8) (\<lambda>m.
        LZ4_memcpy m (r_op s + 16) (r_op s - offset + 16) 2)) = Ret m
      \<and> turn_ok K w0 hist S dec i0 (nxt, set_mem m (s\<lparr>r_op := r_op s + (len + 4)\<rparr>))"
proof -
  note b = call_okD [OF c] and a = at_seqD [OF s]
  note o = offset_near [OF c s off(2) near]
  have mp: "mapped_in (r_mem s) (unat (r_op s) - unat offset) (unat (r_op s) + 18)"
    using mapped_back [OF c s o(1) off(2) o(2)] room by (auto elim: mapped_in_mono)
  have top: "unat (r_op s) + 18 < 18446744073709551616" using room b(11) by simp
  obtain m where m: "obind (LZ4_memcpy (r_mem s) (r_op s) (r_op s - offset) 8) (\<lambda>m.
        obind (LZ4_memcpy m (r_op s + 8) (r_op s - offset + 8) 8) (\<lambda>m.
        LZ4_memcpy m (r_op s + 16) (r_op s - offset + 16) 2)) = Ret m"
    and ok: "match_ok (r_mem s) m (r_op s) (unat offset) 18 18"
    using copy18_ok [OF off(1) match_pointer(2) [OF c s off(2)] mp top] by blast
  have n: "n + 4 = unat (len + 4)" using len by (simp add: unat_plus)
  have "match_ok (r_mem s) m (r_op s) (unat offset) (n + 4) 18" using len(2) by (intro match_ok_less [OF ok]) simp_all
  then have s': "at_seq K w0 S (set_mem m (s\<lparr>r_op := r_op s + (len + 4)\<rparr>)) i (out @ match_bytes (unat offset) (n + 4) (hist @ out))"
    using room len(2) by (intro match_seq_ok [OF c s _ _ _ o n]) auto
  have "dec = block_decode (hist @ out @ match_bytes (unat offset) (n + 4) (hist @ out)) (drop i S)"
    using dec o(1) len(2) by (simp add: nibble_dec_def seq_length_def)
  moreover have "unat (r_op s + (len + 4)) = unat (r_op s) + (n + 4)"
    using room b(11) len(2) n by (simp add: unat_plus)
  ultimately have "turn_ok K w0 hist S dec i0 (nxt, set_mem m (s\<lparr>r_op := r_op s + (len + 4)\<rparr>))"
    using i nxt by (intro turn_okI [OF s']) auto
  then show ?thesis using m by blast
qed

lemma literals16_ok:
  assumes c: "call_ok K (wmem w0) hist S" and s: "at_seq K w0 S s i out"
    and n: "n = unat len" "n \<le> 16" and fits: "i + 16 \<le> length S" "unat (r_op s) + 16 \<le> unat (lz_oend K)"
  shows "\<exists>m. LZ4_memcpy (r_mem s) (r_op s) (r_ip s) 16 = Ret m
    \<and> at_seq K w0 S (set_mem m (s\<lparr>r_ip := r_ip s + len, r_op := r_op s + len\<rparr>)) (i + n) (out @ take n (drop i S))"
proof -
  note b = call_okD [OF c] and a = at_seqD [OF s]
  have mpd: "mapped_in (r_mem s) (unat (r_op s)) (unat (r_op s) + 16)"
    using b(12) writes_in_mapped [OF a(7)] a(3) fits by (auto elim: mapped_in_mono)
  have mps: "mapped_in (r_mem s) (unat (r_ip s)) (unat (r_ip s) + 16)"
    using src_mapped [OF c a(1)] a(5) b(6) fits by (auto elim: mapped_in_mono)
  have "16 = unat (16 :: size_t)" by simp
  moreover have "unat (r_op s) + 16 < 18446744073709551616" "unat (r_ip s) + 16 < 18446744073709551616"
      "unat (r_ip s) + 16 \<le> unat (r_op s) \<or> unat (r_op s) + 16 \<le> unat (r_ip s)"
    using fits b(6,8,11) a(5) src_apart [OF c s fits] by linarith+
  ultimately obtain m where m: "LZ4_memcpy (r_mem s) (r_op s) (r_ip s) 16 = Ret m" "copy_ok (r_mem s) m (r_op s) (r_ip s) 16 16"
    using LZ4_memcpy_ok [OF _ mpd mps] by blast
  have "copy_ok (r_mem s) m (r_op s) (r_ip s) n 16" using n by (intro copy_ok_less [OF m(2)]) simp_all
  then show ?thesis using m(1) n fits literals_ok [OF c s, of m n 16 len] by auto
qed

lemma shortcut_copies_ok:
  fixes s :: "'w lz4_regs"
  assumes c: "call_ok K (wmem w0) hist S" and s: "at_seq K w0 S s i out" and i: "i0 < i" "i + 16 < length S"
    and short: "drop_bit 4 t \<noteq> 15" and room: "unat (r_op s) + 32 \<le> unat (lz_oend K)"
    and dec: "dec = literal_part t (hist @ out) (unat (drop_bit 4 t)) (drop i S)"
  shows "\<exists>r. shortcut_copies BS pool K t s = Some (Ret r) \<and> turn_ok K w0 hist S dec i0 r"
proof -
  note b = call_okD [OF c] and a = at_seqD [OF s]
  define len :: size_t where "len = ucast (drop_bit 4 t)"
  have n: "unat (drop_bit 4 t) = unat len" "unat len \<le> 14"
    using short nibble_high [of t] word_eq_unatI [of "drop_bit 4 t" 15] by (fastforce simp: len_def)+
  let ?lits = "take (unat len) (drop i S)"
  obtain m where m: "LZ4_memcpy (r_mem s) (r_op s) (r_ip s) 16 = Ret m"
    and s1: "at_seq K w0 S (set_mem m (s\<lparr>r_ip := r_ip s + len, r_op := r_op s + len\<rparr>)) (i + unat len) (out @ ?lits)"
    using literals16_ok [OF c s refl, of len] n i room by auto
  define s1' where "s1' = set_mem m (s\<lparr>r_ip := r_ip s + len, r_op := r_op s + len\<rparr>)"
  obtain offset where o: "\<And>k :: size_t \<Rightarrow> 'w lz4_regs \<Rightarrow> (lz4_next \<times> 'w lz4_regs) outcome option.
        read_offset s1' k = k offset (s1'\<lparr>r_ip := r_ip s1' + 2\<rparr>)" "unat offset < 65536"
    and s2: "at_seq K w0 S (s1'\<lparr>r_ip := r_ip s1' + 2\<rparr>) (i + unat len + 2) (out @ ?lits)"
    and d2: "match_part t (hist @ out @ ?lits) (drop (i + unat len) S)
       = nibble_dec hist (out @ ?lits) S (i + unat len + 2) (unat offset) (unat (t AND 15))"
    using read_offset_exists [OF c s1, of t] n i by (auto simp: s1'_def)
  have "\<not> length (drop i S) < unat len" "length (drop i S) \<noteq> unat len" using n(2) i by auto
  then have d: "dec = nibble_dec hist (out @ ?lits) S (i + unat len + 2) (unat offset) (unat (ucast (t AND 15) :: size_t))"
    using dec d2 n(1) by (simp add: literal_part_def add.commute)
  define s2' where "s2' = s1'\<lparr>r_ip := r_ip s1' + 2\<rparr>"
  have op: "unat (r_op s2') = unat (r_op s) + unat len" using room b(11) n(2) by (simp add: s2'_def s1'_def unat_plus)
  have i2: "i0 < i + unat len + 2" "i + unat len + 2 < length S" using i n(2) by simp_all
  have run: "shortcut_copies BS pool K t s =
     (if ucast (t AND 15) \<noteq> (15 :: size_t) \<and> offset \<ge> 8 \<and> (lz_dict K = withPrefix64k \<or> r_op s2' - offset \<ge> lz_lowPrefix K) then
        once (obind (LZ4_memcpy (r_mem s2') (r_op s2') (r_op s2' - offset) 8) (\<lambda>m.
              obind (LZ4_memcpy m (r_op s2' + 8) (r_op s2' - offset + 8) 8) (\<lambda>m.
              LZ4_memcpy m (r_op s2' + 16) (r_op s2' - offset + 16) 2))) (\<lambda>m.
          Some (Ret (Safe_Loop, set_mem m (s2'\<lparr>r_op := r_op s2' + (ucast (t AND 15) + 4)\<rparr>))))
      else copy_match BS pool K (ucast (t AND 15)) offset s2')"
    using m b(1) unfolding shortcut_copies_def Let_def len_def [symmetric] 
    by (simp only: if_True rbind_simps set_mem_simps o(1) flip: s1'_def s2'_def)
  show ?thesis
  proof (cases "ucast (t AND 15) \<noteq> (15 :: size_t) \<and> offset \<ge> 8 \<and> (lz_dict K = withPrefix64k \<or> r_op s2' - offset \<ge> lz_lowPrefix K)")
    case True
    then have "unat (ucast (t AND 15) :: size_t) \<noteq> 15" using word_eq_unatI [of "ucast (t AND 15) :: size_t" 15] by auto
    then have lt: "unat (ucast (t AND 15) :: size_t) < 15" using nibble_low [of t] by linarith
    have "8 \<le> unat offset" using True by (simp add: word_le_nat_alt)
    then obtain m2 where "obind (LZ4_memcpy (r_mem s2') (r_op s2') (r_op s2' - offset) 8) (\<lambda>m.
              obind (LZ4_memcpy m (r_op s2' + 8) (r_op s2' - offset + 8) 8) (\<lambda>m.
              LZ4_memcpy m (r_op s2' + 16) (r_op s2' - offset + 16) 2)) = Ret m2"
        "turn_ok K w0 hist S dec i0 (Safe_Loop, set_mem m2 (s2'\<lparr>r_op := r_op s2' + (ucast (t AND 15) + 4)\<rparr>))"
      using short_match_ok [OF c s2 [folded s2'_def] i2 _ o(2) refl lt _ _ d, of Safe_Loop] True op room n(2) by auto
    then show ?thesis unfolding run using True by simp
  next
    case False
    then show ?thesis
      unfolding run using copy_match_ok [OF c s2 [folded s2'_def] i2 refl o(2) refl _ _ d, of BS pool] op room n(2) nibble_low [of t] by auto
  qed
qed

lemma safe_step_ok:
  assumes c: "call_ok K (wmem w0) hist S" and s: "at_seq K w0 S s i out" and i: "i < length S"
  shows "\<exists>r. safe_step BS pool K s = Some (Ret r) \<and> turn_ok K w0 hist S (block_decode (hist @ out) (drop i S)) i r"
proof -
  note b = call_okD [OF c] and tok = token_ok [OF c s i]
  define t where "t = S ! i"
  define s1 where "s1 = s\<lparr>r_ip := r_ip s + 1\<rparr>"
  have s1: "at_seq K w0 S s1 (i + 1) out" using tok(2) by (simp add: s1_def)
  note dec = tok(3) [folded t_def]
  define short where "short \<longleftrightarrow> drop_bit 4 t \<noteq> 15 \<and> r_ip s1 < lz_iend K - 14 - 2 \<and> r_op s1 \<le> lz_oend K - 14 - 18"
  have run: "safe_step BS pool K s = (if short then shortcut_copies BS pool K t s1
      else rbind (literal_length K t s1) (\<lambda>r. case r of
               Inr s \<Rightarrow> Some (Ret (Output_Error, s))
             | Inl (len, s) \<Rightarrow> safe_literal_copy BS pool K t len s))"
    using tok(1) b(1) by (simp add: safe_step_def Let_def short_def s1_def t_def)
  show ?thesis
  proof (cases short)
    case True
    have "lz_iend K - 14 - 2 = lz_iend K - 16" "lz_oend K - 14 - 18 = lz_oend K - 32" by simp_all
    then have "unat (r_ip s1) < unat (lz_src K) + length S - 16" "unat (r_op s1) \<le> unat (lz_oend K) - 32"
      using True iend_minus [OF c, of 16] oend_minus [OF c, of 32] by (simp_all add: short_def word_less_nat_alt word_le_nat_alt)
    then have fits: "i + 1 + 16 < length S" "unat (r_op s1) + 32 \<le> unat (lz_oend K)"
      using at_seqD(5) [OF s1] b(9,10) by simp_all
    have nib: "drop_bit 4 t \<noteq> 15" using True by (simp add: short_def)
    then have "unat (drop_bit 4 t) \<noteq> 15" using word_eq_unatI [of "drop_bit 4 t" 15] by auto
    then have "block_decode (hist @ out) (drop i S) = literal_part t (hist @ out) (unat (drop_bit 4 t)) (drop (i + 1) S)"
      using dec by (simp add: seq_length_def)
    then show ?thesis
      using shortcut_copies_ok [OF c s1 _ fits(1) nib fits(2), of i _ BS pool] True by (simp add: run)
  next
    case False
    from literal_length_ok [OF c s1, of t] show ?thesis
    proof
      assume "\<exists>s' j. literal_length K t s1 = Some (Ret (Inr s')) \<and> at_seq K w0 S s' j out"
      then show ?thesis using False error_ok by (fastforce simp: run)
    next
      assume "\<exists>len s' j. literal_length K t s1 = Some (Ret (Inl (len, s'))) \<and> at_seq K w0 S s' j out \<and> i + 1 \<le> j
         \<and> unat len < 8589934592 \<and> (drop_bit 4 t \<noteq> 15 \<longrightarrow> s' = s1 \<and> j = i + 1 \<and> len = ucast (drop_bit 4 t))
         \<and> (j + unat len \<le> length S \<longrightarrow> seq_length (unat (drop_bit 4 t)) (drop (i + 1) S) = Some (unat len, drop j S))"
      then obtain len s' j where l: "literal_length K t s1 = Some (Ret (Inl (len, s')))" "at_seq K w0 S s' j out" "i + 1 \<le> j"
          "unat len < 8589934592"
        and d: "j + unat len \<le> length S \<Longrightarrow> seq_length (unat (drop_bit 4 t)) (drop (i + 1) S) = Some (unat len, drop j S)" by blast
      have "j + unat len \<le> length S \<Longrightarrow> block_decode (hist @ out) (drop i S) = literal_part t (hist @ out) (unat len) (drop j S)"
        unfolding dec using d by simp
      then show ?thesis
        using safe_literal_copy_ok [OF c l(2) _ refl l(4), of i _ t BS pool] l(1,3) False by (simp add: run)
    qed
  qed
qed

end
