(* ===== verification/Lz4_Decode_Props.thy ===== *)
theory Lz4_Decode_Props
  imports Lz4_Block_Props
begin

text \<open>
  The fast loop of the block decoder of \<^verbatim>\<open>lib/lz4/lz4.c\<close>, the two loops together, and the functions
  that call them.
\<close>

unbundle bit_operations_syntax

section \<open>The fast loop\<close>

lemma fast_copy_ok:
  assumes c: "call_ok K (wmem w0) hist S" and s: "at_seq K w0 S s i out" and i: "i0 < i" "i < length S"
    and off: "off = unat offset" "off < 65536" and n: "n = unat len" "n < 8589934592"
    and room: "unat (r_op s) + n + 64 < unat (lz_oend K)" and dec: "dec = match_dec hist out S i off n"
  shows "\<exists>r. fast_match_copy BS pool K len offset s = Some (Ret r) \<and> turn_ok K w0 hist S dec i0 r"
proof (cases "lz_checkOffset K \<and> r_op s - offset + lz_dictSize K < lz_lowPrefix K")
  case True
  then show ?thesis using error_ok [OF s] by (simp add: fast_match_copy_def Let_def)
next
  case False
  note b = call_okD [OF c] and a = at_seqD [OF s]
  note chk = offset_checked [OF c s off(2) [unfolded off(1)] False]
  have dec': "dec = block_decode (hist @ out @ match_bytes off n (hist @ out)) (drop i S)"
    using dec chk(1) off(1) by (simp add: match_dec_def)
  show ?thesis
  proof (cases "lz_dict K = usingExtDict \<and> r_op s - offset < lz_lowPrefix K")
    case True
    then have "length out < off" "off \<le> length hist + length out" using chk off by simp_all
    moreover have "fast_match_copy BS pool K len offset s = ext_dict_match BS pool K Fast_Loop len (r_op s - offset) s"
      using True False by (auto simp: fast_match_copy_def Let_def)
    ultimately show ?thesis
      using ext_dict_match_ok [OF c s _ off(1) _ _ off(2) n i dec', of Fast_Loop BS pool] True room by simp
  next
    case near: False
    then have near': "lz_dict K \<noteq> usingExtDict \<or> off \<le> length out" using chk(2) off by auto
    have op: "unat (r_op s + len) = unat (r_op s) + n" using room b(11) n by (simp add: unat_plus)
    have offop: "off \<le> unat (r_op s)" using match_pointer(2) [OF c s] off by simp
    have mp: "mapped_in (r_mem s) (unat (r_op s) - off) (unat (r_op s) + (n + 32))"
      using mapped_back [OF c s _ off(2) near'] chk(1) off(1) room by (auto elim: mapped_in_mono)
    have n': "n = unat (r_op s + len) - unat (r_op s)" using op by simp
    have bnd: "n + 31 \<le> n + 32" "32 \<le> n + 32" "unat (r_op s) + (n + 32) < 18446744073709551584"
      using room b(11) by linarith+
    obtain m' where m': "(if offset < 16 then LZ4_memcpy_using_offset (r_mem s) (r_op s) (r_op s - offset) (r_op s + len) offset
       else LZ4_wildCopy32 (r_mem s) (r_op s) (r_op s - offset) (r_op s + len)) = Some (Ret m')"
      and ok: "match_ok (r_mem s) m' (r_op s) off n (n + 32)"
      using fast_match_copy_ok [OF off(1) offop n' bnd(1,2) mp bnd(3)] by blast
    have "at_seq K w0 S (set_mem m' (s\<lparr>r_op := r_op s + len\<rparr>)) i (out @ match_bytes off n (hist @ out))"
      using room chk(1) off(1) near' n(1) by (intro match_seq_ok [OF c s ok]) auto
    then have "turn_ok K w0 hist S dec i0 (Fast_Loop, set_mem m' (s\<lparr>r_op := r_op s + len\<rparr>))"
      using i dec' room op by (intro turn_okI) auto
    moreover have "fast_match_copy BS pool K len offset s = Some (Ret (Fast_Loop, set_mem m' (s\<lparr>r_op := r_op s + len\<rparr>)))"
      using False near m' by (auto simp: fast_match_copy_def Let_def)
    ultimately show ?thesis by blast
  qed
qed

text \<open>A match of known length: far from the end of the output it is copied by the fast loop.\<close>

lemma fast_or_safe_ok:
  assumes c: "call_ok K (wmem w0) hist S" and s: "at_seq K w0 S s i out" and i: "i0 < i" "i < length S"
    and off: "off = unat offset" "off < 65536" and n: "n = unat len" "4 \<le> n" "n < 8589934592"
    and room: "unat (r_op s) + 12 \<le> unat (lz_oend K)" "64 \<le> unat (lz_oend K)" and dec: "dec = match_dec hist out S i off n"
  shows "\<exists>r. (if r_op s + len \<ge> lz_oend K - 64 then safe_match_copy BS pool K len offset s
       else fast_match_copy BS pool K len offset s) = Some (Ret r) \<and> turn_ok K w0 hist S dec i0 r"
proof (cases "r_op s + len \<ge> lz_oend K - 64")
  case True
  then show ?thesis using safe_match_copy_ok [OF c s i off n room(1) dec, of BS pool] by simp
next
  case False
  have "unat (r_op s + len) = unat (r_op s) + n"
    using n at_seqD(4) [OF s] call_okD(11) [OF c] by (simp add: unat_plus)
  then have "unat (r_op s) + n + 64 < unat (lz_oend K)"
    using False oend_minus [OF c, of 64] by (simp add: word_le_nat_alt)
  then show ?thesis using fast_copy_ok [OF c s i off n(1,3) _ dec, of BS pool] False by simp
qed

lemma fast_match_ok:
  assumes c: "call_ok K (wmem w0) hist S" and s: "at_seq K w0 S s i out" and i: "i0 < i" "i < length S"
    and off: "unat offset < 65536" and room: "unat (r_op s) + 32 \<le> unat (lz_oend K)"
    and dec: "dec = nibble_dec hist out S i (unat offset) (unat (t AND 15))"
  shows "\<exists>r. fast_match BS pool K t offset s = Some (Ret r) \<and> turn_ok K w0 hist S dec i0 r"
proof -
  note b = call_okD [OF c] and a = at_seqD [OF s] and nib = nibble_low [of t]
  define len :: size_t where "len = ucast (t AND 15)"
  have len: "unat len = unat (t AND 15)" "unat len \<le> 15" using nib by (simp_all only: len_def)
  have room12: "unat (r_op s) + 12 \<le> unat (lz_oend K)" "64 \<le> unat (lz_oend K)" using room b(9,10) by simp_all
  show ?thesis
  proof (cases "len = 15")
    case True
    show ?thesis
    proof (cases "lz_checkOffset K \<and> r_op s - offset + lz_dictSize K < lz_lowPrefix K")
      case bad: True
      then show ?thesis using error_ok [OF s] True by (simp add: fast_match_def Let_def flip: len_def)
    next
      case checked: False
      have lc: "unat (lz_iend K - 5 + 1) \<le> unat (lz_src K) + length S"
        using iend_minus [OF c, of 5] b unat_plus [of "lz_iend K - 5" 1] by simp
      obtain l' ip' err j n where r: "read_variable_length (r_mem s) (r_ip s) (lz_iend K - 5 + 1) True False = Some (Ret (l', ip', err))"
        and s': "at_seq K w0 S (s\<lparr>r_ip := ip'\<rparr>) j out" and j: "i < j" and n: "unat l' = n" "n < 4294967296"
        and e: "err = ok \<and> j < length S \<and> ext_length (drop i S) = Some (n, drop j S) \<or> err = loop_error"
        using read_variable_length_ok [OF c s i(2) lc, of False] by auto
      show ?thesis
      proof (cases "err = ok")
        case False
        then show ?thesis using r error_ok [OF s'] True checked b(1) by (auto simp: fast_match_def simp flip: len_def)
      next
        case ok: True
        have l15: "unat (len + ucast l') = 15 + n" using True n by (simp add: unat_plus)
        then have len19: "n + 19 = unat (len + ucast l' + 4)" using n by (simp add: unat_plus)
        have no_wrap: "\<not> r_op s + (len + ucast l') < r_op s"
          using l15 n a(4) b(11) by (simp add: word_less_nat_alt unat_plus)
        have "unat (t AND 15) = 15" using True len(1) by simp
        then have "dec = match_dec hist out S j (unat offset) (n + 19)"
          using dec e ok by (auto simp: nibble_dec_def seq_length_def match_dec_def add.commute)
        then obtain q where q: "(if r_op s + (len + ucast l' + 4) \<ge> lz_oend K - 64
              then safe_match_copy BS pool K (len + ucast l' + 4) offset (s\<lparr>r_ip := ip'\<rparr>)
              else fast_match_copy BS pool K (len + ucast l' + 4) offset (s\<lparr>r_ip := ip'\<rparr>)) = Some (Ret q)"
          "turn_ok K w0 hist S dec i0 q"
          using fast_or_safe_ok [OF c s' _ _ refl off len19, of i0 dec BS pool] i j e ok n room12 by auto
        moreover have "fast_match BS pool K t offset s = (if r_op s + (len + ucast l' + 4) \<ge> lz_oend K - 64
              then safe_match_copy BS pool K (len + ucast l' + 4) offset (s\<lparr>r_ip := ip'\<rparr>)
              else fast_match_copy BS pool K (len + ucast l' + 4) offset (s\<lparr>r_ip := ip'\<rparr>))"
          using r ok no_wrap True checked b(1) unfolding fast_match_def len_def [symmetric] by (auto simp: Let_def)
        ultimately show ?thesis by auto
      qed
    qed
  next
    case False
    then have lt: "unat len < 15" using len(2) word_eq_unatI [of len 15] by fastforce
    have n: "unat len + 4 = unat (len + 4)" using lt by (simp add: unat_plus)
    have dec': "dec = match_dec hist out S i (unat offset) (unat len + 4)"
      using dec lt len(1) by (simp add: nibble_dec_def seq_length_def match_dec_def)
    show ?thesis
    proof (cases "r_op s + (len + 4) \<ge> lz_oend K - 64 \<or> \<not> ((lz_dict K = withPrefix64k \<or> r_op s - offset \<ge> lz_lowPrefix K) \<and> offset \<ge> 8)")
      case True
      then have "fast_match BS pool K t offset s = (if r_op s + (len + 4) \<ge> lz_oend K - 64
              then safe_match_copy BS pool K (len + 4) offset s else fast_match_copy BS pool K (len + 4) offset s)"
        using False by (auto simp: fast_match_def Let_def simp flip: len_def)
      then show ?thesis using fast_or_safe_ok [OF c s i refl off n _ _ room12 dec', of BS pool] lt by simp
    next
      case short: False
      have "unat (r_op s + (len + 4)) = unat (r_op s) + (unat len + 4)"
        using n lt a(4) b(11) by (simp add: unat_plus)
      moreover have "\<not> lz_oend K - 64 \<le> r_op s + (len + 4)" using short by simp
      ultimately have "unat (r_op s) + (unat len + 4) + 64 \<le> unat (lz_oend K)"
        using oend_minus [OF c, of 64] by (simp add: word_le_nat_alt)
      moreover have "8 \<le> unat offset" using short by (simp add: word_le_nat_alt)
      ultimately obtain m where "obind (LZ4_memcpy (r_mem s) (r_op s) (r_op s - offset) 8) (\<lambda>m.
              obind (LZ4_memcpy m (r_op s + 8) (r_op s - offset + 8) 8) (\<lambda>m.
              LZ4_memcpy m (r_op s + 16) (r_op s - offset + 16) 2)) = Ret m"
          "turn_ok K w0 hist S dec i0 (Fast_Loop, set_mem m (s\<lparr>r_op := r_op s + (len + 4)\<rparr>))"
        using short_match_ok [OF c s i _ off refl lt _ _ dec [folded len(1)], of Fast_Loop] short room by auto
      then show ?thesis using short False by (simp add: fast_match_def Let_def flip: len_def)
    qed
  qed
qed

text \<open>Many literals, copied 32 bytes at a time.\<close>

lemma fast_long_literals:
  assumes c: "call_ok K (wmem w0) hist S" and s: "at_seq K w0 S s i out"
    and n: "n = unat len" "n < 8589934592"
  shows "(r_op s + len > lz_oend K - 32 \<or> r_ip s + len > lz_iend K - 32)
    \<or> (\<exists>m. LZ4_wildCopy32 (r_mem s) (r_op s) (r_ip s) (r_op s + len) = Some (Ret m) \<and> i + n + 2 < length S
          \<and> unat (r_op s) + n + 32 \<le> unat (lz_oend K)
          \<and> at_seq K w0 S (set_mem m (s\<lparr>r_ip := r_ip s + len, r_op := r_op s + len\<rparr>)) (i + n) (out @ take n (drop i S)))"
proof (cases "r_op s + len > lz_oend K - 32 \<or> r_ip s + len > lz_iend K - 32")
  case False
  note b = call_okD [OF c] and a = at_seqD [OF s]
  have ip: "unat (r_ip s + len) = unat (lz_src K) + (i + n)" using a(5,6) b(6,8) n by (simp add: unat_plus)
  have op: "unat (r_op s + len) = unat (r_op s) + n" using a(4) b(11) n by (simp add: unat_plus)
  have "unat (r_op s + len) \<le> unat (lz_oend K - 32)" "unat (r_ip s + len) \<le> unat (lz_iend K - 32)"
    using False by (simp_all add: word_le_nat_alt not_less)
  then have fits: "unat (r_op s) + n + 32 \<le> unat (lz_oend K)" "i + n + 32 \<le> length S"
    using oend_minus [OF c, of 32] iend_minus [OF c, of 32] ip op b(6,7,9,10) by simp_all
  have apart: "unat (r_ip s) + 16 \<le> unat (r_op s) \<or> unat (r_op s) + (n + 32) \<le> unat (r_ip s)"
    using src_apart [OF c s, of "n + 32" "n + 32"] fits by simp linarith
  have mpd: "mapped_in (r_mem s) (unat (r_op s)) (unat (r_op s) + (n + 32))"
    using b(12) writes_in_mapped [OF a(7)] a(3) fits by (auto elim: mapped_in_mono)
  have mps: "mapped_in (r_mem s) (unat (r_ip s)) (unat (r_ip s) + (n + 32))"
    using src_mapped [OF c a(1)] a(5) b(6) fits by (auto elim: mapped_in_mono)
  have n': "n = unat (r_op s + len) - unat (r_op s)" using op by simp
  have bnd: "n + 31 \<le> n + 32" "32 \<le> n + 32" "unat (r_op s) + (n + 32) < 18446744073709551584" "unat (r_ip s) + (n + 32) < 18446744073709551584"
    using fits b(6,8,11) a(5) by linarith+
  obtain m' where m': "LZ4_wildCopy32 (r_mem s) (r_op s) (r_ip s) (r_op s + len) = Some (Ret m')"
    and cp: "copy_ok (r_mem s) m' (r_op s) (r_ip s) n (n + 32)"
    using LZ4_wildCopy32_ok [OF n' bnd(1,2) mpd mps bnd(3,4) apart] by blast
  then show ?thesis using literals_ok [OF c s cp _ _ _ n(1)] fits by auto
qed simp

lemma fast_step_ok:
  fixes s :: "'w lz4_regs"
  assumes c: "call_ok K (wmem w0) hist S" and s: "at_seq K w0 S s i out" and i: "i < length S"
    and room: "unat (r_op s) + 64 \<le> unat (lz_oend K)"
  shows "\<exists>r. fast_step BS pool K s = Some (Ret r) \<and> turn_ok K w0 hist S (block_decode (hist @ out) (drop i S)) i r"
proof -
  note b = call_okD [OF c] and tok = token_ok [OF c s i]
  define t where "t = S ! i"
  define s1 where "s1 = s\<lparr>r_ip := r_ip s + 1\<rparr>"
  define dec where "dec = block_decode (hist @ out) (drop i S)"
  have s1: "at_seq K w0 S s1 (i + 1) out" using tok(2) by (simp add: s1_def)
  note tokdec = tok(3) [folded t_def dec_def]
  let ?rest = "\<lambda>r. case r of
       Inr s \<Rightarrow> Some (Ret (Output_Error, s))
     | Inl (len, s) \<Rightarrow>
         (case fast_literals K t len s of
           None \<Rightarrow> safe_literal_copy BS pool K t len s
         | Some mc \<Rightarrow> rbind mc (\<lambda>m.
             read_offset (set_mem m (s\<lparr>r_ip := r_ip s + len, r_op := r_op s + len\<rparr>))
               (fast_match BS pool K t)))"
  have run: "fast_step BS pool K s = rbind (literal_length K t s1) ?rest"
    using tok(1) unfolding fast_step_def s1_def t_def by simp
  have "\<exists>r. rbind (literal_length K t s1) ?rest = Some (Ret r) \<and> turn_ok K w0 hist S dec i r"
    using literal_length_ok [OF c s1, of t]
  proof
    assume "\<exists>s' j. literal_length K t s1 = Some (Ret (Inr s')) \<and> at_seq K w0 S s' j out"
    then show ?thesis using error_ok by fastforce
  next
    assume "\<exists>len s' j. literal_length K t s1 = Some (Ret (Inl (len, s'))) \<and> at_seq K w0 S s' j out \<and> i + 1 \<le> j
       \<and> unat len < 8589934592 \<and> (drop_bit 4 t \<noteq> 15 \<longrightarrow> s' = s1 \<and> j = i + 1 \<and> len = ucast (drop_bit 4 t))
       \<and> (j + unat len \<le> length S \<longrightarrow> seq_length (unat (drop_bit 4 t)) (drop (i + 1) S) = Some (unat len, drop j S))"
    then obtain len s' j where l: "literal_length K t s1 = Some (Ret (Inl (len, s')))" "at_seq K w0 S s' j out" "i + 1 \<le> j"
        "unat len < 8589934592" "drop_bit 4 t \<noteq> 15 \<longrightarrow> s' = s1 \<and> len = ucast (drop_bit 4 t)"
      and d: "j + unat len \<le> length S \<Longrightarrow> seq_length (unat (drop_bit 4 t)) (drop (i + 1) S) = Some (unat len, drop j S)" by blast
    have dec: "j + unat len \<le> length S \<Longrightarrow> dec = literal_part t (hist @ out) (unat len) (drop j S)"
      unfolding tokdec using d by simp
    have ij: "i < j" using l(3) by simp
    have "(fast_literals K t len s' = None)
       \<or> (\<exists>m. fast_literals K t len s' = Some (Some (Ret m)) \<and> j + unat len + 2 < length S
          \<and> unat (r_op s') + unat len + 32 \<le> unat (lz_oend K)
          \<and> at_seq K w0 S (set_mem m (s'\<lparr>r_ip := r_ip s' + len, r_op := r_op s' + len\<rparr>)) (j + unat len) (out @ take (unat len) (drop j S)))"
    proof (cases "drop_bit 4 t = 15")
      case True
      then show ?thesis
        using fast_long_literals [OF c l(2) refl l(4)] b(1) by (auto simp: fast_literals_def Let_def)
    next
      case False
      then have n: "len = ucast (drop_bit 4 t)" "s' = s1" using l(5) by simp_all
      then have "unat len = unat (drop_bit 4 t)" by simp
      moreover have "unat (drop_bit 4 t) \<noteq> 15" using False word_eq_unatI [of "drop_bit 4 t" 15] by auto
      ultimately have n14: "unat len \<le> 14" using nibble_high(2) [of t] by simp
      have room': "unat (r_op s') + 64 \<le> unat (lz_oend K)" using room n by (simp add: s1_def)
      show ?thesis
      proof (cases "r_ip s' > lz_iend K - 17")
        case True
        then show ?thesis using False b(1) by (simp add: fast_literals_def Let_def)
      next
        case near: False
        then have fits: "j + 17 \<le> length S"
          using iend_minus [OF c, of 17] at_seqD(5) [OF l(2)] b(7) by (simp add: word_less_nat_alt)
        then show ?thesis
          using literals16_ok [OF c l(2) refl, of len] n14 room' near False b(1)
          by (auto simp: fast_literals_def Let_def)
      qed
    qed
    then show ?thesis
    proof
      assume "fast_literals K t len s' = None"
      then show ?thesis
        using safe_literal_copy_ok [OF c l(2) ij refl l(4) dec, of BS pool] l(1) by simp
    next
      let ?lits = "take (unat len) (drop j S)"
      assume "\<exists>m. fast_literals K t len s' = Some (Some (Ret m)) \<and> j + unat len + 2 < length S
          \<and> unat (r_op s') + unat len + 32 \<le> unat (lz_oend K)
          \<and> at_seq K w0 S (set_mem m (s'\<lparr>r_ip := r_ip s' + len, r_op := r_op s' + len\<rparr>)) (j + unat len) (out @ ?lits)"
      then obtain m where m: "fast_literals K t len s' = Some (Some (Ret m))" "j + unat len + 2 < length S"
          "unat (r_op s') + unat len + 32 \<le> unat (lz_oend K)"
        and s2: "at_seq K w0 S (set_mem m (s'\<lparr>r_ip := r_ip s' + len, r_op := r_op s' + len\<rparr>)) (j + unat len) (out @ ?lits)" by blast
      define s2' where "s2' = set_mem m (s'\<lparr>r_ip := r_ip s' + len, r_op := r_op s' + len\<rparr>)"
      obtain offset where o: "\<And>k :: size_t \<Rightarrow> 'w lz4_regs \<Rightarrow> (lz4_next \<times> 'w lz4_regs) outcome option.
            read_offset s2' k = k offset (s2'\<lparr>r_ip := r_ip s2' + 2\<rparr>)" "unat offset < 65536"
        and s3: "at_seq K w0 S (s2'\<lparr>r_ip := r_ip s2' + 2\<rparr>) (j + unat len + 2) (out @ ?lits)"
        and d3: "match_part t (hist @ out @ ?lits) (drop (j + unat len) S)
           = nibble_dec hist (out @ ?lits) S (j + unat len + 2) (unat offset) (unat (t AND 15))"
        using read_offset_exists [OF c s2, of t] m(2) by (auto simp: s2'_def)
      have "\<not> length (drop j S) < unat len" "length (drop j S) \<noteq> unat len" using m(2) by auto
      then have "dec = nibble_dec hist (out @ ?lits) S (j + unat len + 2) (unat offset) (unat (t AND 15))"
        using dec m(2) d3 by (simp add: literal_part_def add.commute)
      moreover have "unat (r_op s2') + 32 \<le> unat (lz_oend K)"
        using m(3) b(11) by (simp add: s2'_def unat_plus)
      ultimately show ?thesis
        using fast_match_ok [OF c s3 _ m(2) o(2), of i dec t BS pool] l(1) m(1) o(1) ij by (auto simp flip: s2'_def)
    qed
  qed
  then show ?thesis by (simp only: run dec_def)
qed

section \<open>The loops together\<close>

definition run_end :: "lz4_call \<Rightarrow> 'w world \<Rightarrow> u8 list \<Rightarrow> u8 list \<Rightarrow> u8 list option
    \<Rightarrow> lz4_next \<times> 'w lz4_regs \<Rightarrow> bool" where
  "run_end K w0 hist S dec r = (case r of (nxt, s) \<Rightarrow>
     nxt = Output_Error \<and> writes_output K w0 s \<and> (\<exists>j\<le>length S. unat (r_ip s) = unat (lz_src K) + j)
     \<or> nxt = Decoded \<and> (\<exists>out. at_seq K w0 S s (length S) out \<and> dec = Some (hist @ out)))"

lemma lz4_run_ok:
  assumes c: "call_ok K (wmem w0) hist S" and "at_seq K w0 S s i out" "i < length S"
    and "nxt = Safe_Loop \<or> nxt = Fast_Loop \<and> unat (r_op s) + 64 \<le> unat (lz_oend K)"
  shows "\<exists>r. lz4_run BS pool K nxt s = Some (Ret r)
    \<and> run_end K w0 hist S (block_decode (hist @ out) (drop i S)) r"
  using assms(2-4)
proof (induction "length S - i" arbitrary: i s out nxt rule: less_induct)
  case less
  let ?dec = "block_decode (hist @ out) (drop i S)"
  obtain nxt1 s1 where step: "(if nxt = Safe_Loop then safe_step BS pool K s else fast_step BS pool K s) = Some (Ret (nxt1, s1))"
    and t: "turn_ok K w0 hist S ?dec i (nxt1, s1)"
    using safe_step_ok [OF c less.prems(1,2), of BS pool] fast_step_ok [OF c less.prems(1,2), of BS pool] less.prems(3)
    by fastforce
  have run: "lz4_run BS pool K nxt s = lz4_run BS pool K nxt1 s1"
    using step less.prems(3) by (subst lz4_run.simps) auto
  have stop: "lz4_run BS pool K nxt1 s1 = Some (Ret (nxt1, s1))" if "nxt1 = Decoded \<or> nxt1 = Output_Error"
    using that by (subst lz4_run.simps) auto
  show ?case
  proof (cases "nxt1 = Decoded \<or> nxt1 = Output_Error")
    case True
    then show ?thesis using run stop t by (auto simp: turn_ok_def run_end_def)
  next
    case False
    then obtain j out' where "i < j" "j < length S" "at_seq K w0 S s1 j out'" "?dec = block_decode (hist @ out') (drop j S)"
        "nxt1 = Fast_Loop \<longrightarrow> unat (r_op s1) + 64 \<le> unat (lz_oend K)"
      using t by (cases nxt1) (auto simp: turn_ok_def)
    then show ?thesis
      using less.hyps [of j s1 out' nxt1] False run by (cases nxt1) auto
  qed
qed

section \<open>A call\<close>

text \<open>
  The buffers of a call: the block \<open>S\<close> at \<open>src\<close>, room for \<open>cap\<close> bytes at \<open>dst\<close>, not in the first pages
  and a byte apart.
\<close>

definition block_args :: "mem \<Rightarrow> addr \<Rightarrow> u8 list \<Rightarrow> addr \<Rightarrow> nat \<Rightarrow> bool" where
  "block_args m src S dst cap \<longleftrightarrow>
     0 < length S \<and> length S \<le> 2 ^ 24 \<and> load_bytes m src (length S) = Ret S
     \<and> 64 \<le> unat src \<and> unat src + length S < 2 ^ 63
     \<and> cap < 2 ^ 31 \<and> 65600 \<le> unat dst \<and> unat dst + cap < 2 ^ 63
     \<and> mapped_in m (unat dst) (unat dst + cap)
     \<and> far_apart (unat src) (unat src + length S) (unat dst) (unat dst + cap)"

text \<open>What a call leaves: the result, and the memory when it was \<open>m\<close> before.\<close>

definition decoded_ok :: "u8 list \<Rightarrow> u8 list \<Rightarrow> addr \<Rightarrow> nat \<Rightarrow> 'w world \<Rightarrow> int \<times> 'w world \<Rightarrow> bool" where
  "decoded_ok hist S dst cap w r = (case r of (n, w') \<Rightarrow>
     w' = w\<lparr>wmem := wmem w'\<rparr> \<and> writes_in (wmem w) (wmem w') (unat dst) (unat dst + cap)
     \<and> - int (length S) - 1 \<le> n \<and> n \<le> int cap
     \<and> (0 \<le> n \<longrightarrow> (\<exists>out. length out = nat n \<and> load_bytes (wmem w') dst (nat n) = Ret out
                    \<and> block_decode hist S = Some (hist @ out))))"

text \<open>The narrowing to \<open>int\<close> is exact.\<close>

lemma narrow_int: "(ucast (word_of_int x :: addr) :: u32) = word_of_int x"
  by (rule bit_word_eqI) (simp add: bit_ucast_iff bit_word_of_int_iff)

lemma narrow_result: "n < 2147483648 \<Longrightarrow> sint (ucast (of_nat n :: addr) :: u32) = int n"
  using narrow_int [of "int n"] by (simp add: signed_of_nat signed_take_bit_int_eq_self)

lemma narrow_error: "n < 2147483648 \<Longrightarrow> sint (ucast (- of_nat n :: addr) :: u32) = - int n"
proof -
  assume "n < 2147483648"
  moreover have "(ucast (- of_nat n :: addr) :: u32) = word_of_int (- int n)"
    using narrow_int [of "- int n"] by simp
  ultimately show ?thesis by (simp only: signed_of_int) (simp add: signed_take_bit_int_eq_self)
qed

lemma block_decode_zero: "block_decode hist [0] = Some hist"
  by (simp add: seq_length_def)

lemma generic_ok:
  assumes b: "block_args (wmem w) src S dst cap"
    and h: "\<And>K. lz_dst K = dst \<Longrightarrow> unat (lz_oend K) = unat dst + cap \<Longrightarrow> lz_dict K = dict \<Longrightarrow> lz_lowPrefix K = lowPrefix
      \<Longrightarrow> lz_dictSize K = dictSize \<Longrightarrow> lz_dictEnd K = (if dictStart = 0 then 0 else dictStart + dictSize)
      \<Longrightarrow> history_ok K (wmem w) hist"
  shows "\<exists>r. LZ4_decompress_generic fast BS pool src dst (int (length S)) (int cap) True False dict lowPrefix dictStart dictSize w
     = Some (Ret r) \<and> decoded_ok hist S dst cap w r"
proof (cases "cap = 0")
  case True
  have src: "src \<noteq> 0" using b by (auto simp: block_args_def)
  have w: "w = w\<lparr>wmem := wmem w\<rparr>" by simp
  show ?thesis
  proof (cases "length S = 1")
    case one: True
    then obtain x where S: "S = [x]" by (auto simp: length_Suc_conv)
    have "load_bytes (wmem w) src (length S) = Ret S" using b by (simp add: block_args_def)
    then have "load_w (wmem w) src = Ret x" unfolding load_bytes_iff S load_w_byte by simp
    then show ?thesis
      using S True src block_decode_zero [of hist] by (auto simp: LZ4_decompress_generic_def decoded_ok_def)
  next
    case False
    then have "int (length S) \<noteq> 1" by simp
    then show ?thesis using True src by (simp add: LZ4_decompress_generic_def decoded_ok_def)
  qed
next
  case False
  define K where "K = \<lparr>lz_endOnInput = True, lz_partial = False, lz_dict = dict,
               lz_src = src, lz_iend = src + word_of_int (int (length S)),
               lz_dst = dst, lz_oend = dst + word_of_int (int cap), lz_lowPrefix = lowPrefix,
               lz_dictEnd = (if dictStart = 0 then 0 else dictStart + dictSize),
               lz_dictSize = dictSize\<rparr>"
  have args: "0 < length S" "length S \<le> 16777216" "load_bytes (wmem w) src (length S) = Ret S" "64 \<le> unat src"
      "unat src + length S < 9223372036854775808" "cap < 2147483648" "65600 \<le> unat dst" "unat dst + cap < 9223372036854775808"
      "mapped_in (wmem w) (unat dst) (unat dst + cap)" "far_apart (unat src) (unat src + length S) (unat dst) (unat dst + cap)"
    using b by (simp_all add: block_args_def)
  have ends: "unat (lz_iend K) = unat src + length S" "unat (lz_oend K) = unat dst + cap"
    using args by (simp_all add: K_def ptr)
  have hist: "history_ok K (wmem w) hist" using ends(2) by (intro h) (simp_all add: K_def)
  have c: "call_ok K (wmem w) hist S"
    using args ends hist unfolding call_ok_def by (simp add: K_def)
  have s0: "at_seq K w S \<lparr>r_ip = src, r_op = dst, r_world = w\<rparr> 0 []"
    using ends by (simp add: at_seq_def writes_output_def K_def load_bytes_iff)
  define first where "first = (if fast \<and> int cap \<ge> 64 then Fast_Loop else Safe_Loop)"
  have "first = Safe_Loop \<or> first = Fast_Loop \<and> unat dst + 64 \<le> unat (lz_oend K)" using ends(2) by (simp add: first_def)
  then obtain nxt s where run: "lz4_run BS pool K first \<lparr>r_ip = src, r_op = dst, r_world = w\<rparr> = Some (Ret (nxt, s))"
    and e: "run_end K w hist S (block_decode hist S) (nxt, s)"
    using lz4_run_ok [OF c s0, of first BS pool] args(1) by auto
  have "src \<noteq> 0" using args(4) by auto
  then have result: "LZ4_decompress_generic fast BS pool src dst (int (length S)) (int cap) True False dict lowPrefix dictStart dictSize w
     = Some (Ret (lz4_result K nxt s, r_world s))"
    using run False args(1) unfolding LZ4_decompress_generic_def Let_def K_def [symmetric] first_def [symmetric] by simp
  have w: "writes_output K w s" using e at_seqD(1) by (auto simp: run_end_def)
  have "decoded_ok hist S dst cap w (lz4_result K nxt s, r_world s)"
  proof (cases "nxt = Decoded")
    case True
    then obtain out where a: "at_seq K w S s (length S) out" and d: "block_decode hist S = Some (hist @ out)"
      using e by (auto simp: run_end_def)
    note a' = at_seqD [OF a]
    have "r_op s = dst + of_nat (length out)" using addr_split [OF a'(3)] by (simp add: K_def)
    moreover have "length out \<le> cap" using a'(3,4) ends(2) by (simp add: K_def)
    ultimately have "lz4_result K nxt s = int (length out)" "length out \<le> cap"
      using True args(6) narrow_result [of "length out"] by (simp_all add: lz4_result_def K_def)
    then show ?thesis using a'(2) d w ends by (auto simp: decoded_ok_def writes_output_def K_def)
  next
    case False
    then obtain j where j: "j \<le> length S" "unat (r_ip s) = unat src + j" using e by (auto simp: run_end_def K_def)
    then have "r_ip s = src + of_nat j" using addr_split by simp
    then have "lz4_result K nxt s = - int j - 1"
      using False j args(2) narrow_error [of j] by (simp add: lz4_result_def K_def)
    then show ?thesis using j w ends by (auto simp: decoded_ok_def writes_output_def K_def)
  qed
  then show ?thesis using result by blast
qed

text \<open>The dictionary \<open>D\<close> of a call lies right before the output or apart from it.\<close>

definition dict_args :: "mem \<Rightarrow> u8 list \<Rightarrow> addr \<Rightarrow> addr \<Rightarrow> nat \<Rightarrow> bool" where
  "dict_args m D dictStart dst cap \<longleftrightarrow> length D < 2 ^ 31 \<and>
     (D \<noteq> [] \<longrightarrow> load_bytes m dictStart (length D) = Ret D \<and> dictStart \<noteq> 0
        \<and> unat dictStart + length D < 2 ^ 63
        \<and> (dictStart + of_nat (length D) = dst
           \<or> far_apart (unat dictStart) (unat dictStart + length D) (unat dst) (unat dst + cap)))"

lemma safe_ok:
  assumes "block_args (wmem w) src S dst cap"
  shows "\<exists>r. LZ4_decompress_safe fast BS pool src dst (int (length S)) (int cap) w = Some (Ret r)
    \<and> decoded_ok [] S dst cap w r"
  unfolding LZ4_decompress_safe_def
  by (rule generic_ok [OF assms]) (simp add: history_ok_def)

lemma usingDict_ok:
  assumes b: "block_args (wmem w) src S dst cap" and d: "dict_args (wmem w) D dictStart dst cap"
  shows "\<exists>r. LZ4_decompress_safe_usingDict fast BS pool src dst (int (length S)) (int cap) dictStart (int (length D)) w
     = Some (Ret r) \<and> decoded_ok D S dst cap w r"
proof (cases "D = []")
  case True
  then show ?thesis using safe_ok [OF b, of fast BS pool] by (simp add: LZ4_decompress_safe_usingDict_def)
next
  case False
  have dl: "length D < 2147483648" "load_bytes (wmem w) dictStart (length D) = Ret D" "dictStart \<noteq> 0"
      "unat dictStart + length D < 9223372036854775808"
    and place: "dictStart + of_nat (length D) = dst
           \<or> far_apart (unat dictStart) (unat dictStart + length D) (unat dst) (unat dst + cap)"
    using d False by (simp_all add: dict_args_def)
  have de: "unat (dictStart + of_nat (length D)) = unat dictStart + length D" using dl by (simp add: ptr)
  show ?thesis
  proof (cases "dictStart + of_nat (length D) = dst")
    case True
    then have before: "dst - of_nat (length D) = dictStart" "length D \<le> unat dst" using de by (auto simp: algebra_simps)
    show ?thesis
    proof (cases "int (length D) \<ge> 65535")
      case big: True
      have "\<exists>r. LZ4_decompress_safe_withPrefix64k fast BS pool src dst (int (length S)) (int cap) w = Some (Ret r)
         \<and> decoded_ok D S dst cap w r"
        unfolding LZ4_decompress_safe_withPrefix64k_def
        using big before dl by (intro generic_ok [OF b]) (simp add: history_ok_def)
      then show ?thesis using True big False by (simp add: LZ4_decompress_safe_usingDict_def)
    next
      case small: False
      have "\<exists>r. LZ4_decompress_safe_withSmallPrefix fast BS pool src dst (int (length S)) (int cap) (word_of_int (int (length D))) w
         = Some (Ret r) \<and> decoded_ok D S dst cap w r"
        unfolding LZ4_decompress_safe_withSmallPrefix_def
        using before dl by (intro generic_ok [OF b]) (simp add: history_ok_def)
      then show ?thesis using True small False by (simp add: LZ4_decompress_safe_usingDict_def)
    qed
  next
    case apart: False
    have "\<exists>r. LZ4_decompress_safe_forceExtDict fast BS pool src dst (int (length S)) (int cap) dictStart (word_of_int (int (length D))) w
       = Some (Ret r) \<and> decoded_ok D S dst cap w r"
      unfolding LZ4_decompress_safe_forceExtDict_def
      using place apart dl de by (intro generic_ok [OF b]) (simp add: history_ok_def)
    then show ?thesis using apart False by (simp add: LZ4_decompress_safe_usingDict_def)
  qed
qed

section \<open>Correctness\<close>

text \<open>
  C6. For every block, however malformed, \<open>LZ4_decompress_safe\<close> returns; it reads only the block and
  the output, writes nothing but the output, wild copies included, and its result is the number of
  bytes in the output or a negative position in the input.
\<close>

theorem LZ4_decompress_safe_stays_inside:
  assumes "block_args (wmem w) src S dst cap"
  shows "\<exists>n w'. LZ4_decompress_safe fast_dec_loop BS pool src dst (int (length S)) (int cap) w = Some (Ret (n, w'))
     \<and> w' = w\<lparr>wmem := wmem w'\<rparr> \<and> dom (wmem w') = dom (wmem w)
     \<and> (\<forall>x. unat x < unat dst \<or> unat dst + cap \<le> unat x \<longrightarrow> wmem w' x = wmem w x)
     \<and> - int (length S) - 1 \<le> n \<and> n \<le> int cap"
  using safe_ok [OF assms, of fast_dec_loop BS pool] by (fastforce simp: decoded_ok_def writes_in_def)

text \<open>
  C5. When decoding with a dictionary reports success, the bytes in the output are what the format
  says the block means after the dictionary; for each of the three ways the dictionary is passed on
  (64 KB or less right before the output, or elsewhere) and with or without the fast loop.
\<close>

theorem LZ4_decompress_safe_usingDict_refines:
  assumes "block_args (wmem w) src S dst cap" and "dict_args (wmem w) D dictStart dst cap"
    and "LZ4_decompress_safe_usingDict fast_dec_loop BS pool src dst (int (length S)) (int cap)
           dictStart (int (length D)) w = Some (Ret (n, w'))"
    and "0 \<le> n"
  shows "\<exists>out. length out = nat n \<and> load_bytes (wmem w') dst (nat n) = Ret out
     \<and> block_decode D S = Some (D @ out)"
  using usingDict_ok [OF assms(1,2), of fast_dec_loop BS pool] assms(3,4) by (auto simp: decoded_ok_def)

section \<open>Witnesses\<close>

definition lz4_sample :: "u8 list \<Rightarrow> mem" where
  "lz4_sample bs = (\<lambda>x. Some (case place 0x1000 bs x of Some b \<Rightarrow> b | None \<Rightarrow> 0))"

lemma lz4_sample_zeros: "load_bytes (lz4_sample [0x30, 97, 98, 99]) 0x30000 2 = Ret [0, 0]"
  by (simp add: lz4_sample_def mem_eval)
lemma lz4_sample_args:
  "block_args (lz4_sample [0x30, 97, 98, 99]) 0x1000 [0x30, 97, 98, 99] 0x20000 3"
  by (simp add: block_args_def lz4_sample_def mapped_in_def far_apart_def mem_eval)

lemma lz4_sample_dict:
  "dict_args (lz4_sample [0x30, 97, 98, 99]) [0, 0] 0x30000 0x20000 3"
  using lz4_sample_zeros by (simp add: dict_args_def far_apart_def flip: numeral_2_eq_2)

lemma lz4_sample_run:
  "LZ4_decompress_safe_usingDict True bump_services 1 0x1000 0x20000 4 3 0x30000 2 \<lparr>wmem = lz4_sample [0x30, 97, 98, 99], fw = 0x2000 :: addr\<rparr>
   = Some (Ret (3, \<lparr>wmem = (lz4_sample [0x30, 97, 98, 99])(0x20000 \<mapsto> 97, 0x20001 \<mapsto> 98, 0x20002 \<mapsto> 99), fw = 0x2000\<rparr>))"
proof -
  let ?K = "\<lparr>lz_endOnInput = True, lz_partial = False, lz_dict = usingExtDict, lz_src = 0x1000, lz_iend = 0x1004,
     lz_dst = 0x20000, lz_oend = 0x20003, lz_lowPrefix = 0x20000, lz_dictEnd = 0x30002, lz_dictSize = 2\<rparr>"
  let ?m = "lz4_sample [0x30, 97, 98, 99]"
  have tok: "?m 0x1000 = Some 0x30" "?m 0x1001 = Some 97" "?m 0x1002 = Some 98" "?m 0x1003 = Some 99"
    by (simp_all add: lz4_sample_def mem_eval)
  have mp: "?m x \<noteq> None" for x by (simp add: lz4_sample_def)
  have cp: "memcpy ?m 0x20000 0x1001 3 = Ret (?m(0x20000 \<mapsto> 97, 0x20001 \<mapsto> 98, 0x20002 \<mapsto> 99))"
  proof -
    have "unat (3 :: size_t) = Suc (Suc (Suc 0))" by simp
    then show ?thesis using mp by (simp only: memcpy_def) (simp add: tok)
  qed
  have st: "safe_step bump_services 1 ?K \<lparr>r_ip = 0x1000, r_op = 0x20000, r_world = \<lparr>wmem = ?m, fw = 0x2000 :: addr\<rparr>\<rparr>
    = Some (Ret (Decoded, \<lparr>r_ip = 0x1004, r_op = 0x20003,
         r_world = \<lparr>wmem = ?m(0x20000 \<mapsto> 97, 0x20001 \<mapsto> 98, 0x20002 \<mapsto> 99), fw = 0x2000\<rparr>\<rparr>))"
    by (simp add: safe_step_def load_w_byte tok literal_length_def safe_literal_copy_def memmove_def cp Let_def)
  show ?thesis
    unfolding LZ4_decompress_safe_usingDict_def LZ4_decompress_safe_forceExtDict_def LZ4_decompress_generic_def Let_def
    by (simp add: lz4_run.simps [of _ _ _ Safe_Loop] st lz4_run.simps [of _ _ _ Decoded] lz4_result_def)
qed
theorem LZ4_decompress_safe_stays_inside_witness:
  "\<exists>n w'. LZ4_decompress_safe True bump_services 1 0x1000 0x20000 4 3 \<lparr>wmem = lz4_sample [0x30, 97, 98, 99], fw = 0x2000\<rparr>
     = Some (Ret (n, w')) \<and> - 5 \<le> n \<and> n \<le> 3"
  using LZ4_decompress_safe_stays_inside [of "\<lparr>wmem = lz4_sample [0x30, 97, 98, 99], fw = 0x2000\<rparr>" "0x1000"
      "[0x30, 97, 98, 99]" "0x20000" 3 True bump_services 1] lz4_sample_args
  by fastforce

theorem LZ4_decompress_safe_usingDict_refines_witness:
  "\<exists>out. length out = 3 \<and> block_decode [0, 0] [0x30, 97, 98, 99] = Some ([0, 0] @ out)"
  using LZ4_decompress_safe_usingDict_refines [of "\<lparr>wmem = lz4_sample [0x30, 97, 98, 99], fw = 0x2000\<rparr>" "0x1000"
      "[0x30, 97, 98, 99]" "0x20000" 3 "[0, 0]" "0x30000" True bump_services 1 3] lz4_sample_args lz4_sample_dict lz4_sample_run
  by fastforce

end
