(* ===== verification/Lz4_Stream.thy ===== *)
theory Lz4_Stream
  imports Lz4_Decode_Props
begin

text \<open>
  \<^verbatim>\<open>lib/lz4/lz4.c\<close>: decoding a series of blocks that refer back to the blocks before them, and the
  remaining entry points of the decoder. A context records where the last output ends (the prefix) and
  where the output before it was, when that is elsewhere (the external dictionary).
\<close>

section \<open>Entry points\<close>

definition LZ4_decompress_fast_withPrefix64k where
  "LZ4_decompress_fast_withPrefix64k fast_dec_loop BS pool source dest originalSize =
     LZ4_decompress_fast fast_dec_loop BS pool source dest originalSize"

definition LZ4_decompress_fast_extDict where
  "LZ4_decompress_fast_extDict fast_dec_loop BS pool source dest originalSize dictStart dictSize =
     LZ4_decompress_generic fast_dec_loop BS pool source dest 0 originalSize
       False False usingExtDict dest dictStart dictSize"

definition LZ4_decompress_safe_doubleDict where
  "LZ4_decompress_safe_doubleDict fast_dec_loop BS pool source dest compressedSize maxOutputSize
       prefixSize dictStart dictSize =
     LZ4_decompress_generic fast_dec_loop BS pool source dest compressedSize maxOutputSize
       True False usingExtDict (dest - prefixSize) dictStart dictSize"

definition LZ4_decompress_fast_doubleDict where
  "LZ4_decompress_fast_doubleDict fast_dec_loop BS pool source dest originalSize prefixSize dictStart dictSize =
     LZ4_decompress_generic fast_dec_loop BS pool source dest 0 originalSize
       False False usingExtDict (dest - prefixSize) dictStart dictSize"

definition LZ4_decompress_fast_usingDict ::
    "bool \<Rightarrow> 'w boot_services \<Rightarrow> u32 \<Rightarrow> addr \<Rightarrow> addr \<Rightarrow> int \<Rightarrow> addr \<Rightarrow> int \<Rightarrow> 'w world
     \<Rightarrow> (int \<times> 'w world) outcome option" where
  "LZ4_decompress_fast_usingDict fast_dec_loop BS pool source dest originalSize dictStart dictSize =
     (if dictSize = 0 \<or> dictStart + word_of_int dictSize = dest
      then LZ4_decompress_fast fast_dec_loop BS pool source dest originalSize
      else LZ4_decompress_fast_extDict fast_dec_loop BS pool source dest originalSize
             dictStart (word_of_int dictSize))"

section \<open>The context\<close>

record stream_decode =
  externalDict :: addr
  extDictSize :: size_t
  prefixEnd :: addr
  prefixSize :: size_t

definition LZ4_STREAMDECODESIZE :: size_t where "LZ4_STREAMDECODESIZE = 32"

text \<open>The context is zeroed memory; here a record. Its address only matters for \<open>free\<close>.\<close>

definition zero_stream_decode :: stream_decode where
  "zero_stream_decode = \<lparr>externalDict = 0, extDictSize = 0, prefixEnd = 0, prefixSize = 0\<rparr>"

definition LZ4_createStreamDecode ::
    "'w boot_services \<Rightarrow> u32 \<Rightarrow> 'w world \<Rightarrow> (addr \<times> stream_decode \<times> 'w world) outcome" where
  "LZ4_createStreamDecode BS pool w =
     obind (calloc BS pool 1 LZ4_STREAMDECODESIZE w) (\<lambda>(p, w). Ret (p, zero_stream_decode, w))"

definition LZ4_freeStreamDecode :: "'w boot_services \<Rightarrow> addr \<Rightarrow> 'w world \<Rightarrow> int \<times> 'w world" where
  "LZ4_freeStreamDecode BS p w = (if p = 0 then (0, w) else (0, c_free BS p w))"

definition LZ4_setStreamDecode :: "addr \<Rightarrow> int \<Rightarrow> stream_decode \<Rightarrow> int \<times> stream_decode" where
  "LZ4_setStreamDecode dictionary dictSize sd =
     (1, sd\<lparr>prefixSize := word_of_int dictSize,
            prefixEnd := (if dictSize \<noteq> 0 then dictionary + word_of_int dictSize else dictionary),
            externalDict := 0, extDictSize := 0\<rparr>)"

definition LZ4_MAX_INPUT_SIZE :: int where "LZ4_MAX_INPUT_SIZE = 0x7E000000"

definition LZ4_decoderRingBufferSize :: "int \<Rightarrow> int" where
  "LZ4_decoderRingBufferSize maxBlockSize =
     (if maxBlockSize < 0 \<or> maxBlockSize > LZ4_MAX_INPUT_SIZE then 0
      else 65536 + 14 + max 16 maxBlockSize)"

section \<open>Decoding one more block\<close>

definition LZ4_decompress_safe_continue ::
    "bool \<Rightarrow> 'w boot_services \<Rightarrow> u32 \<Rightarrow> stream_decode \<Rightarrow> addr \<Rightarrow> addr \<Rightarrow> int \<Rightarrow> int \<Rightarrow> 'w world
     \<Rightarrow> (int \<times> stream_decode \<times> 'w world) outcome option" where
  "LZ4_decompress_safe_continue fast_dec_loop BS pool sd source dest compressedSize maxOutputSize w =
     (if prefixSize sd = 0 then
        rbind (LZ4_decompress_safe fast_dec_loop BS pool source dest compressedSize maxOutputSize w) (\<lambda>(result, w).
          if result \<le> 0 then Some (Ret (result, sd, w))
          else Some (Ret (result, sd\<lparr>prefixSize := word_of_int result, prefixEnd := dest + word_of_int result\<rparr>, w)))
      else if prefixEnd sd = dest then
        rbind
          (if prefixSize sd \<ge> 65535
           then LZ4_decompress_safe_withPrefix64k fast_dec_loop BS pool source dest compressedSize maxOutputSize w
           else if extDictSize sd = 0
           then LZ4_decompress_safe_withSmallPrefix fast_dec_loop BS pool source dest compressedSize maxOutputSize
                  (prefixSize sd) w
           else LZ4_decompress_safe_doubleDict fast_dec_loop BS pool source dest compressedSize maxOutputSize
                  (prefixSize sd) (externalDict sd) (extDictSize sd) w) (\<lambda>(result, w).
          if result \<le> 0 then Some (Ret (result, sd, w))
          else Some (Ret (result, sd\<lparr>prefixSize := prefixSize sd + word_of_int result,
                                     prefixEnd := prefixEnd sd + word_of_int result\<rparr>, w)))
      else
        let sd = sd\<lparr>extDictSize := prefixSize sd, externalDict := prefixEnd sd - prefixSize sd\<rparr> in
        rbind (LZ4_decompress_safe_forceExtDict fast_dec_loop BS pool source dest compressedSize maxOutputSize
                 (externalDict sd) (extDictSize sd) w) (\<lambda>(result, w).
          if result \<le> 0 then Some (Ret (result, sd, w))
          else Some (Ret (result, sd\<lparr>prefixSize := word_of_int result, prefixEnd := dest + word_of_int result\<rparr>, w))))"

definition LZ4_decompress_fast_continue ::
    "bool \<Rightarrow> 'w boot_services \<Rightarrow> u32 \<Rightarrow> stream_decode \<Rightarrow> addr \<Rightarrow> addr \<Rightarrow> int \<Rightarrow> 'w world
     \<Rightarrow> (int \<times> stream_decode \<times> 'w world) outcome option" where
  "LZ4_decompress_fast_continue fast_dec_loop BS pool sd source dest originalSize w =
     (if prefixSize sd = 0 then
        rbind (LZ4_decompress_fast fast_dec_loop BS pool source dest originalSize w) (\<lambda>(result, w).
          if result \<le> 0 then Some (Ret (result, sd, w))
          else Some (Ret (result, sd\<lparr>prefixSize := word_of_int originalSize, prefixEnd := dest + word_of_int originalSize\<rparr>, w)))
      else if prefixEnd sd = dest then
        rbind
          (if prefixSize sd \<ge> 65535 \<or> extDictSize sd = 0
           then LZ4_decompress_fast fast_dec_loop BS pool source dest originalSize w
           else LZ4_decompress_fast_doubleDict fast_dec_loop BS pool source dest originalSize
                  (prefixSize sd) (externalDict sd) (extDictSize sd) w) (\<lambda>(result, w).
          if result \<le> 0 then Some (Ret (result, sd, w))
          else Some (Ret (result, sd\<lparr>prefixSize := prefixSize sd + word_of_int originalSize,
                                     prefixEnd := prefixEnd sd + word_of_int originalSize\<rparr>, w)))
      else
        let sd = sd\<lparr>extDictSize := prefixSize sd, externalDict := prefixEnd sd - prefixSize sd\<rparr> in
        rbind (LZ4_decompress_fast_extDict fast_dec_loop BS pool source dest originalSize
                 (externalDict sd) (extDictSize sd) w) (\<lambda>(result, w).
          if result \<le> 0 then Some (Ret (result, sd, w))
          else Some (Ret (result, sd\<lparr>prefixSize := word_of_int originalSize, prefixEnd := dest + word_of_int originalSize\<rparr>, w))))"

section \<open>A series of blocks, one behind the other\<close>

text \<open>The history of a context whose output went on without a gap up to \<open>dest\<close>.\<close>

definition rolling :: "stream_decode \<Rightarrow> mem \<Rightarrow> u8 list \<Rightarrow> addr \<Rightarrow> bool" where
  "rolling sd m hist dest \<longleftrightarrow> prefixSize sd = of_nat (length hist) \<and> extDictSize sd = 0
     \<and> length hist \<le> unat dest
     \<and> (hist \<noteq> [] \<longrightarrow> prefixEnd sd = dest \<and> load_bytes m (dest - of_nat (length hist)) (length hist) = Ret hist)"

lemma rolling_start: "rolling zero_stream_decode m [] dest"
  by (simp add: rolling_def zero_stream_decode_def)

text \<open>The three ways a rolling context decodes have one specification.\<close>

lemma rolling_run:
  assumes b: "block_args (wmem w) src S dest cap" and r: "rolling sd (wmem w) hist dest"
  shows "\<exists>n w'. LZ4_decompress_safe_continue fast BS pool sd src dest (int (length S)) (int cap) w
      = Some (Ret (n, if n \<le> 0 then sd else sd\<lparr>prefixSize := prefixSize sd + word_of_int n,
                                             prefixEnd := dest + word_of_int n\<rparr>, w'))
    \<and> decoded_ok hist S dest cap w (n, w')"
proof (cases "hist = []")
  case True
  then have "prefixSize sd = 0" using r by (simp add: rolling_def)
  then show ?thesis
    using safe_ok [OF b, of fast BS pool] True by (fastforce simp: LZ4_decompress_safe_continue_def)
next
  case False
  have h: "prefixSize sd = of_nat (length hist)" "extDictSize sd = 0" "length hist \<le> unat dest" "prefixEnd sd = dest"
      "load_bytes (wmem w) (dest - of_nat (length hist)) (length hist) = Ret hist"
    using r False by (simp_all add: rolling_def)
  have lt: "length hist < 18446744073709551616" using h(3) unsigned_less [of dest, where ?'a = nat] by simp
  then have n: "unat (prefixSize sd) = length hist" using h(1) by (simp add: unat_of_nat_addr)
  then have "prefixSize sd \<noteq> 0" using False by auto
  show ?thesis
  proof (cases "prefixSize sd \<ge> 65535")
    case True
    then have "65535 \<le> length hist" using n by (simp add: word_le_nat_alt)
    then have "\<exists>r. LZ4_decompress_safe_withPrefix64k fast BS pool src dest (int (length S)) (int cap) w = Some (Ret r)
        \<and> decoded_ok hist S dest cap w r"
      unfolding LZ4_decompress_safe_withPrefix64k_def using h by (intro generic_ok [OF b]) (simp add: history_ok_def)
    then show ?thesis using True \<open>prefixSize sd \<noteq> 0\<close> h(4) by (fastforce simp: LZ4_decompress_safe_continue_def)
  next
    case False
    have "\<exists>r. LZ4_decompress_safe_withSmallPrefix fast BS pool src dest (int (length S)) (int cap) (prefixSize sd) w
        = Some (Ret r) \<and> decoded_ok hist S dest cap w r"
      unfolding LZ4_decompress_safe_withSmallPrefix_def using h by (intro generic_ok [OF b]) (simp add: history_ok_def)
    then show ?thesis using False \<open>prefixSize sd \<noteq> 0\<close> h(2,4) by (fastforce simp: LZ4_decompress_safe_continue_def)
  qed
qed

text \<open>
  C9. Decoding a block right behind the output of the blocks before it returns; when it reports
  bytes, they are what the block means after \<^emph>\<open>all\<close> the earlier output, and the context is ready for the
  next block behind them. On failure the context is unchanged.
\<close>

theorem LZ4_decompress_safe_continue_rolls:
  assumes "block_args (wmem w) src S dest cap" and "rolling sd (wmem w) hist dest"
  shows "\<exists>n sd' w'. LZ4_decompress_safe_continue fast_dec_loop BS pool sd src dest (int (length S)) (int cap) w
      = Some (Ret (n, sd', w'))
    \<and> (if n \<le> 0 then sd' = sd
       else \<exists>out. int (length out) = n \<and> block_decode hist S = Some (hist @ out)
            \<and> rolling sd' (wmem w') (hist @ out) (dest + word_of_int n))"
proof -
  obtain n w' where run: "LZ4_decompress_safe_continue fast_dec_loop BS pool sd src dest (int (length S)) (int cap) w
      = Some (Ret (n, if n \<le> 0 then sd else sd\<lparr>prefixSize := prefixSize sd + word_of_int n,
                                             prefixEnd := dest + word_of_int n\<rparr>, w'))"
    and ok: "decoded_ok hist S dest cap w (n, w')"
    using rolling_run [OF assms, of fast_dec_loop BS pool] by blast
  show ?thesis
  proof (cases "n \<le> 0")
    case True
    then show ?thesis using run by auto
  next
    case False
    then obtain out where out: "length out = nat n" "load_bytes (wmem w') dest (nat n) = Ret out"
        "block_decode hist S = Some (hist @ out)" and top: "n \<le> int cap"
      and w': "writes_in (wmem w) (wmem w') (unat dest) (unat dest + cap)"
      using ok by (auto simp: decoded_ok_def)
    have n: "n = int (length out)" using out(1) False by simp
    have d: "unat dest + cap < 9223372036854775808" using assms(1) by (simp add: block_args_def)
    have "load_bytes (wmem w') (dest - of_nat (length hist)) (length hist) = Ret hist" if "hist \<noteq> []"
    proof -
      have h: "length hist \<le> unat dest" "load_bytes (wmem w) (dest - of_nat (length hist)) (length hist) = Ret hist"
        using assms(2) that by (simp_all add: rolling_def)
      have u: "unat (dest - of_nat (length hist)) = unat dest - length hist"
        using h(1) d by (simp add: unat_minus unat_of_nat_addr)
      have "wmem w' x = wmem w x" if "in_range (dest - of_nat (length hist)) (length hist) x" for x
      proof -
        have "unat x < unat dest" using that u h(1) d by (subst (asm) in_range_nowrap) auto
        then show ?thesis using w' by (simp add: writes_in_def)
      qed
      then show ?thesis using h(2) load_bytes_cong [of "dest - of_nat (length hist)" "length hist" "wmem w'" "wmem w"] by simp
    qed
    moreover have "load_bytes (wmem w') (dest - of_nat (length hist) + of_nat (length hist)) (length out) = Ret out"
      using out n by simp
    ultimately have "load_bytes (wmem w') (dest - of_nat (length hist)) (length hist + length out) = Ret (hist @ out)"
      by (cases "hist = []") (auto intro: load_bytes_append)
    moreover have "dest + of_nat (length out) - of_nat (length (hist @ out)) = dest - of_nat (length hist)" by simp
    ultimately have "load_bytes (wmem w') (dest + of_nat (length out) - of_nat (length (hist @ out))) (length (hist @ out))
        = Ret (hist @ out)" by simp
    moreover have "unat (dest + of_nat (length out)) = unat dest + length out"
      using d top n by (simp add: unat_plus unat_of_nat_addr)
    ultimately have "rolling (sd\<lparr>prefixSize := prefixSize sd + word_of_int n, prefixEnd := dest + word_of_int n\<rparr>)
        (wmem w') (hist @ out) (dest + word_of_int n)"
      using assms(2) n by (simp add: rolling_def)
    then show ?thesis using run False out(3) n by auto
  qed
qed

text \<open>A context with two bytes of history.\<close>

lemma lz4_sample_rolling:
  "rolling \<lparr>externalDict = 0, extDictSize = 0, prefixEnd = 0x20000, prefixSize = 2\<rparr>
     (lz4_sample [0x30, 97, 98, 99]) [0, 0] 0x20000"
proof -
  have "load_bytes (lz4_sample [0x30, 97, 98, 99]) 0x1FFFE 2 = Ret [0, 0]"
    by (simp add: lz4_sample_def mem_eval)
  then show ?thesis by (simp add: rolling_def flip: numeral_2_eq_2)
qed

theorem LZ4_decompress_safe_continue_rolls_witness:
  "\<exists>n sd' w'. LZ4_decompress_safe_continue True bump_services 1
       \<lparr>externalDict = 0, extDictSize = 0, prefixEnd = 0x20000, prefixSize = 2\<rparr> 0x1000 0x20000 4 3
       \<lparr>wmem = lz4_sample [0x30, 97, 98, 99], fw = 0x2000\<rparr> = Some (Ret (n, sd', w'))
    \<and> (if n \<le> 0 then sd' = \<lparr>externalDict = 0, extDictSize = 0, prefixEnd = 0x20000, prefixSize = 2\<rparr>
       else \<exists>out. int (length out) = n \<and> block_decode [0, 0] [0x30, 97, 98, 99] = Some ([0, 0] @ out)
            \<and> rolling sd' (wmem w') ([0, 0] @ out) (0x20000 + word_of_int n))"
  using LZ4_decompress_safe_continue_rolls [of "\<lparr>wmem = lz4_sample [0x30, 97, 98, 99], fw = 0x2000\<rparr>" "0x1000"
      "[0x30, 97, 98, 99]" "0x20000" 3 "\<lparr>externalDict = 0, extDictSize = 0, prefixEnd = 0x20000, prefixSize = 2\<rparr>"
      "[0, 0]" True bump_services 1] lz4_sample_args lz4_sample_rolling
  by simp

end
