(* ===== verification/Lz4_Frame.thy ===== *)
theory Lz4_Frame
  imports Lz4_Stream XXHash
begin

text \<open>
  \<^verbatim>\<open>lib/lz4/lz4frame.c\<close>: decompression of LZ4 frames. The decoder is a state machine that can stop
  anywhere in its input and output: \<open>dStage\<close> is where it goes on, and data that spans two calls waits
  in the buffers \<open>tmpIn\<close> and \<open>tmpOutBuffer\<close>. Each \<open>case\<close> of the \<open>switch\<close> is a function here; a fall
  through to the next case is a call of it. The context is a record; the memory it occupies is only
  allocated and freed. Assertions are off in this file.
\<close>

unbundle bit_operations_syntax

section \<open>Errors\<close>

datatype LZ4F_errorCodes = LZ4F_OK_NoError | LZ4F_ERROR_GENERIC | LZ4F_ERROR_maxBlockSize_invalid
  | LZ4F_ERROR_blockMode_invalid | LZ4F_ERROR_contentChecksumFlag_invalid
  | LZ4F_ERROR_compressionLevel_invalid | LZ4F_ERROR_headerVersion_wrong
  | LZ4F_ERROR_blockChecksum_invalid | LZ4F_ERROR_reservedFlag_set | LZ4F_ERROR_allocation_failed
  | LZ4F_ERROR_srcSize_tooLarge | LZ4F_ERROR_dstMaxSize_tooSmall | LZ4F_ERROR_frameHeader_incomplete
  | LZ4F_ERROR_frameType_unknown | LZ4F_ERROR_frameSize_wrong | LZ4F_ERROR_srcPtr_wrong
  | LZ4F_ERROR_decompressionFailed | LZ4F_ERROR_headerChecksum_invalid
  | LZ4F_ERROR_contentChecksum_invalid | LZ4F_ERROR_frameDecoding_alreadyStarted

primrec LZ4F_error_value :: "LZ4F_errorCodes \<Rightarrow> nat" where
  "LZ4F_error_value LZ4F_OK_NoError = 0"
| "LZ4F_error_value LZ4F_ERROR_GENERIC = 1"
| "LZ4F_error_value LZ4F_ERROR_maxBlockSize_invalid = 2"
| "LZ4F_error_value LZ4F_ERROR_blockMode_invalid = 3"
| "LZ4F_error_value LZ4F_ERROR_contentChecksumFlag_invalid = 4"
| "LZ4F_error_value LZ4F_ERROR_compressionLevel_invalid = 5"
| "LZ4F_error_value LZ4F_ERROR_headerVersion_wrong = 6"
| "LZ4F_error_value LZ4F_ERROR_blockChecksum_invalid = 7"
| "LZ4F_error_value LZ4F_ERROR_reservedFlag_set = 8"
| "LZ4F_error_value LZ4F_ERROR_allocation_failed = 9"
| "LZ4F_error_value LZ4F_ERROR_srcSize_tooLarge = 10"
| "LZ4F_error_value LZ4F_ERROR_dstMaxSize_tooSmall = 11"
| "LZ4F_error_value LZ4F_ERROR_frameHeader_incomplete = 12"
| "LZ4F_error_value LZ4F_ERROR_frameType_unknown = 13"
| "LZ4F_error_value LZ4F_ERROR_frameSize_wrong = 14"
| "LZ4F_error_value LZ4F_ERROR_srcPtr_wrong = 15"
| "LZ4F_error_value LZ4F_ERROR_decompressionFailed = 16"
| "LZ4F_error_value LZ4F_ERROR_headerChecksum_invalid = 17"
| "LZ4F_error_value LZ4F_ERROR_contentChecksum_invalid = 18"
| "LZ4F_error_value LZ4F_ERROR_frameDecoding_alreadyStarted = 19"

definition LZ4F_ERROR_maxCode :: u64 where "LZ4F_ERROR_maxCode = 20"

definition LZ4F_isError :: "size_t \<Rightarrow> bool" where
  "LZ4F_isError code \<longleftrightarrow> code > - LZ4F_ERROR_maxCode"

definition err0r :: "LZ4F_errorCodes \<Rightarrow> size_t" where
  "err0r code = - of_nat (LZ4F_error_value code)"

section \<open>The context\<close>

definition LZ4F_MAGIC_SKIPPABLE_START :: u32 where "LZ4F_MAGIC_SKIPPABLE_START = 0x184D2A50"
definition LZ4F_MAGICNUMBER :: u32 where "LZ4F_MAGICNUMBER = 0x184D2204"
definition LZ4F_BLOCKUNCOMPRESSED_FLAG :: u32 where "LZ4F_BLOCKUNCOMPRESSED_FLAG = 0x80000000"
definition minFHSize :: size_t where "minFHSize = 7"
definition maxFHSize :: size_t where "maxFHSize = 19"
definition BHSize :: size_t where "BHSize = 4"
definition BFSize :: size_t where "BFSize = 4"

abbreviation "KB64 \<equiv> (0x10000 :: size_t)"
abbreviation "KB128 \<equiv> (0x20000 :: size_t)"
abbreviation "GB1 \<equiv> (0x40000000 :: size_t)"

datatype LZ4F_blockMode = LZ4F_blockLinked | LZ4F_blockIndependent
datatype LZ4F_frameType = LZ4F_frame | LZ4F_skippableFrame

record LZ4F_frameInfo =
  blockSizeID :: u32
  blockMode :: LZ4F_blockMode
  contentChecksumFlag :: bool
  frameType :: LZ4F_frameType
  contentSize :: u64
  dictID :: u32
  blockChecksumFlag :: bool

definition zero_frameInfo :: LZ4F_frameInfo where
  "zero_frameInfo = \<lparr>blockSizeID = 0, blockMode = LZ4F_blockLinked, contentChecksumFlag = False,
     frameType = LZ4F_frame, contentSize = 0, dictID = 0, blockChecksumFlag = False\<rparr>"

datatype dStage = dstage_getFrameHeader | dstage_storeFrameHeader | dstage_init
  | dstage_getBlockHeader | dstage_storeBlockHeader | dstage_copyDirect | dstage_getBlockChecksum
  | dstage_getCBlock | dstage_storeCBlock | dstage_flushOut | dstage_getSuffix | dstage_storeSuffix
  | dstage_getSFrameSize | dstage_storeSFrameSize | dstage_skipSkippable

primrec dStage_value :: "dStage \<Rightarrow> u32" where
  "dStage_value dstage_getFrameHeader = 0" | "dStage_value dstage_storeFrameHeader = 1"
| "dStage_value dstage_init = 2" | "dStage_value dstage_getBlockHeader = 3"
| "dStage_value dstage_storeBlockHeader = 4" | "dStage_value dstage_copyDirect = 5"
| "dStage_value dstage_getBlockChecksum = 6" | "dStage_value dstage_getCBlock = 7"
| "dStage_value dstage_storeCBlock = 8" | "dStage_value dstage_flushOut = 9"
| "dStage_value dstage_getSuffix = 10" | "dStage_value dstage_storeSuffix = 11"
| "dStage_value dstage_getSFrameSize = 12" | "dStage_value dstage_storeSFrameSize = 13"
| "dStage_value dstage_skipSkippable = 14"

record LZ4F_dctx =
  d_frameInfo :: LZ4F_frameInfo
  d_version :: u32
  d_stage :: dStage
  d_frameRemainingSize :: u64
  d_maxBlockSize :: size_t
  d_maxBufferSize :: size_t
  d_tmpIn :: addr
  d_tmpInSize :: size_t
  d_tmpInTarget :: size_t
  d_tmpOutBuffer :: addr
  d_dict :: addr
  d_dictSize :: size_t
  d_tmpOut :: addr
  d_tmpOutSize :: size_t
  d_tmpOutStart :: size_t
  d_xxh :: xxh32_state
  d_blockChecksum :: xxh32_state
  d_header :: "u8 list"

definition zero_xxh32_state :: xxh32_state where
  "zero_xxh32_state = \<lparr>total_len_32 = 0, large_len = 0, s32_v = (0, 0, 0, 0), mem32 = replicate 16 0, memsize32 = 0\<rparr>"

definition zero_dctx :: LZ4F_dctx where
  "zero_dctx = \<lparr>d_frameInfo = zero_frameInfo, d_version = 0, d_stage = dstage_getFrameHeader,
     d_frameRemainingSize = 0, d_maxBlockSize = 0, d_maxBufferSize = 0, d_tmpIn = 0, d_tmpInSize = 0,
     d_tmpInTarget = 0, d_tmpOutBuffer = 0, d_dict = 0, d_dictSize = 0, d_tmpOut = 0, d_tmpOutSize = 0,
     d_tmpOutStart = 0, d_xxh = zero_xxh32_state, d_blockChecksum = zero_xxh32_state,
     d_header = replicate 19 0\<rparr>"

text \<open>\<open>sizeof(LZ4F_dctx)\<close> on a 64-bit target.\<close>

definition sizeof_LZ4F_dctx :: size_t where "sizeof_LZ4F_dctx = 248"

definition LZ4F_createDecompressionContext ::
    "'w boot_services \<Rightarrow> u32 \<Rightarrow> u32 \<Rightarrow> 'w world \<Rightarrow> (size_t \<times> (addr \<times> LZ4F_dctx) \<times> 'w world) outcome" where
  "LZ4F_createDecompressionContext BS pool versionNumber w =
     obind (calloc BS pool 1 sizeof_LZ4F_dctx w) (\<lambda>(p, w).
       if p = 0 then Ret (err0r LZ4F_ERROR_allocation_failed, (0, zero_dctx), w)
       else Ret (err0r LZ4F_OK_NoError, (p, zero_dctx\<lparr>d_version := versionNumber\<rparr>), w))"

definition LZ4F_freeDecompressionContext ::
    "'w boot_services \<Rightarrow> addr \<times> LZ4F_dctx \<Rightarrow> 'w world \<Rightarrow> size_t \<times> 'w world" where
  "LZ4F_freeDecompressionContext BS ctx w = (case ctx of (p, d) \<Rightarrow>
     if p = 0 then (err0r LZ4F_OK_NoError, w)
     else (ucast (dStage_value (d_stage d)),
           c_free BS p (c_free BS (d_tmpOutBuffer d) (c_free BS (d_tmpIn d) w))))"

definition LZ4F_resetDecompressionContext :: "LZ4F_dctx \<Rightarrow> LZ4F_dctx" where
  "LZ4F_resetDecompressionContext d = d\<lparr>d_stage := dstage_getFrameHeader, d_dict := 0, d_dictSize := 0\<rparr>"

section \<open>The frame header\<close>

definition LZ4F_getBlockSize :: "u32 \<Rightarrow> size_t" where
  "LZ4F_getBlockSize bsid =
     (let bsid = (if bsid = 0 then 4 else bsid)
      in if bsid < 4 \<or> bsid > 7 then err0r LZ4F_ERROR_maxBlockSize_invalid
         else [0x10000, 0x40000, 0x100000, 0x400000] ! unat (bsid - 4))"

definition LZ4F_headerChecksum :: "u8 list \<Rightarrow> u8" where
  "LZ4F_headerChecksum header = ucast (drop_bit 8 (xxh32 header 0))"

text \<open>\<open>LZ4F_readLE32\<close> and \<open>LZ4F_readLE64\<close>, bytewise as in the code.\<close>

definition LZ4F_readLE32 :: "u8 list \<Rightarrow> u32" where
  "LZ4F_readLE32 p = ucast (p ! 0) + push_bit 8 (ucast (p ! 1)) + push_bit 16 (ucast (p ! 2))
     + push_bit 24 (ucast (p ! 3))"

definition LZ4F_readLE64 :: "u8 list \<Rightarrow> u64" where
  "LZ4F_readLE64 p = ucast (p ! 0) + push_bit 8 (ucast (p ! 1)) + push_bit 16 (ucast (p ! 2))
     + push_bit 24 (ucast (p ! 3)) + push_bit 32 (ucast (p ! 4)) + push_bit 40 (ucast (p ! 5))
     + push_bit 48 (ucast (p ! 6)) + push_bit 56 (ucast (p ! 7))"

text \<open>A header is decoded from the input, or from the bytes collected in the context.\<close>

datatype header_at = In_Header | In_Memory addr

definition header_bytes :: "mem \<Rightarrow> LZ4F_dctx \<Rightarrow> header_at \<Rightarrow> nat \<Rightarrow> nat \<Rightarrow> u8 list outcome" where
  "header_bytes m d p k n = (case p of
       In_Memory a \<Rightarrow> load_bytes m (a + of_nat k) n
     | In_Header \<Rightarrow> if k + n \<le> length (d_header d) then Ret (take n (drop k (d_header d))) else UB)"

text \<open>\<open>memcpy\<close> to the header of the context, from its byte \<open>k\<close> on.\<close>

definition collect_header :: "mem \<Rightarrow> addr \<Rightarrow> size_t \<Rightarrow> size_t \<Rightarrow> LZ4F_dctx \<Rightarrow> LZ4F_dctx outcome" where
  "collect_header m p k n d =
     (if n \<noteq> 0 \<and> unat k + unat n > length (d_header d) then UB
      else obind (load_bytes m p (unat n)) (\<lambda>bs.
        Ret (d\<lparr>d_header := overwrite (unat k) bs (d_header d)\<rparr>)))"

text \<open>The flags of byte 4 of a header.\<close>

definition frame_flag :: "u8 \<Rightarrow> nat \<Rightarrow> bool" where
  "frame_flag FLG i \<longleftrightarrow> bit FLG i"

definition frameHeaderSize :: "u8 \<Rightarrow> size_t" where
  "frameHeaderSize FLG = minFHSize + (if frame_flag FLG 3 then 8 else 0) + (if frame_flag FLG 0 then 4 else 0)"

definition is_skippable :: "u32 \<Rightarrow> bool" where
  "is_skippable magic \<longleftrightarrow> magic AND 0xFFFFFFF0 = LZ4F_MAGIC_SKIPPABLE_START"

text \<open>From the block descriptor on, once the whole header is there.\<close>

definition save_frame_info :: "mem \<Rightarrow> LZ4F_dctx \<Rightarrow> header_at \<Rightarrow> u8 \<Rightarrow> (size_t \<times> LZ4F_dctx) outcome" where
  "save_frame_info m d src FLG =
     (let hsize = frameHeaderSize FLG in
      obind (header_bytes m d src 5 1) (\<lambda>BD. let BD = BD ! 0 in
      if bit BD 7 then Ret (err0r LZ4F_ERROR_reservedFlag_set, d)
      else if drop_bit 4 BD AND 7 < 4 then Ret (err0r LZ4F_ERROR_maxBlockSize_invalid, d)
      else if BD AND 15 \<noteq> 0 then Ret (err0r LZ4F_ERROR_reservedFlag_set, d)
      else
      obind (header_bytes m d src 4 (unat hsize - 5)) (\<lambda>checked.
      obind (header_bytes m d src (unat hsize - 1) 1) (\<lambda>HC.
      if LZ4F_headerChecksum checked \<noteq> HC ! 0 then Ret (err0r LZ4F_ERROR_headerChecksum_invalid, d)
      else
      let bsid = ucast (drop_bit 4 BD AND 7);
          d = d\<lparr>d_frameInfo := (d_frameInfo d)
                \<lparr>blockMode := (if frame_flag FLG 5 then LZ4F_blockIndependent else LZ4F_blockLinked),
                 blockChecksumFlag := frame_flag FLG 4, contentChecksumFlag := frame_flag FLG 2,
                 blockSizeID := bsid\<rparr>,
                d_maxBlockSize := LZ4F_getBlockSize bsid\<rparr>
      in
      obind (if frame_flag FLG 3
             then obind (header_bytes m d src 6 8) (\<lambda>bs. let n = LZ4F_readLE64 bs in
               Ret (d\<lparr>d_frameRemainingSize := n, d_frameInfo := (d_frameInfo d)\<lparr>contentSize := n\<rparr>\<rparr>))
             else Ret d) (\<lambda>d.
      obind (if frame_flag FLG 0
             then obind (header_bytes m d src (unat hsize - 5) 4) (\<lambda>bs.
               Ret (d\<lparr>d_frameInfo := (d_frameInfo d)\<lparr>dictID := LZ4F_readLE32 bs\<rparr>\<rparr>))
             else Ret d) (\<lambda>d.
      Ret (hsize, d\<lparr>d_stage := dstage_init\<rparr>)))))))"

definition LZ4F_decodeHeader :: "mem \<Rightarrow> LZ4F_dctx \<Rightarrow> header_at \<Rightarrow> size_t \<Rightarrow> (size_t \<times> LZ4F_dctx) outcome" where
  "LZ4F_decodeHeader m d src srcSize =
     (if srcSize < minFHSize then Ret (err0r LZ4F_ERROR_frameHeader_incomplete, d)
      else
      let d = d\<lparr>d_frameInfo := zero_frameInfo\<rparr> in
      obind (header_bytes m d src 0 4) (\<lambda>magic. let magic = LZ4F_readLE32 magic in
      if is_skippable magic then
        let d = d\<lparr>d_frameInfo := (d_frameInfo d)\<lparr>frameType := LZ4F_skippableFrame\<rparr>\<rparr> in
        (case src of
           In_Header \<Rightarrow> Ret (srcSize, d\<lparr>d_tmpInSize := srcSize, d_tmpInTarget := 8, d_stage := dstage_storeSFrameSize\<rparr>)
         | In_Memory _ \<Rightarrow> Ret (4, d\<lparr>d_stage := dstage_getSFrameSize\<rparr>))
      else if magic \<noteq> LZ4F_MAGICNUMBER then Ret (err0r LZ4F_ERROR_frameType_unknown, d)
      else
      let d = d\<lparr>d_frameInfo := (d_frameInfo d)\<lparr>frameType := LZ4F_frame\<rparr>\<rparr> in
      obind (header_bytes m d src 4 1) (\<lambda>FLG. let FLG = FLG ! 0 in
      if frame_flag FLG 1 then Ret (err0r LZ4F_ERROR_reservedFlag_set, d)
      else if drop_bit 6 FLG AND 3 \<noteq> 1 then Ret (err0r LZ4F_ERROR_headerVersion_wrong, d)
      else if srcSize < frameHeaderSize FLG then
        obind (case src of In_Header \<Rightarrow> Ret d | In_Memory a \<Rightarrow> collect_header m a 0 srcSize d) (\<lambda>d.
        Ret (srcSize, d\<lparr>d_tmpInSize := srcSize, d_tmpInTarget := frameHeaderSize FLG, d_stage := dstage_storeFrameHeader\<rparr>))
      else save_frame_info m d src FLG)))"

definition LZ4F_headerSize :: "mem \<Rightarrow> addr \<Rightarrow> size_t \<Rightarrow> size_t outcome" where
  "LZ4F_headerSize m src srcSize =
     (if src = 0 then Ret (err0r LZ4F_ERROR_srcPtr_wrong)
      else if srcSize < 5 then Ret (err0r LZ4F_ERROR_frameHeader_incomplete)
      else
      obind (load_bytes m src 4) (\<lambda>magic. let magic = LZ4F_readLE32 magic in
      if is_skippable magic then Ret 8
      else if magic \<noteq> LZ4F_MAGICNUMBER then Ret (err0r LZ4F_ERROR_frameType_unknown)
      else obind (load_bytes m (src + 4) 1) (\<lambda>FLG. Ret (frameHeaderSize (FLG ! 0)))))"

section \<open>The dictionary of linked blocks\<close>

definition LZ4F_updateDict ::
    "LZ4F_dctx \<Rightarrow> addr \<Rightarrow> size_t \<Rightarrow> addr \<Rightarrow> bool \<Rightarrow> mem \<Rightarrow> (LZ4F_dctx \<times> mem) outcome" where
  "LZ4F_updateDict d dstPtr dstSize dstBufferStart withinTmp m =
     (let d = (if d_dictSize d = 0 then d\<lparr>d_dict := dstPtr\<rparr> else d) in
      if d_dict d + d_dictSize d = dstPtr
      then Ret (d\<lparr>d_dictSize := d_dictSize d + dstSize\<rparr>, m)
      else if (dstPtr - dstBufferStart) + dstSize \<ge> KB64
      then Ret (d\<lparr>d_dict := dstBufferStart, d_dictSize := (dstPtr - dstBufferStart) + dstSize\<rparr>, m)
      else if withinTmp \<and> d_dict d = d_tmpOutBuffer d
      then Ret (d\<lparr>d_dictSize := d_dictSize d + dstSize\<rparr>, m)
      else if withinTmp then
        let preserveSize = d_tmpOut d - d_tmpOutBuffer d;
            oldDictEnd = d_dict d + d_dictSize d - d_tmpOutStart d;
            copySize = (if d_tmpOutSize d > KB64 then 0 else KB64 - d_tmpOutSize d);
            copySize = (if copySize > preserveSize then preserveSize else copySize)
        in obind (memcpy m (d_tmpOutBuffer d + preserveSize - copySize) (oldDictEnd - copySize) copySize) (\<lambda>m.
           Ret (d\<lparr>d_dict := d_tmpOutBuffer d, d_dictSize := preserveSize + d_tmpOutStart d + dstSize\<rparr>, m))
      else if d_dict d = d_tmpOutBuffer d then
        obind (if d_dictSize d + dstSize > d_maxBufferSize d then
                 let preserveSize = KB64 - dstSize
                 in obind (memcpy m (d_tmpOutBuffer d) (d_dict d + d_dictSize d - preserveSize) preserveSize) (\<lambda>m.
                    Ret (d\<lparr>d_dictSize := preserveSize\<rparr>, m))
               else Ret (d, m)) (\<lambda>(d, m).
        obind (memcpy m (d_tmpOutBuffer d + d_dictSize d) dstPtr dstSize) (\<lambda>m.
        Ret (d\<lparr>d_dictSize := d_dictSize d + dstSize\<rparr>, m)))
      else
        let preserveSize = (if KB64 - dstSize > d_dictSize d then d_dictSize d else KB64 - dstSize)
        in obind (memcpy m (d_tmpOutBuffer d) (d_dict d + d_dictSize d - preserveSize) preserveSize) (\<lambda>m.
           obind (memcpy m (d_tmpOutBuffer d + preserveSize) dstPtr dstSize) (\<lambda>m.
           Ret (d\<lparr>d_dict := d_tmpOutBuffer d, d_dictSize := preserveSize + dstSize\<rparr>, m))))"

section \<open>The stages\<close>

record lz4f_call =
  c_srcEnd :: addr
  c_dstStart :: addr
  c_dstEnd :: addr

record 'w lz4f =
  f_d :: LZ4F_dctx
  f_src :: addr
  f_dst :: addr
  f_world :: "'w world"

abbreviation "f_mem f \<equiv> wmem (f_world f)"

definition f_set_mem :: "mem \<Rightarrow> 'w lz4f \<Rightarrow> 'w lz4f" where
  "f_set_mem m f = f\<lparr>f_world := (f_world f)\<lparr>wmem := m\<rparr>\<rparr>"

text \<open>
  How a stage ends: \<open>Again\<close> goes round the loop, \<open>Stop\<close> leaves it with a hint (\<open>doAnotherStage = 0\<close>),
  \<open>Leave\<close> is a \<open>return\<close> in the middle, with nothing consumed or produced as far as the caller learns.
\<close>

datatype turn = Again | Stop size_t | Leave size_t

definition fail :: "LZ4F_errorCodes \<Rightarrow> 'w lz4f \<Rightarrow> (turn \<times> 'w lz4f) outcome" where
  "fail code f = Ret (Leave (err0r code), f)"

definition input_left :: "lz4f_call \<Rightarrow> 'w lz4f \<Rightarrow> size_t" where
  "input_left C f = c_srcEnd C - f_src f"

definition room_left :: "lz4f_call \<Rightarrow> 'w lz4f \<Rightarrow> size_t" where
  "room_left C f = c_dstEnd C - f_dst f"

text \<open>\<open>xxh32_update\<close> with bytes in memory.\<close>

definition hash_memory :: "mem \<Rightarrow> addr \<Rightarrow> size_t \<Rightarrow> xxh32_state \<Rightarrow> xxh32_state outcome" where
  "hash_memory m p n st =
     (if p = 0 then Ret (snd (xxh32_update st None))
      else obind (load_bytes m p (unat n)) (\<lambda>bs. Ret (snd (xxh32_update st (Some bs)))))"

text \<open>The accounts of \<open>n\<close> more bytes of content, which are at \<open>p\<close>.\<close>

definition account_content :: "mem \<Rightarrow> addr \<Rightarrow> size_t \<Rightarrow> LZ4F_dctx \<Rightarrow> LZ4F_dctx outcome" where
  "account_content m p n d =
     obind (if contentChecksumFlag (d_frameInfo d)
            then obind (hash_memory m p n (d_xxh d)) (\<lambda>st. Ret (d\<lparr>d_xxh := st\<rparr>))
            else Ret d) (\<lambda>d.
     Ret (if contentSize (d_frameInfo d) \<noteq> 0
          then d\<lparr>d_frameRemainingSize := d_frameRemainingSize d - n\<rparr> else d))"

definition stage_storeFrameHeader :: "lz4f_call \<Rightarrow> 'w lz4f \<Rightarrow> (turn \<times> 'w lz4f) outcome" where
  "stage_storeFrameHeader C f =
     (let d = f_d f; sizeToCopy = min (d_tmpInTarget d - d_tmpInSize d) (input_left C f) in
      obind (collect_header (f_mem f) (f_src f) (d_tmpInSize d) sizeToCopy d) (\<lambda>d.
      let d = d\<lparr>d_tmpInSize := d_tmpInSize d + sizeToCopy\<rparr>;
          f = f\<lparr>f_d := d, f_src := f_src f + sizeToCopy\<rparr>
      in if d_tmpInSize d < d_tmpInTarget d
         then Ret (Stop ((d_tmpInTarget d - d_tmpInSize d) + BHSize), f)
         else
         obind (LZ4F_decodeHeader (f_mem f) d In_Header (d_tmpInTarget d)) (\<lambda>(hSize, d).
         Ret (if LZ4F_isError hSize then Leave hSize else Again, f\<lparr>f_d := d\<rparr>))))"

definition stage_getFrameHeader :: "lz4f_call \<Rightarrow> 'w lz4f \<Rightarrow> (turn \<times> 'w lz4f) outcome" where
  "stage_getFrameHeader C f =
     (if input_left C f \<ge> maxFHSize then
        obind (LZ4F_decodeHeader (f_mem f) (f_d f) (In_Memory (f_src f)) (input_left C f)) (\<lambda>(hSize, d).
        if LZ4F_isError hSize then Ret (Leave hSize, f\<lparr>f_d := d\<rparr>)
        else Ret (Again, f\<lparr>f_d := d, f_src := f_src f + hSize\<rparr>))
      else
      let d = (f_d f)\<lparr>d_tmpInSize := 0\<rparr> in
      if input_left C f = 0 then Ret (Leave minFHSize, f\<lparr>f_d := d\<rparr>)
      else stage_storeFrameHeader C (f\<lparr>f_d := d\<lparr>d_tmpInTarget := minFHSize, d_stage := dstage_storeFrameHeader\<rparr>\<rparr>))"

text \<open>\<open>memcpy\<close> of \<open>sizeToCopy\<close> bytes of the input behind those already in \<open>tmpIn\<close>.\<close>

definition collect_input :: "size_t \<Rightarrow> 'w lz4f \<Rightarrow> 'w lz4f outcome" where
  "collect_input sizeToCopy f =
     (let d = f_d f in
      obind (memcpy (f_mem f) (d_tmpIn d + d_tmpInSize d) (f_src f) sizeToCopy) (\<lambda>m.
      Ret (f_set_mem m (f\<lparr>f_src := f_src f + sizeToCopy, f_d := d\<lparr>d_tmpInSize := d_tmpInSize d + sizeToCopy\<rparr>\<rparr>))))"

text \<open>Decoding of a block header.\<close>

definition block_header :: "lz4f_call \<Rightarrow> u32 \<Rightarrow> 'w lz4f \<Rightarrow> (turn \<times> 'w lz4f) outcome" where
  "block_header C blockHeader f =
     (let d = f_d f;
          nextCBlockSize = ucast (blockHeader AND 0x7FFFFFFF) :: size_t;
          crcSize = (if blockChecksumFlag (d_frameInfo d) then BFSize else 0)
      in if blockHeader = 0 then Ret (Again, f\<lparr>f_d := d\<lparr>d_stage := dstage_getSuffix\<rparr>\<rparr>)
         else if nextCBlockSize > d_maxBlockSize d then fail LZ4F_ERROR_maxBlockSize_invalid f
         else if blockHeader AND LZ4F_BLOCKUNCOMPRESSED_FLAG \<noteq> 0 then
           Ret (Again, f\<lparr>f_d := d\<lparr>d_tmpInTarget := nextCBlockSize,
               d_blockChecksum := (if blockChecksumFlag (d_frameInfo d) then xxh32_reset 0 else d_blockChecksum d),
               d_stage := dstage_copyDirect\<rparr>\<rparr>)
         else
           Ret (if f_dst f = c_dstEnd C \<or> f_src f = c_srcEnd C
                then Stop (BHSize + nextCBlockSize + crcSize) else Again,
                f\<lparr>f_d := d\<lparr>d_tmpInTarget := nextCBlockSize + crcSize, d_stage := dstage_getCBlock\<rparr>\<rparr>))"

definition stage_storeBlockHeader :: "lz4f_call \<Rightarrow> 'w lz4f \<Rightarrow> (turn \<times> 'w lz4f) outcome" where
  "stage_storeBlockHeader C f =
     obind (collect_input (min (BHSize - d_tmpInSize (f_d f)) (input_left C f)) f) (\<lambda>f.
     if d_tmpInSize (f_d f) < BHSize then Ret (Stop (BHSize - d_tmpInSize (f_d f)), f)
     else obind (load_bytes (f_mem f) (d_tmpIn (f_d f)) 4) (\<lambda>bs. block_header C (LZ4F_readLE32 bs) f))"

definition stage_getBlockHeader :: "lz4f_call \<Rightarrow> 'w lz4f \<Rightarrow> (turn \<times> 'w lz4f) outcome" where
  "stage_getBlockHeader C f =
     (if input_left C f \<ge> BHSize then
        obind (load_bytes (f_mem f) (f_src f) 4) (\<lambda>bs.
        block_header C (LZ4F_readLE32 bs) (f\<lparr>f_src := f_src f + BHSize\<rparr>))
      else stage_storeBlockHeader C (f\<lparr>f_d := (f_d f)\<lparr>d_tmpInSize := 0, d_stage := dstage_storeBlockHeader\<rparr>\<rparr>))"

definition stage_init ::
    "'w boot_services \<Rightarrow> u32 \<Rightarrow> lz4f_call \<Rightarrow> 'w lz4f \<Rightarrow> (turn \<times> 'w lz4f) outcome" where
  "stage_init BS pool C f =
     (let d = f_d f;
          d = (if contentChecksumFlag (d_frameInfo d) then d\<lparr>d_xxh := xxh32_reset 0\<rparr> else d);
          bufferNeeded = d_maxBlockSize d + (if blockMode (d_frameInfo d) = LZ4F_blockLinked then KB128 else 0);
          go_on = (\<lambda>d w. stage_getBlockHeader C (f\<lparr>f_world := w,
            f_d := d\<lparr>d_tmpInSize := 0, d_tmpInTarget := 0, d_tmpOut := d_tmpOutBuffer d,
                     d_tmpOutStart := 0, d_tmpOutSize := 0, d_stage := dstage_getBlockHeader\<rparr>\<rparr>))
      in if bufferNeeded > d_maxBufferSize d then
           let d = d\<lparr>d_maxBufferSize := 0\<rparr>;
               w = c_free BS (d_tmpIn d) (f_world f);
               (p, w) = malloc BS pool (d_maxBlockSize d + BFSize) w;
               d = d\<lparr>d_tmpIn := p\<rparr>
           in if p = 0 then fail LZ4F_ERROR_allocation_failed (f\<lparr>f_d := d, f_world := w\<rparr>)
              else
              let w = c_free BS (d_tmpOutBuffer d) w;
                  (q, w) = malloc BS pool bufferNeeded w;
                  d = d\<lparr>d_tmpOutBuffer := q\<rparr>
              in if q = 0 then fail LZ4F_ERROR_allocation_failed (f\<lparr>f_d := d, f_world := w\<rparr>)
                 else go_on (d\<lparr>d_maxBufferSize := bufferNeeded\<rparr>) w
         else go_on d (f_world f))"

text \<open>An uncompressed block goes from the input to the output as it is.\<close>

definition copy_content :: "lz4f_call \<Rightarrow> size_t \<Rightarrow> 'w lz4f \<Rightarrow> 'w lz4f outcome" where
  "copy_content C sizeToCopy f =
     obind (memcpy (f_mem f) (f_dst f) (f_src f) sizeToCopy) (\<lambda>m.
     obind (if blockChecksumFlag (d_frameInfo (f_d f))
            then obind (hash_memory m (f_src f) sizeToCopy (d_blockChecksum (f_d f))) (\<lambda>st.
              Ret ((f_d f)\<lparr>d_blockChecksum := st\<rparr>))
            else Ret (f_d f)) (\<lambda>d.
     obind (account_content m (f_src f) sizeToCopy d) (\<lambda>d.
     obind (if blockMode (d_frameInfo d) = LZ4F_blockLinked
            then LZ4F_updateDict d (f_dst f) sizeToCopy (c_dstStart C) False m
            else Ret (d, m)) (\<lambda>(d, m).
     Ret (f_set_mem m (f\<lparr>f_d := d\<rparr>))))))"

definition stage_copyDirect :: "lz4f_call \<Rightarrow> 'w lz4f \<Rightarrow> (turn \<times> 'w lz4f) outcome" where
  "stage_copyDirect C f =
     (let sizeToCopy = (if f_dst f = 0 then 0
            else min (d_tmpInTarget (f_d f)) (min (input_left C f) (room_left C f)))
      in obind (if f_dst f = 0 then Ret f else copy_content C sizeToCopy f) (\<lambda>f.
         let d = f_d f; crc = blockChecksumFlag (d_frameInfo d);
             f = f\<lparr>f_src := f_src f + sizeToCopy, f_dst := f_dst f + sizeToCopy\<rparr>
         in if sizeToCopy = d_tmpInTarget d then
              Ret (Again, f\<lparr>f_d := (if crc then d\<lparr>d_tmpInSize := 0, d_stage := dstage_getBlockChecksum\<rparr>
                                      else d\<lparr>d_stage := dstage_getBlockHeader\<rparr>)\<rparr>)
            else
              let d = d\<lparr>d_tmpInTarget := d_tmpInTarget d - sizeToCopy\<rparr>
              in Ret (Stop (d_tmpInTarget d + (if crc then BFSize else 0) + BHSize), f\<lparr>f_d := d\<rparr>)))"

text \<open>The hint of this stage is the one it started with.\<close>

definition check_block_crc :: "u32 \<Rightarrow> 'w lz4f \<Rightarrow> (turn \<times> 'w lz4f) outcome" where
  "check_block_crc readCRC f =
     (if readCRC \<noteq> xxh32_digest (d_blockChecksum (f_d f)) then fail LZ4F_ERROR_blockChecksum_invalid f
      else Ret (Again, f\<lparr>f_d := (f_d f)\<lparr>d_stage := dstage_getBlockHeader\<rparr>\<rparr>))"

definition stage_getBlockChecksum :: "lz4f_call \<Rightarrow> 'w lz4f \<Rightarrow> (turn \<times> 'w lz4f) outcome" where
  "stage_getBlockChecksum C f =
     (let d = f_d f in
      if sint (input_left C f) \<ge> 4 \<and> d_tmpInSize d = 0 then
        obind (load_bytes (f_mem f) (f_src f) 4) (\<lambda>bs.
        check_block_crc (LZ4F_readLE32 bs) (f\<lparr>f_src := f_src f + 4\<rparr>))
      else
        let sizeToCopy = min (4 - d_tmpInSize d) (input_left C f) in
        obind (collect_header (f_mem f) (f_src f) (d_tmpInSize d) sizeToCopy d) (\<lambda>d.
        let f = f\<lparr>f_src := f_src f + sizeToCopy, f_d := d\<lparr>d_tmpInSize := d_tmpInSize d + sizeToCopy\<rparr>\<rparr>
        in if d_tmpInSize (f_d f) < 4 then Ret (Stop 1, f)
           else check_block_crc (LZ4F_readLE32 (take 4 (d_header d))) f))"

definition stage_flushOut :: "lz4f_call \<Rightarrow> 'w lz4f \<Rightarrow> (turn \<times> 'w lz4f) outcome" where
  "stage_flushOut C f =
     obind
       (if f_dst f \<noteq> 0 then
          let d = f_d f; sizeToCopy = min (d_tmpOutSize d - d_tmpOutStart d) (room_left C f) in
          obind (memcpy (f_mem f) (f_dst f) (d_tmpOut d + d_tmpOutStart d) sizeToCopy) (\<lambda>m.
          obind (if blockMode (d_frameInfo d) = LZ4F_blockLinked
                 then LZ4F_updateDict d (f_dst f) sizeToCopy (c_dstStart C) True m
                 else Ret (d, m)) (\<lambda>(d, m).
          Ret (f_set_mem m (f\<lparr>f_d := d\<lparr>d_tmpOutStart := d_tmpOutStart d + sizeToCopy\<rparr>,
                 f_dst := f_dst f + sizeToCopy\<rparr>))))
        else Ret f) (\<lambda>f.
     if d_tmpOutStart (f_d f) = d_tmpOutSize (f_d f)
     then Ret (Again, f\<lparr>f_d := (f_d f)\<lparr>d_stage := dstage_getBlockHeader\<rparr>\<rparr>)
     else Ret (Stop BHSize, f))"

text \<open>\<open>(int)\<close> of a \<open>size_t\<close>.\<close>

definition to_int :: "size_t \<Rightarrow> int" where
  "to_int n = sint (ucast n :: u32)"

definition call_block_decoder ::
    "bool \<Rightarrow> 'w boot_services \<Rightarrow> u32 \<Rightarrow> addr \<Rightarrow> addr \<Rightarrow> LZ4F_dctx \<Rightarrow> 'w world \<Rightarrow> (int \<times> 'w world) outcome option" where
  "call_block_decoder fast_dec_loop BS pool selectedIn dst d w =
     (let (dict, dictSize) = (if d_dict d \<noteq> 0 \<and> d_dictSize d > GB1
            then (d_dict d + (d_dictSize d - KB64), KB64) else (d_dict d, d_dictSize d))
      in LZ4_decompress_safe_usingDict fast_dec_loop BS pool selectedIn dst
           (to_int (d_tmpInTarget d)) (to_int (d_maxBlockSize d)) dict (to_int dictSize) w)"

text \<open>Where a block is decoded to when the output has no room for a whole block.\<close>

definition choose_tmpOut :: "LZ4F_dctx \<Rightarrow> mem \<Rightarrow> (LZ4F_dctx \<times> mem) outcome" where
  "choose_tmpOut d m =
     (if blockMode (d_frameInfo d) = LZ4F_blockLinked then
        if d_dict d = d_tmpOutBuffer d then
          obind (if d_dictSize d > KB128 then
                   obind (memcpy m (d_tmpOutBuffer d) (d_dict d + d_dictSize d - KB64) KB64) (\<lambda>m.
                   Ret (d\<lparr>d_dictSize := KB64\<rparr>, m))
                 else Ret (d, m)) (\<lambda>(d, m).
          Ret (d\<lparr>d_tmpOut := d_tmpOutBuffer d + d_dictSize d\<rparr>, m))
        else Ret (d\<lparr>d_tmpOut := d_tmpOutBuffer d + min (d_dictSize d) KB64\<rparr>, m)
      else Ret (d, m))"

definition decode_direct ::
    "bool \<Rightarrow> 'w boot_services \<Rightarrow> u32 \<Rightarrow> lz4f_call \<Rightarrow> addr \<Rightarrow> 'w lz4f \<Rightarrow> (turn \<times> 'w lz4f) outcome option" where
  "decode_direct fast_dec_loop BS pool C selectedIn f =
     rbind (call_block_decoder fast_dec_loop BS pool selectedIn (f_dst f) (f_d f) (f_world f)) (\<lambda>(decodedSize, w).
     let f = f\<lparr>f_world := w\<rparr>; n = word_of_int decodedSize in
     Some (if decodedSize < 0 then fail LZ4F_ERROR_GENERIC f
     else
       obind (account_content (f_mem f) (f_dst f) n (f_d f)) (\<lambda>d.
       obind (if blockMode (d_frameInfo d) = LZ4F_blockLinked
              then LZ4F_updateDict d (f_dst f) n (c_dstStart C) False (f_mem f)
              else Ret (d, f_mem f)) (\<lambda>(d, m).
       Ret (Again, f_set_mem m (f\<lparr>f_dst := f_dst f + n, f_d := d\<lparr>d_stage := dstage_getBlockHeader\<rparr>\<rparr>))))))"

definition decode_to_tmp ::
    "bool \<Rightarrow> 'w boot_services \<Rightarrow> u32 \<Rightarrow> lz4f_call \<Rightarrow> addr \<Rightarrow> 'w lz4f \<Rightarrow> (turn \<times> 'w lz4f) outcome option" where
  "decode_to_tmp fast_dec_loop BS pool C selectedIn f =
     once (choose_tmpOut (f_d f) (f_mem f)) (\<lambda>(d, m).
     let f = f_set_mem m (f\<lparr>f_d := d\<rparr>) in
     rbind (call_block_decoder fast_dec_loop BS pool selectedIn (d_tmpOut d) d (f_world f)) (\<lambda>(decodedSize, w).
     let f = f\<lparr>f_world := w\<rparr>; n = word_of_int decodedSize in
     Some (if decodedSize < 0 then fail LZ4F_ERROR_decompressionFailed f
     else
       obind (account_content (f_mem f) (d_tmpOut d) n d) (\<lambda>d.
       stage_flushOut C (f\<lparr>f_d := d\<lparr>d_tmpOutSize := n, d_tmpOutStart := 0, d_stage := dstage_flushOut\<rparr>\<rparr>)))))"

definition decode_block ::
    "bool \<Rightarrow> 'w boot_services \<Rightarrow> u32 \<Rightarrow> lz4f_call \<Rightarrow> addr \<Rightarrow> 'w lz4f \<Rightarrow> (turn \<times> 'w lz4f) outcome option" where
  "decode_block fast_dec_loop BS pool C selectedIn f =
     (let decode = (\<lambda>f. if room_left C f \<ge> d_maxBlockSize (f_d f)
            then decode_direct fast_dec_loop BS pool C selectedIn f
            else decode_to_tmp fast_dec_loop BS pool C selectedIn f)
      in if blockChecksumFlag (d_frameInfo (f_d f)) then
           let d = (f_d f)\<lparr>d_tmpInTarget := d_tmpInTarget (f_d f) - 4\<rparr>; f = f\<lparr>f_d := d\<rparr> in
           once (load_bytes (f_mem f) (selectedIn + d_tmpInTarget d) 4) (\<lambda>crc.
           once (load_bytes (f_mem f) selectedIn (unat (d_tmpInTarget d))) (\<lambda>bs.
           if LZ4F_readLE32 crc \<noteq> xxh32 bs 0 then Some (fail LZ4F_ERROR_blockChecksum_invalid f)
           else decode f))
         else decode f)"

definition stage_storeCBlock ::
    "bool \<Rightarrow> 'w boot_services \<Rightarrow> u32 \<Rightarrow> lz4f_call \<Rightarrow> 'w lz4f \<Rightarrow> (turn \<times> 'w lz4f) outcome option" where
  "stage_storeCBlock fast_dec_loop BS pool C f =
     once (collect_input (min (d_tmpInTarget (f_d f) - d_tmpInSize (f_d f)) (input_left C f)) f) (\<lambda>f.
     let d = f_d f in
     if d_tmpInSize d < d_tmpInTarget d
     then Some (Ret (Stop ((d_tmpInTarget d - d_tmpInSize d)
            + (if blockChecksumFlag (d_frameInfo d) then BFSize else 0) + BHSize), f))
     else decode_block fast_dec_loop BS pool C (d_tmpIn d) f)"

definition stage_getCBlock ::
    "bool \<Rightarrow> 'w boot_services \<Rightarrow> u32 \<Rightarrow> lz4f_call \<Rightarrow> 'w lz4f \<Rightarrow> (turn \<times> 'w lz4f) outcome option" where
  "stage_getCBlock fast_dec_loop BS pool C f =
     (let d = f_d f in
      if input_left C f < d_tmpInTarget d
      then Some (Ret (Again, f\<lparr>f_d := d\<lparr>d_tmpInSize := 0, d_stage := dstage_storeCBlock\<rparr>\<rparr>))
      else decode_block fast_dec_loop BS pool C (f_src f) (f\<lparr>f_src := f_src f + d_tmpInTarget d\<rparr>))"

text \<open>The end of a frame.\<close>

definition check_content_crc :: "u32 \<Rightarrow> 'w lz4f \<Rightarrow> (turn \<times> 'w lz4f) outcome" where
  "check_content_crc readCRC f =
     (if readCRC \<noteq> xxh32_digest (d_xxh (f_d f)) then fail LZ4F_ERROR_contentChecksum_invalid f
      else Ret (Stop 0, f\<lparr>f_d := LZ4F_resetDecompressionContext (f_d f)\<rparr>))"

definition stage_storeSuffix :: "lz4f_call \<Rightarrow> 'w lz4f \<Rightarrow> (turn \<times> 'w lz4f) outcome" where
  "stage_storeSuffix C f =
     obind (collect_input (min (4 - d_tmpInSize (f_d f)) (input_left C f)) f) (\<lambda>f.
     if d_tmpInSize (f_d f) < 4 then Ret (Stop (4 - d_tmpInSize (f_d f)), f)
     else obind (load_bytes (f_mem f) (d_tmpIn (f_d f)) 4) (\<lambda>bs. check_content_crc (LZ4F_readLE32 bs) f))"

definition stage_getSuffix :: "lz4f_call \<Rightarrow> 'w lz4f \<Rightarrow> (turn \<times> 'w lz4f) outcome" where
  "stage_getSuffix C f =
     (let d = f_d f in
      if d_frameRemainingSize d \<noteq> 0 then fail LZ4F_ERROR_frameSize_wrong f
      else if \<not> contentChecksumFlag (d_frameInfo d)
      then Ret (Stop 0, f\<lparr>f_d := LZ4F_resetDecompressionContext d\<rparr>)
      else if sint (input_left C f) < 4
      then stage_storeSuffix C (f\<lparr>f_d := d\<lparr>d_tmpInSize := 0, d_stage := dstage_storeSuffix\<rparr>\<rparr>)
      else obind (load_bytes (f_mem f) (f_src f) 4) (\<lambda>bs.
           check_content_crc (LZ4F_readLE32 bs) (f\<lparr>f_src := f_src f + 4\<rparr>)))"

text \<open>Frames to be skipped.\<close>

definition skippable_size :: "u32 \<Rightarrow> 'w lz4f \<Rightarrow> (turn \<times> 'w lz4f) outcome" where
  "skippable_size n f =
     (let d = f_d f in
      Ret (Again, f\<lparr>f_d := d\<lparr>d_frameInfo := (d_frameInfo d)\<lparr>contentSize := ucast n\<rparr>,
         d_tmpInTarget := ucast n, d_stage := dstage_skipSkippable\<rparr>\<rparr>))"

definition stage_storeSFrameSize :: "lz4f_call \<Rightarrow> 'w lz4f \<Rightarrow> (turn \<times> 'w lz4f) outcome" where
  "stage_storeSFrameSize C f =
     (let d = f_d f; sizeToCopy = min (d_tmpInTarget d - d_tmpInSize d) (input_left C f) in
      obind (collect_header (f_mem f) (f_src f) (d_tmpInSize d) sizeToCopy d) (\<lambda>d.
      let d = d\<lparr>d_tmpInSize := d_tmpInSize d + sizeToCopy\<rparr>;
          f = f\<lparr>f_src := f_src f + sizeToCopy, f_d := d\<rparr>
      in if d_tmpInSize d < d_tmpInTarget d then Ret (Stop (d_tmpInTarget d - d_tmpInSize d), f)
         else obind (header_bytes (f_mem f) d In_Header 4 4) (\<lambda>bs. skippable_size (LZ4F_readLE32 bs) f)))"

definition stage_getSFrameSize :: "lz4f_call \<Rightarrow> 'w lz4f \<Rightarrow> (turn \<times> 'w lz4f) outcome" where
  "stage_getSFrameSize C f =
     (if sint (input_left C f) \<ge> 4
      then obind (load_bytes (f_mem f) (f_src f) 4) (\<lambda>bs.
           skippable_size (LZ4F_readLE32 bs) (f\<lparr>f_src := f_src f + 4\<rparr>))
      else stage_storeSFrameSize C (f\<lparr>f_d := (f_d f)
             \<lparr>d_tmpInSize := 4, d_tmpInTarget := 8, d_stage := dstage_storeSFrameSize\<rparr>\<rparr>))"

definition stage_skipSkippable :: "lz4f_call \<Rightarrow> 'w lz4f \<Rightarrow> (turn \<times> 'w lz4f) outcome" where
  "stage_skipSkippable C f =
     (let d = f_d f; skipSize = min (d_tmpInTarget d) (input_left C f);
          d = d\<lparr>d_tmpInTarget := d_tmpInTarget d - skipSize\<rparr>
      in Ret (Stop (d_tmpInTarget d), f\<lparr>f_src := f_src f + skipSize,
              f_d := (if d_tmpInTarget d \<noteq> 0 then d else LZ4F_resetDecompressionContext d)\<rparr>))"

section \<open>The state machine\<close>

definition lz4f_turn ::
    "bool \<Rightarrow> 'w boot_services \<Rightarrow> u32 \<Rightarrow> lz4f_call \<Rightarrow> 'w lz4f \<Rightarrow> (turn \<times> 'w lz4f) outcome option" where
  "lz4f_turn fast_dec_loop BS pool C f =
     (case d_stage (f_d f) of
        dstage_getFrameHeader \<Rightarrow> Some (stage_getFrameHeader C f)
      | dstage_storeFrameHeader \<Rightarrow> Some (stage_storeFrameHeader C f)
      | dstage_init \<Rightarrow> Some (stage_init BS pool C f)
      | dstage_getBlockHeader \<Rightarrow> Some (stage_getBlockHeader C f)
      | dstage_storeBlockHeader \<Rightarrow> Some (stage_storeBlockHeader C f)
      | dstage_copyDirect \<Rightarrow> Some (stage_copyDirect C f)
      | dstage_getBlockChecksum \<Rightarrow> Some (stage_getBlockChecksum C f)
      | dstage_getCBlock \<Rightarrow> stage_getCBlock fast_dec_loop BS pool C f
      | dstage_storeCBlock \<Rightarrow> stage_storeCBlock fast_dec_loop BS pool C f
      | dstage_flushOut \<Rightarrow> Some (stage_flushOut C f)
      | dstage_getSuffix \<Rightarrow> Some (stage_getSuffix C f)
      | dstage_storeSuffix \<Rightarrow> Some (stage_storeSuffix C f)
      | dstage_getSFrameSize \<Rightarrow> Some (stage_getSFrameSize C f)
      | dstage_storeSFrameSize \<Rightarrow> Some (stage_storeSFrameSize C f)
      | dstage_skipSkippable \<Rightarrow> Some (stage_skipSkippable C f))"

partial_function (option) lz4f_loop ::
    "bool \<Rightarrow> 'w boot_services \<Rightarrow> u32 \<Rightarrow> lz4f_call \<Rightarrow> 'w lz4f \<Rightarrow> (turn \<times> 'w lz4f) outcome option" where
  "lz4f_loop fast_dec_loop BS pool C f =
     rbind (lz4f_turn fast_dec_loop BS pool C f) (\<lambda>(t, f).
       if t = Again then lz4f_loop fast_dec_loop BS pool C f else Some (Ret (t, f)))"

declare lz4f_loop.simps [code]

text \<open>What linked blocks still need is saved at the end of a call, since the output may be gone at the next.\<close>

definition preserve_history :: "bool \<Rightarrow> LZ4F_dctx \<Rightarrow> mem \<Rightarrow> (LZ4F_dctx \<times> mem) outcome" where
  "preserve_history stableDst d m =
     (if blockMode (d_frameInfo d) = LZ4F_blockLinked \<and> d_dict d \<noteq> d_tmpOutBuffer d \<and> d_dict d \<noteq> 0
         \<and> \<not> stableDst \<and> dStage_value (d_stage d) - 2 < dStage_value dstage_getSuffix - 2
      then
        if d_stage d = dstage_flushOut then
          let preserveSize = d_tmpOut d - d_tmpOutBuffer d;
              oldDictEnd = d_dict d + d_dictSize d - d_tmpOutStart d;
              copySize = (if d_tmpOutSize d > KB64 then 0 else KB64 - d_tmpOutSize d);
              copySize = (if copySize > preserveSize then preserveSize else copySize)
          in obind (memcpy m (d_tmpOutBuffer d + preserveSize - copySize) (oldDictEnd - copySize) copySize) (\<lambda>m.
             Ret (d\<lparr>d_dict := d_tmpOutBuffer d, d_dictSize := preserveSize + d_tmpOutStart d\<rparr>, m))
        else
          let oldDictEnd = d_dict d + d_dictSize d; newDictSize = min (d_dictSize d) KB64
          in obind (memcpy m (d_tmpOutBuffer d) (oldDictEnd - newDictSize) newDictSize) (\<lambda>m.
             Ret (d\<lparr>d_dict := d_tmpOutBuffer d, d_dictSize := newDictSize,
                    d_tmpOut := d_tmpOutBuffer d + newDictSize\<rparr>, m))
      else Ret (d, m))"

text \<open>The result is the hint or an error, with the bytes produced and the bytes consumed.\<close>

definition LZ4F_decompress ::
    "bool \<Rightarrow> 'w boot_services \<Rightarrow> u32 \<Rightarrow> bool \<Rightarrow> LZ4F_dctx \<Rightarrow> addr \<Rightarrow> size_t \<Rightarrow> addr \<Rightarrow> size_t \<Rightarrow> 'w world
     \<Rightarrow> (size_t \<times> size_t \<times> size_t \<times> LZ4F_dctx \<times> 'w world) outcome option" where
  "LZ4F_decompress fast_dec_loop BS pool stableDst d dst dstSize src srcSize w =
     (let C = \<lparr>c_srcEnd = src + srcSize, c_dstStart = dst, c_dstEnd = (if dst \<noteq> 0 then dst + dstSize else 0)\<rparr>
      in rbind (lz4f_loop fast_dec_loop BS pool C \<lparr>f_d = d, f_src = src, f_dst = dst, f_world = w\<rparr>) (\<lambda>(t, f).
         case t of
           Leave code \<Rightarrow> Some (Ret (code, 0, 0, f_d f, f_world f))
         | Stop hint \<Rightarrow> once (preserve_history stableDst (f_d f) (f_mem f)) (\<lambda>(d, m).
             Some (Ret (hint, f_dst f - dst, f_src f - src, d, (f_world f)\<lparr>wmem := m\<rparr>)))
         | Again \<Rightarrow> None))"

definition LZ4F_decompress_usingDict ::
    "bool \<Rightarrow> 'w boot_services \<Rightarrow> u32 \<Rightarrow> bool \<Rightarrow> LZ4F_dctx \<Rightarrow> addr \<Rightarrow> size_t \<Rightarrow> addr \<Rightarrow> size_t \<Rightarrow> addr \<Rightarrow> size_t
     \<Rightarrow> 'w world \<Rightarrow> (size_t \<times> size_t \<times> size_t \<times> LZ4F_dctx \<times> 'w world) outcome option" where
  "LZ4F_decompress_usingDict fast_dec_loop BS pool stableDst d dst dstSize src srcSize dict dictSize w =
     LZ4F_decompress fast_dec_loop BS pool stableDst
       (if dStage_value (d_stage d) \<le> dStage_value dstage_init then d\<lparr>d_dict := dict, d_dictSize := dictSize\<rparr> else d)
       dst dstSize src srcSize w"

text \<open>The result is a status, the frame's parameters if it gets that far, and the bytes consumed.\<close>

definition LZ4F_getFrameInfo ::
    "bool \<Rightarrow> 'w boot_services \<Rightarrow> u32 \<Rightarrow> LZ4F_dctx \<Rightarrow> LZ4F_frameInfo \<Rightarrow> addr \<Rightarrow> size_t \<Rightarrow> 'w world
     \<Rightarrow> (size_t \<times> LZ4F_frameInfo \<times> size_t \<times> LZ4F_dctx \<times> 'w world) outcome option" where
  "LZ4F_getFrameInfo fast_dec_loop BS pool d info src srcSize w =
     (if dStage_value (d_stage d) > dStage_value dstage_storeFrameHeader then
        rbind (LZ4F_decompress fast_dec_loop BS pool False d 0 0 0 0 w) (\<lambda>(r, _, _, d', w).
          Some (Ret (r, d_frameInfo d, 0, d', w)))
      else if d_stage d = dstage_storeFrameHeader
      then Some (Ret (err0r LZ4F_ERROR_frameDecoding_alreadyStarted, info, 0, d, w))
      else
        once (LZ4F_headerSize (wmem w) src srcSize) (\<lambda>hSize.
        if LZ4F_isError hSize then Some (Ret (hSize, info, 0, d, w))
        else if srcSize < hSize then Some (Ret (err0r LZ4F_ERROR_frameHeader_incomplete, info, 0, d, w))
        else once (LZ4F_decodeHeader (wmem w) d (In_Memory src) hSize) (\<lambda>(decodeResult, d).
          if LZ4F_isError decodeResult then Some (Ret (decodeResult, d_frameInfo d, 0, d, w))
          else Some (Ret (BHSize, d_frameInfo d, decodeResult, d, w)))))"

end
