(* ===== verification/Lz4_Frame_Format.thy ===== *)
theory Lz4_Frame_Format
  imports Lz4_Frame
begin

text \<open>
  The LZ4 frame format behind the frame header, as a function on byte lists: a series of blocks, each
  with a header of four bytes, stored or compressed, with or without a checksum, and depending on the
  blocks before or not; then an end mark and possibly a checksum of the whole content.
\<close>

unbundle bit_operations_syntax

text \<open>\<open>out\<close> is the content so far; the result is the content and what follows the end mark.\<close>

function blocks_decode :: "LZ4F_frameInfo \<Rightarrow> nat \<Rightarrow> u8 list \<Rightarrow> u8 list \<Rightarrow> (u8 list \<times> u8 list) option" where
  "blocks_decode info mx out bs =
     (if length bs < 4 then None
      else
      let h = le_val (take 4 bs);
          n = h mod 2 ^ 31;
          k = (if blockChecksumFlag info then 4 else 0);
          data = take n (drop 4 bs);
          rest = drop (4 + n + k) bs
      in if h = 0 then Some (out, drop 4 bs)
         else if n > mx \<or> length bs < 4 + n + k then None
         else if blockChecksumFlag info \<and> of_nat (le_val (take 4 (drop (4 + n) bs))) \<noteq> xxh32 data 0 then None
         else if h \<ge> 2 ^ 31 then blocks_decode info mx (out @ data) rest
         else
           let hist = (if blockMode info = LZ4F_blockLinked then out else []) in
           case block_decode hist data of None \<Rightarrow> None
           | Some ys \<Rightarrow>
               let new = drop (length hist) ys
               in if length new > mx then None else blocks_decode info mx (out @ new) rest)"
  by pat_completeness auto
termination by (relation "measure (\<lambda>(info, mx, out, bs). length bs)") (auto simp: not_less)

declare blocks_decode.simps [simp del]

definition content_end :: "LZ4F_frameInfo \<Rightarrow> u8 list \<Rightarrow> u8 list \<Rightarrow> (u8 list \<times> u8 list) option" where
  "content_end info out rest =
     (if contentSize info \<noteq> 0 \<and> unat (contentSize info) \<noteq> length out then None
      else if contentChecksumFlag info then
        if length rest < 4 \<or> of_nat (le_val (take 4 rest)) \<noteq> xxh32 out 0 then None
        else Some (out, drop 4 rest)
      else Some (out, rest))"

text \<open>The content of a frame, and what follows the frame.\<close>

definition frame_content :: "LZ4F_frameInfo \<Rightarrow> nat \<Rightarrow> u8 list \<Rightarrow> u8 list \<Rightarrow> (u8 list \<times> u8 list) option" where
  "frame_content info mx out bs =
     (case blocks_decode info mx out bs of None \<Rightarrow> None | Some (out, rest) \<Rightarrow> content_end info out rest)"

section \<open>One block\<close>

text \<open>The parts of a block whose header is \<open>h\<close>.\<close>

definition block_checked :: "LZ4F_frameInfo \<Rightarrow> nat \<Rightarrow> u8 list \<Rightarrow> bool" where
  "block_checked info n bs \<longleftrightarrow> length bs \<ge> n + (if blockChecksumFlag info then 4 else 0)
     \<and> (blockChecksumFlag info \<longrightarrow> of_nat (le_val (take 4 (drop n bs))) = xxh32 (take n bs) 0)"

definition after_block :: "LZ4F_frameInfo \<Rightarrow> nat \<Rightarrow> u8 list \<Rightarrow> u8 list" where
  "after_block info n bs = drop (n + (if blockChecksumFlag info then 4 else 0)) bs"

lemma frame_content_end:
  assumes "4 \<le> length bs" and "le_val (take 4 bs) = 0"
  shows "frame_content info mx out bs = content_end info out (drop 4 bs)"
  using assms by (subst frame_content_def, subst blocks_decode.simps) simp

lemma frame_content_stored:
  assumes "4 \<le> length bs" and h: "le_val (take 4 bs) = 2 ^ 31 + n" and n: "n \<le> mx" "n < 2 ^ 31"
    and b: "block_checked info n (drop 4 bs)"
  shows "frame_content info mx out bs
     = frame_content info mx (out @ take n (drop 4 bs)) (after_block info n (drop 4 bs))"
proof -
  have "(2 ^ 31 + n) mod 2 ^ 31 = n" using n(2) by simp
  then show ?thesis
    using assms by (subst frame_content_def, subst blocks_decode.simps)
      (auto simp: frame_content_def block_checked_def after_block_def Let_def add.commute)
qed

lemma frame_content_compressed:
  assumes "4 \<le> length bs" and h: "le_val (take 4 bs) = n" and n: "0 < n" "n \<le> mx" "n < 2 ^ 31"
    and b: "block_checked info n (drop 4 bs)"
    and d: "block_decode hist (take n (drop 4 bs)) = Some (hist @ new)" "length new \<le> mx"
      "hist = (if blockMode info = LZ4F_blockLinked then out else [])"
  shows "frame_content info mx out bs = frame_content info mx (out @ new) (after_block info n (drop 4 bs))"
  using assms by (subst frame_content_def, subst blocks_decode.simps)
    (auto simp: frame_content_def block_checked_def after_block_def Let_def add.commute)

end
