(* ===== verification/Lz4_Frame_Props.thy ===== *)
theory Lz4_Frame_Props
  imports Lz4_Frame_Format
begin

text \<open>
  Decoding a frame in one call of \<open>LZ4F_decompress\<close>, which is what the boot loader does: the call
  returns, stays inside the output and its own buffers, and when it reports the end of the frame the
  output is the content that the format gives.
\<close>

unbundle bit_operations_syntax

section \<open>Memory\<close>

lemma memcpy_ok:
  assumes n: "n = unat N" and mp: "mapped_in m (unat d) (unat d + n)" "mapped_in m (unat s) (unat s + n)"
    and top: "unat d + n < 18446744073709551616" "unat s + n < 18446744073709551616"
    and apart: "unat s + n \<le> unat d \<or> unat d + n \<le> unat s"
  shows "\<exists>m'. memcpy m d s N = Ret m' \<and> copy_ok m m' d s n n"
proof -
  obtain bs where bs: "load_bytes m s n = Ret bs"
    using mp(2) mapped_in_iff [of s n m] top load_bytes_mapped [of m s n] by auto
  have dis: "\<not> in_range d (unat N) x" if "in_range s (unat N) x" for x
    using that apart top n by (auto simp: in_range_nowrap)
  obtain m' where m': "LZ4_memcpy m d s N = Ret m'" "copy_ok m m' d s n n"
    using LZ4_memcpy_ok [OF n mp] top apart by auto
  have "memcpy m d s N = store_bytes m d bs"
    using memcpy_disjoint [of s N d m bs] dis bs n by simp
  moreover have "store_bytes m d bs = Ret m'"
    using m'(1) bs n by (simp add: LZ4_memcpy_def split: if_splits)
  ultimately show ?thesis using m'(2) by auto
qed

lemma load_mapped_in:
  assumes "load_bytes m a n = Ret bs" and "unat a + n < 18446744073709551616"
  shows "mapped_in m (unat a) (unat a + n)"
  using assms load_mappedI mapped_in_iff [of a n m] by simp

lemma load_kept:
  assumes "load_bytes m a n = Ret bs" and "writes_in m m' lo hi" and "unat a + n \<le> lo \<or> hi \<le> unat a"
    and "unat a + n < 18446744073709551616"
  shows "load_bytes m' a n = Ret bs"
proof -
  have "load_bytes m' a n = load_bytes m a n"
  proof (rule load_bytes_cong)
    fix x assume "in_range a n x"
    then have "unat a \<le> unat x" "unat x < unat a + n" using assms(4) by (auto simp: in_range_nowrap)
    then show "m' x = m x" using assms(2,3) by (auto simp: writes_in_def)
  qed
  then show ?thesis using assms(1) by simp
qed

lemma load_copied:
  assumes "copy_ok m m' d s n W" and "load_bytes m s n = Ret bs" and "unat s + n \<le> unat d \<or> unat d + W \<le> unat s"
    and "unat s + n < 18446744073709551616"
  shows "load_bytes m' d n = Ret bs"
proof -
  have "load_bytes m' s n = Ret bs" using assms by (intro load_kept [OF assms(2) copy_okD [OF assms(1)]]) auto
  then show ?thesis using assms(1) by (simp add: load_bytes_iff copy_ok_def copied_def)
qed

lemma unat_min: "unat (min a b) = min (unat a) (unat b)" for a b :: addr
  by (simp add: min_def word_le_nat_alt)

lemma readLE32: "length bs = 4 \<Longrightarrow> LZ4F_readLE32 bs = of_nat (le_val bs)"
proof -
  have shift: "push_bit (8 * k) (ucast b :: u32) = of_nat (256 ^ k * unat b)" for k and b :: u8
    by (simp add: push_bit_eq_mult power_mult)
  assume "length bs = 4"
  then obtain a b c d where bs: "bs = [a, b, c, d]" by (auto simp: length_Suc_conv numeral_eq_Suc)
  show ?thesis
    using shift [of 1 b] shift [of 2 c] shift [of 3 d]
    by (simp add: bs LZ4F_readLE32_def algebra_simps)
qed

section \<open>The scene of a call\<close>

text \<open>
  What stays the same during a call: the input \<open>g_S\<close>, the output with room for \<open>g_room\<close> bytes, the
  two buffers of the context, the parameters of the frame, and the world when the buffers are there.
\<close>

record 'w scene =
  g_src :: addr
  g_S :: "u8 list"
  g_dst :: addr
  g_room :: nat
  g_in :: addr
  g_tmp :: addr
  g_info :: LZ4F_frameInfo
  g_max :: nat
  g_world :: "'w world"

abbreviation "linked info \<equiv> blockMode info = LZ4F_blockLinked"

definition g_tmpSize :: "'w scene \<Rightarrow> nat" where
  "g_tmpSize G = g_max G + (if linked (g_info G) then 131072 else 0)"

text \<open>A block of memory of its own, apart from the input and the output.\<close>

definition own_block :: "mem \<Rightarrow> addr \<Rightarrow> nat \<Rightarrow> addr \<Rightarrow> nat \<Rightarrow> addr \<Rightarrow> nat \<Rightarrow> bool" where
  "own_block m src len dst room p n \<longleftrightarrow> 65600 \<le> unat p \<and> unat p + n < 2 ^ 63
     \<and> mapped_in m (unat p) (unat p + n)
     \<and> far_apart (unat src) (unat src + len) (unat p) (unat p + n)
     \<and> far_apart (unat dst) (unat dst + room) (unat p) (unat p + n)"

definition frame_buffers :: "mem \<Rightarrow> addr \<Rightarrow> u8 list \<Rightarrow> addr \<Rightarrow> nat \<Rightarrow> bool" where
  "frame_buffers m src S dst room \<longleftrightarrow> load_bytes m src (length S) = Ret S
     \<and> 64 \<le> unat src \<and> unat src + length S < 2 ^ 63
     \<and> room < 2 ^ 30 \<and> 65600 \<le> unat dst \<and> unat dst + room < 2 ^ 63
     \<and> mapped_in m (unat dst) (unat dst + room)
     \<and> far_apart (unat src) (unat src + length S) (unat dst) (unat dst + room)"

definition scene_ok :: "'w scene \<Rightarrow> bool" where
  "scene_ok G \<longleftrightarrow> frame_buffers (wmem (g_world G)) (g_src G) (g_S G) (g_dst G) (g_room G)
     \<and> 65536 \<le> g_max G \<and> g_max G \<le> 4194304
     \<and> own_block (wmem (g_world G)) (g_src G) (length (g_S G)) (g_dst G) (g_room G) (g_in G) (g_max G + 4)
     \<and> own_block (wmem (g_world G)) (g_src G) (length (g_S G)) (g_dst G) (g_room G) (g_tmp G) (g_tmpSize G)
     \<and> far_apart (unat (g_in G)) (unat (g_in G) + (g_max G + 4)) (unat (g_tmp G)) (unat (g_tmp G) + g_tmpSize G)"

definition g_call :: "'w scene \<Rightarrow> lz4f_call" where
  "g_call G = \<lparr>c_srcEnd = g_src G + of_nat (length (g_S G)), c_dstStart = g_dst G,
     c_dstEnd = g_dst G + of_nat (g_room G)\<rparr>"

text \<open>Only the output and the two buffers are written.\<close>

definition g_writes :: "'w scene \<Rightarrow> mem \<Rightarrow> bool" where
  "g_writes G m \<longleftrightarrow> dom m = dom (wmem (g_world G))
     \<and> (\<forall>x. (unat x < unat (g_dst G) \<or> unat (g_dst G) + g_room G \<le> unat x)
         \<and> (unat x < unat (g_in G) \<or> unat (g_in G) + (g_max G + 4) \<le> unat x)
         \<and> (unat x < unat (g_tmp G) \<or> unat (g_tmp G) + g_tmpSize G \<le> unat x) \<longrightarrow> m x = wmem (g_world G) x)"

text \<open>\<open>i\<close> bytes of the input are read, and \<open>out\<close> is in the output.\<close>

definition at_content :: "'w scene \<Rightarrow> 'w lz4f \<Rightarrow> nat \<Rightarrow> u8 list \<Rightarrow> bool" where
  "at_content G f i out \<longleftrightarrow> f_world f = (g_world G)\<lparr>wmem := f_mem f\<rparr> \<and> g_writes G (f_mem f)
     \<and> load_bytes (f_mem f) (g_dst G) (length out) = Ret out
     \<and> unat (f_dst f) = unat (g_dst G) + length out \<and> length out \<le> g_room G
     \<and> unat (f_src f) = unat (g_src G) + i \<and> i \<le> length (g_S G)"

text \<open>The context, with linked blocks the history is the output so far.\<close>

definition ctx_fixed :: "'w scene \<Rightarrow> LZ4F_dctx \<Rightarrow> bool" where
  "ctx_fixed G d \<longleftrightarrow> d_frameInfo d = g_info G \<and> d_maxBlockSize d = of_nat (g_max G)
     \<and> d_tmpIn d = g_in G \<and> d_tmpOutBuffer d = g_tmp G \<and> length (d_header d) = 19"

definition ctx_history :: "'w scene \<Rightarrow> LZ4F_dctx \<Rightarrow> u8 list \<Rightarrow> bool" where
  "ctx_history G d out \<longleftrightarrow>
     (if linked (g_info G)
      then d_dictSize d = of_nat (length out) \<and> (d_dict d = g_dst G \<or> d_dict d = 0 \<and> out = [])
      else d_dict d = 0 \<and> d_dictSize d = 0 \<and> d_tmpOut d = g_tmp G)"

definition ctx_accounts :: "'w scene \<Rightarrow> LZ4F_dctx \<Rightarrow> u8 list \<Rightarrow> bool" where
  "ctx_accounts G d out \<longleftrightarrow>
     (contentChecksumFlag (g_info G) \<longrightarrow> xxh32_absorbed 0 out (d_xxh d))
     \<and> d_frameRemainingSize d
       = (if contentSize (g_info G) = 0 then 0 else contentSize (g_info G) - of_nat (length out))"

definition in_frame :: "'w scene \<Rightarrow> 'w lz4f \<Rightarrow> nat \<Rightarrow> u8 list \<Rightarrow> bool" where
  "in_frame G f i out \<longleftrightarrow> at_content G f i out \<and> ctx_fixed G (f_d f) \<and> ctx_history G (f_d f) out
     \<and> ctx_accounts G (f_d f) out"

lemma scene_okD:
  assumes "scene_ok G"
  shows "unat (g_src G) + length (g_S G) < 9223372036854775808" "64 \<le> unat (g_src G)"
    "g_room G < 1073741824" "65600 \<le> unat (g_dst G)" "unat (g_dst G) + g_room G < 9223372036854775808"
    "65536 \<le> g_max G" "g_max G \<le> 4194304"
    "load_bytes (wmem (g_world G)) (g_src G) (length (g_S G)) = Ret (g_S G)"
    "mapped_in (wmem (g_world G)) (unat (g_dst G)) (unat (g_dst G) + g_room G)"
    "unat (g_src G) + length (g_S G) < unat (g_dst G) \<or> unat (g_dst G) + g_room G < unat (g_src G)"
    "own_block (wmem (g_world G)) (g_src G) (length (g_S G)) (g_dst G) (g_room G) (g_in G) (g_max G + 4)"
    "own_block (wmem (g_world G)) (g_src G) (length (g_S G)) (g_dst G) (g_room G) (g_tmp G) (g_tmpSize G)"
    "unat (g_in G) + (g_max G + 4) < unat (g_tmp G) \<or> unat (g_tmp G) + g_tmpSize G < unat (g_in G)"
  using assms by (auto simp: scene_ok_def frame_buffers_def far_apart_def)

lemma own_blockD:
  assumes "own_block m src len dst room p n"
  shows "65600 \<le> unat p" "unat p + n < 9223372036854775808" "mapped_in m (unat p) (unat p + n)"
    "unat src + len < unat p \<or> unat p + n < unat src" "unat dst + room < unat p \<or> unat p + n < unat dst"
  using assms by (auto simp: own_block_def far_apart_def)

lemma at_contentD:
  assumes "at_content G f i out"
  shows "f_world f = (g_world G)\<lparr>wmem := f_mem f\<rparr>" "g_writes G (f_mem f)"
    "load_bytes (f_mem f) (g_dst G) (length out) = Ret out"
    "unat (f_dst f) = unat (g_dst G) + length out" "length out \<le> g_room G"
    "unat (f_src f) = unat (g_src G) + i" "i \<le> length (g_S G)"
  using assms by (simp_all add: at_content_def)

lemma f_set_mem_simps [simp]:
  "f_d (f_set_mem m f) = f_d f" "f_src (f_set_mem m f) = f_src f" "f_dst (f_set_mem m f) = f_dst f"
  "f_world (f_set_mem m f) = (f_world f)\<lparr>wmem := m\<rparr>"
  by (simp_all add: f_set_mem_def)

text \<open>What is left of input and output.\<close>

lemma g_call_simps [simp]:
  "c_srcEnd (g_call G) = g_src G + of_nat (length (g_S G))" "c_dstStart (g_call G) = g_dst G"
  "c_dstEnd (g_call G) = g_dst G + of_nat (g_room G)"
  by (simp_all add: g_call_def)

lemma left_ok:
  assumes g: "scene_ok G" and a: "at_content G f i out"
  shows "unat (input_left (g_call G) f) = length (g_S G) - i"
    and "unat (room_left (g_call G) f) = g_room G - length out"
proof -
  note b = scene_okD [OF g] and c = at_contentD [OF a]
  have "unat (c_srcEnd (g_call G)) = unat (g_src G) + length (g_S G)" using b by (simp add: unat_plus unat_of_nat_addr)
  then show "unat (input_left (g_call G) f) = length (g_S G) - i"
    using c(6,7) by (simp add: input_left_def unat_minus del: g_call_simps)
  have "unat (c_dstEnd (g_call G)) = unat (g_dst G) + g_room G" using b by (simp add: unat_plus unat_of_nat_addr)
  then show "unat (room_left (g_call G) f) = g_room G - length out"
    using c(4,5) by (simp add: room_left_def unat_minus del: g_call_simps)
qed

lemma writes_mapped:
  assumes "g_writes G m" shows "mapped_in m lo hi = mapped_in (wmem (g_world G)) lo hi"
  using assms unfolding g_writes_def mapped_in_def by (metis domIff)

lemma g_writes_same:
  assumes "g_writes G m" and "unat x < unat (g_dst G) \<or> unat (g_dst G) + g_room G \<le> unat x"
    and "unat x < unat (g_in G) \<or> unat (g_in G) + (g_max G + 4) \<le> unat x"
    and "unat x < unat (g_tmp G) \<or> unat (g_tmp G) + g_tmpSize G \<le> unat x"
  shows "m x = wmem (g_world G) x"
  using assms unfolding g_writes_def by blast

text \<open>More writing.\<close>

lemma g_writes_more:
  assumes "g_writes G m" and "writes_in m m' lo hi"
    and "unat (g_dst G) \<le> lo \<and> hi \<le> unat (g_dst G) + g_room G
      \<or> unat (g_in G) \<le> lo \<and> hi \<le> unat (g_in G) + (g_max G + 4)
      \<or> unat (g_tmp G) \<le> lo \<and> hi \<le> unat (g_tmp G) + g_tmpSize G"
  shows "g_writes G m'"
  unfolding g_writes_def
proof (intro conjI allI impI)
  show "dom m' = dom (wmem (g_world G))" using assms(1,2) by (simp add: g_writes_def writes_in_def)
  fix x :: addr assume x: "(unat x < unat (g_dst G) \<or> unat (g_dst G) + g_room G \<le> unat x)
         \<and> (unat x < unat (g_in G) \<or> unat (g_in G) + (g_max G + 4) \<le> unat x)
         \<and> (unat x < unat (g_tmp G) \<or> unat (g_tmp G) + g_tmpSize G \<le> unat x)"
  then have "unat x < lo \<or> hi \<le> unat x" using assms(3) by linarith
  then have "m' x = m x" using assms(2) unfolding writes_in_def by blast
  moreover have "m x = wmem (g_world G) x" using assms(1) x by (intro g_writes_same) auto
  ultimately show "m' x = wmem (g_world G) x" by simp
qed

text \<open>The input stays what it was.\<close>

lemma src_kept:
  assumes g: "scene_ok G" and w: "g_writes G m"
  shows "load_bytes m (g_src G) (length (g_S G)) = Ret (g_S G)"
proof -
  note b = scene_okD [OF g]
  have "m x = wmem (g_world G) x" if "in_range (g_src G) (length (g_S G)) x" for x
  proof -
    have "unat (g_src G) \<le> unat x" "unat x < unat (g_src G) + length (g_S G)"
      using that b(1) by (auto simp: in_range_nowrap)
    then show ?thesis
      using b(10) own_blockD(4) [OF b(11)] own_blockD(4) [OF b(12)] by (intro g_writes_same [OF w]) linarith+
  qed
  then show ?thesis using b(8) load_bytes_cong [of "g_src G" "length (g_S G)" m "wmem (g_world G)"] by simp
qed

lemma src_bytes:
  assumes g: "scene_ok G" and a: "at_content G f i out" and n: "i + n \<le> length (g_S G)"
  shows "load_bytes (f_mem f) (f_src f) n = Ret (take n (drop i (g_S G)))"
proof -
  note c = at_contentD [OF a]
  have "f_src f = g_src G + of_nat i" by (rule addr_split [OF c(6)])
  then show ?thesis using load_bytes_sub [OF src_kept [OF g c(2)] n] by simp
qed

lemma header_word:
  assumes g: "scene_ok G" and a: "at_content G f i out" and n: "i + 4 \<le> length (g_S G)"
  shows "load_bytes (f_mem f) (f_src f) 4 = Ret (take 4 (drop i (g_S G)))"
    and "LZ4F_readLE32 (take 4 (drop i (g_S G))) = of_nat (le_val (take 4 (drop i (g_S G))))"
  using src_bytes [OF g a n] readLE32 [of "take 4 (drop i (g_S G))"] n by simp_all

lemma at_content_src:
  assumes "at_content G f i out" and "unat p = unat (g_src G) + j" "j \<le> length (g_S G)"
  shows "at_content G (f\<lparr>f_src := p\<rparr>) j out" "at_content G (f\<lparr>f_src := p, f_d := d\<rparr>) j out"
  using assms by (simp_all add: at_content_def)

lemma at_content_d: "at_content G (f\<lparr>f_d := d\<rparr>) i out = at_content G f i out"
  by (simp add: at_content_def)

lemma src_plus:
  assumes "scene_ok G" and "at_content G f i out" and "i + n \<le> length (g_S G)" and "n = unat N"
  shows "unat (f_src f + N) = unat (g_src G) + (i + n)"
  using at_contentD(6) [OF assms(2)] scene_okD(1) [OF assms(1)] assms(3,4) by (simp add: unat_plus)

lemma dst_plus:
  assumes "scene_ok G" and "at_content G f i out" and "length out + n \<le> g_room G" and "n = unat N"
  shows "unat (f_dst f + N) = unat (g_dst G) + (length out + n)"
  using at_contentD(4) [OF assms(2)] scene_okD(5) [OF assms(1)] assms(3,4) by (simp add: unat_plus)

section \<open>The accounts\<close>

text \<open>Fields that do not matter for what is known of the context.\<close>

lemma ctx_simps [simp]:
  "ctx_fixed G (d\<lparr>d_stage := st\<rparr>) = ctx_fixed G d" "ctx_history G (d\<lparr>d_stage := st\<rparr>) out = ctx_history G d out"
  "ctx_accounts G (d\<lparr>d_stage := st\<rparr>) out = ctx_accounts G d out"
  "ctx_fixed G (d\<lparr>d_tmpInSize := n\<rparr>) = ctx_fixed G d" "ctx_history G (d\<lparr>d_tmpInSize := n\<rparr>) out = ctx_history G d out"
  "ctx_accounts G (d\<lparr>d_tmpInSize := n\<rparr>) out = ctx_accounts G d out"
  "ctx_fixed G (d\<lparr>d_tmpInTarget := n\<rparr>) = ctx_fixed G d" "ctx_history G (d\<lparr>d_tmpInTarget := n\<rparr>) out = ctx_history G d out"
  "ctx_accounts G (d\<lparr>d_tmpInTarget := n\<rparr>) out = ctx_accounts G d out"
  "ctx_fixed G (d\<lparr>d_blockChecksum := c\<rparr>) = ctx_fixed G d" "ctx_history G (d\<lparr>d_blockChecksum := c\<rparr>) out = ctx_history G d out"
  "ctx_accounts G (d\<lparr>d_blockChecksum := c\<rparr>) out = ctx_accounts G d out"
  "ctx_fixed G (d\<lparr>d_tmpOutSize := n\<rparr>) = ctx_fixed G d" "ctx_history G (d\<lparr>d_tmpOutSize := n\<rparr>) out = ctx_history G d out"
  "ctx_accounts G (d\<lparr>d_tmpOutSize := n\<rparr>) out = ctx_accounts G d out"
  "ctx_fixed G (d\<lparr>d_tmpOutStart := n\<rparr>) = ctx_fixed G d" "ctx_history G (d\<lparr>d_tmpOutStart := n\<rparr>) out = ctx_history G d out"
  "ctx_accounts G (d\<lparr>d_tmpOutStart := n\<rparr>) out = ctx_accounts G d out"
  "ctx_fixed G (d\<lparr>d_tmpOut := a\<rparr>) = ctx_fixed G d"
  "ctx_accounts G (d\<lparr>d_tmpOut := a\<rparr>) out = ctx_accounts G d out"
  "ctx_fixed G (d\<lparr>d_dict := a\<rparr>) = ctx_fixed G d" "ctx_accounts G (d\<lparr>d_dict := a\<rparr>) out = ctx_accounts G d out"
  "ctx_fixed G (d\<lparr>d_dictSize := n\<rparr>) = ctx_fixed G d" "ctx_accounts G (d\<lparr>d_dictSize := n\<rparr>) out = ctx_accounts G d out"
  by (simp_all add: ctx_fixed_def ctx_history_def ctx_accounts_def)

text \<open>Within one call linked blocks always find their history right before the output.\<close>

lemma updateDict_prefix:
  assumes g: "scene_ok G" and l: "linked (g_info G)" and h: "ctx_history G d out" and r: "length out \<le> g_room G"
  shows "LZ4F_updateDict d (g_dst G + of_nat (length out)) N (g_dst G) b m
    = Ret (d\<lparr>d_dict := g_dst G, d_dictSize := of_nat (length out) + N\<rparr>, m)"
proof -
  have z: "(of_nat (length out) :: size_t) = 0 \<longleftrightarrow> out = []"
    using scene_okD(3) [OF g] r by (simp add: of_nat_eq_0_addr)
  have "d_dictSize d = of_nat (length out)" "d_dict d = g_dst G \<or> d_dict d = 0 \<and> out = []"
    using h l by (simp_all add: ctx_history_def)
  then show ?thesis
    by (cases "out = []") (auto simp: LZ4F_updateDict_def z)
qed

lemma hash_memory_ok:
  assumes "load_bytes m p (unat N) = Ret bs" "p \<noteq> 0" "xxh32_absorbed 0 xs st" "unat N < 4294967296"
  shows "\<exists>st'. hash_memory m p N st = Ret st' \<and> xxh32_absorbed 0 (xs @ bs) st'"
proof -
  have "length bs + 16 \<le> 2 ^ 64" using assms(4) load_bytes_length [OF assms(1)] by simp
  then have "xxh32_absorbed 0 (xs @ bs) (snd (xxh32_update st (Some bs)))"
    by (rule xxh32_update_absorbed [OF assms(3) _ surjective_pairing])
  then show ?thesis using assms(1,2) by (simp add: hash_memory_def)
qed

lemma account_content_ok:
  assumes acc: "ctx_accounts G d out" and fi: "d_frameInfo d = g_info G"
    and ld: "load_bytes m p (unat N) = Ret bs" "p \<noteq> 0" "unat N < 4294967296"
  shows "\<exists>d'. account_content m p N d = Ret d' \<and> ctx_accounts G d' (out @ bs)
    \<and> d' = d\<lparr>d_xxh := d_xxh d', d_frameRemainingSize := d_frameRemainingSize d'\<rparr>"
proof -
  have N: "N = of_nat (length bs)" using load_bytes_length [OF ld(1)] by simp
  show ?thesis
  proof (cases "contentChecksumFlag (g_info G)")
    case True
    then obtain st where "hash_memory m p N (d_xxh d) = Ret st" "xxh32_absorbed 0 (out @ bs) st"
      using hash_memory_ok [OF ld(1,2) _ ld(3)] acc by (auto simp: ctx_accounts_def)
    then show ?thesis using acc fi True N by (simp add: account_content_def ctx_accounts_def algebra_simps)
  next
    case False
    then show ?thesis using acc fi N by (simp add: account_content_def ctx_accounts_def algebra_simps)
  qed
qed

section \<open>Output\<close>

text \<open>The content grows by what is written behind it.\<close>

lemma at_content_grow:
  assumes g: "scene_ok G" and a: "at_content G f i out"
    and w: "writes_in (f_mem f) m' (unat (f_dst f)) (unat (g_dst G) + g_room G)"
    and bs: "load_bytes m' (f_dst f) (length bs) = Ret bs" and room: "length out + length bs \<le> g_room G"
  shows "at_content G (f_set_mem m' (f\<lparr>f_dst := f_dst f + of_nat (length bs)\<rparr>)) i (out @ bs)"
proof -
  note b = scene_okD [OF g] and c = at_contentD [OF a]
  have "f_dst f = g_dst G + of_nat (length out)" by (rule addr_split [OF c(4)])
  then have "load_bytes m' (g_dst G + of_nat (length out)) (length bs) = Ret bs" using bs by simp
  moreover have "load_bytes m' (g_dst G) (length out) = Ret out"
    using b(5) room c(4) by (intro load_kept [OF c(3) w]) auto
  ultimately have "load_bytes m' (g_dst G) (length out + length bs) = Ret (out @ bs)" by (intro load_bytes_append)
  moreover have "g_writes G m'" using g_writes_more [OF c(2) w] c(4) by simp
  moreover have "unat (f_dst f + of_nat (length bs)) = unat (g_dst G) + (length out + length bs)"
    using dst_plus [OF g a room, of "of_nat (length bs)"] b(3) room by (simp add: unat_of_nat_addr)
  moreover have "(f_world f)\<lparr>wmem := m'\<rparr> = (g_world G)\<lparr>wmem := m'\<rparr>" using c(1) by (cases "f_world f"; cases "g_world G") simp
  ultimately show ?thesis using c room by (simp add: at_content_def)
qed

lemma in_frameD:
  assumes "in_frame G f i out"
  shows "at_content G f i out" "ctx_fixed G (f_d f)" "ctx_history G (f_d f) out" "ctx_accounts G (f_d f) out"
    "d_frameInfo (f_d f) = g_info G" "d_maxBlockSize (f_d f) = of_nat (g_max G)" "d_tmpIn (f_d f) = g_in G"
    "d_tmpOutBuffer (f_d f) = g_tmp G" "length (d_header (f_d f)) = 19"
  using assms by (auto simp: in_frame_def ctx_fixed_def)

text \<open>The dictionary step that ends every way to produce content.\<close>

lemma history_step:
  assumes g: "scene_ok G" and h: "ctx_history G d out" and r: "length out \<le> g_room G" and N: "N = of_nat (length bs)"
    and fi: "d_frameInfo d = g_info G"
  shows "\<exists>d'. (if blockMode (d_frameInfo d) = LZ4F_blockLinked
       then LZ4F_updateDict d (g_dst G + of_nat (length out)) N (g_dst G) b m else Ret (d, m)) = Ret (d', m)
    \<and> ctx_history G d' (out @ bs) \<and> d' = d\<lparr>d_dict := d_dict d', d_dictSize := d_dictSize d'\<rparr>"
  using updateDict_prefix [OF g _ h r, of N b m] h fi N by (auto simp: ctx_history_def)

text \<open>Content that is copied from the input.\<close>

lemma copy_content_ok:
  assumes g: "scene_ok G" and f: "in_frame G f i out" and n: "n = unat N" "i + n \<le> length (g_S G)" "length out + n \<le> g_room G"
    and crc: "blockChecksumFlag (g_info G) \<Longrightarrow> xxh32_absorbed 0 ys (d_blockChecksum (f_d f))"
  shows "\<exists>f'. copy_content (g_call G) N f = Ret f' \<and> f_src f' = f_src f \<and> f_dst f' = f_dst f
    \<and> in_frame G (f'\<lparr>f_src := f_src f + N, f_dst := f_dst f + N\<rparr>) (i + n) (out @ take n (drop i (g_S G)))
    \<and> (blockChecksumFlag (g_info G) \<longrightarrow> xxh32_absorbed 0 (ys @ take n (drop i (g_S G))) (d_blockChecksum (f_d f')))
    \<and> d_tmpInTarget (f_d f') = d_tmpInTarget (f_d f) \<and> d_stage (f_d f') = d_stage (f_d f)"
proof -
  note b = scene_okD [OF g] and i = in_frameD [OF f]
  note c = at_contentD [OF i(1)]
  define bs where "bs = take n (drop i (g_S G))"
  have len: "length bs = n" using n(2) by (simp add: bs_def)
  have N: "N = of_nat (length bs)" using n(1) len by simp
  have ld: "load_bytes (f_mem f) (f_src f) n = Ret bs" using src_bytes [OF g i(1) n(2)] by (simp add: bs_def)
  have apart: "unat (f_src f) + n \<le> unat (f_dst f) \<or> unat (f_dst f) + n \<le> unat (f_src f)"
    using b(10) c(4,6) n(2,3) by linarith
  have top: "unat (f_dst f) + n < 18446744073709551616" "unat (f_src f) + n < 18446744073709551616" "unat N < 4294967296"
    using b(1,3,5) c(4,6) n by linarith+
  have mpd: "mapped_in (f_mem f) (unat (f_dst f)) (unat (f_dst f) + n)"
    using b(9) writes_mapped [OF c(2)] c(4) n(3) by (auto elim: mapped_in_mono)
  obtain m where m: "memcpy (f_mem f) (f_dst f) (f_src f) N = Ret m" "copy_ok (f_mem f) m (f_dst f) (f_src f) n n"
    using memcpy_ok [OF n(1) mpd load_mapped_in [OF ld top(2)] top(1,2) apart] by blast
  have w: "writes_in (f_mem f) m (unat (f_dst f)) (unat (f_dst f) + n)" using m(2) by (rule copy_okD)
  have src: "load_bytes m (f_src f) (unat N) = Ret bs" using load_kept [OF ld w apart top(2)] n(1) by simp
  have dst: "load_bytes m (f_dst f) (length bs) = Ret bs" using load_copied [OF m(2) ld apart top(2)] len by simp
  have p: "f_src f \<noteq> 0" using c(6) b(2) by auto
  obtain d1 where d1: "(if blockChecksumFlag (d_frameInfo (f_d f))
            then obind (hash_memory m (f_src f) N (d_blockChecksum (f_d f))) (\<lambda>st. Ret ((f_d f)\<lparr>d_blockChecksum := st\<rparr>))
            else Ret (f_d f)) = Ret d1" "d1 = (f_d f)\<lparr>d_blockChecksum := d_blockChecksum d1\<rparr>"
      "blockChecksumFlag (g_info G) \<Longrightarrow> xxh32_absorbed 0 (ys @ bs) (d_blockChecksum d1)"
    using hash_memory_ok [OF src p crc top(3)] i(5) by (cases "blockChecksumFlag (g_info G)") fastforce+
  have e1: "ctx_accounts G d1 out" "ctx_history G d1 out" "ctx_fixed G d1" "d_frameInfo d1 = g_info G"
      "d_tmpInTarget d1 = d_tmpInTarget (f_d f)" "d_stage d1 = d_stage (f_d f)"
    using i(2-5) by (subst d1(2), simp)+
  obtain d2 where d2: "account_content m (f_src f) N d1 = Ret d2" "ctx_accounts G d2 (out @ bs)"
      "d2 = d1\<lparr>d_xxh := d_xxh d2, d_frameRemainingSize := d_frameRemainingSize d2\<rparr>"
    using account_content_ok [OF e1(1,4) src p top(3)] by blast
  have e2: "ctx_history G d2 out" "ctx_fixed G d2" "d_frameInfo d2 = g_info G" "d_blockChecksum d2 = d_blockChecksum d1"
      "d_tmpInTarget d2 = d_tmpInTarget (f_d f)" "d_stage d2 = d_stage (f_d f)"
    using e1 by (subst d2(3), simp add: ctx_history_def ctx_fixed_def)+
  have at: "f_dst f = g_dst G + of_nat (length out)" by (rule addr_split [OF c(4)])
  obtain d3 where d3: "(if blockMode (d_frameInfo d2) = LZ4F_blockLinked
       then LZ4F_updateDict d2 (f_dst f) N (g_dst G) False m else Ret (d2, m)) = Ret (d3, m)"
      "ctx_history G d3 (out @ bs)" "d3 = d2\<lparr>d_dict := d_dict d3, d_dictSize := d_dictSize d3\<rparr>"
    using history_step [OF g e2(1) c(5) N e2(3), of False m] unfolding at by blast
  have e3: "ctx_fixed G d3" "ctx_accounts G d3 (out @ bs)" "d_blockChecksum d3 = d_blockChecksum d1"
      "d_tmpInTarget d3 = d_tmpInTarget (f_d f)" "d_stage d3 = d_stage (f_d f)"
    using e2 d2(2) by (subst d3(3), simp)+
  define f' where "f' = f_set_mem m (f\<lparr>f_d := d3\<rparr>)"
  have run: "copy_content (g_call G) N f = Ret f'"
    unfolding copy_content_def f'_def g_call_simps by (simp only: m(1) d1(1) d2(1) d3(1) obind.simps prod.case)
  have "at_content G (f_set_mem m (f\<lparr>f_dst := f_dst f + of_nat (length bs)\<rparr>)) i (out @ bs)"
    using n(3) len c(4) by (intro at_content_grow [OF g i(1) _ dst]) (auto intro: writes_in_mono [OF w])
  then have "at_content G ((f_set_mem m (f\<lparr>f_dst := f_dst f + of_nat (length bs)\<rparr>))\<lparr>f_src := f_src f + N, f_d := d3\<rparr>) (i + n) (out @ bs)"
    using src_plus [OF g i(1) n(2,1)] n(2) by (intro at_content_src(2)) simp_all
  then have "at_content G (f'\<lparr>f_src := f_src f + N, f_dst := f_dst f + N\<rparr>) (i + n) (out @ bs)"
    by (simp add: at_content_def f'_def N)
  then have "in_frame G (f'\<lparr>f_src := f_src f + N, f_dst := f_dst f + N\<rparr>) (i + n) (out @ bs)"
    using e3(1,2) d3(2) by (simp add: in_frame_def f'_def)
  then show ?thesis
    using run d1(3) e3 by (auto simp: f'_def bs_def)
qed

section \<open>Compressed blocks\<close>

lemma to_int_small: "n < 2147483648 \<Longrightarrow> to_int (of_nat n) = int n"
  by (simp add: to_int_def narrow_result)

abbreviation "history info out \<equiv> (if linked info then out else [])"

lemma call_decoder_ok:
  assumes g: "scene_ok G" and h: "ctx_history G d out" and mx: "d_maxBlockSize d = of_nat (g_max G)"
    and out: "load_bytes (wmem w) (g_dst G) (length out) = Ret out" "length out \<le> g_room G"
    and D: "0 < length D" "length D \<le> g_max G" "d_tmpInTarget d = of_nat (length D)"
      "load_bytes (wmem w) p (length D) = Ret D" "unat p = unat (g_src G) + j" "j + length D \<le> length (g_S G)"
    and T: "mapped_in (wmem w) (unat T) (unat T + g_max G)" "65600 \<le> unat T" "unat T + g_max G < 9223372036854775808"
      "unat (g_src G) + length (g_S G) < unat T \<or> unat T + g_max G < unat (g_src G)"
      "g_dst G + of_nat (length out) = T \<or> unat (g_dst G) + length out < unat T \<or> unat T + g_max G < unat (g_dst G)"
  shows "\<exists>n w'. call_block_decoder fast BS pool p T d w = Some (Ret (n, w'))
    \<and> decoded_ok (history (g_info G) out) D T (g_max G) w (n, w')"
proof -
  note b = scene_okD [OF g]
  let ?h = "history (g_info G) out"
  have "block_args (wmem w) p D T (g_max G)"
    using b(1,2,6,7) D T(1-4) unfolding block_args_def far_apart_def by (simp, linarith)
  moreover have "dict_args (wmem w) ?h (d_dict d) T (g_max G)"
  proof (cases "?h = []")
    case True
    then show ?thesis by (simp add: dict_args_def)
  next
    case False
    then have "linked (g_info G)" "out \<noteq> []" by (simp_all split: if_splits)
    then have "d_dict d = g_dst G" "?h = out" using h by (auto simp: ctx_history_def)
    moreover have "g_dst G \<noteq> 0" using b(4) by auto
    ultimately show ?thesis using out T(5) b(3,5) by (simp add: dict_args_def far_apart_def)
  qed
  ultimately obtain r where r: "LZ4_decompress_safe_usingDict fast BS pool p T (int (length D)) (int (g_max G)) (d_dict d) (int (length ?h)) w
     = Some (Ret r)" "decoded_ok ?h D T (g_max G) w r"
    using usingDict_ok [of w p D T "g_max G" ?h "d_dict d" fast BS pool] by blast
  have ds: "d_dictSize d = of_nat (length ?h)" using h by (simp add: ctx_history_def)
  have small: "length ?h < 1073741824" using out(2) b(3) by simp
  then have "\<not> GB1 < d_dictSize d" unfolding ds by (simp add: word_less_nat_alt unat_of_nat_addr del: if_split)
  moreover have "to_int (d_dictSize d) = int (length ?h)" unfolding ds using small by (intro to_int_small) simp
  moreover have "to_int (d_tmpInTarget d) = int (length D)" "to_int (d_maxBlockSize d) = int (g_max G)"
    using D(2,3) b(7) mx by (simp_all add: to_int_small)
  ultimately have "call_block_decoder fast BS pool p T d w = Some (Ret r)"
    using r(1) by (simp add: call_block_decoder_def del: if_split)
  then show ?thesis using r(2) by (cases r) blast
qed

text \<open>How a call ends before the frame does.\<close>

definition gave_up :: "'w scene \<Rightarrow> turn \<Rightarrow> 'w lz4f \<Rightarrow> bool" where
  "gave_up G t f \<longleftrightarrow> (\<exists>code. t = Leave code \<and> LZ4F_isError code)
     \<and> f_world f = (g_world G)\<lparr>wmem := f_mem f\<rparr> \<and> g_writes G (f_mem f)"

definition halted :: "'w scene \<Rightarrow> 'w lz4f \<Rightarrow> nat \<Rightarrow> u8 list \<Rightarrow> bool" where
  "halted G f i out \<longleftrightarrow> at_content G f i out \<and> ctx_fixed G (f_d f)
     \<and> (linked (g_info G) \<longrightarrow>
          (d_dict (f_d f) = 0 \<or> d_dict (f_d f) = g_dst G \<and> d_dictSize (f_d f) = of_nat (length out))
        \<and> (d_stage (f_d f) = dstage_flushOut \<longrightarrow> (\<exists>k s. d_tmpOut (f_d f) = g_tmp G + of_nat k \<and> k \<le> 65536
             \<and> d_tmpOutStart (f_d f) = of_nat s \<and> s + k \<le> length out)))"

lemma isError_err0r: "code \<noteq> LZ4F_OK_NoError \<Longrightarrow> LZ4F_isError (err0r code)"
  by (cases code) (simp_all add: LZ4F_isError_def err0r_def LZ4F_ERROR_maxCode_def)

lemma gave_upI:
  assumes "at_content G f' i out" and "f_world f = f_world f'" and "code \<noteq> LZ4F_OK_NoError"
  shows "gave_up G (Leave (err0r code)) f"
  using assms isError_err0r at_contentD(1,2) [OF assms(1)] by (simp add: gave_up_def)

lemma haltedI:
  assumes "in_frame G f i out" and "d_stage (f_d f) \<noteq> dstage_flushOut"
  shows "halted G f i out"
  using assms by (auto simp: in_frame_def halted_def ctx_history_def split: if_splits)

lemma world_eq: "v = w\<lparr>wmem := wmem v\<rparr> \<Longrightarrow> w = u\<lparr>wmem := wmem w\<rparr> \<Longrightarrow> v = u\<lparr>wmem := wmem v\<rparr>"
  for u v w :: "'w world"
  by (cases u; cases v; cases w) simp

text \<open>Writing to the buffers of the context does not change the content.\<close>

lemma at_content_buffers:
  assumes g: "scene_ok G" and a: "at_content G f i out" and w: "writes_in (f_mem f) m lo hi"
    and lo: "unat (g_in G) \<le> lo \<and> hi \<le> unat (g_in G) + (g_max G + 4)
      \<or> unat (g_tmp G) \<le> lo \<and> hi \<le> unat (g_tmp G) + g_tmpSize G"
    and v: "v = (f_world f)\<lparr>wmem := m\<rparr>"
  shows "at_content G (f\<lparr>f_world := v\<rparr>) i out"
proof -
  note b = scene_okD [OF g] and c = at_contentD [OF a]
  have "unat (g_dst G) + length out \<le> lo \<or> hi \<le> unat (g_dst G)"
    using lo c(5) own_blockD(5) [OF b(11)] own_blockD(5) [OF b(12)] by linarith
  then have "load_bytes m (g_dst G) (length out) = Ret out"
    using b(5) c(5) by (intro load_kept [OF c(3) w]) auto
  moreover have "g_writes G m" using g_writes_more [OF c(2) w] lo by blast
  ultimately show ?thesis using c v world_eq [of v "f_world f" "g_world G"] by (simp add: at_content_def)
qed

lemma decode_direct_ok:
  assumes g: "scene_ok G" and f: "in_frame G f i out" and room: "length out + g_max G \<le> g_room G"
    and D: "0 < length D" "length D \<le> g_max G" "d_tmpInTarget (f_d f) = of_nat (length D)"
      "load_bytes (f_mem f) p (length D) = Ret D" "unat p = unat (g_src G) + j" "j + length D \<le> length (g_S G)"
  shows "\<exists>t f'. decode_direct fast BS pool (g_call G) p f = Some (Ret (t, f')) \<and>
    (gave_up G t f' \<or> t = Again \<and> (\<exists>new. in_frame G f' i (out @ new) \<and> d_stage (f_d f') = dstage_getBlockHeader
       \<and> block_decode (history (g_info G) out) D = Some (history (g_info G) out @ new) \<and> length new \<le> g_max G))"
proof -
  note b = scene_okD [OF g] and e = in_frameD [OF f]
  note c = at_contentD [OF e(1)]
  have at: "f_dst f = g_dst G + of_nat (length out)" by (rule addr_split [OF c(4)])
  have mp: "mapped_in (f_mem f) (unat (f_dst f)) (unat (f_dst f) + g_max G)"
    using b(9) writes_mapped [OF c(2)] c(4) room by (auto elim: mapped_in_mono)
  obtain n w' where r: "call_block_decoder fast BS pool p (f_dst f) (f_d f) (f_world f) = Some (Ret (n, w'))"
    and ok: "decoded_ok (history (g_info G) out) D (f_dst f) (g_max G) (f_world f) (n, w')"
    using call_decoder_ok [OF g e(3,6) c(3,5) D mp, of fast BS pool] b(4,5,10) c(4) room at by auto
  have w: "writes_in (f_mem f) (wmem w') (unat (f_dst f)) (unat (f_dst f) + g_max G)" and w': "w' = (f_world f)\<lparr>wmem := wmem w'\<rparr>"
    using ok by (simp_all add: decoded_ok_def)
  have "g_writes G (wmem w')" using g_writes_more [OF c(2) w] c(4) room by simp
  show ?thesis
  proof (cases "n < 0")
    case True
    have "gave_up G (Leave (err0r LZ4F_ERROR_GENERIC)) (f\<lparr>f_world := w'\<rparr>)"
      using \<open>g_writes G (wmem w')\<close> isError_err0r [of LZ4F_ERROR_GENERIC] world_eq [OF w' c(1)] by (simp add: gave_up_def)
    then show ?thesis using r True by (auto simp: decode_direct_def fail_def)
  next
    case False
    then obtain new where new: "length new = nat n" "load_bytes (wmem w') (f_dst f) (nat n) = Ret new"
        "block_decode (history (g_info G) out) D = Some (history (g_info G) out @ new)" and top: "n \<le> int (g_max G)"
      using ok by (auto simp: decoded_ok_def)
    define N :: size_t where "N = word_of_int n"
    have N: "N = of_nat (length new)" "length new \<le> g_max G" using new(1) False top by (simp_all add: N_def)
    have uN: "unat N = length new" using N b(7) by (simp add: unat_of_nat_addr)
    have p: "f_dst f \<noteq> 0" using c(4) b(4) by auto
    obtain d1 where d1: "account_content (wmem w') (f_dst f) N (f_d f) = Ret d1" "ctx_accounts G d1 (out @ new)"
        "d1 = (f_d f)\<lparr>d_xxh := d_xxh d1, d_frameRemainingSize := d_frameRemainingSize d1\<rparr>"
      using account_content_ok [OF e(4,5), of "wmem w'" "f_dst f" N new] new(1,2) uN p b(7) N(2) by auto
    have e1: "ctx_history G d1 out" "ctx_fixed G d1" "d_frameInfo d1 = g_info G"
      using e by (subst d1(3), simp add: ctx_history_def ctx_fixed_def)+
    obtain d2 where d2: "(if blockMode (d_frameInfo d1) = LZ4F_blockLinked
         then LZ4F_updateDict d1 (f_dst f) N (g_dst G) False (wmem w') else Ret (d1, wmem w')) = Ret (d2, wmem w')"
        "ctx_history G d2 (out @ new)" "d2 = d1\<lparr>d_dict := d_dict d2, d_dictSize := d_dictSize d2\<rparr>"
      using history_step [OF g e1(1) c(5) N(1) e1(3), of False "wmem w'"] unfolding at by blast
    have e2: "ctx_fixed G d2" "ctx_accounts G d2 (out @ new)" using e1(2) d1(2) by (subst d2(3), simp)+
    define f' where "f' = f_set_mem (wmem w') (f\<lparr>f_world := w', f_dst := f_dst f + N, f_d := d2\<lparr>d_stage := dstage_getBlockHeader\<rparr>\<rparr>)"
    have run: "decode_direct fast BS pool (g_call G) p f = Some (Ret (Again, f'))"
      unfolding decode_direct_def f'_def r rbind_simps prod.case Let_def N_def [symmetric] g_call_simps
      using False d2(1) by (auto simp: d1(1) split: if_splits)
    have "at_content G (f_set_mem (wmem w') (f\<lparr>f_dst := f_dst f + of_nat (length new)\<rparr>)) i (out @ new)"
      using room N(2) c(4) new(1,2) by (intro at_content_grow [OF g e(1)]) (auto intro: writes_in_mono [OF w])
    then have "at_content G f' i (out @ new)" using w' N(1) by (simp add: at_content_def f'_def)
    then have "in_frame G f' i (out @ new)" using e2 d2(2) by (simp add: in_frame_def f'_def)
    then show ?thesis using run new(3) N(2) by (auto simp: f'_def)
  qed
qed

text \<open>A block that was decoded behind the history in \<open>tmpOutBuffer\<close> goes to the output as far as it fits.\<close>

lemma flushOut_ok:
  assumes g: "scene_ok G" and a: "at_content G f i out" and x: "ctx_fixed G (f_d f)" "ctx_history G (f_d f) out"
      "ctx_accounts G (f_d f) (out @ new)"
    and T: "d_tmpOut (f_d f) = T" "T = g_tmp G + of_nat k" "k \<le> 65536" "k \<le> length out" "k + g_max G \<le> g_tmpSize G"
    and new: "load_bytes (f_mem f) T (length new) = Ret new" "length new \<le> g_max G"
      "d_tmpOutSize (f_d f) = of_nat (length new)" "d_tmpOutStart (f_d f) = 0"
  shows "\<exists>t f'. stage_flushOut (g_call G) f = Ret (t, f')
    \<and> (t = Again \<and> in_frame G f' i (out @ new) \<and> d_stage (f_d f') = dstage_getBlockHeader
       \<or> (\<exists>s. t = Stop 4 \<and> halted G f' i (out @ take s new)))"
proof -
  note b = scene_okD [OF g] and c = at_contentD [OF a]
  note tmp = own_blockD [OF b(12)]
  define N where "N = min (of_nat (length new)) (room_left (g_call G) f)"
  define n where "n = min (length new) (g_room G - length out)"
  have uN: "n = unat N"
    using left_ok(2) [OF g a] new(2) b(7) unfolding N_def n_def by (simp add: unat_min unat_of_nat_addr)
  have n: "length out + n \<le> g_room G" "n \<le> length new" using c(5) by (simp_all add: n_def)
  have uT: "unat T = unat (g_tmp G) + k" using T(2,5) tmp(2) by (simp add: unat_plus unat_of_nat_addr)
  have ld: "load_bytes (f_mem f) T n = Ret (take n new)"
    using load_bytes_sub [OF new(1), of 0 n] n(2) by simp
  have top: "unat (f_dst f) + n < 18446744073709551616" "unat T + n < 18446744073709551616"
    using b(5,7) c(4) n new(2) uT T(3,5) tmp(2) by linarith+
  have apart: "unat T + n \<le> unat (f_dst f) \<or> unat (f_dst f) + n \<le> unat T"
    using tmp(5) c(4) n new(2) uT T(5) by linarith
  have mpd: "mapped_in (f_mem f) (unat (f_dst f)) (unat (f_dst f) + n)"
    using b(9) writes_mapped [OF c(2)] c(4) n(1) by (auto elim: mapped_in_mono)
  obtain m where m: "memcpy (f_mem f) (f_dst f) T N = Ret m" "copy_ok (f_mem f) m (f_dst f) T n n"
    using memcpy_ok [OF uN mpd load_mapped_in [OF ld top(2)] top apart] by blast
  have w: "writes_in (f_mem f) m (unat (f_dst f)) (unat (f_dst f) + n)" using m(2) by (rule copy_okD)
  have dst: "load_bytes m (f_dst f) (length (take n new)) = Ret (take n new)"
    using load_copied [OF m(2) ld apart top(2)] n(2) by (simp add: min_def)
  have at: "f_dst f = g_dst G + of_nat (length out)" by (rule addr_split [OF c(4)])
  have N: "N = of_nat (length (take n new))" using uN n(2) by (simp add: min_def)
  obtain d1 where d1: "(if blockMode (d_frameInfo (f_d f)) = LZ4F_blockLinked
       then LZ4F_updateDict (f_d f) (f_dst f) N (g_dst G) True m else Ret (f_d f, m)) = Ret (d1, m)"
      "ctx_history G d1 (out @ take n new)" "d1 = (f_d f)\<lparr>d_dict := d_dict d1, d_dictSize := d_dictSize d1\<rparr>"
    using history_step [OF g x(2) c(5) N, of True m] x(1) unfolding at by (auto simp: ctx_fixed_def)
  have e1: "ctx_fixed G d1" "ctx_accounts G d1 (out @ new)" "d_tmpOut d1 = T" "d_tmpOutSize d1 = of_nat (length new)"
      "d_tmpOutStart d1 = 0" "d_stage d1 = d_stage (f_d f)"
    using x(1,3) T(1) new(3,4) by (subst d1(3), simp)+
  define f1 where "f1 = f_set_mem m (f\<lparr>f_d := d1\<lparr>d_tmpOutStart := N\<rparr>, f_dst := f_dst f + N\<rparr>)"
  have p: "(f_dst f = 0) = False" using c(4) b(4) by auto
  have size: "min (d_tmpOutSize (f_d f) - d_tmpOutStart (f_d f)) (room_left (g_call G) f) = N"
    by (simp add: N_def new(3,4))
  have run: "stage_flushOut (g_call G) f = Ret (if N = of_nat (length new)
      then (Again, f1\<lparr>f_d := (f_d f1)\<lparr>d_stage := dstage_getBlockHeader\<rparr>\<rparr>) else (Stop 4, f1))"
    unfolding stage_flushOut_def Let_def size
    unfolding g_call_simps T(1) new(4) add_0_right
    by (simp only: p not_False_eq_True if_True m(1) d1(1) obind.simps prod.case e1(5) add_0_left flip: f1_def)
      (simp add: f1_def e1(4) BHSize_def)
  have "at_content G (f_set_mem m (f\<lparr>f_dst := f_dst f + of_nat (length (take n new))\<rparr>)) i (out @ take n new)"
    using n c(4) by (intro at_content_grow [OF g a _ dst]) (auto intro: writes_in_mono [OF w])
  then have f1: "at_content G f1 i (out @ take n new)" by (simp add: at_content_def f1_def N)
  show ?thesis
  proof (cases "n = length new")
    case True
    then show ?thesis
      using run f1 N e1(1,2) d1(2) by (simp add: in_frame_def at_content_d) (simp add: f1_def)
  next
    case False
    then have "N \<noteq> of_nat (length new)" using uN new(2) b(7) by (auto simp: unat_of_nat_addr)
    moreover have "\<exists>k s. d_tmpOut (f_d f1) = g_tmp G + of_nat k \<and> k \<le> 65536
        \<and> d_tmpOutStart (f_d f1) = of_nat s \<and> s + k \<le> length (out @ take n new)"
      using e1(3) T(2-4) N by (intro exI [of _ k] exI [of _ "length (take n new)"]) (simp add: f1_def)
    then have "halted G f1 i (out @ take n new)"
      using f1 e1(1) d1(2) by (simp add: halted_def) (auto simp: ctx_history_def f1_def)
    ultimately show ?thesis using run by auto
  qed
qed

lemma decode_to_tmp_ok:
  assumes g: "scene_ok G" and f: "in_frame G f i out"
    and D: "0 < length D" "length D \<le> g_max G" "d_tmpInTarget (f_d f) = of_nat (length D)"
      "load_bytes (f_mem f) p (length D) = Ret D" "unat p = unat (g_src G) + j" "j + length D \<le> length (g_S G)"
  shows "\<exists>t f'. decode_to_tmp fast BS pool (g_call G) p f = Some (Ret (t, f')) \<and>
    (gave_up G t f' \<or> (\<exists>new. block_decode (history (g_info G) out) D = Some (history (g_info G) out @ new)
       \<and> length new \<le> g_max G
       \<and> (t = Again \<and> in_frame G f' i (out @ new) \<and> d_stage (f_d f') = dstage_getBlockHeader
          \<or> (\<exists>s. t = Stop 4 \<and> halted G f' i (out @ take s new)))))"
proof -
  note b = scene_okD [OF g] and e = in_frameD [OF f]
  note c = at_contentD [OF e(1)] and tmp = own_blockD [OF b(12)]
  define k where "k = (if linked (g_info G) then min (length out) 65536 else 0)"
  define T where "T = g_tmp G + of_nat k"
  have k: "k \<le> 65536" "k \<le> length out" "k + g_max G \<le> g_tmpSize G" "unat T = unat (g_tmp G) + k"
    using tmp(2) b(7) by (auto simp: k_def T_def g_tmpSize_def unat_plus unat_of_nat_addr)
  define d where "d = (f_d f)\<lparr>d_tmpOut := T\<rparr>"
  have d: "ctx_fixed G d" "ctx_history G d out" "ctx_accounts G d out" "d_frameInfo d = g_info G"
      "d_maxBlockSize d = of_nat (g_max G)" "d_tmpInTarget d = of_nat (length D)" "d_tmpOut d = T"
    using e D(3) by (auto simp: d_def ctx_history_def T_def k_def)
  have notmp: "d_dict (f_d f) \<noteq> g_tmp G"
    using e(3) tmp(1,5) b(4) by (auto simp: ctx_history_def split: if_splits)
  have ch: "choose_tmpOut (f_d f) (f_mem f) = Ret (d, f_mem f)"
  proof (cases "linked (g_info G)")
    case True
    have "min (of_nat (length out)) KB64 = (of_nat k :: addr)"
      using True c(5) b(3) by (intro word_unat_eq_iff [THEN iffD2]) (simp add: unat_min unat_of_nat_addr k_def)
    then show ?thesis
      using True notmp e(3,5,8) by (simp add: choose_tmpOut_def d_def ctx_history_def T_def)
  next
    case False
    then show ?thesis using e(3,5) by (simp add: choose_tmpOut_def d_def ctx_history_def T_def k_def)
  qed
  have same: "f_set_mem (f_mem f) (f\<lparr>f_d := d\<rparr>) = f\<lparr>f_d := d\<rparr>" by (simp add: f_set_mem_def)
  have mp: "mapped_in (f_mem f) (unat T) (unat T + g_max G)"
    using tmp(3) writes_mapped [OF c(2)] k(3,4) by (auto elim: mapped_in_mono)
  obtain n w' where r: "call_block_decoder fast BS pool p T d (f_world f) = Some (Ret (n, w'))"
    and ok: "decoded_ok (history (g_info G) out) D T (g_max G) (f_world f) (n, w')"
    using call_decoder_ok [OF g d(2,5) c(3,5) D(1,2) d(6) D(4-6) mp, of fast BS pool] tmp k(3,4) c(5) by auto
  have w: "writes_in (f_mem f) (wmem w') (unat T) (unat T + g_max G)" and w': "w' = (f_world f)\<lparr>wmem := wmem w'\<rparr>"
    using ok by (simp_all add: decoded_ok_def)
  define f1 where "f1 = f\<lparr>f_d := d, f_world := w'\<rparr>"
  have "at_content G (f\<lparr>f_world := w'\<rparr>) i out" using at_content_buffers [OF g e(1) w _ w'] k(3,4) by auto
  then have f1: "at_content G f1 i out" by (simp add: at_content_def f1_def)
  show ?thesis
  proof (cases "n < 0")
    case True
    have "gave_up G (Leave (err0r LZ4F_ERROR_decompressionFailed)) f1" by (rule gave_upI [OF f1]) simp_all
    moreover have "decode_to_tmp fast BS pool (g_call G) p f
        = Some (Ret (Leave (err0r LZ4F_ERROR_decompressionFailed), f1))"
      unfolding decode_to_tmp_def ch rbind_simps prod.case same Let_def d(7)
      using True by (simp add: r fail_def f1_def)
    ultimately show ?thesis by blast
  next
    case False
    then obtain new where new: "length new = nat n" "load_bytes (wmem w') T (nat n) = Ret new"
        "block_decode (history (g_info G) out) D = Some (history (g_info G) out @ new)" and top: "n \<le> int (g_max G)"
      using ok by (auto simp: decoded_ok_def)
    define N :: size_t where "N = word_of_int n"
    have N: "N = of_nat (length new)" "length new \<le> g_max G" using new(1) False top by (simp_all add: N_def)
    have uN: "unat N = length new" using N b(7) by (simp add: unat_of_nat_addr)
    have p: "T \<noteq> 0" using k(4) tmp(1) by auto
    obtain d1 where d1: "account_content (wmem w') T N d = Ret d1" "ctx_accounts G d1 (out @ new)"
        "d1 = d\<lparr>d_xxh := d_xxh d1, d_frameRemainingSize := d_frameRemainingSize d1\<rparr>"
      using account_content_ok [OF d(3,4), of "wmem w'" T N new] new(1,2) uN p b(7) N(2) by auto
    have e1: "ctx_history G d1 out" using d(2) by (subst d1(3)) (simp add: ctx_history_def)
    have e2: "ctx_fixed G d1" using d(1) by (subst d1(3)) (simp add: ctx_fixed_def)
    have e3: "d_tmpOut d1 = T" using d(7) by (subst d1(3)) simp
    define f2 where "f2 = f1\<lparr>f_d := d1\<lparr>d_tmpOutSize := N, d_tmpOutStart := 0, d_stage := dstage_flushOut\<rparr>\<rparr>"
    have f2: "at_content G f2 i out" "ctx_fixed G (f_d f2)" "ctx_history G (f_d f2) out" "ctx_accounts G (f_d f2) (out @ new)"
      using f1 e1 e2 d1(2) by (simp_all add: f2_def at_content_d)
    obtain t f' where t: "stage_flushOut (g_call G) f2 = Ret (t, f')" "t = Again \<and> in_frame G f' i (out @ new)
        \<and> d_stage (f_d f') = dstage_getBlockHeader \<or> (\<exists>s. t = Stop 4 \<and> halted G f' i (out @ take s new))"
      using flushOut_ok [OF g f2, of T k] e3 k(1-3) T_def new(1,2) N by (auto simp: f2_def f1_def)
    have "decode_to_tmp fast BS pool (g_call G) p f = Some (stage_flushOut (g_call G) f2)"
      unfolding decode_to_tmp_def ch rbind_simps prod.case same Let_def d(7)
      using False by (simp add: r d1(1) f2_def f1_def flip: N_def)
    then show ?thesis using t new(3) N(2) by auto
  qed
qed

end
