(* ===== verification/Lz4_Frame_Turns.thy ===== *)
theory Lz4_Frame_Turns
  imports Lz4_Frame_Props
begin

text \<open>
  The turns of the loop in \<open>LZ4F_decompress\<close>, from the first block header of a frame on: where the
  decoder can stand between two turns of one call, and what each turn makes of it.
\<close>

unbundle bit_operations_syntax

section \<open>Where the decoder stands\<close>

text \<open>
  \<open>Y\<close> is what the format says of the frame, the content and the rest of the input; a stage that is
  still in the middle of a block knows it under the condition that the block turns out to be good.
\<close>

inductive stands :: "'w scene \<Rightarrow> 'w lz4f \<Rightarrow> nat \<Rightarrow> u8 list \<Rightarrow> (u8 list \<times> u8 list) option \<Rightarrow> bool"
  for G :: "'w scene" where
  at_header: "in_frame G f i out \<Longrightarrow> d_stage (f_d f) = dstage_getBlockHeader
    \<Longrightarrow> Y = frame_content (g_info G) (g_max G) out (drop i (g_S G)) \<Longrightarrow> stands G f i out Y"
| at_stored: "in_frame G f i out \<Longrightarrow> d_stage (f_d f) = dstage_copyDirect
    \<Longrightarrow> d_tmpInTarget (f_d f) = of_nat n \<Longrightarrow> n \<le> g_max G
    \<Longrightarrow> (blockChecksumFlag (g_info G) \<longrightarrow> d_blockChecksum (f_d f) = xxh32_reset 0)
    \<Longrightarrow> (block_checked (g_info G) n (drop i (g_S G)) \<longrightarrow> Y = frame_content (g_info G) (g_max G)
          (out @ take n (drop i (g_S G))) (after_block (g_info G) n (drop i (g_S G))))
    \<Longrightarrow> stands G f i out Y"
| at_checksum: "in_frame G f i out \<Longrightarrow> d_stage (f_d f) = dstage_getBlockChecksum
    \<Longrightarrow> d_tmpInSize (f_d f) = 0 \<Longrightarrow> xxh32_absorbed 0 D (d_blockChecksum (f_d f))
    \<Longrightarrow> (i + 4 \<le> length (g_S G) \<longrightarrow> of_nat (le_val (take 4 (drop i (g_S G)))) = xxh32 D 0
          \<longrightarrow> Y = frame_content (g_info G) (g_max G) out (drop (i + 4) (g_S G)))
    \<Longrightarrow> stands G f i out Y"
| at_compressed: "in_frame G f i out \<Longrightarrow> d_stage (f_d f) = dstage_getCBlock
    \<Longrightarrow> d_tmpInTarget (f_d f) = of_nat (n + (if blockChecksumFlag (g_info G) then 4 else 0))
    \<Longrightarrow> 0 < n \<Longrightarrow> n \<le> g_max G
    \<Longrightarrow> (\<forall>new. block_checked (g_info G) n (drop i (g_S G)) \<longrightarrow> length new \<le> g_max G
          \<longrightarrow> block_decode (history (g_info G) out) (take n (drop i (g_S G)))
              = Some (history (g_info G) out @ new)
          \<longrightarrow> Y = frame_content (g_info G) (g_max G) (out @ new) (after_block (g_info G) n (drop i (g_S G))))
    \<Longrightarrow> stands G f i out Y"
| at_short: "in_frame G f i out \<Longrightarrow> d_stage (f_d f) = dstage_storeCBlock
    \<Longrightarrow> d_tmpInSize (f_d f) = 0 \<Longrightarrow> d_tmpInTarget (f_d f) = of_nat n \<Longrightarrow> n \<le> g_max G + 4
    \<Longrightarrow> length (g_S G) < i + n \<Longrightarrow> stands G f i out Y"
| at_end: "in_frame G f i out \<Longrightarrow> d_stage (f_d f) = dstage_getSuffix
    \<Longrightarrow> Y = content_end (g_info G) out (drop i (g_S G)) \<Longrightarrow> stands G f i out Y"

text \<open>A turn uses up input, or goes on to a later stage of the block.\<close>

primrec stage_rank :: "dStage \<Rightarrow> nat" where
  "stage_rank dstage_getBlockHeader = 1" | "stage_rank dstage_copyDirect = 3"
| "stage_rank dstage_getBlockChecksum = 2" | "stage_rank dstage_getCBlock = 3"
| "stage_rank dstage_storeCBlock = 2" | "stage_rank dstage_getSuffix = 0"
| "stage_rank dstage_getFrameHeader = 0" | "stage_rank dstage_storeFrameHeader = 0"
| "stage_rank dstage_init = 0" | "stage_rank dstage_storeBlockHeader = 0"
| "stage_rank dstage_flushOut = 0" | "stage_rank dstage_storeSuffix = 0"
| "stage_rank dstage_getSFrameSize = 0" | "stage_rank dstage_storeSFrameSize = 0"
| "stage_rank dstage_skipSkippable = 0"

definition to_do :: "'w scene \<Rightarrow> 'w lz4f \<Rightarrow> nat \<Rightarrow> nat" where
  "to_do G f i = 4 * (length (g_S G) - i) + stage_rank (d_stage (f_d f))"

text \<open>What may come of a turn.\<close>

definition ends_well :: "'w scene \<Rightarrow> (u8 list \<times> u8 list) option \<Rightarrow> nat \<Rightarrow> turn \<Rightarrow> 'w lz4f \<Rightarrow> bool" where
  "ends_well G Y k t f \<longleftrightarrow> gave_up G t f
     \<or> t = Again \<and> (\<exists>i out. stands G f i out Y \<and> to_do G f i < k)
     \<or> (\<exists>h i out. t = Stop h \<and> halted G f i out
          \<and> (h = 0 \<longrightarrow> d_stage (f_d f) = dstage_getFrameHeader \<and> Y = Some (out, drop i (g_S G))))"

lemma ends_well_again: "stands G f i out Y \<Longrightarrow> to_do G f i < k \<Longrightarrow> ends_well G Y k Again f"
  by (auto simp: ends_well_def)

lemma to_do_less: "i \<le> j \<Longrightarrow> stage_rank (d_stage (f_d f)) < k \<Longrightarrow> to_do G f j < 4 * (length (g_S G) - i) + k"
  unfolding to_do_def by arith

lemma hint_not_0: "n \<le> 4194308 \<Longrightarrow> (of_nat (n - l + (if c then 4 else 0) + 4) :: size_t) \<noteq> 0"
  by (subst of_nat_eq_0_addr) auto

lemma ends_well_stop: "halted G f i out \<Longrightarrow> h \<noteq> 0 \<Longrightarrow> ends_well G Y k (Stop h) f"
  by (auto simp: ends_well_def)

lemma ends_well_fail:
  assumes "at_content G f i out" and "code \<noteq> LZ4F_OK_NoError"
  shows "ends_well G Y k (Leave (err0r code)) f"
  using gave_upI [OF assms(1) refl assms(2)] by (simp add: ends_well_def)

text \<open>Comparisons with what is left of the input.\<close>

lemma input_left_cmp:
  assumes g: "scene_ok G" and a: "at_content G f i out"
  shows "4 \<le> input_left (g_call G) f \<longleftrightarrow> i + 4 \<le> length (g_S G)"
    and "4 \<le> sint (input_left (g_call G) f) \<longleftrightarrow> i + 4 \<le> length (g_S G)"
    and "n < 18446744073709551616 \<Longrightarrow> input_left (g_call G) f < of_nat n \<longleftrightarrow> length (g_S G) < i + n"
proof -
  note l = left_ok(1) [OF g a] and c = at_contentD(7) [OF a] and b = scene_okD(1) [OF g]
  show "4 \<le> input_left (g_call G) f \<longleftrightarrow> i + 4 \<le> length (g_S G)"
    using l c by (auto simp: word_le_nat_alt)
  show "input_left (g_call G) f < of_nat n \<longleftrightarrow> length (g_S G) < i + n" if "n < 18446744073709551616"
    using l c that by (auto simp: word_less_nat_alt unat_of_nat_addr)
  have "uint (input_left (g_call G) f) = int (length (g_S G) - i)" using l by (metis uint_nat)
  moreover have "length (g_S G) - i < 2 ^ 63" using b by simp
  ultimately have "sint (input_left (g_call G) f) = int (length (g_S G) - i)"
    by (simp add: sint_uint signed_take_bit_int_eq_self)
  then show "4 \<le> sint (input_left (g_call G) f) \<longleftrightarrow> i + 4 \<le> length (g_S G)" using c by auto
qed

lemma in_frame_d:
  assumes "in_frame G f i out" and "d_frameInfo d = d_frameInfo (f_d f)" "d_maxBlockSize d = d_maxBlockSize (f_d f)"
    "d_tmpIn d = d_tmpIn (f_d f)" "d_tmpOutBuffer d = d_tmpOutBuffer (f_d f)" "d_dict d = d_dict (f_d f)"
    "d_dictSize d = d_dictSize (f_d f)" "d_tmpOut d = d_tmpOut (f_d f)" "d_xxh d = d_xxh (f_d f)"
    "d_frameRemainingSize d = d_frameRemainingSize (f_d f)" "length (d_header d) = length (d_header (f_d f))"
  shows "in_frame G (f\<lparr>f_d := d\<rparr>) i out"
  using assms by (simp add: in_frame_def at_content_d ctx_fixed_def ctx_history_def ctx_accounts_def)

lemma in_frame_src:
  assumes "scene_ok G" and "in_frame G f i out" and "i + n \<le> length (g_S G)" and "n = unat N"
  shows "in_frame G (f\<lparr>f_src := f_src f + N\<rparr>) (i + n) out"
  using assms src_plus [OF assms(1) in_frameD(1) [OF assms(2)] assms(3,4)] at_content_src(1)
  by (fastforce simp: in_frame_def)

text \<open>Input that is too short for what it should be is kept in \<open>tmpIn\<close>.\<close>

lemma collect_input_ok:
  assumes g: "scene_ok G" and f: "in_frame G f i out" and z: "d_tmpInSize (f_d f) = 0"
    and n: "n = unat N" "i + n \<le> length (g_S G)" "n \<le> g_max G + 4"
  shows "\<exists>f'. collect_input N f = Ret f' \<and> in_frame G f' (i + n) out
    \<and> f_d f' = (f_d f)\<lparr>d_tmpInSize := N\<rparr>"
proof -
  note b = scene_okD [OF g] and e = in_frameD [OF f]
  note c = at_contentD [OF e(1)] and tin = own_blockD [OF b(11)]
  have ld: "load_bytes (f_mem f) (f_src f) n = Ret (take n (drop i (g_S G)))" by (rule src_bytes [OF g e(1) n(2)])
  have top: "unat (g_in G) + n < 18446744073709551616" "unat (f_src f) + n < 18446744073709551616"
    using b(1) c(6) n tin(2) by linarith+
  have apart: "unat (f_src f) + n \<le> unat (g_in G) \<or> unat (g_in G) + n \<le> unat (f_src f)"
    using tin(4) c(6) n by linarith
  have mpd: "mapped_in (f_mem f) (unat (g_in G)) (unat (g_in G) + n)"
    using tin(3) writes_mapped [OF c(2)] n(3) by (auto elim: mapped_in_mono)
  obtain m where m: "memcpy (f_mem f) (g_in G) (f_src f) N = Ret m" "copy_ok (f_mem f) m (g_in G) (f_src f) n n"
    using memcpy_ok [OF n(1) mpd load_mapped_in [OF ld top(2)] top apart] by blast
  have w: "writes_in (f_mem f) m (unat (g_in G)) (unat (g_in G) + n)" using m(2) by (rule copy_okD)
  define f1 where "f1 = f\<lparr>f_world := (f_world f)\<lparr>wmem := m\<rparr>\<rparr>"
  have "at_content G f1 i out"
    using at_content_buffers [OF g e(1) w _ refl] n(3) by (auto simp: f1_def)
  then have "in_frame G f1 i out" using f by (simp add: in_frame_def f1_def)
  then have "in_frame G (f1\<lparr>f_src := f_src f1 + N\<rparr>) (i + n) out" using in_frame_src [OF g _ n(2,1)] by simp
  then have "in_frame G (f1\<lparr>f_src := f_src f1 + N, f_d := (f_d f)\<lparr>d_tmpInSize := N\<rparr>\<rparr>) (i + n) out"
    by (rule in_frame_d) (simp_all add: f1_def)
  moreover have "collect_input N f = Ret (f1\<lparr>f_src := f_src f1 + N, f_d := (f_d f)\<lparr>d_tmpInSize := N\<rparr>\<rparr>)"
    using m(1) e(7) z by (simp add: collect_input_def f1_def f_set_mem_def Let_def)
  ultimately show ?thesis by (auto simp: f1_def)
qed

section \<open>Block headers\<close>

lemma header_parts:
  fixes w :: u32
  assumes w: "w = of_nat h" and h: "h < 4294967296"
  shows "w = 0 \<longleftrightarrow> h = 0" and "unat (ucast (w AND 0x7FFFFFFF) :: size_t) = h mod 2 ^ 31"
    and "w AND LZ4F_BLOCKUNCOMPRESSED_FLAG \<noteq> 0 \<longleftrightarrow> 2 ^ 31 \<le> h"
proof -
  have u: "unat w = h" using w h by (simp add: unat_of_nat take_bit_nat_eq_self)
  then show "w = 0 \<longleftrightarrow> h = 0" by (auto simp: unat_eq_0)
  have "w AND 0x7FFFFFFF = take_bit 31 w" by (simp add: take_bit_eq_mask mask_eq_exp_minus_1)
  then have "unat (w AND 0x7FFFFFFF) = h mod 2 ^ 31" using u by (simp add: take_bit_eq_mod unat_mod_distrib)
  moreover have "unat (ucast v :: size_t) = unat v" for v :: u32
    by simp
  ultimately show "unat (ucast (w AND 0x7FFFFFFF) :: size_t) = h mod 2 ^ 31" by simp
  have "(w AND 2 ^ 31 = 0) = (\<not> bit w 31)" by (rule and_exp_eq_0_iff_not_bit)
  moreover have "bit (unat w) 31 = bit w 31" by (simp add: bit_unsigned_iff)
  then have "bit w 31 = odd (h div 2 ^ 31)" using u by (simp add: bit_iff_odd)
  moreover have "h div 2 ^ 31 = (if 2 ^ 31 \<le> h then 1 else 0)" using h by (auto intro!: div_nat_eqI)
  ultimately show "w AND LZ4F_BLOCKUNCOMPRESSED_FLAG \<noteq> 0 \<longleftrightarrow> 2 ^ 31 \<le> h"
    by (simp add: LZ4F_BLOCKUNCOMPRESSED_FLAG_def)
qed

lemma frame_content_block:
  assumes "4 \<le> length bs" and h: "h = le_val (take 4 bs)" "h \<noteq> 0" and n: "n = h mod 2 ^ 31" "n \<le> mx"
  shows "2 ^ 31 \<le> h \<Longrightarrow> block_checked info n (drop 4 bs) \<Longrightarrow> frame_content info mx out bs
      = frame_content info mx (out @ take n (drop 4 bs)) (after_block info n (drop 4 bs))"
    and "\<not> 2 ^ 31 \<le> h \<Longrightarrow> block_checked info n (drop 4 bs) \<Longrightarrow> length new \<le> mx
      \<Longrightarrow> block_decode (history info out) (take n (drop 4 bs)) = Some (history info out @ new)
      \<Longrightarrow> frame_content info mx out bs = frame_content info mx (out @ new) (after_block info n (drop 4 bs))"
proof -
  have "h < 2 ^ 32" using le_val_lt [of "take 4 bs"] assms(1) h(1) by simp
  then have hi: "h = 2 ^ 31 + n" if "2 ^ 31 \<le> h"
    using that n(1) le_mod_geq [OF that] mod_less [of "h - 2 ^ 31" "2 ^ 31"] by simp
  then show "2 ^ 31 \<le> h \<Longrightarrow> block_checked info n (drop 4 bs) \<Longrightarrow> frame_content info mx out bs
      = frame_content info mx (out @ take n (drop 4 bs)) (after_block info n (drop 4 bs))"
    using assms by (intro frame_content_stored) auto
  show "\<not> 2 ^ 31 \<le> h \<Longrightarrow> block_checked info n (drop 4 bs) \<Longrightarrow> length new \<le> mx
      \<Longrightarrow> block_decode (history info out) (take n (drop 4 bs)) = Some (history info out @ new)
      \<Longrightarrow> frame_content info mx out bs = frame_content info mx (out @ new) (after_block info n (drop 4 bs))"
    using assms by (intro frame_content_compressed [where hist = "history info out"]) auto
qed

lemma block_header_ok:
  assumes g: "scene_ok G" and f: "in_frame G f (i + 4) out" and i: "i + 4 \<le> length (g_S G)"
    and h: "h = le_val (take 4 (drop i (g_S G)))" and Y: "Y = frame_content (g_info G) (g_max G) out (drop i (g_S G))"
  shows "\<exists>t f'. block_header (g_call G) (of_nat h) f = Ret (t, f')
    \<and> ends_well G Y (4 * (length (g_S G) - i) + 1) t f'"
proof -
  note b = scene_okD [OF g] and e = in_frameD [OF f]
  have bs: "4 \<le> length (drop i (g_S G))" "drop (i + 4) (g_S G) = drop 4 (drop i (g_S G))"
    using i by (simp_all add: add.commute)
  have hlt: "h < 4294967296" using le_val_lt [of "take 4 (drop i (g_S G))"] bs(1) h by simp
  note w = header_parts [OF refl hlt]
  define n where "n = h mod 2 ^ 31"
  define N :: size_t where "N = ucast (of_nat h AND 0x7FFFFFFF :: u32)"
  have uN: "unat N = n" using w(2) by (simp add: N_def n_def)
  moreover have "n < 2 ^ 31" by (simp add: n_def)
  ultimately have N: "N = of_nat n" by (intro word_unat_eq_iff [THEN iffD2]) (simp add: unat_of_nat_addr)
  have done4: "4 * (length (g_S G) - (i + 4)) + 3 < 4 * (length (g_S G) - i) + 1" using i by linarith
  have big: "N > d_maxBlockSize (f_d f) \<longleftrightarrow> g_max G < n"
    using e(6) uN b(7) by (simp add: word_less_nat_alt unat_of_nat_addr)
  note def = block_header_def Let_def N_def [symmetric] big
  consider "h = 0" | "h \<noteq> 0" "g_max G < n" | "h \<noteq> 0" "n \<le> g_max G" "2 ^ 31 \<le> h" | "h \<noteq> 0" "n \<le> g_max G" "\<not> 2 ^ 31 \<le> h"
    by linarith
  then show ?thesis
  proof cases
    case 1
    define f' where "f' = f\<lparr>f_d := (f_d f)\<lparr>d_stage := dstage_getSuffix\<rparr>\<rparr>"
    have "in_frame G f' (i + 4) out" unfolding f'_def using f by (rule in_frame_d) simp_all
    moreover have "Y = content_end (g_info G) out (drop (i + 4) (g_S G))"
      using frame_content_end [OF bs(1)] 1 h bs(2) Y by simp
    ultimately have "stands G f' (i + 4) out Y" by (intro at_end) (simp_all add: f'_def)
    then have "ends_well G Y (4 * (length (g_S G) - i) + 1) Again f'"
      by (rule ends_well_again) (simp add: to_do_def f'_def less_Suc_eq_le)
    then show ?thesis using 1 by (simp add: def f'_def)
  next
    case 2
    then show ?thesis using w(1) ends_well_fail [OF e(1)] by (simp add: def fail_def)
  next
    case 3
    define f' where "f' = f\<lparr>f_d := (f_d f)\<lparr>d_tmpInTarget := N,
               d_blockChecksum := (if blockChecksumFlag (g_info G) then xxh32_reset 0 else d_blockChecksum (f_d f)),
               d_stage := dstage_copyDirect\<rparr>\<rparr>"
    have "in_frame G f' (i + 4) out" unfolding f'_def using f by (rule in_frame_d) simp_all
    moreover have "block_checked (g_info G) n (drop (i + 4) (g_S G)) \<longrightarrow> Y = frame_content (g_info G) (g_max G)
          (out @ take n (drop (i + 4) (g_S G))) (after_block (g_info G) n (drop (i + 4) (g_S G)))"
      using frame_content_block(1) [OF bs(1) h 3(1) n_def 3(2,3)] Y by (simp only: bs(2)) blast
    ultimately have "stands G f' (i + 4) out Y" using 3(2) N by (intro at_stored [of _ _ _ _ n]) (simp_all add: f'_def)
    then have "ends_well G Y (4 * (length (g_S G) - i) + 1) Again f'"
      using done4 by (rule_tac ends_well_again) (simp_all add: to_do_def f'_def)
    then show ?thesis using 3 w(1,3) e(5) by (simp add: def f'_def not_less)
  next
    case 4
    define c where "c = (if blockChecksumFlag (g_info G) then 4 else 0 :: nat)"
    define f' where "f' = f\<lparr>f_d := (f_d f)\<lparr>d_tmpInTarget := of_nat (n + c), d_stage := dstage_getCBlock\<rparr>\<rparr>"
    have f': "in_frame G f' (i + 4) out" unfolding f'_def using f by (rule in_frame_d) simp_all
    have n0: "0 < n" using 4(1,3) by (auto simp: n_def)
    have "\<forall>new. block_checked (g_info G) n (drop (i + 4) (g_S G)) \<longrightarrow> length new \<le> g_max G
          \<longrightarrow> block_decode (history (g_info G) out) (take n (drop (i + 4) (g_S G)))
              = Some (history (g_info G) out @ new)
          \<longrightarrow> Y = frame_content (g_info G) (g_max G) (out @ new) (after_block (g_info G) n (drop (i + 4) (g_S G)))"
      using frame_content_block(2) [OF bs(1) h 4(1) n_def 4(2,3)] Y by (simp only: bs(2)) blast
    then have "stands G f' (i + 4) out Y"
      using f' n0 4(2) by (intro at_compressed [of _ _ _ _ n]) (simp_all add: f'_def c_def)
    then have again: "ends_well G Y (4 * (length (g_S G) - i) + 1) Again f'"
      using done4 by (rule_tac ends_well_again) (simp_all add: to_do_def f'_def)
    have hint: "BHSize + N + (if blockChecksumFlag (g_info G) then BFSize else 0) = of_nat (4 + n + c)"
      by (simp add: BHSize_def BFSize_def N c_def)
    have "(of_nat (4 + n + c) :: size_t) \<noteq> 0"
      using 4(2) b(7) by (subst of_nat_eq_0_addr) (simp_all add: c_def)
    moreover have "halted G f' (i + 4) out" by (rule haltedI [OF f']) (simp add: f'_def)
    ultimately have stop: "ends_well G Y (4 * (length (g_S G) - i) + 1) (Stop (of_nat (4 + n + c))) f'"
      by (intro ends_well_stop)
    have "block_header (g_call G) (of_nat h) f
       = Ret (if f_dst f = c_dstEnd (g_call G) \<or> f_src f = c_srcEnd (g_call G) then Stop (of_nat (4 + n + c)) else Again, f')"
      unfolding def e(5) hint using 4 w(1,3) by (simp add: f'_def c_def N BFSize_def del: g_call_simps)
    then show ?thesis using again stop by (cases "f_dst f = c_dstEnd (g_call G) \<or> f_src f = c_srcEnd (g_call G)") auto
  qed
qed

lemma getBlockHeader_ok:
  assumes g: "scene_ok G" and f: "in_frame G f i out"
    and Y: "Y = frame_content (g_info G) (g_max G) out (drop i (g_S G))"
  shows "\<exists>t f'. stage_getBlockHeader (g_call G) f = Ret (t, f')
    \<and> ends_well G Y (4 * (length (g_S G) - i) + 1) t f'"
proof (cases "i + 4 \<le> length (g_S G)")
  case True
  note e = in_frameD [OF f]
  have "in_frame G (f\<lparr>f_src := f_src f + 4\<rparr>) (i + 4) out" by (rule in_frame_src [OF g f True]) simp
  then show ?thesis
    using block_header_ok [OF g _ True refl Y] header_word [OF g e(1) True] True input_left_cmp(1) [OF g e(1)]
    by (simp add: stage_getBlockHeader_def BHSize_def)
next
  case False
  note e = in_frameD [OF f] and b = scene_okD [OF g]
  define n where "n = length (g_S G) - i"
  have n: "n < 4" "i + n = length (g_S G)" using False at_contentD(7) [OF e(1)] by (simp_all add: n_def)
  define f1 where "f1 = f\<lparr>f_d := (f_d f)\<lparr>d_tmpInSize := 0, d_stage := dstage_storeBlockHeader\<rparr>\<rparr>"
  have f1: "in_frame G f1 i out" unfolding f1_def using f by (rule in_frame_d) simp_all
  have l: "unat (input_left (g_call G) f1) = n" using left_ok(1) [OF g in_frameD(1) [OF f1]] by (simp add: n_def)
  then have "min (BHSize - d_tmpInSize (f_d f1)) (input_left (g_call G) f1) = input_left (g_call G) f1"
    using n(1) by (simp add: min_def word_le_nat_alt BHSize_def f1_def)
  then obtain f2 where f2: "collect_input (min (BHSize - d_tmpInSize (f_d f1)) (input_left (g_call G) f1)) f1 = Ret f2"
      "in_frame G f2 (i + n) out" "f_d f2 = (f_d f1)\<lparr>d_tmpInSize := input_left (g_call G) f1\<rparr>"
    using collect_input_ok [OF g f1 _ l [symmetric]] n b(6) by (auto simp: f1_def)
  have less: "d_tmpInSize (f_d f2) < 4" using l n(1) f2(3) by (simp add: word_less_nat_alt)
  then have "4 - d_tmpInSize (f_d f2) \<noteq> 0" by auto
  moreover have "halted G f2 (i + n) out" by (rule haltedI [OF f2(2)]) (simp add: f2(3) f1_def)
  ultimately have "ends_well G Y (4 * (length (g_S G) - i) + 1) (Stop (4 - d_tmpInSize (f_d f2))) f2"
    by (intro ends_well_stop)
  moreover have "stage_getBlockHeader (g_call G) f = Ret (Stop (4 - d_tmpInSize (f_d f2)), f2)"
    using False input_left_cmp(1) [OF g e(1)] f2(1) less
    by (simp add: stage_getBlockHeader_def stage_storeBlockHeader_def BHSize_def flip: f1_def)
  ultimately show ?thesis by blast
qed

section \<open>Stored blocks\<close>

lemma copyDirect_ok:
  assumes g: "scene_ok G" and f: "in_frame G f i out" and st: "d_stage (f_d f) = dstage_copyDirect"
    and n: "d_tmpInTarget (f_d f) = of_nat n" "n \<le> g_max G"
    and crc: "blockChecksumFlag (g_info G) \<longrightarrow> d_blockChecksum (f_d f) = xxh32_reset 0"
    and Y: "block_checked (g_info G) n (drop i (g_S G)) \<longrightarrow> Y = frame_content (g_info G) (g_max G)
          (out @ take n (drop i (g_S G))) (after_block (g_info G) n (drop i (g_S G)))"
  shows "\<exists>t f'. stage_copyDirect (g_call G) f = Ret (t, f')
    \<and> ends_well G Y (4 * (length (g_S G) - i) + 3) t f'"
proof -
  note b = scene_okD [OF g] and e = in_frameD [OF f]
  note c = at_contentD [OF e(1)] and l = left_ok [OF g e(1)]
  define k where "k = min n (min (length (g_S G) - i) (g_room G - length out))"
  define N where "N = min (d_tmpInTarget (f_d f)) (min (input_left (g_call G) f) (room_left (g_call G) f))"
  have uN: "k = unat N" using l n b(7) by (simp add: N_def k_def unat_min unat_of_nat_addr)
  have k: "i + k \<le> length (g_S G)" "length out + k \<le> g_room G" "k \<le> n" using c(5,7) by (simp_all add: k_def)
  obtain f1 where f1: "copy_content (g_call G) N f = Ret f1" "f_src f1 = f_src f" "f_dst f1 = f_dst f"
      "in_frame G (f1\<lparr>f_src := f_src f + N, f_dst := f_dst f + N\<rparr>) (i + k) (out @ take k (drop i (g_S G)))"
      "blockChecksumFlag (g_info G) \<longrightarrow> xxh32_absorbed 0 (take k (drop i (g_S G))) (d_blockChecksum (f_d f1))"
      "d_tmpInTarget (f_d f1) = d_tmpInTarget (f_d f)" "d_stage (f_d f1) = d_stage (f_d f)"
    using copy_content_ok [OF g f uN k(1,2), of "[]"] crc xxh32_reset_absorbed [of 0] by auto
  define f2 where "f2 = f1\<lparr>f_src := f_src f + N, f_dst := f_dst f + N\<rparr>"
  have f2: "in_frame G f2 (i + k) (out @ take k (drop i (g_S G)))" "f_d f2 = f_d f1" using f1(4) by (simp_all add: f2_def)
  have fi: "d_frameInfo (f_d f1) = g_info G" using in_frameD(5) [OF f2(1)] f2(2) by simp
  have p: "(f_dst f = 0) = False" using c(4) b(4) by auto
  let ?crc = "blockChecksumFlag (g_info G)"
  define f3 where "f3 = f2\<lparr>f_d := (if ?crc then (f_d f1)\<lparr>d_tmpInSize := 0, d_stage := dstage_getBlockChecksum\<rparr>
                                      else (f_d f1)\<lparr>d_stage := dstage_getBlockHeader\<rparr>)\<rparr>"
  define f4 where "f4 = f2\<lparr>f_d := (f_d f1)\<lparr>d_tmpInTarget := of_nat n - N\<rparr>\<rparr>"
  have run: "stage_copyDirect (g_call G) f = Ret (if N = of_nat n then (Again, f3)
      else (Stop (of_nat n - N + (if ?crc then BFSize else 0) + BHSize), f4))"
    unfolding stage_copyDirect_def Let_def p if_False N_def [symmetric] f1(1) obind.simps f1(2,3) fi
    by (simp add: f1(6) n(1) f3_def f4_def f2_def)
  have f3: "in_frame G f3 (i + k) (out @ take k (drop i (g_S G)))" unfolding f3_def using f2 by (intro in_frame_d) simp_all
  have f4: "in_frame G f4 (i + k) (out @ take k (drop i (g_S G)))" unfolding f4_def using f2 by (intro in_frame_d) simp_all
  show ?thesis
  proof (cases "N = of_nat n")
    case True
    then have kn: "k = n" using uN n(2) b(7) by (simp add: unat_of_nat_addr)
    have "stands G f3 (i + k) (out @ take k (drop i (g_S G))) Y"
    proof (cases ?crc)
      case crc: True
      show ?thesis
        using f3 f1(5) Y crc kn by (intro at_checksum [of _ _ _ _ "take k (drop i (g_S G))"])
          (auto simp: f3_def block_checked_def after_block_def ac_simps)
    next
      case False
      show ?thesis
        using f3 Y False kn k(1) by (intro at_header) (auto simp: f3_def block_checked_def after_block_def add.commute)
    qed
    moreover have "to_do G f3 (i + k) < 4 * (length (g_S G) - i) + 3"
      by (rule to_do_less) (simp_all add: f3_def)
    ultimately show ?thesis using run True ends_well_again by fastforce
  next
    case False
    have "halted G f4 (i + k) (out @ take k (drop i (g_S G)))"
      by (rule haltedI [OF f4]) (simp add: f4_def f1(7) st)
    moreover have "of_nat n - N + (if ?crc then BFSize else 0) + BHSize \<noteq> 0"
    proof -
      have "N = of_nat k" using uN n(2) b(7) k(3) by (intro word_unat_eq_iff [THEN iffD2]) (simp add: unat_of_nat_addr)
      then have "of_nat n - N + (if ?crc then BFSize else 0) + BHSize = of_nat (n - k + (if ?crc then 4 else 0) + 4)"
        using k(3) by (simp add: BFSize_def BHSize_def of_nat_diff)
      moreover have "(of_nat (n - k + (if ?crc then 4 else 0) + 4) :: size_t) \<noteq> 0"
        using n(2) b(7) by (intro hint_not_0) simp
      ultimately show ?thesis by simp
    qed
    ultimately show ?thesis using run False ends_well_stop by fastforce
  qed
qed

lemma getBlockChecksum_ok:
  assumes g: "scene_ok G" and f: "in_frame G f i out" and z: "d_tmpInSize (f_d f) = 0"
    and st: "d_stage (f_d f) = dstage_getBlockChecksum" and D: "xxh32_absorbed 0 D (d_blockChecksum (f_d f))"
    and Y: "i + 4 \<le> length (g_S G) \<longrightarrow> of_nat (le_val (take 4 (drop i (g_S G)))) = xxh32 D 0
          \<longrightarrow> Y = frame_content (g_info G) (g_max G) out (drop (i + 4) (g_S G))"
  shows "\<exists>t f'. stage_getBlockChecksum (g_call G) f = Ret (t, f')
    \<and> ends_well G Y (4 * (length (g_S G) - i) + 2) t f'"
proof (cases "i + 4 \<le> length (g_S G)")
  case True
  note e = in_frameD [OF f]
  define f1 where "f1 = f\<lparr>f_src := f_src f + 4\<rparr>"
  have f1: "in_frame G f1 (i + 4) out" unfolding f1_def by (rule in_frame_src [OF g f True]) simp
  define v :: u32 where "v = of_nat (le_val (take 4 (drop i (g_S G))))"
  have run: "stage_getBlockChecksum (g_call G) f = check_block_crc v f1"
    using header_word [OF g e(1) True] True input_left_cmp(2) [OF g e(1)] z
    by (simp add: stage_getBlockChecksum_def f1_def v_def)
  show ?thesis
  proof (cases "v = xxh32 D 0")
    case ok: True
    define f2 where "f2 = f1\<lparr>f_d := (f_d f1)\<lparr>d_stage := dstage_getBlockHeader\<rparr>\<rparr>"
    have f2: "in_frame G f2 (i + 4) out" unfolding f2_def using f1 by (rule in_frame_d) simp_all
    then have "stands G f2 (i + 4) out Y" using Y True ok by (intro at_header) (simp_all add: f2_def v_def)
    then have "ends_well G Y (4 * (length (g_S G) - i) + 2) Again f2"
      by (rule ends_well_again) (rule to_do_less; simp add: f2_def)
    moreover have "check_block_crc v f1 = Ret (Again, f2)"
      using ok xxh32_digest_absorbed [OF D] by (simp add: check_block_crc_def f1_def f2_def)
    ultimately show ?thesis using run by auto
  next
    case bad: False
    then have "check_block_crc v f1 = Ret (Leave (err0r LZ4F_ERROR_blockChecksum_invalid), f1)"
      using xxh32_digest_absorbed [OF D] by (simp add: check_block_crc_def f1_def fail_def)
    then show ?thesis using run ends_well_fail [OF in_frameD(1) [OF f1]] by simp
  qed
next
  case False
  note e = in_frameD [OF f]
  define n where "n = length (g_S G) - i"
  have n: "n < 4" "i + n = length (g_S G)" using False at_contentD(7) [OF e(1)] by (simp_all add: n_def)
  have l: "unat (input_left (g_call G) f) = n" using left_ok(1) [OF g e(1)] by (simp add: n_def)
  then have m: "min 4 (input_left (g_call G) f) = input_left (g_call G) f"
    using n(1) by (simp add: min_def word_le_nat_alt)
  define h where "h = overwrite 0 (take n (drop i (g_S G))) (d_header (f_d f))"
  have col: "collect_header (f_mem f) (f_src f) 0 (input_left (g_call G) f) (f_d f) = Ret ((f_d f)\<lparr>d_header := h\<rparr>)"
    using l n(1) e(9) src_bytes [OF g e(1), of n] n(2) by (simp add: collect_header_def h_def)
  define f1 where "f1 = f\<lparr>f_src := f_src f + input_left (g_call G) f,
      f_d := (f_d f)\<lparr>d_header := h, d_tmpInSize := input_left (g_call G) f\<rparr>\<rparr>"
  have "in_frame G (f\<lparr>f_src := f_src f + input_left (g_call G) f\<rparr>) (i + n) out"
    by (rule in_frame_src [OF g f]) (simp_all add: n(2) l)
  then have f1: "in_frame G f1 (i + n) out"
    unfolding f1_def using e(9) n by (intro in_frame_d) (auto simp: h_def overwrite_def)
  have "input_left (g_call G) f < 4" using l n(1) by (simp add: word_less_nat_alt)
  then have "stage_getBlockChecksum (g_call G) f = Ret (Stop 1, f1)"
    using False input_left_cmp(2) [OF g e(1)] z
    unfolding stage_getBlockChecksum_def Let_def by (simp add: m col f1_def)
  moreover have "ends_well G Y (4 * (length (g_S G) - i) + 2) (Stop 1) f1"
    by (rule ends_well_stop [OF haltedI [OF f1]]) (simp_all add: f1_def st)
  ultimately show ?thesis by blast
qed

section \<open>Compressed blocks\<close>

lemma storeCBlock_ok:
  assumes g: "scene_ok G" and f: "in_frame G f i out" and st: "d_stage (f_d f) = dstage_storeCBlock"
    and z: "d_tmpInSize (f_d f) = 0" "d_tmpInTarget (f_d f) = of_nat n" "n \<le> g_max G + 4" "length (g_S G) < i + n"
  shows "\<exists>t f'. stage_storeCBlock fast BS pool (g_call G) f = Some (Ret (t, f')) \<and> ends_well G Y k t f'"
proof -
  note b = scene_okD [OF g] and e = in_frameD [OF f]
  define l where "l = length (g_S G) - i"
  have l: "l < n" "i + l = length (g_S G)" "unat (input_left (g_call G) f) = l"
    using z(4) at_contentD(7) [OF e(1)] left_ok(1) [OF g e(1)] by (simp_all add: l_def)
  have un: "unat (d_tmpInTarget (f_d f)) = n" using z(2,3) b(7) by (simp add: unat_of_nat_addr)
  have "min (d_tmpInTarget (f_d f)) (input_left (g_call G) f) = input_left (g_call G) f"
    using l un by (simp add: min_def word_le_nat_alt)
  then obtain f1 where f1: "collect_input (min (d_tmpInTarget (f_d f) - d_tmpInSize (f_d f)) (input_left (g_call G) f)) f = Ret f1"
      "in_frame G f1 (i + l) out" "f_d f1 = (f_d f)\<lparr>d_tmpInSize := input_left (g_call G) f\<rparr>"
    using collect_input_ok [OF g f z(1) l(3) [symmetric]] l(1,2) z(1,3) by auto
  have less: "d_tmpInSize (f_d f1) < d_tmpInTarget (f_d f1)" using f1(3) l un by (simp add: word_less_nat_alt)
  define h where "h = (d_tmpInTarget (f_d f1) - d_tmpInSize (f_d f1))
            + (if blockChecksumFlag (d_frameInfo (f_d f1)) then BFSize else 0) + BHSize"
  have "input_left (g_call G) f = of_nat l" using l b(1) by (intro word_unat_eq_iff [THEN iffD2]) (simp add: unat_of_nat_addr)
  then have "h = of_nat (n - l + (if blockChecksumFlag (d_frameInfo (f_d f1)) then 4 else 0) + 4)"
    using l(1) z(2) f1(3) by (simp add: h_def BFSize_def BHSize_def of_nat_diff)
  moreover have "(of_nat (n - l + (if blockChecksumFlag (d_frameInfo (f_d f1)) then 4 else 0) + 4) :: size_t) \<noteq> 0"
    using z(3) b(7) by (intro hint_not_0) simp
  ultimately have "ends_well G Y k (Stop h) f1"
    by (intro ends_well_stop [OF haltedI [OF f1(2)]]) (simp_all add: f1(3) st)
  moreover have "stage_storeCBlock fast BS pool (g_call G) f = Some (Ret (Stop h, f1))"
    unfolding stage_storeCBlock_def f1(1) rbind_simps Let_def using less by (simp add: h_def)
  ultimately show ?thesis by blast
qed

lemma decode_ok:
  assumes g: "scene_ok G" and f: "in_frame G f j out"
    and D: "0 < length D" "length D \<le> g_max G" "d_tmpInTarget (f_d f) = of_nat (length D)"
      "load_bytes (f_mem f) p (length D) = Ret D" "unat p = unat (g_src G) + i" "i + length D \<le> length (g_S G)"
    and Y: "\<forall>new. length new \<le> g_max G \<longrightarrow> block_decode (history (g_info G) out) D = Some (history (g_info G) out @ new)
      \<longrightarrow> Y = frame_content (g_info G) (g_max G) (out @ new) (drop j (g_S G))"
    and k: "4 * (length (g_S G) - j) + 1 < k"
  shows "\<exists>t f'. (if room_left (g_call G) f \<ge> d_maxBlockSize (f_d f) then decode_direct fast BS pool (g_call G) p f
      else decode_to_tmp fast BS pool (g_call G) p f) = Some (Ret (t, f')) \<and> ends_well G Y k t f'"
proof -
  note b = scene_okD [OF g] and e = in_frameD [OF f]
  have again: "ends_well G Y k Again f'" if "in_frame G f' j (out @ new)" "d_stage (f_d f') = dstage_getBlockHeader"
      "length new \<le> g_max G" "block_decode (history (g_info G) out) D = Some (history (g_info G) out @ new)" for f' new
    using that Y k by (intro ends_well_again [of _ _ j "out @ new"] at_header) (auto simp: to_do_def)
  have room: "room_left (g_call G) f \<ge> d_maxBlockSize (f_d f) \<longleftrightarrow> length out + g_max G \<le> g_room G"
    using left_ok(2) [OF g e(1)] e(6) b(7) at_contentD(5) [OF e(1)] by (auto simp: word_le_nat_alt unat_of_nat_addr)
  show ?thesis
  proof (cases "length out + g_max G \<le> g_room G")
    case True
    obtain t f' where t: "decode_direct fast BS pool (g_call G) p f = Some (Ret (t, f'))"
      "gave_up G t f' \<or> t = Again \<and> (\<exists>new. in_frame G f' j (out @ new) \<and> d_stage (f_d f') = dstage_getBlockHeader
       \<and> block_decode (history (g_info G) out) D = Some (history (g_info G) out @ new) \<and> length new \<le> g_max G)"
      using decode_direct_ok [OF g f True D, of fast BS pool] by blast
    have "ends_well G Y k t f'" using t(2) again by (auto simp: ends_well_def)
    then show ?thesis using t(1) room True by simp
  next
    case False
    obtain t f' where t: "decode_to_tmp fast BS pool (g_call G) p f = Some (Ret (t, f'))"
      "gave_up G t f' \<or> (\<exists>new. block_decode (history (g_info G) out) D = Some (history (g_info G) out @ new)
       \<and> length new \<le> g_max G
       \<and> (t = Again \<and> in_frame G f' j (out @ new) \<and> d_stage (f_d f') = dstage_getBlockHeader
          \<or> (\<exists>s. t = Stop 4 \<and> halted G f' j (out @ take s new))))"
      using decode_to_tmp_ok [OF g f D, of fast BS pool] by blast
    have "ends_well G Y k t f'"
      using t(2)
    proof (elim disjE exE conjE)
      assume "gave_up G t f'"
      then show ?thesis by (simp add: ends_well_def)
    next
      fix new assume "t = Again" "in_frame G f' j (out @ new)" "d_stage (f_d f') = dstage_getBlockHeader"
        "block_decode (history (g_info G) out) D = Some (history (g_info G) out @ new)" "length new \<le> g_max G"
      then show ?thesis using again by simp
    next
      fix new s assume "t = Stop 4" "halted G f' j (out @ take s new)"
      then show ?thesis by (simp add: ends_well_stop)
    qed
    then show ?thesis using t(1) room False by simp
  qed
qed

lemma decode_block_ok:
  fixes i n :: nat
  assumes g: "scene_ok G" and f: "in_frame G f (i + (n + c)) out"
    and c: "c = (if blockChecksumFlag (g_info G) then 4 else 0)"
    and p: "unat p = unat (g_src G) + i" and n: "d_tmpInTarget (f_d f) = of_nat (n + c)" "0 < n" "n \<le> g_max G"
    and Y: "\<forall>new. block_checked (g_info G) n (drop i (g_S G)) \<longrightarrow> length new \<le> g_max G
          \<longrightarrow> block_decode (history (g_info G) out) (take n (drop i (g_S G)))
              = Some (history (g_info G) out @ new)
          \<longrightarrow> Y = frame_content (g_info G) (g_max G) (out @ new) (after_block (g_info G) n (drop i (g_S G)))"
  shows "\<exists>t f'. decode_block fast BS pool (g_call G) p f = Some (Ret (t, f'))
    \<and> ends_well G Y (4 * (length (g_S G) - i) + 3) t f'"
proof -
  note b = scene_okD [OF g] and e = in_frameD [OF f]
  note cc = at_contentD [OF e(1)]
  let ?crc = "blockChecksumFlag (g_info G)"
  define D where "D = take n (drop i (g_S G))"
  have len: "length D = n" "i + n \<le> length (g_S G)" using cc(7) by (simp_all add: D_def)
  have at: "p = g_src G + of_nat i" by (rule addr_split [OF p])
  have ld: "load_bytes (f_mem f) p n = Ret D"
    using load_bytes_sub [OF src_kept [OF g cc(2)] len(2)] at by (simp add: D_def)
  have after: "after_block (g_info G) n (drop i (g_S G)) = drop (i + (n + c)) (g_S G)"
    by (simp add: after_block_def c ac_simps)
  have k: "4 * (length (g_S G) - (i + (n + c))) + 1 < 4 * (length (g_S G) - i) + 3" using cc(7) by linarith
  define f1 where "f1 = f\<lparr>f_d := (f_d f)\<lparr>d_tmpInTarget := of_nat n\<rparr>\<rparr>"
  have f1: "in_frame G f1 (i + (n + c)) out" unfolding f1_def using f by (rule in_frame_d) simp_all
  have go: "\<exists>t f'. (if room_left (g_call G) f1 \<ge> d_maxBlockSize (f_d f1) then decode_direct fast BS pool (g_call G) p f1
      else decode_to_tmp fast BS pool (g_call G) p f1) = Some (Ret (t, f')) \<and> ends_well G Y (4 * (length (g_S G) - i) + 3) t f'"
    if "block_checked (g_info G) n (drop i (g_S G))"
    using decode_ok [OF g f1, of D p i, OF _ _ _ _ p _ _ k] ld len n(2,3) Y that after
    by (simp add: f1_def flip: D_def)
  show ?thesis
  proof (cases ?crc)
    case False
    then have "f1 = f" using n(1) c by (simp add: f1_def)
    have "block_checked (g_info G) n (drop i (g_S G))" using False len(2) by (simp add: block_checked_def)
    from go [OF this] show ?thesis using False e(5) unfolding \<open>f1 = f\<close> by (simp add: decode_block_def Let_def)
  next
    case True
    define v :: u32 where "v = of_nat (le_val (take 4 (drop (i + n) (g_S G))))"
    have c4: "c = 4" "i + n + 4 \<le> length (g_S G)" using True c cc(7) by simp_all
    have "load_bytes (f_mem f) (p + of_nat n) 4 = Ret (take 4 (drop (i + n) (g_S G)))"
      using load_bytes_sub [OF src_kept [OF g cc(2)], of "i + n" 4] c4(2) at by (simp add: ac_simps)
    moreover have "LZ4F_readLE32 (take 4 (drop (i + n) (g_S G))) = v"
      using c4(2) by (simp add: readLE32 v_def)
    moreover have "(f_d f)\<lparr>d_tmpInTarget := d_tmpInTarget (f_d f) - 4\<rparr> = f_d f1"
      using n(1) c4(1) by (simp add: f1_def)
    moreover have "unat (of_nat n :: size_t) = n" using n(3) b(7) by (simp add: unat_of_nat_addr)
    ultimately have run: "decode_block fast BS pool (g_call G) p f = (if v \<noteq> xxh32 D 0
        then Some (fail LZ4F_ERROR_blockChecksum_invalid f1)
        else if room_left (g_call G) f1 \<ge> d_maxBlockSize (f_d f1) then decode_direct fast BS pool (g_call G) p f1
        else decode_to_tmp fast BS pool (g_call G) p f1)"
      using True e(5) ld by (simp add: decode_block_def Let_def f1_def)
    show ?thesis
    proof (cases "v = xxh32 D 0")
      case ok: True
      then have "block_checked (g_info G) n (drop i (g_S G))"
        using c4(2) len(2) True by (simp add: block_checked_def v_def D_def) (simp add: add.commute)
      then show ?thesis using go run ok by simp
    next
      case bad: False
      then show ?thesis using run ends_well_fail [OF in_frameD(1) [OF f1]] by (simp add: fail_def)
    qed
  qed
qed

lemma getCBlock_ok:
  assumes g: "scene_ok G" and f: "in_frame G f i out" and st: "d_stage (f_d f) = dstage_getCBlock"
    and n: "d_tmpInTarget (f_d f) = of_nat (n + (if blockChecksumFlag (g_info G) then 4 else 0))" "0 < n" "n \<le> g_max G"
    and Y: "\<forall>new. block_checked (g_info G) n (drop i (g_S G)) \<longrightarrow> length new \<le> g_max G
          \<longrightarrow> block_decode (history (g_info G) out) (take n (drop i (g_S G)))
              = Some (history (g_info G) out @ new)
          \<longrightarrow> Y = frame_content (g_info G) (g_max G) (out @ new) (after_block (g_info G) n (drop i (g_S G)))"
  shows "\<exists>t f'. stage_getCBlock fast BS pool (g_call G) f = Some (Ret (t, f'))
    \<and> ends_well G Y (4 * (length (g_S G) - i) + 3) t f'"
proof -
  note b = scene_okD [OF g] and e = in_frameD [OF f]
  define c :: nat where "c = (if blockChecksumFlag (g_info G) then 4 else 0)"
  have T: "d_tmpInTarget (f_d f) = of_nat (n + c)" "n + c \<le> g_max G + 4" "n + c < 18446744073709551616"
    using n b(7) by (auto simp: c_def)
  have cmp: "input_left (g_call G) f < of_nat (n + c) \<longleftrightarrow> length (g_S G) < i + (n + c)"
    by (rule input_left_cmp(3) [OF g e(1) T(3)])
  show ?thesis
  proof (cases "length (g_S G) < i + (n + c)")
    case True
    define f1 where "f1 = f\<lparr>f_d := (f_d f)\<lparr>d_tmpInSize := 0, d_stage := dstage_storeCBlock\<rparr>\<rparr>"
    have "in_frame G f1 i out" unfolding f1_def using f by (rule in_frame_d) simp_all
    then have "stands G f1 i out Y" using T True by (intro at_short [of _ _ _ _ "n + c"]) (simp_all add: f1_def)
    then have "ends_well G Y (4 * (length (g_S G) - i) + 3) Again f1"
      by (rule ends_well_again) (rule to_do_less; simp add: f1_def)
    then show ?thesis
      using cmp True unfolding stage_getCBlock_def Let_def T(1) by (simp add: f1_def)
  next
    case False
    define f1 where "f1 = f\<lparr>f_src := f_src f + of_nat (n + c)\<rparr>"
    have "unat (of_nat (n + c) :: size_t) = n + c" using T(3) by (simp add: unat_of_nat_addr del: of_nat_add)
    then have f1: "in_frame G f1 (i + (n + c)) out"
      unfolding f1_def using False by (intro in_frame_src [OF g f]) auto
    have "stage_getCBlock fast BS pool (g_call G) f = decode_block fast BS pool (g_call G) (f_src f) f1"
      using cmp False unfolding stage_getCBlock_def Let_def T(1) by (simp add: f1_def)
    then show ?thesis
      using decode_block_ok [OF g f1 c_def at_contentD(6) [OF e(1)] _ n(2,3) Y] T(1) by (simp add: f1_def)
  qed
qed

section \<open>The end of a frame\<close>

lemma reset_halted:
  assumes "in_frame G f i out"
  shows "halted G (f\<lparr>f_d := LZ4F_resetDecompressionContext (f_d f)\<rparr>) i out"
    and "d_stage (LZ4F_resetDecompressionContext (f_d f)) = dstage_getFrameHeader"
  using assms by (simp_all add: halted_def in_frame_def at_content_d ctx_fixed_def LZ4F_resetDecompressionContext_def)

lemma remaining_ok:
  assumes g: "scene_ok G" and f: "in_frame G f i out"
  shows "d_frameRemainingSize (f_d f) = 0 \<longleftrightarrow> \<not> (contentSize (g_info G) \<noteq> 0 \<and> unat (contentSize (g_info G)) \<noteq> length out)"
proof -
  note a = in_frameD(4) [OF f] and b = scene_okD(3) [OF g] and c = at_contentD(5) [OF in_frameD(1) [OF f]]
  have "unat (of_nat (length out) :: u64) = length out" using b c by (simp add: unat_of_nat_addr)
  then have "contentSize (g_info G) = of_nat (length out) \<longleftrightarrow> unat (contentSize (g_info G)) = length out"
    by (auto simp: word_unat_eq_iff)
  then show ?thesis using a by (auto simp: ctx_accounts_def)
qed

lemma getSuffix_ok:
  assumes g: "scene_ok G" and f: "in_frame G f i out" and Y: "Y = content_end (g_info G) out (drop i (g_S G))"
  shows "\<exists>t f'. stage_getSuffix (g_call G) f = Ret (t, f') \<and> ends_well G Y k t f'"
proof -
  note b = scene_okD [OF g] and e = in_frameD [OF f]
  note rem = remaining_ok [OF g f]
  consider "d_frameRemainingSize (f_d f) \<noteq> 0"
    | "d_frameRemainingSize (f_d f) = 0" "\<not> contentChecksumFlag (g_info G)"
    | "d_frameRemainingSize (f_d f) = 0" "contentChecksumFlag (g_info G)" "i + 4 \<le> length (g_S G)"
    | "d_frameRemainingSize (f_d f) = 0" "contentChecksumFlag (g_info G)" "\<not> i + 4 \<le> length (g_S G)" by blast
  then show ?thesis
  proof cases
    case 1
    then show ?thesis using ends_well_fail [OF e(1)] by (simp add: stage_getSuffix_def fail_def)
  next
    case 2
    define f1 where "f1 = f\<lparr>f_d := LZ4F_resetDecompressionContext (f_d f)\<rparr>"
    have "ends_well G Y k (Stop 0) f1"
      using reset_halted [OF f] Y rem 2 by (auto simp: ends_well_def content_end_def f1_def)
    then show ?thesis using 2 e(5) by (simp add: stage_getSuffix_def Let_def f1_def)
  next
    case 3
    define f1 where "f1 = f\<lparr>f_src := f_src f + 4\<rparr>"
    have f1: "in_frame G f1 (i + 4) out" unfolding f1_def by (rule in_frame_src [OF g f 3(3)]) simp
    define v :: u32 where "v = of_nat (le_val (take 4 (drop i (g_S G))))"
    have run: "stage_getSuffix (g_call G) f = check_content_crc v f1"
      using header_word [OF g e(1) 3(3)] input_left_cmp(2) [OF g e(1)] 3 e(5)
      by (simp add: stage_getSuffix_def f1_def v_def)
    have dig: "xxh32_digest (d_xxh (f_d f1)) = xxh32 out 0"
      using xxh32_digest_absorbed [of 0 out] e(4) 3(2) by (simp add: ctx_accounts_def f1_def)
    show ?thesis
    proof (cases "v = xxh32 out 0")
      case True
      define f2 where "f2 = f1\<lparr>f_d := LZ4F_resetDecompressionContext (f_d f1)\<rparr>"
      have "Y = Some (out, drop (i + 4) (g_S G))"
        using Y rem 3 True by (simp add: content_end_def v_def add.commute)
      then have "ends_well G Y k (Stop 0) f2" using reset_halted [OF f1] by (auto simp: ends_well_def f2_def)
      then show ?thesis using run dig True by (simp add: check_content_crc_def f2_def)
    next
      case False
      then show ?thesis using run dig ends_well_fail [OF in_frameD(1) [OF f1]] by (simp add: check_content_crc_def fail_def)
    qed
  next
    case 4
    define n where "n = length (g_S G) - i"
    have n: "n < 4" "i + n = length (g_S G)" using 4(3) at_contentD(7) [OF e(1)] by (simp_all add: n_def)
    define f1 where "f1 = f\<lparr>f_d := (f_d f)\<lparr>d_tmpInSize := 0, d_stage := dstage_storeSuffix\<rparr>\<rparr>"
    have f1: "in_frame G f1 i out" unfolding f1_def using f by (rule in_frame_d) simp_all
    have l: "unat (input_left (g_call G) f1) = n" using left_ok(1) [OF g in_frameD(1) [OF f1]] by (simp add: n_def)
    then have "min (4 - d_tmpInSize (f_d f1)) (input_left (g_call G) f1) = input_left (g_call G) f1"
      using n(1) by (simp add: min_def word_le_nat_alt f1_def)
    then obtain f2 where f2: "collect_input (min (4 - d_tmpInSize (f_d f1)) (input_left (g_call G) f1)) f1 = Ret f2"
        "in_frame G f2 (i + n) out" "f_d f2 = (f_d f1)\<lparr>d_tmpInSize := input_left (g_call G) f1\<rparr>"
      using collect_input_ok [OF g f1 _ l [symmetric]] n b(6) by (auto simp: f1_def)
    have less: "d_tmpInSize (f_d f2) < 4" using l n(1) f2(3) by (simp add: word_less_nat_alt)
    then have "4 - d_tmpInSize (f_d f2) \<noteq> 0" by auto
    moreover have "halted G f2 (i + n) out" by (rule haltedI [OF f2(2)]) (simp add: f2(3) f1_def)
    ultimately have "ends_well G Y k (Stop (4 - d_tmpInSize (f_d f2))) f2" by (intro ends_well_stop)
    moreover have "stage_getSuffix (g_call G) f = Ret (Stop (4 - d_tmpInSize (f_d f2)), f2)"
      using 4 e(5) input_left_cmp(2) [OF g e(1)] f2(1) less
      by (simp add: stage_getSuffix_def stage_storeSuffix_def flip: f1_def)
    ultimately show ?thesis by blast
  qed
qed

section \<open>The loop\<close>

lemma frame_turn_ok:
  assumes g: "scene_ok G" and f: "stands G f i out Y"
  shows "\<exists>t f'. lz4f_turn fast BS pool (g_call G) f = Some (Ret (t, f')) \<and> ends_well G Y (to_do G f i) t f'"
  using f
proof cases
  case at_header
  then show ?thesis using getBlockHeader_ok [OF g at_header(1,3)] by (simp add: lz4f_turn_def to_do_def)
next
  case (at_stored n)
  then show ?thesis using copyDirect_ok [OF g at_stored(1-6)] by (simp add: lz4f_turn_def to_do_def)
next
  case (at_checksum D)
  then show ?thesis using getBlockChecksum_ok [OF g at_checksum(1,3,2,4,5)] by (simp add: lz4f_turn_def to_do_def)
next
  case (at_compressed n)
  then show ?thesis
    using getCBlock_ok [OF g at_compressed(1-6), of fast BS pool] by (simp add: lz4f_turn_def to_do_def)
next
  case (at_short n)
  then show ?thesis
    using storeCBlock_ok [OF g at_short(1-6), of fast BS pool Y] by (simp add: lz4f_turn_def)
next
  case at_end
  then show ?thesis using getSuffix_ok [OF g at_end(1,3)] by (simp add: lz4f_turn_def)
qed

text \<open>The loop ends, and well.\<close>

lemma frame_loop_ok:
  assumes g: "scene_ok G" and f: "stands G f i out Y"
  shows "\<exists>t f'. lz4f_loop fast BS pool (g_call G) f = Some (Ret (t, f')) \<and> ends_well G Y 0 t f'"
  using f
proof (induction "to_do G f i" arbitrary: f i out rule: less_induct)
  case less
  obtain t f' where t: "lz4f_turn fast BS pool (g_call G) f = Some (Ret (t, f'))" "ends_well G Y (to_do G f i) t f'"
    using frame_turn_ok [OF g less.prems] by blast
  show ?case
  proof (cases "t = Again")
    case True
    then obtain i' out' where "stands G f' i' out' Y" "to_do G f' i' < to_do G f i"
      using t(2) by (auto simp: ends_well_def gave_up_def)
    then show ?thesis using less.hyps t(1) True by (subst lz4f_loop.simps) simp
  next
    case False
    then have "ends_well G Y 0 t f'" using t(2) by (auto simp: ends_well_def)
    then show ?thesis using t(1) False by (subst lz4f_loop.simps) simp
  qed
qed

end
