(* ===== verification/Lz4_Frame_Decompress.thy ===== *)
theory Lz4_Frame_Decompress
  imports Lz4_Frame_Turns
begin

text \<open>
  One call of \<open>LZ4F_decompress\<close> for a whole frame, with the frame's header already read: it returns,
  writes nothing but the output and its own two buffers, and when it reports the end of the frame the
  output is the content the format gives.
\<close>

unbundle bit_operations_syntax

section \<open>The end of a call\<close>

lemma preserve_history_ok:
  assumes g: "scene_ok G" and f: "halted G f i out"
  shows "\<exists>d m. preserve_history b (f_d f) (f_mem f) = Ret (d, m) \<and> d_stage d = d_stage (f_d f)
    \<and> g_writes G m \<and> load_bytes m (g_dst G) (length out) = Ret out"
proof -
  note g' = scene_okD [OF g]
  note tmp = own_blockD [OF g'(12)]
  have a: "at_content G f i out" and x: "ctx_fixed G (f_d f)" using f by (simp_all add: halted_def)
  note c = at_contentD [OF a]
  have fi: "d_frameInfo (f_d f) = g_info G" "d_tmpOutBuffer (f_d f) = g_tmp G" using x by (simp_all add: ctx_fixed_def)
  have copy: "\<exists>m. memcpy (f_mem f) (g_tmp G + of_nat lo) (g_dst G + of_nat p) (of_nat n) = Ret m
      \<and> g_writes G m \<and> load_bytes m (g_dst G) (length out) = Ret out"
    if l: "linked (g_info G)" and lo: "lo + n \<le> 131072" and p: "p + n \<le> length out" for lo p n
  proof -
    have sz: "g_tmpSize G = g_max G + 131072" using l by (simp add: g_tmpSize_def)
    have u: "unat (g_tmp G + of_nat lo) = unat (g_tmp G) + lo" "unat (g_dst G + of_nat p) = unat (g_dst G) + p"
        "unat (of_nat n :: size_t) = n"
      using tmp(2) lo p c(5) g'(3,5) sz by (simp_all add: unat_plus unat_of_nat_addr)
    have mp: "mapped_in (f_mem f) (unat (g_tmp G) + lo) (unat (g_tmp G) + lo + n)"
        "mapped_in (f_mem f) (unat (g_dst G) + p) (unat (g_dst G) + p + n)"
      using tmp(3) g'(9) writes_mapped [OF c(2)] lo p c(5) sz by (auto elim: mapped_in_mono)
    have apart: "unat (g_dst G) + p + n \<le> unat (g_tmp G) + lo \<or> unat (g_tmp G) + lo + n \<le> unat (g_dst G) + p"
      using tmp(5) lo p c(5) sz by linarith
    have top: "unat (g_tmp G) + lo + n < 18446744073709551616" "unat (g_dst G) + p + n < 18446744073709551616"
      using tmp(2) lo p c(5) g'(5) sz by linarith+
    obtain m where m: "memcpy (f_mem f) (g_tmp G + of_nat lo) (g_dst G + of_nat p) (of_nat n) = Ret m"
        "copy_ok (f_mem f) m (g_tmp G + of_nat lo) (g_dst G + of_nat p) n n"
      using memcpy_ok [OF u(3) [symmetric], of "f_mem f" "g_tmp G + of_nat lo" "g_dst G + of_nat p"] mp apart top
      unfolding u by blast
    have w: "writes_in (f_mem f) m (unat (g_tmp G) + lo) (unat (g_tmp G) + lo + n)"
      using copy_okD [OF m(2)] by (simp add: u)
    have "at_content G (f\<lparr>f_world := (f_world f)\<lparr>wmem := m\<rparr>\<rparr>) i out"
      using sz lo by (intro at_content_buffers [OF g a w _ refl]) auto
    then show ?thesis using m(1) at_contentD(2,3) by fastforce
  qed
  show ?thesis
  proof (cases "linked (g_info G) \<and> d_dict (f_d f) \<noteq> g_tmp G \<and> d_dict (f_d f) \<noteq> 0 \<and> \<not> b
         \<and> dStage_value (d_stage (f_d f)) - 2 < dStage_value dstage_getSuffix - 2")
    case False
    then have "preserve_history b (f_d f) (f_mem f) = Ret (f_d f, f_mem f)"
      unfolding preserve_history_def fi by (simp only: if_False)
    then show ?thesis using c(2,3) by auto
  next
    case True
    then have l: "linked (g_info G)" by blast
    have d: "d_dict (f_d f) = g_dst G" "d_dictSize (f_d f) = of_nat (length out)"
      using True f by (auto simp: halted_def)
    show ?thesis
    proof (cases "d_stage (f_d f) = dstage_flushOut")
      case flush: True
      then obtain k s where k: "d_tmpOut (f_d f) = g_tmp G + of_nat k" "k \<le> 65536"
          "d_tmpOutStart (f_d f) = of_nat s" "s + k \<le> length out"
        using f l by (auto simp: halted_def)
      define n where "n = (if 65536 - unat (d_tmpOutSize (f_d f)) > k then k else 65536 - unat (d_tmpOutSize (f_d f)))"
      have n: "n \<le> k" by (simp add: n_def)
      define cs where "cs = (if d_tmpOutSize (f_d f) > KB64 then 0 else KB64 - d_tmpOutSize (f_d f))"
      have "unat cs = 65536 - unat (d_tmpOutSize (f_d f))"
        by (simp add: cs_def word_less_nat_alt unat_minus)
      then have cs: "(if cs > of_nat k then of_nat k else cs) = of_nat n"
        using k(2) by (intro word_unat_eq_iff [THEN iffD2]) (simp add: n_def word_less_nat_alt unat_of_nat_addr)
      have addr: "g_tmp G + of_nat k - of_nat n = g_tmp G + of_nat (k - n)"
          "g_dst G + of_nat (length out) - of_nat s - of_nat n = g_dst G + of_nat (length out - s - n)"
        using n k(4) by (simp_all add: of_nat_diff)
      obtain m where m: "memcpy (f_mem f) (g_tmp G + of_nat (k - n)) (g_dst G + of_nat (length out - s - n)) (of_nat n) = Ret m"
          "g_writes G m" "load_bytes m (g_dst G) (length out) = Ret out"
        using copy [OF l, of "k - n" n "length out - s - n"] n k(2,4) by auto
      have "preserve_history b (f_d f) (f_mem f)
          = Ret ((f_d f)\<lparr>d_dict := g_tmp G, d_dictSize := of_nat k + of_nat s\<rparr>, m)"
        unfolding preserve_history_def fi
        using True flush by (simp add: Let_def k(1,3) d cs addr m(1) [unfolded diff_diff_left] flip: cs_def)
      then show ?thesis using m(2,3) by auto
    next
      case False
      define n where "n = min (length out) 65536"
      have small: "0 + n \<le> 131072" "length out - n + n \<le> length out" by (simp_all add: n_def)
      have n: "min (of_nat (length out)) KB64 = of_nat n"
        using c(5) g'(3) by (intro word_unat_eq_iff [THEN iffD2]) (simp add: unat_min unat_of_nat_addr n_def)
      have addr: "g_dst G + of_nat (length out) - of_nat n = g_dst G + of_nat (length out - n)"
        by (simp add: of_nat_diff n_def)
      obtain m where m: "memcpy (f_mem f) (g_tmp G) (g_dst G + of_nat (length out - n)) (of_nat n) = Ret m"
          "g_writes G m" "load_bytes m (g_dst G) (length out) = Ret out"
        using copy [OF l, of 0 n "length out - n"] small by auto
      have "preserve_history b (f_d f) (f_mem f)
          = Ret ((f_d f)\<lparr>d_dict := g_tmp G, d_dictSize := of_nat n, d_tmpOut := g_tmp G + of_nat n\<rparr>, m)"
        unfolding preserve_history_def fi
        using True False by (simp add: Let_def d n addr m(1))
      then show ?thesis using m(2,3) by auto
    qed
  qed
qed

section \<open>A whole frame in one call\<close>

text \<open>A new context after the frame header, and the scene that the allocation of the two buffers sets.\<close>

definition frame_ready :: "LZ4F_dctx \<Rightarrow> LZ4F_frameInfo \<Rightarrow> nat \<Rightarrow> bool" where
  "frame_ready d info mx \<longleftrightarrow> d_stage d = dstage_init \<and> d_frameInfo d = info \<and> d_maxBlockSize d = of_nat mx
     \<and> d_frameRemainingSize d = contentSize info \<and> d_maxBufferSize d = 0 \<and> d_tmpIn d = 0 \<and> d_tmpOutBuffer d = 0
     \<and> d_dict d = 0 \<and> d_dictSize d = 0 \<and> length (d_header d) = 19"

definition frame_scene :: "LZ4F_frameInfo \<Rightarrow> nat \<Rightarrow> addr \<Rightarrow> u8 list \<Rightarrow> addr \<Rightarrow> nat \<Rightarrow> addr \<Rightarrow> addr \<Rightarrow> 'w world \<Rightarrow> 'w scene" where
  "frame_scene info mx src S dst room p q w = \<lparr>g_src = src, g_S = S, g_dst = dst, g_room = room, g_in = p,
     g_tmp = q, g_info = info, g_max = mx, g_world = w\<rparr>"

lemma frame_scene_simps [simp]:
  "g_src (frame_scene info mx src S dst room p q w) = src" "g_S (frame_scene info mx src S dst room p q w) = S"
  "g_dst (frame_scene info mx src S dst room p q w) = dst" "g_room (frame_scene info mx src S dst room p q w) = room"
  "g_in (frame_scene info mx src S dst room p q w) = p" "g_tmp (frame_scene info mx src S dst room p q w) = q"
  "g_info (frame_scene info mx src S dst room p q w) = info" "g_max (frame_scene info mx src S dst room p q w) = mx"
  "g_world (frame_scene info mx src S dst room p q w) = w"
  by (simp_all add: frame_scene_def)

lemma stage_init_ok:
  assumes r: "frame_ready (f_d f) info mx" and mx: "65536 \<le> mx" "mx \<le> 4194304"
    and p: "malloc BS pool (of_nat mx + 4) (c_free BS 0 (f_world f)) = (p, w1)"
    and q: "malloc BS pool (of_nat mx + (if linked info then 131072 else 0)) (c_free BS 0 w1) = (q, w2)"
    and at: "f_src f = src" "f_dst f = dst"
    and G: "p \<noteq> 0 \<Longrightarrow> q \<noteq> 0 \<Longrightarrow> G = frame_scene info mx src S dst room p q w2 \<and> scene_ok G"
    and Y: "Y = frame_content info mx [] S"
    and C: "p \<noteq> 0 \<Longrightarrow> q \<noteq> 0 \<Longrightarrow> C = g_call G"
  shows "\<exists>t f'. stage_init BS pool C f = Ret (t, f')
    \<and> (if p = 0 \<or> q = 0 then t = Leave (err0r LZ4F_ERROR_allocation_failed) \<and> f_world f' = (if p = 0 then w1 else w2)
       else ends_well G Y (4 * length S + 1) t f')"
proof -
  have big: "d_maxBufferSize (f_d f) < of_nat mx + (if linked info then KB128 else 0)"
    using r mx by (simp add: frame_ready_def word_less_nat_alt unat_plus unat_of_nat_addr)
  define d1 where "d1 = (if contentChecksumFlag info then (f_d f)\<lparr>d_xxh := xxh32_reset 0\<rparr> else f_d f)"
  have d1: "d_frameInfo d1 = info" "d_maxBlockSize d1 = of_nat mx" "d_maxBufferSize d1 = d_maxBufferSize (f_d f)"
      "d_tmpIn d1 = 0" "d_tmpOutBuffer d1 = 0" "d_dict d1 = 0" "d_dictSize d1 = 0" "length (d_header d1) = 19"
      "d_frameRemainingSize d1 = contentSize info" "contentChecksumFlag info \<Longrightarrow> d_xxh d1 = xxh32_reset 0"
    using r by (auto simp: d1_def frame_ready_def)
  have fi: "d_frameInfo (f_d f) = info" using r by (simp add: frame_ready_def)
  note def = stage_init_def Let_def fi d1_def [symmetric]
  show ?thesis
  proof (cases "p = 0 \<or> q = 0")
    case True
    then show ?thesis
      using big p q unfolding def by (auto simp: d1 BFSize_def fail_def split: if_splits)
  next
    case False
    then have g: "scene_ok G" and G': "G = frame_scene info mx src S dst room p q w2" and C': "C = g_call G"
      using G C by blast+
    define d2 where "d2 = d1\<lparr>d_maxBufferSize := 0, d_tmpIn := p, d_tmpOutBuffer := q,
      d_maxBufferSize := of_nat mx + (if linked info then KB128 else 0), d_tmpInSize := 0, d_tmpInTarget := 0, d_tmpOut := q,
      d_tmpOutStart := 0, d_tmpOutSize := 0, d_stage := dstage_getBlockHeader\<rparr>"
    define f1 where "f1 = f\<lparr>f_world := w2, f_d := d2\<rparr>"
    have "g_writes G (wmem w2)" by (simp add: G' g_writes_def)
    then have "at_content G f1 0 []" by (simp add: at_content_def f1_def G' at)
    moreover have "ctx_fixed G d2" "ctx_history G d2 []" "ctx_accounts G d2 []"
      using d1 xxh32_reset_absorbed [of 0] by (simp_all add: ctx_fixed_def ctx_history_def ctx_accounts_def G' d2_def)
    ultimately have f1: "in_frame G f1 0 []" by (simp add: in_frame_def f1_def)
    have "stage_init BS pool C f = stage_getBlockHeader C f1"
      using False big p q unfolding def by (simp add: d1 BFSize_def f1_def d2_def)
    then show ?thesis
      using getBlockHeader_ok [OF g f1, of Y] Y G' C' False by simp
  qed
qed

lemma isError_not_0: "LZ4F_isError code \<Longrightarrow> code \<noteq> 0"
  by (auto simp: LZ4F_isError_def LZ4F_ERROR_maxCode_def)

lemma well_ended_call:
  assumes g: "scene_ok G" and e: "ends_well G Y 0 t f"
  shows "\<exists>code made used d' w'.
     (case t of Leave code \<Rightarrow> Some (Ret (code, 0, 0, f_d f, f_world f))
       | Stop hint \<Rightarrow> once (preserve_history stableDst (f_d f) (f_mem f)) (\<lambda>(d, m).
             Some (Ret (hint, f_dst f - g_dst G, f_src f - g_src G, d, (f_world f)\<lparr>wmem := m\<rparr>)))
       | Again \<Rightarrow> None) = Some (Ret (code, made, used, d', w'))
     \<and> w' = (g_world G)\<lparr>wmem := wmem w'\<rparr> \<and> g_writes G (wmem w') \<and> unat made \<le> g_room G \<and> unat used \<le> length (g_S G)
     \<and> (code = 0 \<longrightarrow> (\<exists>out. Y = Some (out, drop (unat used) (g_S G)) \<and> unat made = length out
            \<and> load_bytes (wmem w') (g_dst G) (length out) = Ret out))"
  using e unfolding ends_well_def
proof (elim disjE exE conjE)
  assume "gave_up G t f"
  then show ?thesis by (auto simp: gave_up_def dest: isError_not_0)
next
  fix h i out assume t: "t = Stop h" and f: "halted G f i out"
    and h: "h = 0 \<longrightarrow> d_stage (f_d f) = dstage_getFrameHeader \<and> Y = Some (out, drop i (g_S G))"
  note c = at_contentD [of G f i out] and b = scene_okD [OF g]
  have a: "at_content G f i out" using f by (simp add: halted_def)
  obtain d m where d: "preserve_history stableDst (f_d f) (f_mem f) = Ret (d, m)" "g_writes G m"
      "load_bytes m (g_dst G) (length out) = Ret out"
    using preserve_history_ok [OF g f] by blast
  have "unat (f_dst f - g_dst G) = length out" "unat (f_src f - g_src G) = i"
    using c(4,6) [OF a] by (simp_all add: unat_minus)
  then show ?thesis
    using d t h c(1,5,7) [OF a] by (cases "f_world f") auto
qed auto

text \<open>
  C7. A call of \<open>LZ4F_decompress\<close> right after the frame header returns. Without memory for its buffers it
  reports that. Otherwise it writes nothing but the output and these buffers, consumes and produces no
  more than there is, and when it reports the end of the frame (the hint 0), the format gives the frame
  exactly the output as its content, checksums and declared size included, with the rest of the input
  behind it.
\<close>

theorem LZ4F_decompress_frame:
  assumes r: "frame_ready d info mx" and mx: "65536 \<le> mx" "mx \<le> 4194304"
    and p: "malloc BS pool (of_nat mx + 4) (c_free BS 0 w) = (p, w1)"
    and q: "malloc BS pool (of_nat mx + (if linked info then 131072 else 0)) (c_free BS 0 w1) = (q, w2)"
    and scene: "p \<noteq> 0 \<Longrightarrow> q \<noteq> 0 \<Longrightarrow> scene_ok (frame_scene info mx src S dst room p q w2)"
  shows "\<exists>code made used d' w'.
     LZ4F_decompress fast BS pool stableDst d dst (of_nat room) src (of_nat (length S)) w = Some (Ret (code, made, used, d', w'))
     \<and> (if p = 0 \<or> q = 0 then code = err0r LZ4F_ERROR_allocation_failed \<and> made = 0 \<and> used = 0
        else w' = w2\<lparr>wmem := wmem w'\<rparr> \<and> g_writes (frame_scene info mx src S dst room p q w2) (wmem w')
          \<and> unat made \<le> room \<and> unat used \<le> length S
          \<and> (code = 0 \<longrightarrow> (\<exists>out. frame_content info mx [] S = Some (out, drop (unat used) S)
               \<and> unat made = length out \<and> load_bytes (wmem w') dst (length out) = Ret out)))"
proof -
  define C where "C = \<lparr>c_srcEnd = src + of_nat (length S), c_dstStart = dst, c_dstEnd = (if dst \<noteq> 0 then dst + of_nat room else 0)\<rparr>"
  define f where "f = \<lparr>f_d = d, f_src = src, f_dst = dst, f_world = w\<rparr>"
  let ?G = "frame_scene info mx src S dst room p q w2"
  have C: "C = g_call ?G" if "p \<noteq> 0" "q \<noteq> 0"
    using scene_okD(4) [OF scene [OF that]] by (auto simp: C_def g_call_def)
  obtain t f' where t: "stage_init BS pool C f = Ret (t, f')" "if p = 0 \<or> q = 0
      then t = Leave (err0r LZ4F_ERROR_allocation_failed) \<and> f_world f' = (if p = 0 then w1 else w2)
      else ends_well ?G (frame_content info mx [] S) (4 * length S + 1) t f'"
    using stage_init_ok [of f info mx BS pool p w1 q w2 src dst ?G S room "frame_content info mx [] S" C] r mx p q scene C
    by (auto simp: f_def)
  have turn: "lz4f_turn fast BS pool C f = Some (Ret (t, f'))"
    using r t(1) by (simp add: lz4f_turn_def f_def frame_ready_def)
  have run: "LZ4F_decompress fast BS pool stableDst d dst (of_nat room) src (of_nat (length S)) w
     = rbind (lz4f_loop fast BS pool C f) (\<lambda>(t, f).
         case t of
           Leave code \<Rightarrow> Some (Ret (code, 0, 0, f_d f, f_world f))
         | Stop hint \<Rightarrow> once (preserve_history stableDst (f_d f) (f_mem f)) (\<lambda>(d, m).
             Some (Ret (hint, f_dst f - dst, f_src f - src, d, (f_world f)\<lparr>wmem := m\<rparr>)))
         | Again \<Rightarrow> None)"
    by (simp add: LZ4F_decompress_def C_def f_def Let_def)
  show ?thesis
  proof (cases "p = 0 \<or> q = 0")
    case True
    then have "lz4f_loop fast BS pool C f = Some (Ret (Leave (err0r LZ4F_ERROR_allocation_failed), f'))"
      using t(2) turn by (subst lz4f_loop.simps) simp
    then show ?thesis using run True by simp
  next
    case False
    then have g: "scene_ok ?G" and e: "ends_well ?G (frame_content info mx [] S) (4 * length S + 1) t f'"
      using scene t(2) by simp_all
    obtain t1 f1 where l: "lz4f_loop fast BS pool C f = Some (Ret (t1, f1))" "ends_well ?G (frame_content info mx [] S) 0 t1 f1"
    proof (cases "t = Again")
      case True
      then obtain i out where "stands ?G f' i out (frame_content info mx [] S)" using e by (auto simp: ends_well_def gave_up_def)
      then obtain t1 f1 where "lz4f_loop fast BS pool C f' = Some (Ret (t1, f1))" "ends_well ?G (frame_content info mx [] S) 0 t1 f1"
        using frame_loop_ok [OF g, of f' i out _ fast BS pool] C False by blast
      then show thesis using turn True by (intro that) (subst lz4f_loop.simps, simp)
    next
      case no: False
      then have "ends_well ?G (frame_content info mx [] S) 0 t f'" using e by (auto simp: ends_well_def)
      then show thesis using turn no by (intro that) (subst lz4f_loop.simps, simp)
    qed
    show ?thesis
      using well_ended_call [OF g l(2), of stableDst, unfolded frame_scene_simps] False unfolding run l(1) by simp
  qed
qed

section \<open>Witnesses\<close>

text \<open>A frame of one stored block, \<open>abc\<close>, without checksums, after its header.\<close>

abbreviation "stored_abc \<equiv> [3, 0, 0, 0x80, 97, 98, 99, 0, 0, 0, 0] :: u8 list"

definition abc_info :: LZ4F_frameInfo where
  "abc_info = zero_frameInfo\<lparr>blockSizeID := 4, blockMode := LZ4F_blockIndependent, contentSize := 3\<rparr>"

definition abc_ready :: LZ4F_dctx where
  "abc_ready = zero_dctx\<lparr>d_frameInfo := abc_info, d_stage := dstage_init, d_frameRemainingSize := 3,
     d_maxBlockSize := 0x10000\<rparr>"

definition abc_world :: "addr \<Rightarrow> addr world" where
  "abc_world a = \<lparr>wmem = lz4_sample stored_abc, fw = a\<rparr>"

lemma abc_ready_ok: "frame_ready abc_ready abc_info 65536"
  by (simp add: frame_ready_def abc_ready_def abc_info_def zero_dctx_def)

lemma bump_sample:
  assumes "\<And>x. lz4_sample bs x \<noteq> Some 0 \<Longrightarrow> \<not> in_range a n x"
  shows "bump_alloc n \<lparr>wmem = lz4_sample bs, fw = a\<rparr> = (EFI_SUCCESS, a, \<lparr>wmem = lz4_sample bs, fw = a + of_nat n\<rparr>)"
proof -
  have "(if in_range a n x then Some 0 else lz4_sample bs x) = lz4_sample bs x" for x
    using assms [of x] by (cases "lz4_sample bs x = Some 0") auto
  then show ?thesis by (simp add: bump_alloc_def cong: if_cong)
qed

lemma abc_alloc:
  "malloc bump_services 1 65540 (c_free bump_services 0 (abc_world 0x100000)) = (0x100000, abc_world 0x111000)"
  "malloc bump_services 1 65536 (c_free bump_services 0 (abc_world 0x111000)) = (0x111000, abc_world 0x122000)"
proof -
  have far: "\<not> in_range a 69632 x" if "lz4_sample stored_abc x \<noteq> Some 0" "a = 0x100000 \<or> a = 0x111000" for a x
  proof -
    have "place 0x1000 stored_abc x \<noteq> None" using that(1) by (auto simp: lz4_sample_def split: option.splits)
    then have "in_range 0x1000 11 x" by (auto simp: place_def in_range_def Let_def split: if_splits)
    then have "unat x < 0x2000" by (simp add: in_range_nowrap)
    then show ?thesis using that(2) by (auto simp: in_range_nowrap)
  qed
  show "malloc bump_services 1 65540 (c_free bump_services 0 (abc_world 0x100000)) = (0x100000, abc_world 0x111000)"
    by (simp add: malloc_def c_free_def bump_services_def abc_world_def bump_sample far)
  show "malloc bump_services 1 65536 (c_free bump_services 0 (abc_world 0x111000)) = (0x111000, abc_world 0x122000)"
    by (simp add: malloc_def c_free_def bump_services_def abc_world_def bump_sample far)
qed

lemma abc_scene: "scene_ok (frame_scene abc_info 65536 0x1000 stored_abc 0x20000 3 0x100000 0x111000 (abc_world 0x122000))"
proof -
  have len: "length stored_abc = 11" by simp
  have mp: "mapped_in (lz4_sample bs) lo hi" for bs lo hi by (simp add: mapped_in_def lz4_sample_def)
  have "load_bytes (lz4_sample stored_abc) 0x1000 11 = Ret stored_abc" by (simp add: lz4_sample_def mem_eval)
  then have "frame_buffers (lz4_sample stored_abc) 0x1000 stored_abc 0x20000 3"
    unfolding frame_buffers_def len by (simp add: far_apart_def mp)
  then show ?thesis
    by (simp add: scene_ok_def own_block_def far_apart_def g_tmpSize_def abc_info_def abc_world_def mp)
qed

theorem LZ4F_decompress_frame_witness:
  "\<exists>code made used d' w'. LZ4F_decompress True bump_services 1 False abc_ready 0x20000 3 0x1000 11 (abc_world 0x100000)
       = Some (Ret (code, made, used, d', w'))
     \<and> unat made \<le> 3 \<and> unat used \<le> 11
     \<and> (code = 0 \<longrightarrow> (\<exists>out. frame_content abc_info 65536 [] stored_abc = Some (out, drop (unat used) stored_abc)
          \<and> unat made = length out \<and> load_bytes (wmem w') 0x20000 (length out) = Ret out))"
proof -
  have len: "length stored_abc = 11" by simp
  have "linked abc_info = False" by (simp add: abc_info_def)
  then show ?thesis
    using LZ4F_decompress_frame [OF abc_ready_ok, of bump_services 1 "abc_world 0x100000" "0x100000" "abc_world 0x111000"
        "0x111000" "abc_world 0x122000" "0x1000" stored_abc "0x20000" 3 True False, unfolded len] abc_alloc abc_scene
    by simp blast
qed

end
