(* ===== verification/Lz4_Frame_Header.thy ===== *)
theory Lz4_Frame_Header
  imports Lz4_Frame_Decompress
begin

text \<open>
  The frame header: what the format says of it, and \<open>LZ4F_getFrameInfo\<close> on a new context, the first
  thing the boot loader does with an LZ4 image. The context it leaves is the one that
  \<^verbatim>\<open>LZ4F_decompress_frame\<close> starts from.
\<close>

unbundle bit_operations_syntax

section \<open>The format\<close>

definition header_size :: "u8 \<Rightarrow> nat" where
  "header_size FLG = 7 + (if bit FLG 3 then 8 else 0) + (if bit FLG 0 then 4 else 0)"

definition header_info :: "u8 list \<Rightarrow> LZ4F_frameInfo" where
  "header_info S =
     (let FLG = S ! 4
      in \<lparr>blockSizeID = of_nat (unat (S ! 5) div 16 mod 8),
          blockMode = (if bit FLG 5 then LZ4F_blockIndependent else LZ4F_blockLinked),
          contentChecksumFlag = bit FLG 2, frameType = LZ4F_frame,
          contentSize = (if bit FLG 3 then of_nat (le_val (take 8 (drop 6 S))) else 0),
          dictID = (if bit FLG 0 then of_nat (le_val (take 4 (drop (header_size FLG - 5) S))) else 0),
          blockChecksumFlag = bit FLG 4\<rparr>)"

text \<open>The parameters of the frame, the size of its blocks and that of the header.\<close>

definition frame_header :: "u8 list \<Rightarrow> (LZ4F_frameInfo \<times> nat \<times> nat) option" where
  "frame_header S =
     (if length S < 7 \<or> le_val (take 4 S) \<noteq> 0x184D2204 then None
      else
      let FLG = S ! 4; BD = S ! 5; n = header_size FLG; k = unat BD div 16 mod 8
      in if bit FLG 1 \<or> unat FLG div 64 \<noteq> 1 \<or> bit BD 7 \<or> unat BD mod 16 \<noteq> 0 \<or> k < 4 \<or> length S < n
            \<or> S ! (n - 1) \<noteq> ucast (drop_bit 8 (xxh32 (take (n - 5) (drop 4 S)) 0))
         then None
         else Some (header_info S, 2 ^ (8 + 2 * k), n))"

definition skippable_header :: "u8 list \<Rightarrow> bool" where
  "skippable_header S \<longleftrightarrow> 8 \<le> length S \<and> le_val (take 4 S) div 16 = 0x184D2A5"

section \<open>Bits of the header\<close>

lemma u8_fields:
  fixes b :: u8
  shows "drop_bit 6 b AND 3 = 1 \<longleftrightarrow> unat b div 64 = 1" and "b AND 15 = 0 \<longleftrightarrow> unat b mod 16 = 0"
    and "unat (drop_bit 4 b AND 7) = unat b div 16 mod 8"
proof -
  have masks: "x AND 3 = take_bit 2 x" "x AND 15 = take_bit 4 x" "x AND 7 = take_bit 3 x" for x :: u8
    by (simp_all add: take_bit_eq_mask mask_eq_exp_minus_1)
  have u: "unat (take_bit n (drop_bit k b)) = unat b div 2 ^ k mod 2 ^ n" for n k
    unfolding unsigned_take_bit_eq unat_drop_bit_eq by (simp add: take_bit_eq_mod drop_bit_eq_div)
  have lt: "unat b < 256" using unsigned_less [of b, where ?'a = nat] by simp
  have "drop_bit 6 b AND 3 = 1 \<longleftrightarrow> unat (take_bit 2 (drop_bit 6 b)) = 1"
    unfolding masks by (simp add: word_unat_eq_iff)
  also have "\<dots> \<longleftrightarrow> unat b div 64 = 1" unfolding u using lt by simp
  finally show "drop_bit 6 b AND 3 = 1 \<longleftrightarrow> unat b div 64 = 1" .
  have "b AND 15 = 0 \<longleftrightarrow> unat (take_bit 4 (drop_bit 0 b)) = 0" unfolding masks by (simp add: unat_eq_0)
  also have "\<dots> \<longleftrightarrow> unat b mod 16 = 0" unfolding u by simp
  finally show "b AND 15 = 0 \<longleftrightarrow> unat b mod 16 = 0" .
  show "unat (drop_bit 4 b AND 7) = unat b div 16 mod 8" unfolding masks u by simp
qed

lemma block_sizes:
  fixes b :: u8
  assumes k: "k = unat b div 16 mod 8" "4 \<le> k"
  shows "LZ4F_getBlockSize (ucast (drop_bit 4 b AND 7)) = of_nat (2 ^ (8 + 2 * k))"
    and "(ucast (drop_bit 4 b AND 7) :: u32) = of_nat k"
proof -
  have lt: "k < 8" using k(1) by simp
  have v: "drop_bit 4 b AND 7 = of_nat k"
    using u8_fields(3) [of b] k(1) lt by (intro word_unat_eq_iff [THEN iffD2]) (simp add: unat_of_nat take_bit_nat_eq_self)
  consider "k = 4" | "k = 5" | "k = 6" | "k = 7" using k(2) lt by linarith
  then show "LZ4F_getBlockSize (ucast (drop_bit 4 b AND 7)) = of_nat (2 ^ (8 + 2 * k))"
    unfolding v by cases (simp_all add: LZ4F_getBlockSize_def)
  from \<open>k < 8\<close> show "(ucast (drop_bit 4 b AND 7) :: u32) = of_nat k"
    unfolding v by (intro word_unat_eq_iff [THEN iffD2]) (simp add: unat_of_nat take_bit_nat_eq_self)
qed

lemma low_block_size: "drop_bit 4 b AND 7 < 4 \<longleftrightarrow> unat b div 16 mod 8 < 4" for b :: u8
  by (simp add: word_less_nat_alt u8_fields(3))

lemma readLE64: "length bs = 8 \<Longrightarrow> LZ4F_readLE64 bs = of_nat (le_val bs)"
proof -
  have shift: "push_bit (8 * k) (ucast b :: u64) = of_nat (256 ^ k * unat b)" for k and b :: u8
    by (simp add: push_bit_eq_mult power_mult)
  assume "length bs = 8"
  then obtain a b c d e f g h where bs: "bs = [a, b, c, d, e, f, g, h]" by (auto simp: length_Suc_conv numeral_eq_Suc)
  show ?thesis
    using shift [of 1 b] shift [of 2 c] shift [of 3 d] shift [of 4 e] shift [of 5 f] shift [of 6 g] shift [of 7 h]
    by (simp add: bs LZ4F_readLE64_def algebra_simps)
qed

lemma magic_words:
  assumes "h < 4294967296"
  shows "of_nat h = LZ4F_MAGICNUMBER \<longleftrightarrow> h = 0x184D2204"
    and "is_skippable (of_nat h) \<longleftrightarrow> h div 16 = 0x184D2A5"
proof -
  define w :: u32 where "w = of_nat h"
  have u: "unat w = h" using assms by (simp add: w_def unat_of_nat take_bit_nat_eq_self)
  show "of_nat h = LZ4F_MAGICNUMBER \<longleftrightarrow> h = 0x184D2204"
    using u by (simp add: word_unat_eq_iff LZ4F_MAGICNUMBER_def flip: w_def)
  have "(0xFFFFFFF0 :: u32) = NOT (mask 4)" by (rule word_unat_eq_iff [THEN iffD2]) (simp add: mask_eq_exp_minus_1)
  then have "w AND 0xFFFFFFF0 = w AND NOT (mask 4)" by (simp only:)
  also have "\<dots> = push_bit 4 (drop_bit 4 w)" by (rule bit_word_eqI) (auto simp: bit_simps)
  finally have a: "w AND 0xFFFFFFF0 = push_bit 4 (drop_bit 4 w)" .
  have "unat (push_bit 4 (drop_bit 4 w)) = 16 * (h div 16)"
    using u assms by (simp add: push_bit_eq_mult unat_word_ariths unat_drop_bit_eq drop_bit_eq_div)
  then show "is_skippable (of_nat h) \<longleftrightarrow> h div 16 = 0x184D2A5"
    by (simp add: is_skippable_def LZ4F_MAGIC_SKIPPABLE_START_def word_unat_eq_iff a flip: w_def)
qed

section \<open>Decoding the header\<close>

lemma header_loads:
  assumes "load_bytes m src (length S) = Ret S"
  shows "k + n \<le> length S \<Longrightarrow> header_bytes m d (In_Memory src) k n = Ret (take n (drop k S))"
  using load_bytes_sub [OF assms] by (simp add: header_bytes_def)

lemma take_1_drop: "k < length S \<Longrightarrow> take 1 (drop k S) ! 0 = S ! k"
  by simp

text \<open>The context as \<open>LZ4F_createDecompressionContext\<close> leaves it.\<close>

definition new_dctx :: "u32 \<Rightarrow> LZ4F_dctx" where
  "new_dctx v = zero_dctx\<lparr>d_version := v\<rparr>"

lemma save_frame_info_ok:
  assumes S: "load_bytes m src (length S) = Ret S" and n: "header_size (S ! 4) \<le> length S"
    and d: "d = (new_dctx v)\<lparr>d_frameInfo := zero_frameInfo\<lparr>frameType := LZ4F_frame\<rparr>\<rparr>"
    and k: "k = unat (S ! 5) div 16 mod 8"
  shows "\<exists>r d'. save_frame_info m d (In_Memory src) (S ! 4) = Ret (r, d')
    \<and> (if bit (S ! 5) 7 \<or> unat (S ! 5) mod 16 \<noteq> 0 \<or> k < 4
          \<or> S ! (header_size (S ! 4) - 1) \<noteq> ucast (drop_bit 8 (xxh32 (take (header_size (S ! 4) - 5) (drop 4 S)) 0))
       then LZ4F_isError r
       else r = of_nat (header_size (S ! 4)) \<and> frame_ready d' (header_info S) (2 ^ (8 + 2 * k)))"
proof -
  let ?F = "S ! 4"
  have sz: "7 \<le> header_size ?F" "header_size ?F \<le> 19" "frameHeaderSize ?F = of_nat (header_size ?F)"
    by (auto simp: header_size_def frameHeaderSize_def frame_flag_def minFHSize_def)
  then have usz: "unat (frameHeaderSize ?F) = header_size ?F" by (simp add: unat_of_nat_addr)
  note hb = header_loads [OF S]
  have ld: "header_bytes m e (In_Memory src) 5 1 = Ret (take 1 (drop 5 S))"
     "header_bytes m e (In_Memory src) 4 (header_size ?F - 5) = Ret (take (header_size ?F - 5) (drop 4 S))"
     "header_bytes m e (In_Memory src) (header_size ?F - 1) 1 = Ret (take 1 (drop (header_size ?F - 1) S))" for e
    using n sz by (auto intro!: hb)
  have at: "take 1 (drop 5 S) ! 0 = S ! 5" "take 1 (drop (header_size ?F - 1) S) ! 0 = S ! (header_size ?F - 1)"
    using n sz by (auto intro!: take_1_drop)
  have size: "header_bytes m e (In_Memory src) 6 8 = Ret (take 8 (drop 6 S))"
      "LZ4F_readLE64 (take 8 (drop 6 S)) = of_nat (le_val (take 8 (drop 6 S)))" if "bit ?F 3" for e
    using that n by (auto intro!: hb readLE64 simp: header_size_def)
  have id: "header_bytes m e (In_Memory src) (header_size ?F - 5) 4 = Ret (take 4 (drop (header_size ?F - 5) S))"
      "LZ4F_readLE32 (take 4 (drop (header_size ?F - 5) S)) = of_nat (le_val (take 4 (drop (header_size ?F - 5) S)))"
      if "bit ?F 0" for e
    using that n sz by (auto intro!: hb readLE32)
  note def = save_frame_info_def Let_def usz ld obind.simps at u8_fields(2) low_block_size LZ4F_headerChecksum_def frame_flag_def
  show ?thesis
  proof (cases "bit (S ! 5) 7 \<or> unat (S ! 5) mod 16 \<noteq> 0 \<or> k < 4
          \<or> S ! (header_size ?F - 1) \<noteq> ucast (drop_bit 8 (xxh32 (take (header_size ?F - 5) (drop 4 S)) 0))")
    case True
    then show ?thesis
      unfolding def k [symmetric] by (auto simp: isError_err0r)
  next
    case False
    then have k4: "4 \<le> k" by simp
    note bs = block_sizes [OF k k4]
    show ?thesis
      using False unfolding def k [symmetric]
      by (auto simp: bs(2) bs(1) [unfolded bs(2)] size id frame_ready_def header_info_def Let_def d new_dctx_def zero_dctx_def zero_frameInfo_def
            sz(3) simp flip: k)
  qed
qed

lemma headerSize_ok:
  assumes S: "load_bytes m src (length S) = Ret S" and p: "src \<noteq> 0" and len: "length S < 2 ^ 63"
  shows "LZ4F_headerSize m src (of_nat (length S)) = Ret
     (if length S < 5 then err0r LZ4F_ERROR_frameHeader_incomplete
      else if le_val (take 4 S) div 16 = 0x184D2A5 then 8
      else if le_val (take 4 S) \<noteq> 0x184D2204 then err0r LZ4F_ERROR_frameType_unknown
      else of_nat (header_size (S ! 4)))"
proof (cases "length S < 5")
  case True
  then show ?thesis using p len by (simp add: LZ4F_headerSize_def word_less_nat_alt unat_of_nat_addr)
next
  case False
  have u: "(of_nat (length S) :: size_t) < 5 \<longleftrightarrow> length S < 5"
    using len by (simp add: word_less_nat_alt unat_of_nat_addr)
  have ld: "load_bytes m src 4 = Ret (take 4 S)" "load_bytes m (src + 4) 1 = Ret (take 1 (drop 4 S))"
    using False load_bytes_sub [OF S, of 0 4] load_bytes_sub [OF S, of 4 1] by simp_all
  have at: "take 1 (drop 4 S) ! 0 = S ! 4" using False by (intro take_1_drop) simp
  have lt: "le_val (take 4 S) < 4294967296" using le_val_lt [of "take 4 S"] False by simp
  have rd: "LZ4F_readLE32 (take 4 S) = of_nat (le_val (take 4 S))" using False by (intro readLE32) simp
  have "frameHeaderSize (S ! 4) = of_nat (header_size (S ! 4))"
    by (simp add: header_size_def frameHeaderSize_def frame_flag_def minFHSize_def)
  then show ?thesis
    using False p unfolding LZ4F_headerSize_def Let_def u ld obind.simps rd at magic_words [OF lt] by simp
qed

text \<open>Reading the header with what \<open>LZ4F_getFrameInfo\<close> passes, exactly its size.\<close>

lemma decodeHeader_ok:
  assumes S: "load_bytes m src (length S) = Ret S" and n: "7 \<le> length S" "header_size (S ! 4) \<le> length S"
    and mg: "le_val (take 4 S) = 0x184D2204" and k: "k = unat (S ! 5) div 16 mod 8"
  shows "\<exists>r d'. LZ4F_decodeHeader m (new_dctx v) (In_Memory src) (of_nat (header_size (S ! 4))) = Ret (r, d')
    \<and> (case frame_header S of Some (fi, mx, k) \<Rightarrow> r = of_nat k \<and> frame_ready d' fi mx \<and> d_frameInfo d' = fi
       | None \<Rightarrow> LZ4F_isError r)"
proof -
  have sz: "7 \<le> header_size (S ! 4)" "header_size (S ! 4) \<le> 19" "frameHeaderSize (S ! 4) = of_nat (header_size (S ! 4))"
    by (auto simp: header_size_def frameHeaderSize_def frame_flag_def minFHSize_def)
  have ge: "\<not> (of_nat (header_size (S ! 4)) :: size_t) < minFHSize"
    using sz by (simp add: minFHSize_def word_less_nat_alt unat_of_nat_addr)
  have ld: "header_bytes m e (In_Memory src) 0 4 = Ret (take 4 S)"
      "header_bytes m e (In_Memory src) 4 1 = Ret (take 1 (drop 4 S))" for e
    using header_loads [OF S, of 0 4 e] header_loads [OF S, of 4 1 e] n(1) by simp_all
  have at: "take 1 (drop 4 S) ! 0 = S ! 4" using n(1) by (intro take_1_drop) simp
  have rd: "LZ4F_readLE32 (take 4 S) = of_nat (le_val (take 4 S))" using n(1) by (intro readLE32) simp
  have lt: "le_val (take 4 S) < 4294967296" using mg by simp
  define d1 where "d1 = (new_dctx v)\<lparr>d_frameInfo := zero_frameInfo\<lparr>frameType := LZ4F_frame\<rparr>\<rparr>"
  note def = LZ4F_decodeHeader_def Let_def ld obind.simps rd at magic_words [OF lt] u8_fields(1) frame_flag_def
  have fl: "frame_header S = (if bit (S ! 4) 1 \<or> unat (S ! 4) div 64 \<noteq> 1 then None
     else if bit (S ! 5) 7 \<or> unat (S ! 5) mod 16 \<noteq> 0 \<or> k < 4
          \<or> S ! (header_size (S ! 4) - 1) \<noteq> ucast (drop_bit 8 (xxh32 (take (header_size (S ! 4) - 5) (drop 4 S)) 0))
     then None else Some (header_info S, 2 ^ (8 + 2 * k), header_size (S ! 4)))"
    unfolding frame_header_def Let_def using n mg k by auto
  show ?thesis
  proof (cases "bit (S ! 4) 1 \<or> unat (S ! 4) div 64 \<noteq> 1")
    case True
    then show ?thesis using ge mg unfolding fl def by (auto simp: isError_err0r)
  next
    case False
    have "LZ4F_decodeHeader m (new_dctx v) (In_Memory src) (of_nat (header_size (S ! 4)))
        = save_frame_info m d1 (In_Memory src) (S ! 4)"
      using ge mg False sz(3) unfolding def by (simp add: d1_def)
    then show ?thesis
      using save_frame_info_ok [OF S n(2) d1_def k] False unfolding fl
      by (auto simp: frame_ready_def split: if_splits)
  qed
qed

text \<open>
  C8. \<open>LZ4F_getFrameInfo\<close> on a new context accepts exactly the headers of the format: it then reports
  the parameters and the size of the header and leaves the context ready for the first block. It also
  accepts the header of a frame to be skipped; anything else is an error.
\<close>

theorem LZ4F_getFrameInfo_parses:
  assumes S: "load_bytes (wmem w) src (length S) = Ret S" and p: "src \<noteq> 0" and len: "length S < 2 ^ 63"
  shows "\<exists>r fi n d. LZ4F_getFrameInfo fast BS pool (new_dctx v) info src (of_nat (length S)) w = Some (Ret (r, fi, n, d, w))
    \<and> (case frame_header S of
         Some (fi', mx, k) \<Rightarrow> r = BHSize \<and> fi = fi' \<and> n = of_nat k \<and> frame_ready d fi mx
       | None \<Rightarrow> if skippable_header S then r = BHSize \<and> frameType fi = LZ4F_skippableFrame else LZ4F_isError r)"
proof -
  note hs = headerSize_ok [OF S p len]
  have st: "d_stage (new_dctx v) = dstage_getFrameHeader" by (simp add: new_dctx_def zero_dctx_def)
  have cmp: "(of_nat (length S) :: size_t) < of_nat n \<longleftrightarrow> length S < n" if "n \<le> 19" for n
    using that len by (simp add: word_less_nat_alt unat_of_nat_addr)
  have sz: "7 \<le> header_size (S ! 4)" "header_size (S ! 4) \<le> 19" by (auto simp: header_size_def)
  have noerr: "\<not> LZ4F_isError (of_nat n)" if "n \<le> 19" for n
    using that by (simp add: LZ4F_isError_def LZ4F_ERROR_maxCode_def word_less_nat_alt unat_of_nat_addr)
  note def = LZ4F_getFrameInfo_def st hs rbind_simps
  consider (short) "length S < 5" | (skip) "5 \<le> length S" "le_val (take 4 S) div 16 = 0x184D2A5"
    | (other) "5 \<le> length S" "le_val (take 4 S) div 16 \<noteq> 0x184D2A5" "le_val (take 4 S) \<noteq> 0x184D2204"
    | (frame) "5 \<le> length S" "le_val (take 4 S) = 0x184D2204" by linarith
  then show ?thesis
  proof cases
    case short
    then show ?thesis unfolding def by (simp add: isError_err0r frame_header_def skippable_header_def)
  next
    case skip
    then have none: "frame_header S = None" by (auto simp: frame_header_def)
    show ?thesis
    proof (cases "8 \<le> length S")
      case True
      have "header_bytes (wmem w) e (In_Memory src) 0 4 = Ret (take 4 S)" for e
        using header_loads [OF S, of 0 4 e] skip by simp
      moreover have "is_skippable (LZ4F_readLE32 (take 4 S))"
        using skip le_val_lt [of "take 4 S"] readLE32 [of "take 4 S"] magic_words(2) [of "le_val (take 4 S)"] by simp
      ultimately have "LZ4F_decodeHeader (wmem w) (new_dctx v) (In_Memory src) 8
          = Ret (4, (new_dctx v)\<lparr>d_frameInfo := zero_frameInfo\<lparr>frameType := LZ4F_skippableFrame\<rparr>, d_stage := dstage_getSFrameSize\<rparr>)"
        by (simp add: LZ4F_decodeHeader_def minFHSize_def)
      then show ?thesis
        using True skip cmp [of 8] noerr [of 8] noerr [of 4] none unfolding def
        by (simp add: skippable_header_def)
    next
      case False
      then show ?thesis
        using skip cmp [of 8] noerr [of 8] none unfolding def by (simp add: isError_err0r skippable_header_def)
    qed
  next
    case other
    then show ?thesis unfolding def by (simp add: isError_err0r frame_header_def skippable_header_def)
  next
    case frame
    then have not_skip: "\<not> skippable_header S" by (simp add: skippable_header_def)
    show ?thesis
    proof (cases "length S < header_size (S ! 4)")
      case True
      then show ?thesis
        using frame cmp [OF sz(2)] noerr [OF sz(2)] not_skip unfolding def
        by (simp add: isError_err0r frame_header_def Let_def)
    next
      case False
      then have n: "7 \<le> length S" "header_size (S ! 4) \<le> length S" using sz by simp_all
      obtain r d where r: "LZ4F_decodeHeader (wmem w) (new_dctx v) (In_Memory src) (of_nat (header_size (S ! 4))) = Ret (r, d)"
          "case frame_header S of Some (fi, mx, k) \<Rightarrow> r = of_nat k \<and> frame_ready d fi mx \<and> d_frameInfo d = fi
           | None \<Rightarrow> LZ4F_isError r"
        using decodeHeader_ok [OF S n frame(2) refl, of v] by blast
      have "LZ4F_getFrameInfo fast BS pool (new_dctx v) info src (of_nat (length S)) w
          = Some (Ret (if LZ4F_isError r then (r, d_frameInfo d, 0, d, w) else (BHSize, d_frameInfo d, r, d, w)))"
        using frame cmp [OF sz(2)] noerr [OF sz(2)] False unfolding def by (simp add: r(1))
      moreover have "k \<le> 19" if "frame_header S = Some (fi, mx, k)" for fi mx k
        using that sz(2) by (auto simp: frame_header_def Let_def split: if_splits)
      ultimately show ?thesis using r(2) not_skip noerr by (auto split: option.splits)
    qed
  qed
qed

text \<open>The smallest header: independent blocks of at most 64 KB.\<close>

abbreviation "small_header \<equiv> [4, 0x22, 0x4D, 0x18, 0x60, 0x40, 0x82] :: u8 list"

lemma small_header_sum: "(ucast (drop_bit 8 (xxh32 [0x60, 0x40] 0)) :: u8) = 0x82"
  by (simp add: xxh_eval)

lemma small_header_parsed:
  "frame_header small_header = Some (zero_frameInfo\<lparr>blockSizeID := 4, blockMode := LZ4F_blockIndependent\<rparr>, 65536, 7)"
  using small_header_sum
  by (simp add: frame_header_def header_info_def header_size_def zero_frameInfo_def Let_def bit_iff_odd)

theorem LZ4F_getFrameInfo_parses_witness:
  "\<exists>d. LZ4F_getFrameInfo True bump_services 1 (new_dctx 100) zero_frameInfo 0x1000 7 \<lparr>wmem = lz4_sample small_header, fw = 0x2000\<rparr>
       = Some (Ret (4, zero_frameInfo\<lparr>blockSizeID := 4, blockMode := LZ4F_blockIndependent\<rparr>, 7, d,
           \<lparr>wmem = lz4_sample small_header, fw = 0x2000\<rparr>))
     \<and> frame_ready d (zero_frameInfo\<lparr>blockSizeID := 4, blockMode := LZ4F_blockIndependent\<rparr>) 65536"
proof -
  have len: "length small_header = 7" by simp
  have "load_bytes (lz4_sample small_header) 0x1000 7 = Ret small_header" by (simp add: lz4_sample_def mem_eval)
  then show ?thesis
    using LZ4F_getFrameInfo_parses [of "\<lparr>wmem = lz4_sample small_header, fw = 0x2000\<rparr>" "0x1000" small_header True
        bump_services 1 100 zero_frameInfo, unfolded len small_header_parsed]
    by (simp add: BHSize_def)
qed

end
