(* ===== verification/Decompress.thy ===== *)
theory Decompress
  imports Efi_Lib
begin

text \<open>
  \<^verbatim>\<open>src/decompress.c\<close>: the kernel image is LZ4 or ZSTD compressed, or a PE executable that is passed
  on as it is. The two compression libraries are vendored third-party code: their functions are
  the fields of \<open>codecs\<close>, over contexts of arbitrary types; only the tests of their error codes
  are modelled. A decoder keeps its own state and may change the memory; how far it got is its
  result. The loops go on while there is input, so a decoder that makes no progress keeps them
  running: \<open>None\<close>. A \<open>goto end\<close> with an error is the first component of a step's result.
\<close>

unbundle bit_operations_syntax

section \<open>Codecs\<close>

record ('d, 'z, 'w) codecs =
  LZ4F_createDecompressionContext :: "'w world \<Rightarrow> size_t \<times> 'd \<times> 'w world"
  LZ4F_getFrameInfo :: "'d \<Rightarrow> addr \<Rightarrow> size_t \<Rightarrow> 'w world \<Rightarrow> size_t \<times> u64 \<times> size_t \<times> 'd \<times> 'w world"
  LZ4F_decompress :: "'d \<Rightarrow> addr \<Rightarrow> size_t \<Rightarrow> addr \<Rightarrow> size_t \<Rightarrow> 'w world
    \<Rightarrow> size_t \<times> size_t \<times> size_t \<times> 'd \<times> 'w world"
  LZ4F_freeDecompressionContext :: "'d \<Rightarrow> 'w world \<Rightarrow> 'w world"
  ZSTD_getFrameContentSize :: "addr \<Rightarrow> size_t \<Rightarrow> mem \<Rightarrow> u64"
  ZSTD_createDStream :: "'w world \<Rightarrow> 'z option \<times> 'w world"
  ZSTD_decompressStream :: "'z \<Rightarrow> simple_buffer \<Rightarrow> simple_buffer \<Rightarrow> 'w world
    \<Rightarrow> size_t \<times> size_t \<times> size_t \<times> 'z \<times> 'w world"
  ZSTD_freeDStream :: "'z \<Rightarrow> 'w world \<Rightarrow> 'w world"

definition LZ4F_ERROR_maxCode :: u64 where "LZ4F_ERROR_maxCode = 20"

definition LZ4F_isError :: "size_t \<Rightarrow> bool" where
  "LZ4F_isError code \<longleftrightarrow> code > - LZ4F_ERROR_maxCode"

definition ZSTD_error_maxCode :: u64 where "ZSTD_error_maxCode = 120"

definition ZSTD_isError :: "size_t \<Rightarrow> bool" where
  "ZSTD_isError code \<longleftrightarrow> code > - ZSTD_error_maxCode"

definition LZ4_MAGICNUMBER :: u32 where "LZ4_MAGICNUMBER = 0x184D2204"
definition ZSTD_MAGICNUMBER :: u32 where "ZSTD_MAGICNUMBER = 0xFD2FB528"
definition ZSTD_CONTENTSIZE_UNKNOWN :: u64 where "ZSTD_CONTENTSIZE_UNKNOWN = 0 - 1"
definition ZSTD_CONTENTSIZE_ERROR :: u64 where "ZSTD_CONTENTSIZE_ERROR = 0 - 2"

text \<open>A call through \<open>out->free\<close>; an aligned buffer never gets here.\<close>

definition call_free :: "'w boot_services \<Rightarrow> simple_buffer \<Rightarrow> 'w world \<Rightarrow> 'w world outcome" where
  "call_free BS b w =
     (case bfree b of Free_Simple \<Rightarrow> Ret (free_simple_buffer BS b w) | _ \<Rightarrow> UB)"

text \<open>The common end: \<open>out\<close> is released on an error and rewound otherwise.\<close>

definition finish_output ::
    "'w boot_services \<Rightarrow> efi_status \<Rightarrow> simple_buffer \<Rightarrow> simple_buffer \<Rightarrow> 'w world
     \<Rightarrow> (efi_status \<times> simple_buffer \<times> simple_buffer \<times> 'w world) outcome" where
  "finish_output BS err i out w =
     (if EFI_ERROR err
      then obind (call_free BS out w) (\<lambda>w. Ret (err, i, out\<lparr>allocated := 0, buffer := 0\<rparr>, w))
      else Ret (err, i, out\<lparr>bpos := 0\<rparr>, w))"

section \<open>LZ4\<close>

record ('c, 'w) stream =
  s_ctx :: 'c
  s_in :: simple_buffer
  s_out :: simple_buffer
  s_world :: "'w world"

definition lz4_step ::
    "('d, 'z, 'w) codecs \<Rightarrow> ('d, 'w) stream \<Rightarrow> (efi_status \<times> ('d, 'w) stream) outcome" where
  "lz4_step C s =
     (let i = s_in s; out = s_out s in
      obind (buffer_len i) (\<lambda>in_end.
      obind (buffer_pos out) (\<lambda>dst.
      obind (buffer_pos i) (\<lambda>src.
      let (result, out_end, in_end, ctx, w) =
            LZ4F_decompress C (s_ctx s) dst (allocated out - bpos out) src in_end (s_world s);
          s = s\<lparr>s_ctx := ctx, s_world := w\<rparr>
      in if LZ4F_isError result then Ret (EFI_UNSUPPORTED, s)
         else Ret (EFI_SUCCESS, s\<lparr>s_in := i\<lparr>bpos := bpos i + in_end\<rparr>,
                s_out := out\<lparr>bpos := bpos out + out_end, blength := bpos out + out_end\<rparr>\<rparr>)))))"

definition more_input :: "('c, 'w) stream \<Rightarrow> bool" where
  "more_input s \<longleftrightarrow> bpos (s_in s) < blength (s_in s)"

partial_function (option) lz4_loop ::
    "('d, 'z, 'w) codecs \<Rightarrow> ('d, 'w) stream \<Rightarrow> (efi_status \<times> ('d, 'w) stream) outcome option" where
  "lz4_loop C s =
     (if more_input s
      then once (lz4_step C s) (\<lambda>(err, s).
        if EFI_ERROR err then Some (Ret (err, s)) else lz4_loop C s)
      else Some (Ret (EFI_SUCCESS, s)))"

text \<open>The frame header and the output buffer, up to the loop.\<close>

definition lz4_open ::
    "'w boot_services \<Rightarrow> u32 \<Rightarrow> ('d, 'z, 'w) codecs \<Rightarrow> ('d, 'w) stream
     \<Rightarrow> (efi_status \<times> ('d, 'w) stream) outcome" where
  "lz4_open BS pool C s =
     (let i = s_in s in
      obind (buffer_pos i) (\<lambda>src.
      let (err, content_size, in_pos, ctx, w) =
            LZ4F_getFrameInfo C (s_ctx s) src (blength i) (s_world s);
          s = s\<lparr>s_ctx := ctx, s_world := w\<rparr>
      in if LZ4F_isError err then Ret (EFI_UNSUPPORTED, s)
         else
         let s = s\<lparr>s_in := i\<lparr>bpos := in_pos\<rparr>\<rparr>
         in if content_size = 0 then Ret (EFI_UNSUPPORTED, s)
            else
            let (ok, out, w) = allocate_simple_buffer BS pool content_size (s_out s) (s_world s);
                s = s\<lparr>s_out := out, s_world := w\<rparr>
            in if \<not> ok then Ret (EFI_OUT_OF_RESOURCES, s) else Ret (EFI_SUCCESS, s)))"

definition decompress_lz4 ::
    "'w boot_services \<Rightarrow> u32 \<Rightarrow> ('d, 'z, 'w) codecs \<Rightarrow> simple_buffer \<Rightarrow> simple_buffer \<Rightarrow> 'w world
     \<Rightarrow> (efi_status \<times> simple_buffer \<times> simple_buffer \<times> 'w world) outcome option" where
  "decompress_lz4 BS pool C i out w =
     (let (err, ctx, w) = LZ4F_createDecompressionContext C w
      in if LZ4F_isError err then Some (Ret (EFI_OUT_OF_RESOURCES, i, out, w))
         else rbind
           (once (lz4_open BS pool C \<lparr>s_ctx = ctx, s_in = i, s_out = out, s_world = w\<rparr>) (\<lambda>(err, s).
              if EFI_ERROR err then Some (Ret (err, s)) else lz4_loop C s))
           (\<lambda>(err, s). Some (finish_output BS err (s_in s) (s_out s)
              (LZ4F_freeDecompressionContext C (s_ctx s) (s_world s)))))"

section \<open>ZSTD\<close>

text \<open>The library moves the positions of the two buffers itself.\<close>

definition zstd_step ::
    "('d, 'z, 'w) codecs \<Rightarrow> ('z, 'w) stream \<Rightarrow> (efi_status \<times> ('z, 'w) stream) outcome" where
  "zstd_step C s =
     (let (result, out_pos, in_pos, ctx, w) =
            ZSTD_decompressStream C (s_ctx s) (s_out s) (s_in s) (s_world s);
          s = s\<lparr>s_ctx := ctx, s_world := w, s_in := (s_in s)\<lparr>bpos := in_pos\<rparr>,
                s_out := (s_out s)\<lparr>bpos := out_pos\<rparr>\<rparr>
      in if ZSTD_isError result then Ret (EFI_COMPROMISED_DATA, s) else Ret (EFI_SUCCESS, s))"

partial_function (option) zstd_loop ::
    "('d, 'z, 'w) codecs \<Rightarrow> ('z, 'w) stream \<Rightarrow> (efi_status \<times> ('z, 'w) stream) outcome option" where
  "zstd_loop C s =
     (if more_input s
      then once (zstd_step C s) (\<lambda>(err, s).
        if EFI_ERROR err then Some (Ret (err, s)) else zstd_loop C s)
      else Some (Ret (EFI_SUCCESS, s)))"

definition decompress_zstd ::
    "'w boot_services \<Rightarrow> u32 \<Rightarrow> ('d, 'z, 'w) codecs \<Rightarrow> simple_buffer \<Rightarrow> simple_buffer \<Rightarrow> 'w world
     \<Rightarrow> (efi_status \<times> simple_buffer \<times> simple_buffer \<times> 'w world) outcome option" where
  "decompress_zstd BS pool C i out w =
     once (buffer_pos i) (\<lambda>src. once (buffer_len i) (\<lambda>len.
     let out = out\<lparr>allocated := ZSTD_getFrameContentSize C src len (wmem w)\<rparr>
     in if allocated out = ZSTD_CONTENTSIZE_ERROR \<or> allocated out = ZSTD_CONTENTSIZE_UNKNOWN
        then Some (Ret (EFI_UNSUPPORTED, i, out\<lparr>allocated := 0\<rparr>, w))
        else
        let (ok, out, w) = allocate_simple_buffer BS pool (allocated out) out w
        in if \<not> ok then Some (Ret (EFI_OUT_OF_RESOURCES, i, out, w))
           else
           case ZSTD_createDStream C w of
             (None, w) \<Rightarrow> Some (Ret (EFI_OUT_OF_RESOURCES, i, out, c_free BS (buffer out) w))
           | (Some z, w) \<Rightarrow>
               rbind (zstd_loop C \<lparr>s_ctx = z, s_in = i, s_out = out\<lparr>blength := allocated out\<rparr>, s_world = w\<rparr>)
                 (\<lambda>(err, s). Some (finish_output BS err (s_in s) (s_out s)
                    (ZSTD_freeDStream C (s_ctx s) (s_world s))))))"

section \<open>Choosing the format\<close>

text \<open>\<open>use_zstd\<close> and \<open>use_lz4\<close> are the build options; a null pointer is \<open>None\<close>.\<close>

definition has_magic :: "bool \<Rightarrow> u32 \<Rightarrow> mem \<Rightarrow> simple_buffer \<Rightarrow> bool outcome" where
  "has_magic enabled number m b =
     (if enabled then obind (buffer_pos b) (\<lambda>p. obind (load_w m p) (\<lambda>v. Ret (v = number))) else Ret False)"

definition decompress ::
    "bool \<Rightarrow> bool \<Rightarrow> 'w boot_services \<Rightarrow> u32 \<Rightarrow> ('d, 'z, 'w) codecs
     \<Rightarrow> simple_buffer option \<Rightarrow> simple_buffer option \<Rightarrow> 'w world
     \<Rightarrow> (efi_status \<times> simple_buffer option \<times> simple_buffer option \<times> 'w world) outcome option" where
  "decompress use_zstd use_lz4 BS pool C i_arg out_arg w =
     (case (i_arg, out_arg) of
        (Some i, Some out) \<Rightarrow>
          if buffer i = 0 \<or> blength i = 0 then Some (Ret (EFI_INVALID_PARAMETER, i_arg, out_arg, w))
          else if buffer out \<noteq> 0 \<or> blength out \<noteq> 0
          then Some (Ret (EFI_INVALID_PARAMETER, i_arg, out_arg, w))
          else
          once (has_magic use_zstd ZSTD_MAGICNUMBER (wmem w) i) (\<lambda>zstd.
          if zstd then rbind (decompress_zstd BS pool C i out w)
            (\<lambda>(err, i, out, w). Some (Ret (err, Some i, Some out, w)))
          else
          once (has_magic use_lz4 LZ4_MAGICNUMBER (wmem w) i) (\<lambda>lz4.
          if lz4 then rbind (decompress_lz4 BS pool C i out w)
            (\<lambda>(err, i, out, w). Some (Ret (err, Some i, Some out, w)))
          else
          once (PE_header (wmem w) i) (\<lambda>off.
          if off > 0
          then Some (Ret (EFI_SUCCESS, i_arg, Some (out\<lparr>buffer := buffer i, allocated := blength i,
                 blength := blength i, bpos := bpos i, bfree := Free_None\<rparr>), w))
          else Some (Ret (EFI_UNSUPPORTED, i_arg, out_arg, w)))))
      | _ \<Rightarrow> Some (Ret (EFI_INVALID_PARAMETER, i_arg, out_arg, w)))"

end
