(* ===== verification/Decompress_Props.thy ===== *)
theory Decompress_Props
  imports Decompress
begin

text \<open>
  Properties of the decompression: the scheme of its two loops as a locale, interpreted for both; that
  LZ4 decompression returns and what its output is; its early errors; the length of ZSTD
  output; what happens to data that is not compressed; and that every output is well-formed.
\<close>

section \<open>Decoding loops\<close>

text \<open>
  The shape both loops share. A step that keeps \<open>P\<close> and makes a measure smaller ends the loop,
  with all input consumed unless a step failed.
\<close>

locale stream_loop =
  fixes loop :: "('c, 'w) stream \<Rightarrow> (efi_status \<times> ('c, 'w) stream) outcome option"
    and advance :: "('c, 'w) stream \<Rightarrow> (efi_status \<times> ('c, 'w) stream) outcome"
  assumes loop_eq: "loop s =
    (if more_input s
     then once (advance s) (\<lambda>(err, s). if EFI_ERROR err then Some (Ret (err, s)) else loop s)
     else Some (Ret (EFI_SUCCESS, s)))"
begin

lemma loop_ends:
  assumes ok: "\<And>s err s'. P s \<Longrightarrow> more_input s \<Longrightarrow> advance s = Ret (err, s') \<Longrightarrow> \<not> EFI_ERROR err
      \<Longrightarrow> P s' \<and> (left s' :: nat) < left s"
    and failed: "\<And>s err s'. P s \<Longrightarrow> more_input s \<Longrightarrow> advance s = Ret (err, s') \<Longrightarrow> EFI_ERROR err \<Longrightarrow> Q s'"
    and "P s"
  shows "ends (loop s) (\<lambda>(err, s'). if EFI_ERROR err then Q s' else P s' \<and> \<not> more_input s')"
  using assms(3)
proof (induction "left s" arbitrary: s rule: less_induct)
  case less
  show ?case
  proof (cases "more_input s")
    case True
    define R where "R = (\<lambda>(err, s'). if EFI_ERROR err then Q s' else P s' \<and> \<not> more_input s')"
    have "ends (if EFI_ERROR err then Some (Ret (err, s')) else loop s') R"
      if "advance s = Ret (err, s')" for err s'
      using that less ok failed True by (cases "EFI_ERROR err") (auto simp: R_def)
    with True show ?thesis unfolding R_def [symmetric] by (subst loop_eq) (auto intro!: ends_once)
  next
    case False
    with less.prems show ?thesis by (subst loop_eq) simp
  qed
qed

end

interpretation lz4: stream_loop "lz4_loop C" "lz4_step C" for C
  by unfold_locales (rule lz4_loop.simps)

interpretation zstd: stream_loop "zstd_loop C" "zstd_step C" for C
  by unfold_locales (rule zstd_loop.simps)

section \<open>LZ4\<close>

text \<open>
  What the LZ4 library documents: a call consumes and produces no more than it is given, and
  makes progress when it has input and room.
\<close>

definition lz4_progress :: "('d, 'z, 'w) codecs \<Rightarrow> bool" where
  "lz4_progress C \<longleftrightarrow> (\<forall>ctx dst room src len w result d s ctx' w'.
     LZ4F_decompress C ctx dst room src len w = (result, d, s, ctx', w') \<longrightarrow> \<not> LZ4F_isError result \<longrightarrow>
     0 < room \<longrightarrow> 0 < len \<longrightarrow> d \<le> room \<and> s \<le> len \<and> (0 < d \<or> 0 < s))"

text \<open>The output of the loop: a block of its own, filled up to the position.\<close>

definition lz4_output :: "simple_buffer \<Rightarrow> bool" where
  "lz4_output out \<longleftrightarrow> buffer out \<noteq> 0 \<and> bfree out = Free_Simple \<and> bpos out \<le> allocated out \<and> blength out = bpos out"

lemma advance_word:
  fixes p q d :: u64
  assumes "p < q" and "d \<le> q - p"
  shows "unat (p + d) = unat p + unat d" and "p + d \<le> q"
proof -
  have "unat (q - p) = unat q - unat p" using assms(1) by (simp add: unat_sub order_less_imp_le)
  then have "unat d \<le> unat q - unat p" using assms(2) by (simp add: word_le_nat_alt)
  then have "unat p + unat d \<le> unat q" using assms(1) by (simp add: word_less_nat_alt)
  moreover have "unat q < 2 ^ 64" using unsigned_less [of q, where ?'a = nat] by simp
  ultimately have s: "unat p + unat d < 2 ^ 64" by linarith
  then show "unat (p + d) = unat p + unat d" by (subst unat_add_lem [THEN iffD1]) simp_all
  then show "p + d \<le> q" using \<open>unat p + unat d \<le> unat q\<close> by (simp add: word_le_nat_alt)
qed

lemma lz4_step_progress:
  assumes C: "lz4_progress C" and out: "lz4_output (s_out s)" and more: "more_input s"
    and step: "lz4_step C s = Ret (err, s')"
  shows "EFI_ERROR err \<Longrightarrow> lz4_output (s_out s')"
    and "\<not> EFI_ERROR err \<Longrightarrow> lz4_output (s_out s') \<and> blength (s_in s') = blength (s_in s)
      \<and> (unat (blength (s_in s')) - unat (bpos (s_in s'))) + (unat (allocated (s_out s')) - unat (bpos (s_out s')))
       < (unat (blength (s_in s)) - unat (bpos (s_in s))) + (unat (allocated (s_out s)) - unat (bpos (s_out s)))"
proof -
  let ?i = "s_in s" and ?o = "s_out s"
  from step obtain len dst src where ok: "buffer_len ?i = Ret len" "buffer_pos ?o = Ret dst" "buffer_pos ?i = Ret src"
    by (auto simp: lz4_step_def Let_def outcome_iff)
  then have lt: "bpos ?i < blength ?i" "len = blength ?i - bpos ?i" "bpos ?o < allocated ?o"
    by (auto simp: buffer_len_def buffer_pos_def outcome_iff)
  obtain result d n ctx w where call: "LZ4F_decompress C (s_ctx s) dst (allocated ?o - bpos ?o) src len (s_world s)
      = (result, d, n, ctx, w)" by (metis prod_cases5)
  have s': "(err, s') = (if LZ4F_isError result then (EFI_UNSUPPORTED, s\<lparr>s_ctx := ctx, s_world := w\<rparr>)
      else (EFI_SUCCESS, s\<lparr>s_ctx := ctx, s_world := w, s_in := ?i\<lparr>bpos := bpos ?i + n\<rparr>,
        s_out := ?o\<lparr>bpos := bpos ?o + d, blength := bpos ?o + d\<rparr>\<rparr>))"
    using step ok call by (simp add: lz4_step_def Let_def split: if_splits)
  show "EFI_ERROR err \<Longrightarrow> lz4_output (s_out s')" using s' out by (simp split: if_splits)
  assume "\<not> EFI_ERROR err"
  then have fine: "\<not> LZ4F_isError result" and s': "s' = s\<lparr>s_ctx := ctx, s_world := w,
      s_in := ?i\<lparr>bpos := bpos ?i + n\<rparr>, s_out := ?o\<lparr>bpos := bpos ?o + d, blength := bpos ?o + d\<rparr>\<rparr>"
    using s' by (simp_all split: if_splits)
  have "0 < allocated ?o - bpos ?o" "0 < len" using lt by (simp_all add: word_less_nat_alt unat_sub word_le_nat_alt)
  then have dn: "d \<le> allocated ?o - bpos ?o" "n \<le> len" "0 < d \<or> 0 < n"
    using C call fine unfolding lz4_progress_def by blast+
  note o = advance_word [OF lt(3) dn(1)]
  note i = advance_word [OF lt(1) dn(2) [unfolded lt(2)]]
  have "0 < unat d \<or> 0 < unat n" using dn(3) by (simp add: word_less_nat_alt)
  with o i lt show "lz4_output (s_out s') \<and> blength (s_in s') = blength (s_in s)
      \<and> (unat (blength (s_in s')) - unat (bpos (s_in s'))) + (unat (allocated (s_out s')) - unat (bpos (s_out s')))
       < (unat (blength (s_in s)) - unat (bpos (s_in s))) + (unat (allocated (s_out s)) - unat (bpos (s_out s)))"
    using out by (auto simp: s' lz4_output_def word_less_nat_alt word_le_nat_alt)
qed

lemma lz4_loop_ends:
  assumes "lz4_progress C" and "lz4_output (s_out s)"
  shows "ends (lz4_loop C s) (\<lambda>(err, s'). lz4_output (s_out s') \<and> (\<not> EFI_ERROR err \<longrightarrow> \<not> more_input s'))"
proof -
  have "ends (lz4_loop C s) (\<lambda>(err, s'). if EFI_ERROR err then lz4_output (s_out s')
      else lz4_output (s_out s') \<and> \<not> more_input s')"
    by (rule lz4.loop_ends [where left = "\<lambda>s. (unat (blength (s_in s)) - unat (bpos (s_in s)))
          + (unat (allocated (s_out s)) - unat (bpos (s_out s)))"])
      (use lz4_step_progress [OF assms(1)] assms(2) in blast)+
  then show ?thesis by (auto simp: ends_def split: if_splits)
qed

lemma lz4_open_cases:
  assumes "lz4_open BS pool C s = Ret (err, s')"
  shows "if EFI_ERROR err then bfree (s_out s') = bfree (s_out s) else lz4_output (s_out s')"
proof -
  from assms obtain src where src: "buffer_pos (s_in s) = Ret src" by (auto simp: lz4_open_def Let_def outcome_iff)
  obtain e n k ctx w where info: "LZ4F_getFrameInfo C (s_ctx s) src (blength (s_in s)) (s_world s) = (e, n, k, ctx, w)"
    by (metis prod_cases5)
  obtain p w' where "malloc BS pool n w = (p, w')" by fastforce
  then show ?thesis using assms src info
    by (auto simp: lz4_open_def Let_def allocate_simple_buffer_def lz4_output_def split: if_splits)
qed

lemma decompress_lz4_ends:
  assumes "lz4_progress C"
  shows "\<exists>r. decompress_lz4 BS pool C i out w = Some r
    \<and> (\<forall>err i' out' w'. r = Ret (err, i', out', w') \<longrightarrow> \<not> EFI_ERROR err \<longrightarrow>
         blength i' \<le> bpos i' \<and> buffer out' \<noteq> 0 \<and> bpos out' = 0 \<and> bfree out' = Free_Simple
         \<and> blength out' \<le> allocated out')"
proof -
  let ?good = "\<lambda>(err, s). \<not> EFI_ERROR err \<longrightarrow> lz4_output (s_out s) \<and> \<not> more_input s"
  let ?Q = "\<lambda>(err, i', out', w'). \<not> EFI_ERROR err \<longrightarrow>
         blength i' \<le> bpos i' \<and> buffer out' \<noteq> 0 \<and> bpos out' = 0 \<and> bfree out' = Free_Simple
         \<and> blength out' \<le> allocated out'"
  have open_ok: "lz4_output (s_out s')" if "lz4_open BS pool C s = Ret (err, s')" "\<not> EFI_ERROR err" for s err s'
    using lz4_open_cases [OF that(1)] that(2) by simp
  have "ends (decompress_lz4 BS pool C i out w) ?Q"
  proof (cases "LZ4F_createDecompressionContext C w")
    case (fields e ctx w1)
    have loop: "ends (if EFI_ERROR err then Some (Ret (err, s')) else lz4_loop C s') ?good"
      if "lz4_open BS pool C s = Ret (err, s')" for s err s'
      using lz4_loop_ends [OF assms open_ok [OF that]] by (auto simp: ends_def)
    have fin: "ends (Some (finish_output BS err (s_in s) (s_out s) w2)) ?Q" if "?good (err, s)" for err s w2
      using that by (auto simp: ends_def finish_output_def lz4_output_def more_input_def not_less outcome_iff
          split: if_splits)
    show ?thesis
    proof (cases "LZ4F_isError e")
      case True
      then show ?thesis by (simp add: decompress_lz4_def fields)
    next
      case False
      let ?s = "\<lparr>s_ctx = ctx, s_in = i, s_out = out, s_world = w1\<rparr>"
      have "ends (once (lz4_open BS pool C ?s) (\<lambda>(err, s).
          if EFI_ERROR err then Some (Ret (err, s)) else lz4_loop C s)) ?good"
        by (rule ends_once) (auto intro!: loop split del: if_split)
      then have "ends (rbind (once (lz4_open BS pool C ?s) (\<lambda>(err, s).
          if EFI_ERROR err then Some (Ret (err, s)) else lz4_loop C s))
          (\<lambda>(err, s). Some (finish_output BS err (s_in s) (s_out s)
              (LZ4F_freeDecompressionContext C (s_ctx s) (s_world s))))) ?Q"
        by (rule ends_rbind) (auto intro!: fin simp del: rbind_simps)
      then show ?thesis using False by (simp add: decompress_lz4_def fields)
    qed
  qed
  then show ?thesis by (auto simp: ends_def)
qed

text \<open>
  C22. Decompressing LZ4 data returns, if the decoder makes progress. On success all input was
  consumed and the output is a block of its own whose contents fit what was allocated.
\<close>

theorem decompress_lz4_returns:
  assumes "lz4_progress C"
  shows "\<exists>r. decompress_lz4 BS pool C i out w = Some r
    \<and> (\<forall>err i' out' w'. r = Ret (err, i', out', w') \<longrightarrow> \<not> EFI_ERROR err \<longrightarrow>
         blength i' \<le> bpos i' \<and> buffer out' \<noteq> 0 \<and> bpos out' = 0 \<and> bfree out' = Free_Simple
         \<and> blength out' \<le> allocated out')"
  by (rule decompress_lz4_ends [OF assms])

text \<open>
  Decoders for the witnesses: the LZ4 one turns any input into one byte, the ZSTD one stops
  after three bytes of ten.
\<close>

definition demo_codecs :: "u64 \<Rightarrow> (unit, unit, addr) codecs" where
  "demo_codecs content = \<lparr>
     LZ4F_createDecompressionContext = (\<lambda>w. (0, (), w)),
     LZ4F_getFrameInfo = (\<lambda>_ _ _ w. (0, content, 1, (), w)),
     LZ4F_decompress = (\<lambda>_ _ _ _ len w. (0, 1, len, (), w)),
     LZ4F_freeDecompressionContext = (\<lambda>_ w. w),
     ZSTD_getFrameContentSize = (\<lambda>_ _ _. content),
     ZSTD_createDStream = (\<lambda>w. (Some (), w)),
     ZSTD_decompressStream = (\<lambda>_ _ i w. (7, 3, blength i, (), w)),
     ZSTD_freeDStream = (\<lambda>_ w. w)\<rparr>"

lemma demo_codecs_simps [simp]:
  "ZSTD_getFrameContentSize (demo_codecs n) src len m = n" "ZSTD_createDStream (demo_codecs n) w = (Some (), w)"
  "ZSTD_decompressStream (demo_codecs n) z out i w = (7, 3, blength i, (), w)"
  "ZSTD_freeDStream (demo_codecs n) z w = w"
  by (simp_all add: demo_codecs_def)

lemma isError_0: "\<not> LZ4F_isError 0" "\<not> ZSTD_isError 7"
  by (simp_all add: LZ4F_isError_def LZ4F_ERROR_maxCode_def ZSTD_isError_def ZSTD_error_maxCode_def not_less)

definition four_bytes :: simple_buffer where
  "four_bytes = \<lparr>buffer = 0x1000, blength = 4, bpos = 0, allocated = 4, bfree = Free_None\<rparr>"

theorem decompress_lz4_returns_witness:
  "\<exists>r. decompress_lz4 bump_services 4 (demo_codecs 10) four_bytes zero_buffer
     \<lparr>wmem = Map.empty, fw = 0x2000\<rparr> = Some r"
proof -
  have "0 < (room :: u64) \<Longrightarrow> 1 \<le> room" for room by (simp add: word_le_nat_alt word_less_nat_alt)
  then have "lz4_progress (demo_codecs 10)"
    by (simp add: lz4_progress_def demo_codecs_def)
  from decompress_lz4_returns [OF this, of bump_services 4 four_bytes zero_buffer "\<lparr>wmem = Map.empty, fw = 0x2000\<rparr>"]
  show ?thesis by blast
qed

text \<open>
  An error before the output is allocated (a broken header, no content size, no memory) ends in a
  call through the null pointer \<open>out->free\<close>, when \<open>out\<close> came in without one.
\<close>

theorem decompress_lz4_early_error:
  assumes "LZ4F_createDecompressionContext C w = (e, ctx, w1)" and "\<not> LZ4F_isError e"
    and "lz4_open BS pool C \<lparr>s_ctx = ctx, s_in = i, s_out = out, s_world = w1\<rparr> = Ret (err, s)"
    and "EFI_ERROR err" and "bfree out = Free_None"
  shows "decompress_lz4 BS pool C i out w = Some UB"
  using assms lz4_open_cases [OF assms(3)] by (simp add: decompress_lz4_def finish_output_def call_free_def)

theorem decompress_lz4_early_error_witness:
  "decompress_lz4 bump_services 4 (demo_codecs 0) four_bytes zero_buffer \<lparr>wmem = Map.empty, fw = 0x2000\<rparr> = Some UB"
proof -
  let ?w = "\<lparr>wmem = Map.empty, fw = 0x2000\<rparr> :: addr world"
  have "lz4_open bump_services 4 (demo_codecs 0) \<lparr>s_ctx = (), s_in = four_bytes, s_out = zero_buffer, s_world = ?w\<rparr>
      = Ret (EFI_UNSUPPORTED, \<lparr>s_ctx = (), s_in = four_bytes\<lparr>bpos := 1\<rparr>, s_out = zero_buffer, s_world = ?w\<rparr>)"
    by (simp add: lz4_open_def demo_codecs_def buffer_pos_def four_bytes_def isError_0)
  then show ?thesis
    by (intro decompress_lz4_early_error [where e = 0 and ctx = "()" and ?w1.0 = ?w and err = EFI_UNSUPPORTED])
      (simp_all add: isError_0, simp_all add: demo_codecs_def zero_buffer_def)
qed

section \<open>ZSTD\<close>

definition same_block :: "simple_buffer \<Rightarrow> simple_buffer \<Rightarrow> bool" where
  "same_block b b' \<longleftrightarrow> b'\<lparr>bpos := 0\<rparr> = b\<lparr>bpos := 0\<rparr>"

lemma zstd_step_block: "zstd_step C s = Ret (err, s') \<Longrightarrow> same_block (s_out s) (s_out s')"
  by (auto simp: zstd_step_def same_block_def Let_def split: prod.splits if_splits)

lemma same_block_refl [simp]: "same_block b b"
  and same_block_trans: "same_block a b \<Longrightarrow> same_block b c \<Longrightarrow> same_block a c"
  by (simp_all add: same_block_def)

lemma zstd_loop_result:
  fixes C :: "('d, 'z, 'w) codecs" and r :: "(efi_status \<times> ('z, 'w) stream) outcome"
  assumes "zstd_loop C s = Some r"
  shows "\<forall>err s'. r = Ret (err, s') \<longrightarrow> same_block (s_out s) (s_out s') \<and> (\<not> EFI_ERROR err \<longrightarrow> \<not> more_input s')"
proof (rule zstd_loop.raw_induct [OF _ assms])
  fix loop and C :: "('d, 'z, 'w) codecs" and s and r :: "(efi_status \<times> ('z, 'w) stream) outcome"
  assume IH: "\<And>C s r. loop C s = Some r \<Longrightarrow>
      \<forall>err s'. r = Ret (err, s') \<longrightarrow> same_block (s_out s) (s_out s') \<and> (\<not> EFI_ERROR err \<longrightarrow> \<not> more_input s')"
    and "(if more_input s
          then once (zstd_step C s) (\<lambda>(err, s). if EFI_ERROR err then Some (Ret (err, s)) else loop C s)
          else Some (Ret (EFI_SUCCESS, s))) = Some r"
  then show "\<forall>err s'. r = Ret (err, s') \<longrightarrow> same_block (s_out s) (s_out s') \<and> (\<not> EFI_ERROR err \<longrightarrow> \<not> more_input s')"
    by (auto simp: rbind_Ret_iff dest!: zstd_step_block split: if_splits) (metis same_block_trans)
qed

lemma decompress_zstd_result:
  assumes "decompress_zstd BS pool C i out w = Some (Ret (err, i', out', w'))" and "\<not> EFI_ERROR err"
  shows "\<exists>src len. buffer_pos i = Ret src \<and> buffer_len i = Ret len
    \<and> blength out' = ZSTD_getFrameContentSize C src len (wmem w) \<and> allocated out' = blength out'
    \<and> bpos out' = 0 \<and> blength i' \<le> bpos i'
    \<and> buffer out' \<noteq> 0 \<and> bfree out' = Free_Simple"
proof -
  let ?n = "\<lambda>src len. ZSTD_getFrameContentSize C src len (wmem w)"
  obtain src len where src: "buffer_pos i = Ret src" "buffer_len i = Ret len"
    using assms(1) by (cases "buffer_pos i"; cases "buffer_len i") (auto simp: decompress_zstd_def)
  obtain p w1 where p: "malloc BS pool (?n src len) w = (p, w1)" by fastforce
  obtain z w2 where z: "ZSTD_createDStream C w1 = (z, w2)" by fastforce
  have known: "?n src len \<noteq> ZSTD_CONTENTSIZE_ERROR" "?n src len \<noteq> ZSTD_CONTENTSIZE_UNKNOWN"
    using assms src by (auto simp: decompress_zstd_def Let_def)
  have "p \<noteq> 0" using assms src p known by (auto simp: decompress_zstd_def Let_def allocate_simple_buffer_def)
  then obtain z' where z': "z = Some z'"
    using assms src p z known by (cases z) (auto simp: decompress_zstd_def Let_def allocate_simple_buffer_def)
  let ?out = "out\<lparr>buffer := p, bpos := 0, allocated := ?n src len, bfree := Free_Simple, blength := ?n src len\<rparr>"
  obtain err1 s1 where loop: "zstd_loop C \<lparr>s_ctx = z', s_in = i, s_out = ?out, s_world = w2\<rparr> = Some (Ret (err1, s1))"
    and fin: "finish_output BS err1 (s_in s1) (s_out s1) (ZSTD_freeDStream C (s_ctx s1) (s_world s1)) = Ret (err, i', out', w')"
    using assms src p z z' known \<open>p \<noteq> 0\<close>
    by (auto simp: decompress_zstd_def Let_def allocate_simple_buffer_def rbind_Ret_iff)
  have "\<not> EFI_ERROR err1" and res: "i' = s_in s1" "out' = s_out s1\<lparr>bpos := 0\<rparr>"
    using fin assms(2) by (auto simp: finish_output_def outcome_iff split: if_splits)
  then have "same_block ?out (s_out s1)" "\<not> more_input s1" using zstd_loop_result [OF loop] by auto
  then show ?thesis using src res \<open>p \<noteq> 0\<close> by (auto simp: same_block_def more_input_def not_less)
qed

text \<open>
  C23. The length of ZSTD output is the size that the frame header declares, however much the decoder
  wrote: input that ends early is only reported by a message.
\<close>

theorem decompress_zstd_declared_length:
  assumes "decompress_zstd BS pool C i out w = Some (Ret (err, i', out', w'))" and "\<not> EFI_ERROR err"
  shows "\<exists>src len. buffer_pos i = Ret src \<and> buffer_len i = Ret len
    \<and> blength out' = ZSTD_getFrameContentSize C src len (wmem w) \<and> allocated out' = blength out'
    \<and> bpos out' = 0 \<and> blength i' \<le> bpos i'"
  using decompress_zstd_result [OF assms] by blast

lemma demo_zstd_run:
  assumes "fw w = 0x2000"
  shows "\<exists>i' out' w'. decompress_zstd bump_services 4 (demo_codecs 10) four_bytes zero_buffer w
    = Some (Ret (EFI_SUCCESS, i', out', w'))"
proof -
  have len: "buffer_len four_bytes = Ret 4" by (simp add: buffer_len_def four_bytes_def)
  have loop: "\<exists>s'. zstd_loop (demo_codecs 10) s = Some (Ret (EFI_SUCCESS, s'))" for s
  proof -
    have "zstd_loop (demo_codecs 10) s = Some (Ret (EFI_SUCCESS, s))" if "\<not> more_input s" for s
      using that by (subst zstd_loop.simps) simp
    moreover have "\<exists>s'. zstd_step (demo_codecs 10) s = Ret (EFI_SUCCESS, s') \<and> \<not> more_input s'"
      by (simp add: zstd_step_def isError_0 more_input_def)
    ultimately show ?thesis by (subst zstd_loop.simps) auto
  qed
  obtain f where f: "\<And>s. zstd_loop (demo_codecs 10) s = Some (Ret (EFI_SUCCESS, f s))" using loop by metis
  obtain w1 where "malloc bump_services 4 10 w = (0x2000, w1)"
    using assms by (simp add: malloc_def bump_services_def bump_alloc_def)
  then show ?thesis
    using f len
    by (simp add: decompress_zstd_def buffer_pos_def Let_def allocate_simple_buffer_def finish_output_def
        ZSTD_CONTENTSIZE_ERROR_def ZSTD_CONTENTSIZE_UNKNOWN_def) (simp add: four_bytes_def)
qed

theorem decompress_zstd_declared_length_witness:
  "\<exists>i' out' w'. decompress_zstd bump_services 4 (demo_codecs 10) four_bytes zero_buffer
      \<lparr>wmem = Map.empty, fw = 0x2000\<rparr> = Some (Ret (EFI_SUCCESS, i', out', w')) \<and> blength out' = 10"
proof -
  obtain i' out' w' where run: "decompress_zstd bump_services 4 (demo_codecs 10) four_bytes zero_buffer
      \<lparr>wmem = Map.empty, fw = 0x2000\<rparr> = Some (Ret (EFI_SUCCESS, i', out', w'))"
    using demo_zstd_run by fastforce
  from decompress_zstd_declared_length [OF this] have "blength out' = 10" by auto
  with run show ?thesis by blast
qed

section \<open>Formats\<close>

text \<open>
  What is neither empty nor compressed is an executable or is refused: a PE image is handed on
  in place, so that the output is a view of the input that is never freed.
\<close>

theorem decompress_passes_executables:
  assumes "buffer i \<noteq> 0" and "blength i \<noteq> 0" and "buffer out = 0" and "blength out = 0"
    and "has_magic use_zstd ZSTD_MAGICNUMBER (wmem w) i = Ret False"
    and "has_magic use_lz4 LZ4_MAGICNUMBER (wmem w) i = Ret False"
    and "PE_header (wmem w) i = Ret off"
  shows "decompress use_zstd use_lz4 BS pool C (Some i) (Some out) w =
    (if off = 0 then Some (Ret (EFI_UNSUPPORTED, Some i, Some out, w))
     else Some (Ret (EFI_SUCCESS, Some i, Some (i\<lparr>allocated := blength i, bfree := Free_None\<rparr>), w)))"
  using assms by (simp add: decompress_def word_gt_0)

theorem decompress_passes_executables_witness:
  "\<exists>out'. decompress False True bump_services 4 (demo_codecs 10)
     (Some \<lparr>buffer = 0x1000, blength = 368, bpos = 0, allocated = 368, bfree = Free_Simple\<rparr>) (Some zero_buffer)
     \<lparr>wmem = place 0x1000 (sample_image sample_headers), fw = 0x2000\<rparr>
   = Some (Ret (EFI_SUCCESS, Some \<lparr>buffer = 0x1000, blength = 368, bpos = 0, allocated = 368, bfree = Free_Simple\<rparr>,
       Some out', \<lparr>wmem = place 0x1000 (sample_image sample_headers), fw = 0x2000\<rparr>)) \<and> bfree out' = Free_None"
proof -
  let ?b = "\<lparr>buffer = 0x1000, blength = 368, bpos = 0, allocated = 368, bfree = Free_Simple\<rparr>"
    and ?m = "place 0x1000 (sample_image sample_headers)"
  have "load_bytes ?m 0x1000 4 = Ret (field 0 4 (sample_image sample_headers))"
    using load_place_field [of 0 4 "sample_image sample_headers" "0x1000"] sample_lengths [OF sample_wf(1)] by simp
  moreover have "field 0 4 (sample_image sample_headers) = [0x4d, 0x5a, 0, 0]"
    by (simp add: sample_image_def field_def numeral_eq_Suc)
  ultimately have "load_w ?m 0x1000 = Ret (0x5a4d :: u32)"
    by (simp add: load_w_def get_le_def)
  then have "has_magic True LZ4_MAGICNUMBER ?m ?b = Ret False"
    by (simp add: has_magic_def buffer_pos_def LZ4_MAGICNUMBER_def)
  moreover have "has_magic False ZSTD_MAGICNUMBER ?m ?b = Ret False" by (simp add: has_magic_def)
  moreover have "PE_header ?m ?b = Ret 0x40" by (rule sample_PE_header [OF sample_wf(1)]) simp_all
  ultimately show ?thesis
    using decompress_passes_executables [of ?b zero_buffer False "\<lparr>wmem = ?m, fw = 0x2000\<rparr>" True "0x40"
        bump_services 4 "demo_codecs 10"]
    by (simp add: zero_buffer_def)
qed

section \<open>Well-formed buffers\<close>

text \<open>
  The invariant of a buffer with contents: it has a block, the position is inside the contents and
  the contents inside the block, and only a block of its own is freed.
\<close>

definition wf_buffer :: "simple_buffer \<Rightarrow> bool" where
  "wf_buffer b \<longleftrightarrow> buffer b \<noteq> 0 \<and> bpos b \<le> blength b \<and> blength b \<le> allocated b
     \<and> (bfree b = Free_None \<or> bfree b = Free_Simple)"

text \<open>
  C31. Whatever the format of the kernel, the buffer that \<open>decompress\<close> returns with success is
  well-formed: it has its own block, or is the view of an executable in the input.
\<close>

theorem decompress_wf_output:
  assumes run: "decompress use_zstd use_lz4 BS pool C (Some i) (Some out) w = Some (Ret (err, i', Some out', w'))"
    and success: "\<not> EFI_ERROR err" and lz4: "lz4_progress C" and input: "wf_buffer i"
  shows "wf_buffer out' \<and> (bfree out' = Free_Simple \<or> out' = i\<lparr>allocated := blength i, bfree := Free_None\<rparr>)"
proof -
  have i: "buffer i \<noteq> 0" "blength i \<noteq> 0" and out: "buffer out = 0" "blength out = 0"
    using run success by (auto simp: decompress_def split: if_splits)
  obtain zstd where z: "has_magic use_zstd ZSTD_MAGICNUMBER (wmem w) i = Ret zstd"
    using run i out by (cases "has_magic use_zstd ZSTD_MAGICNUMBER (wmem w) i") (auto simp: decompress_def)
  show ?thesis
  proof (cases zstd)
    case True
    then obtain i2 where "decompress_zstd BS pool C i out w = Some (Ret (err, i2, out', w'))"
      using run i out z by (auto simp: decompress_def rbind_Ret_iff)
    from decompress_zstd_result [OF this success] show ?thesis by (auto simp: wf_buffer_def)
  next
    case False
    then obtain l where l: "has_magic use_lz4 LZ4_MAGICNUMBER (wmem w) i = Ret l"
      using run i out z by (cases "has_magic use_lz4 LZ4_MAGICNUMBER (wmem w) i") (auto simp: decompress_def)
    show ?thesis
    proof (cases l)
      case True
      then obtain i2 where "decompress_lz4 BS pool C i out w = Some (Ret (err, i2, out', w'))"
        using run i out z l False by (auto simp: decompress_def rbind_Ret_iff)
      with decompress_lz4_ends [OF lz4, of BS pool i out w] success show ?thesis by (auto simp: wf_buffer_def)
    next
      case not_lz4: False
      then have "out' = i\<lparr>allocated := blength i, bfree := Free_None\<rparr>"
        using run i out z l False success
        by (cases "PE_header (wmem w) i") (auto simp: decompress_def word_gt_0 split: if_splits)
      then show ?thesis using input by (simp add: wf_buffer_def)
    qed
  qed
qed

theorem decompress_wf_output_witness:
  "\<exists>i' out' w'. decompress True True bump_services 4 (demo_codecs 10) (Some four_bytes) (Some zero_buffer)
      \<lparr>wmem = place 0x1000 (put_le ZSTD_MAGICNUMBER), fw = 0x2000\<rparr> = Some (Ret (EFI_SUCCESS, Some i', Some out', w'))
    \<and> wf_buffer out'"
proof -
  let ?w = "\<lparr>wmem = place 0x1000 (put_le ZSTD_MAGICNUMBER), fw = 0x2000\<rparr> :: addr world"
  have "load_bytes (wmem ?w) 0x1000 4 = Ret (put_le ZSTD_MAGICNUMBER)"
    using place_load [of "put_le ZSTD_MAGICNUMBER" "0x1000"] by simp
  then have "has_magic True ZSTD_MAGICNUMBER (wmem ?w) four_bytes = Ret True"
    by (simp add: has_magic_def buffer_pos_def four_bytes_def load_w_def)
  moreover obtain i' out' w' where "decompress_zstd bump_services 4 (demo_codecs 10) four_bytes zero_buffer ?w
      = Some (Ret (EFI_SUCCESS, i', out', w'))" using demo_zstd_run [of ?w] by auto
  ultimately have run: "decompress True True bump_services 4 (demo_codecs 10) (Some four_bytes) (Some zero_buffer) ?w
      = Some (Ret (EFI_SUCCESS, Some i', Some out', w'))"
    by (simp add: decompress_def zero_buffer_def) (simp add: four_bytes_def)
  have "0 < (room :: u64) \<Longrightarrow> 1 \<le> room" for room by (simp add: word_le_nat_alt word_less_nat_alt)
  then have "lz4_progress (demo_codecs 10)" by (simp add: lz4_progress_def demo_codecs_def)
  then have "wf_buffer out'"
    using decompress_wf_output [OF run] by (simp add: wf_buffer_def four_bytes_def)
  with run show ?thesis by blast
qed

end
