(* ===== verification/Boot.thy ===== *)
theory Boot
  imports Initrd Decompress PE_Loader
begin

text \<open>
  \<^verbatim>\<open>src/main.c\<close>: the boot flow. Everything it depends on is in the record \<open>machine\<close>: the firmware's
  services, the processor and the file protocols, the codecs, the build options, the addresses
  of the objects whose address is taken, and the code outside this program that it calls: the
  entry point of the loaded kernel, an unload function other than the loader's own, and the
  device tree fixup protocol of the firmware. The stages of \<open>efi_main\<close> are definitions of
  their own, up to the final \<open>exit\<close>; text output is left out.
\<close>

unbundle bit_operations_syntax

record ('d, 'z, 'w) machine =
  m_bs :: "'w boot_services"
  m_rt :: "'w runtime_services"
  m_pf :: "'w platform"
  m_codecs :: "('d, 'z, 'w) codecs"
  m_tgt :: target
  m_floats :: "u64 \<Rightarrow> u16 list outcome"
  m_use_lz4 :: bool
  m_use_zstd :: bool
  m_use_dt_fixup :: bool
  m_statics :: initrd_statics
  at_unload :: addr
  at_buff :: addr
  at_data :: addr
  at_part_guid :: addr
  call_entry :: "addr \<Rightarrow> handle \<Rightarrow> addr \<Rightarrow> 'w world \<Rightarrow> (efi_status \<times> 'w world) outcome option"
  call_unload :: "addr \<Rightarrow> handle \<Rightarrow> 'w world \<Rightarrow> (efi_status \<times> 'w world) outcome option"
  call_dt_fixup :: "addr \<Rightarrow> addr \<Rightarrow> size_t \<Rightarrow> u32 \<Rightarrow> 'w world \<Rightarrow> efi_status \<times> size_t \<times> 'w world"

definition loader_guid :: efi_guid where
  "loader_guid = \<lparr>ms1 = 0x4a67b082, ms2 = 0x0a4c, ms3 = 0x41cf,
     ms4 = [0xb6, 0xc7, 0x44, 0x0b, 0x29, 0xbb, 0x8c, 0x4f]\<rparr>"

definition LOADER_NAME :: string where "LOADER_NAME = ''zloader''"
definition LOADER_VERSION :: string where "LOADER_VERSION = ''0.2''"

abbreviation boot_access :: u32 where
  "boot_access \<equiv> EFI_VARIABLE_BOOTSERVICE_ACCESS OR EFI_VARIABLE_RUNTIME_ACCESS"

text \<open>A variable of the boot loader interface, set with a format.\<close>

definition set_loader_var ::
    "('d, 'z, 'w, 'm) machine_scheme \<Rightarrow> string \<Rightarrow> string \<Rightarrow> print_arg list \<Rightarrow> 'w world \<Rightarrow> (efi_status \<times> 'w world) outcome option"
where
  "set_loader_var M name fmt as w =
     efi_var_set_printf (m_rt M) (m_floats M) (at_buff M) loader_guid (ws name) boot_access fmt as w"

section \<open>Starting an image\<close>

text \<open>Offsets of \<open>load_options_size\<close> and \<open>load_options\<close> in the loaded image protocol.\<close>

definition set_load_options :: "mem \<Rightarrow> addr \<Rightarrow> simple_buffer \<Rightarrow> mem outcome" where
  "set_load_options m lp options =
     obind (buffer_pos options) (\<lambda>p.
     obind (store_w m (lp + 56) p) (\<lambda>m.
     obind (buffer_len options) (\<lambda>n.
     store_w m (lp + 48) (ucast n :: u32))))"

definition note_exec_time ::
    "('d, 'z, 'w) machine \<Rightarrow> efilib_globals \<Rightarrow> 'w world \<Rightarrow> 'w world outcome option" where
  "note_exec_time M g w =
     (if BOOT_TIME_USECS g \<noteq> 0
      then let (t, w) = monotonic_time_usec (m_tgt M) (m_pf M) g w
           in rbind (set_loader_var M ''LoaderTimeExecUSec'' ''%lu'' [A_word t] w) (\<lambda>(_, w). Some (Ret w))
      else Some (Ret w))"

definition EFI_OPEN_PROTOCOL_GET_PROTOCOL :: u32 where "EFI_OPEN_PROTOCOL_GET_PROTOCOL = 2"

text \<open>Only in builds that let the firmware load the image.\<close>

definition image_start ::
    "('d, 'z, 'w) machine \<Rightarrow> efilib_globals \<Rightarrow> handle \<Rightarrow> simple_buffer \<Rightarrow> 'w world
     \<Rightarrow> (efi_status \<times> 'w world) outcome option" where
  "image_start M g img options w =
     once (c_assert (EFI_IMAGE g \<noteq> 0) (buffer_len options)) (\<lambda>n.
     let (err, lp, w) =
           (if n \<noteq> 0 then open_protocol (m_bs M) img efi_loaded_image_protocol_guid (EFI_IMAGE g)
                            EFI_OPEN_PROTOCOL_GET_PROTOCOL w
            else (EFI_SUCCESS, 0, w))
     in if EFI_ERROR err then Some (Ret (err, w))
        else
        once (if n \<noteq> 0 then set_load_options (wmem w) lp options else Ret (wmem w)) (\<lambda>m.
        rbind (note_exec_time M g (w\<lparr>wmem := m\<rparr>)) (\<lambda>w.
        let (err, w) = start_image (m_bs M) img w;
            (_, w) = close_protocol (m_bs M) lp efi_loaded_image_protocol_guid lp w
        in Some (Ret (err, w)))))"

definition execute_image_by_firmware ::
    "('d, 'z, 'w) machine \<Rightarrow> efilib_globals \<Rightarrow> simple_buffer \<Rightarrow> simple_buffer \<Rightarrow> 'w world
     \<Rightarrow> (efi_status \<times> 'w world) outcome option" where
  "execute_image_by_firmware M g b options w =
     once (c_assert (EFI_IMAGE g \<noteq> 0) (obind (buffer_pos b) (\<lambda>p. obind (buffer_len b) (\<lambda>n. Ret (p, n))))) (\<lambda>(p, n).
     once (create_memory_mapped_device_path (m_bs M) (EFI_POOL_ALLOCATION g) p n (EFI_POOL_ALLOCATION g) w) (\<lambda>(dp, w).
     let (err, img, w) = load_image (m_bs M) False (EFI_IMAGE g) dp p n w
     in rbind (if img \<noteq> 0
          then rbind (image_start M g img options w) (\<lambda>(err, w).
               let (_, w) = unload_image (m_bs M) img w in Some (Ret (err, w)))
          else Some (Ret (err, w))) (\<lambda>(err, w).
        Some (Ret (err, c_free (m_bs M) dp w)))))"

text \<open>The unload function that the loaded image protocol names, when the kernel has returned.\<close>

definition unload_kernel ::
    "('d, 'z, 'w) machine \<Rightarrow> efilib_globals \<Rightarrow> addr \<Rightarrow> handle \<Rightarrow> 'w world \<Rightarrow> (efi_status \<times> 'w world) outcome option"
where
  "unload_kernel M g lp img w =
     once (load_loaded_image (wmem w) lp) (\<lambda>li.
       if li_unload li = at_unload M then Some (unload_pe_file (m_bs M) g img w)
       else call_unload M (li_unload li) img w)"

definition no_image :: image_out where
  "no_image = \<lparr>out_image = 0, out_loaded_image = 0, out_entry_point = 0\<rparr>"

definition execute_image_from_memory ::
    "('d, 'z, 'w) machine \<Rightarrow> efilib_globals \<Rightarrow> simple_buffer \<Rightarrow> simple_buffer option \<Rightarrow> 'w world
     \<Rightarrow> (efi_status \<times> 'w world) outcome option" where
  "execute_image_from_memory M g b options w =
     once (PE_handle_image (m_bs M) (m_tgt M) g (at_unload M) (Some b) True no_image w) (\<lambda>(err, img, w).
     if EFI_ERROR err then Some (Ret (err, w))
     else
     once (case options of None \<Rightarrow> Ret (wmem w)
           | Some opts \<Rightarrow> obind (buffer_len opts) (\<lambda>n.
               if n > 0 then set_load_options (wmem w) (out_loaded_image img) opts else Ret (wmem w))) (\<lambda>m.
     rbind (note_exec_time M g (w\<lparr>wmem := m\<rparr>)) (\<lambda>w.
     rbind (call_entry M (out_entry_point img) (out_image img) (ST g) w) (\<lambda>(err, w).
     rbind (unload_kernel M g (out_loaded_image img) (out_image img) w) (\<lambda>(_, w).
     Some (Ret (err, w)))))))"

section \<open>Device tree\<close>

definition efi_dt_fixup_protocol_guid :: efi_guid where
  "efi_dt_fixup_protocol_guid = \<lparr>ms1 = 0xe617d64c, ms2 = 0xfe08, ms3 = 0x46da,
     ms4 = [0xf4, 0xdc, 0xbb, 0xd5, 0x87, 0x0c, 0x73, 0x00]\<rparr>"

definition efi_fdt_guid :: efi_guid where
  "efi_fdt_guid = \<lparr>ms1 = 0xb1b621d5, ms2 = 0xf19c, ms3 = 0x41a5,
     ms4 = [0x83, 0x0b, 0xd9, 0x15, 0x2c, 0x69, 0xaa, 0xe0]\<rparr>"

definition EFI_DT_FIXUP_PROTOCOL_REVISION :: u64 where "EFI_DT_FIXUP_PROTOCOL_REVISION = 0x00010000"
definition EFI_DT_APPLY_FIXUPS :: u32 where "EFI_DT_APPLY_FIXUPS = 1"
definition EFI_DT_RESERVE_MEMORY :: u32 where "EFI_DT_RESERVE_MEMORY = 2"
definition EFI_DT_ALL :: u32 where "EFI_DT_ALL = EFI_DT_APPLY_FIXUPS OR EFI_DT_RESERVE_MEMORY"

definition do_devicetree_fixup ::
    "('d, 'z, 'w) machine \<Rightarrow> simple_buffer \<Rightarrow> 'w world \<Rightarrow> (efi_status \<times> simple_buffer \<times> 'w world) outcome" where
  "do_devicetree_fixup M fdt w =
     (let (err, fixup, w) = locate_protocol (m_bs M) efi_dt_fixup_protocol_guid w
      in if EFI_ERROR err then Ret (err, fdt, w)
         else
         obind (load_w (wmem w) fixup) (\<lambda>revision.
         if revision < EFI_DT_FIXUP_PROTOCOL_REVISION then Ret (EFI_UNSUPPORTED, fdt, w)
         else
         obind (buffer_len fdt) (\<lambda>n.
         obind (buffer_pos fdt) (\<lambda>p.
         let (err, n, w) = call_dt_fixup M fixup p n EFI_DT_ALL w;
             (status, buf, w) = allocate_pool (m_bs M) EFI_ACPI_RECLAIM_MEMORY n w
         in if status \<noteq> EFI_SUCCESS then Ret (EFI_OUT_OF_RESOURCES, fdt, w)
            else
            obind (buffer_len fdt) (\<lambda>len.
            obind (memcpy (wmem w) buf p len) (\<lambda>m.
            let w = free_buffer (m_bs M) fdt (w\<lparr>wmem := m\<rparr>);
                fdt = fdt\<lparr>bfree := Free_Simple, buffer := buf, blength := n, allocated := n, bpos := 0\<rparr>
            in obind (if err = EFI_BUFFER_TOO_SMALL
                 then obind (buffer_pos fdt) (\<lambda>p.
                      let (err, n, w) = call_dt_fixup M fixup p n EFI_DT_ALL w in Ret (err, w))
                 else Ret (err, w)) (\<lambda>(err, w).
            if EFI_ERROR err then Ret (err, fdt, w)
            else
            let (err, w) = install_configuration_table (m_bs M) efi_fdt_guid (buffer fdt) w
            in if EFI_ERROR err then Ret (err, fdt, w)
               else Ret (EFI_SUCCESS, fdt\<lparr>bfree := Free_None\<rparr>, w))))))))"

section \<open>Loader variables\<close>

text \<open>
  A text the firmware owns, as far as it is mapped. 128 characters are enough: more than the 100 of
  \<open>efi_var_set_printf\<close> overrun its array, whatever follows.
\<close>

primrec wide_text :: "nat \<Rightarrow> mem \<Rightarrow> addr \<Rightarrow> u16 list" where
  "wide_text 0 m a = []"
| "wide_text (Suc n) m a =
     (case load_w m a of
        Ret c \<Rightarrow> c # (if c = 0 then [] else wide_text n m (a + 2))
      | _ \<Rightarrow> [])"

text \<open>\<open>ST->firmware_vendor\<close> and \<open>ST->firmware_revision\<close>.\<close>

definition firmware_vendor :: "mem \<Rightarrow> addr \<Rightarrow> addr outcome" where
  "firmware_vendor m st = load_w m (st + 24)"

definition firmware_revision :: "mem \<Rightarrow> addr \<Rightarrow> u32 outcome" where
  "firmware_revision m st = load_w m (st + 32)"

text \<open>A variable that is only set when the boot loader before this one has not set it.\<close>

definition set_new_loader_var ::
    "('d, 'z, 'w, 'm) machine_scheme \<Rightarrow> bool \<Rightarrow> string \<Rightarrow> string \<Rightarrow> print_arg list \<Rightarrow> 'w world \<Rightarrow> 'w world outcome option"
where
  "set_new_loader_var M also_if name fmt as w =
     (let (attributes, w) = efi_var_attributes (m_rt M) loader_guid (ws name) w
      in if attributes = 0 \<and> also_if
         then rbind (set_loader_var M name fmt as w) (\<lambda>(_, w). Some (Ret w))
         else Some (Ret w))"

definition set_systemd_variables ::
    "('d, 'z, 'w) machine \<Rightarrow> efilib_globals \<Rightarrow> efi_loaded_image \<Rightarrow> 'w world \<Rightarrow> 'w world outcome option" where
  "set_systemd_variables M g li w =
     rbind (set_loader_var M ''StubInfo'' ''%s %s''
        [A_str (Some (map (\<lambda>c. of_nat (of_char c)) LOADER_NAME @ [0])),
         A_str (Some (map (\<lambda>c. of_nat (of_char c)) LOADER_VERSION @ [0]))] w) (\<lambda>(_, w).
     rbind (set_new_loader_var M (BOOT_TIME_USECS g \<noteq> 0) ''LoaderTimeInitUSec'' ''%lu''
        [A_word (BOOT_TIME_USECS g)] w) (\<lambda>w.
     once (firmware_vendor (wmem w) (ST g)) (\<lambda>vendor.
     once (firmware_revision (wmem w) (ST g)) (\<lambda>frev.
     rbind (set_loader_var M ''LoaderFirmwareInfo'' ''%ls %hx.%02hx''
        [A_wstr (if vendor = 0 then None else Some (wide_text 128 (wmem w) vendor)),
         A32 (drop_bit 16 frev), A32 frev] w) (\<lambda>(_, w).
     once (table_revision (wmem w) (ST g)) (\<lambda>rev.
     rbind (set_loader_var M ''LoaderFirmwareType'' ''UEFI %hu.%02hu''
        [A32 (drop_bit 16 rev), A32 rev] w) (\<lambda>(_, w).
     rbind (set_new_loader_var M True ''LoaderImageIdentifier'' ''%D'' [A_path (li_file_path li)] w) (\<lambda>w.
     let (_, dp, w) = open_protocol (m_bs M) (li_device_handle li) efi_device_path_protocol_guid
           (EFI_IMAGE g) EFI_OPEN_PROTOCOL_BY_HANDLE_PROTOCOL w
     in rbind (get_part_uuid_from_device_path (wmem w) dp (at_part_guid M)) (\<lambda>(status, m).
        let w = w\<lparr>wmem := m\<rparr>
        in if status = EFI_SUCCESS
           then once (load_bytes m (at_part_guid M) 16) (\<lambda>bs.
                set_new_loader_var M True ''LoaderDevicePartUUID'' ''%g'' [A_guid (get_efi_guid bs)] w)
           else Some (Ret w))))))))))"

section \<open>The boot flow\<close>

definition secure_boot_enabled ::
    "('d, 'z, 'w) machine \<Rightarrow> 'w world \<Rightarrow> (bool \<times> 'w world) outcome" where
  "secure_boot_enabled M w =
     (let (err, _, w) = efi_var_get (m_rt M) efi_global_variable_guid (ws ''SecureBoot'') 1 (at_data M) w
      in if err = EFI_SUCCESS then obind (load_w (wmem w) (at_data M)) (\<lambda>b :: u8. Ret (b = 1, w))
         else Ret (False, w))"

text \<open>The five sections; an entry's short name is padded with zeros.\<close>

definition section_entry :: "string \<Rightarrow> PE_locate_section" where
  "section_entry name =
     \<lparr>ls_name = take 8 (map (\<lambda>c. of_nat (of_char c)) name @ replicate 8 0),
      ls_load_address = 0, ls_offset = 0, ls_size = 0\<rparr>"

definition boot_sections :: "PE_locate_section list" where
  "boot_sections = [section_entry ''.osrel'', section_entry ''.cmdline'', section_entry ''.linux'',
     section_entry ''.initrd'', section_entry ''.dtb'']"

definition SECTION_CMDLINE :: nat where "SECTION_CMDLINE = 1"
definition SECTION_LINUX :: nat where "SECTION_LINUX = 2"
definition SECTION_INITRD :: nat where "SECTION_INITRD = 3"
definition SECTION_FDT :: nat where "SECTION_FDT = 4"

definition find_sections ::
    "('d, 'z, 'w) machine \<Rightarrow> efi_loaded_image \<Rightarrow> mem \<Rightarrow> PE_locate_section list outcome" where
  "find_sections M li m =
     obind (PE_locate_sections (m_tgt M) m (li_image_base li) (li_image_size li) (Some boot_sections))
       (\<lambda>(ok, ls).
        case (ok, ls) of
          (True, Some ls) \<Rightarrow>
            if ls_load_address (ls ! SECTION_LINUX) = 0 \<or> ls_size (ls ! SECTION_LINUX) = 0
            then Exit EFI_UNSUPPORTED
            else Ret ls
        | _ \<Rightarrow> Exit EFI_UNSUPPORTED)"

text \<open>The command line: from the load options, unless Secure Boot is on, or from the image.\<close>

definition boot_options ::
    "('d, 'z, 'w) machine \<Rightarrow> efilib_globals \<Rightarrow> efi_loaded_image \<Rightarrow> bool \<Rightarrow> PE_locate_section \<Rightarrow> 'w world
     \<Rightarrow> (simple_buffer \<times> 'w world) outcome" where
  "boot_options M g li secure_boot cmdline w =
     (if li_load_options_size li > 0 \<and> \<not> secure_boot
      then Ret (zero_buffer\<lparr>buffer := li_load_options li, allocated := ucast (li_load_options_size li),
                  blength := ucast (li_load_options_size li)\<rparr>, w)
      else if ls_load_address cmdline \<noteq> 0
      then
        let (ok, b, w) = allocate_simple_buffer (m_bs M) (EFI_POOL_ALLOCATION g)
              ((ls_size cmdline + 1) * 2) zero_buffer w
        in if \<not> ok then Exit EFI_OUT_OF_RESOURCES
           else
           obind (load_bytes (wmem w) (li_image_base li + ls_load_address cmdline)
                    (unat (ls_size cmdline))) (\<lambda>src.
           obind (mbstowcs src (unat (ls_size cmdline))) (\<lambda>cs.
           obind (store_bytes (wmem w) (buffer b) (utf16_bytes (cs @ [0]))) (\<lambda>m.
           Ret (b\<lparr>blength := of_nat (length cs) * 2\<rparr>, w\<lparr>wmem := m\<rparr>))))
      else Ret (zero_buffer, w))"

text \<open>The initializer of \<open>initrd\<close> and \<open>fdt\<close> sets the address and the length only.\<close>

definition embedded_buffer :: "efi_loaded_image \<Rightarrow> PE_locate_section \<Rightarrow> simple_buffer" where
  "embedded_buffer li sec =
     zero_buffer\<lparr>buffer := li_image_base li + ls_load_address sec, blength := ls_size sec\<rparr>"

definition boot_initrd ::
    "('d, 'z, 'w) machine \<Rightarrow> efi_loaded_image \<Rightarrow> PE_locate_section \<Rightarrow> initrd_state \<Rightarrow> 'w world
     \<Rightarrow> (initrd_state \<times> 'w world) outcome" where
  "boot_initrd M li sec s w =
     (if ls_load_address sec \<noteq> 0
      then obind (initrd_register (m_bs M) (m_statics M) (Some (embedded_buffer li sec)) s w)
             (\<lambda>(_, s, w). Ret (s, w))
      else Ret (s, w))"

definition boot_fdt ::
    "('d, 'z, 'w) machine \<Rightarrow> efi_loaded_image \<Rightarrow> PE_locate_section \<Rightarrow> 'w world \<Rightarrow> 'w world outcome" where
  "boot_fdt M li sec w =
     (if m_use_dt_fixup M \<and> ls_load_address sec \<noteq> 0
      then obind (do_devicetree_fixup M (embedded_buffer li sec) w) (\<lambda>(_, _, w). Ret w)
      else Ret w)"

definition linux_section :: "efi_loaded_image \<Rightarrow> PE_locate_section \<Rightarrow> simple_buffer" where
  "linux_section li sec = (embedded_buffer li sec)\<lparr>allocated := ls_size sec\<rparr>"

text \<open>Decompressing and starting the kernel; the assertion is about the time that took.\<close>

definition boot_kernel ::
    "('d, 'z, 'w) machine \<Rightarrow> efilib_globals \<Rightarrow> efi_loaded_image \<Rightarrow> PE_locate_section \<Rightarrow> simple_buffer
     \<Rightarrow> 'w world \<Rightarrow> (efi_status \<times> 'w world) outcome option" where
  "boot_kernel M g li sec options w =
     (let (t0, w) = monotonic_time_usec (m_tgt M) (m_pf M) g w
      in rbind (decompress (m_use_zstd M) (m_use_lz4 M) (m_bs M) (EFI_POOL_ALLOCATION g) (m_codecs M)
                  (Some (linux_section li sec)) (Some zero_buffer) w) (\<lambda>(err, _, res, w).
         if EFI_ERROR err then Some (Ret (err, w))
         else
         let (t1, w) = monotonic_time_usec (m_tgt M) (m_pf M) g w
         in once (c_assert (t1 - t0 > 0) (Ret ())) (\<lambda>_.
            case res of None \<Rightarrow> Some UB
            | Some decompressed \<Rightarrow> execute_image_from_memory M g decompressed (Some options) w)))"

text \<open>From the initialized library up to the final \<open>exit\<close>: its status, and the state of \<^verbatim>\<open>initrd.c\<close>.\<close>

definition boot_stages ::
    "('d, 'z, 'w) machine \<Rightarrow> efilib_globals \<Rightarrow> efi_loaded_image \<Rightarrow> 'w world
     \<Rightarrow> (efi_status \<times> initrd_state \<times> 'w world) outcome option" where
  "boot_stages M g li w =
     once (secure_boot_enabled M w) (\<lambda>(secure_boot, w).
     rbind (set_systemd_variables M g li w) (\<lambda>w.
     once (find_sections M li (wmem w)) (\<lambda>secs.
     once (boot_options M g li secure_boot (secs ! SECTION_CMDLINE) w) (\<lambda>(options, w).
     once (boot_initrd M li (secs ! SECTION_INITRD) initrd_zero w) (\<lambda>(s, w).
     once (boot_fdt M li (secs ! SECTION_FDT) w) (\<lambda>w.
     rbind (boot_kernel M g li (secs ! SECTION_LINUX) options w) (\<lambda>(err, w).
     let (_, s, w) = initrd_deregister (m_bs M) (m_statics M) s w
     in Some (Ret (err, s, w)))))))))"

definition boot ::
    "('d, 'z, 'w) machine \<Rightarrow> handle \<Rightarrow> addr \<Rightarrow> 'w world \<Rightarrow> (efi_status \<times> initrd_state \<times> 'w world) outcome option"
where
  "boot M img sys_table w =
     once (initialize_library (m_tgt M) (m_bs M) (m_pf M) img sys_table w) (\<lambda>(g, w).
     case EFI_LOADED_IMAGE g of None \<Rightarrow> Some (Exit EFI_UNSUPPORTED) | Some li \<Rightarrow> boot_stages M g li w)"

definition efi_main ::
    "('d, 'z, 'w) machine \<Rightarrow> handle \<Rightarrow> addr \<Rightarrow> 'w world \<Rightarrow> unit outcome option" where
  "efi_main M img sys_table w = rbind (boot M img sys_table w) (\<lambda>(err, _, _). Some (Exit err))"

end
