(* ===== verification/Boot_Props.thy ===== *)
theory Boot_Props
  imports Boot Efi_Lib_Props Initrd_Props Decompress_Props PE_Loader_Props
begin

text \<open>
  Properties of the boot flow: the command line the kernel gets, the embedded initial ram disk, and
  how a kernel is started.
\<close>

unbundle bit_operations_syntax

section \<open>The command line\<close>

text \<open>Other load options, and the globals that hold them.\<close>

definition with_options :: "u32 \<Rightarrow> addr \<Rightarrow> efi_loaded_image \<Rightarrow> efi_loaded_image" where
  "with_options n a li = li\<lparr>li_load_options_size := n, li_load_options := a\<rparr>"

lemma with_options_simps [simp]:
  "li_device_handle (with_options n a li) = li_device_handle li"
  "li_file_path (with_options n a li) = li_file_path li"
  "li_image_base (with_options n a li) = li_image_base li"
  "li_image_size (with_options n a li) = li_image_size li"
  by (simp_all add: with_options_def)

lemma boot_kernel_with_options:
  assumes "EFI_LOADED_IMAGE g = Some li"
  shows "boot_kernel M (g\<lparr>EFI_LOADED_IMAGE := Some (with_options n a li)\<rparr>) (with_options n a li) sec options w
    = boot_kernel M g li sec options w"
proof -
  let ?g = "g\<lparr>EFI_LOADED_IMAGE := Some (with_options n a li)\<rparr>"
  have "PE_handle_image BS tgt ?g u b outs out v = PE_handle_image BS tgt g u b outs out v"
    for BS tgt u b outs out and v :: "'a world"
    by (simp add: PE_handle_image_def register_image_def build_loaded_image_def assms cong: prod.case_cong option.case_cong if_cong)
  moreover have "unload_pe_file BS ?g h v = unload_pe_file BS g h v" for BS h and v :: "'a world"
    by (simp add: unload_pe_file_def cong: prod.case_cong option.case_cong if_cong)
  moreover have "monotonic_time_usec tgt pf ?g v = monotonic_time_usec tgt pf g v" for tgt pf and v :: "'a world"
    by (simp add: monotonic_time_usec_def cong: prod.case_cong option.case_cong if_cong)
  ultimately have "execute_image_from_memory M ?g b options v = execute_image_from_memory M g b options v" for b options v
    by (simp add: execute_image_from_memory_def note_exec_time_def unload_kernel_def cong: prod.case_cong option.case_cong if_cong)
  then show ?thesis
    by (simp add: boot_kernel_def monotonic_time_usec_def linux_section_def embedded_buffer_def
        cong: prod.case_cong option.case_cong if_cong)
qed

text \<open>
  C14. Under Secure Boot nothing in the boot flow depends on the load options that the previous boot
  stage passed: for other options, everything that happens is the same.
\<close>

theorem secure_boot_ignores_load_options:
  assumes "EFI_LOADED_IMAGE g = Some li" and "secure_boot_enabled M w = Ret (True, w1)"
  shows "boot_stages M (g\<lparr>EFI_LOADED_IMAGE := Some (with_options n a li)\<rparr>) (with_options n a li) w
    = boot_stages M g li w"
  using assms(2)
  by (simp add: boot_stages_def set_systemd_variables_def find_sections_def boot_options_def
      boot_initrd_def boot_fdt_def embedded_buffer_def boot_kernel_with_options [OF assms(1)]
      cong: prod.case_cong option.case_cong if_cong)

text \<open>
  C16. In Secure Boot mode, or when there are no load options, the command line is the text of the
  command line section: UTF-8 text there ends up in the buffer in UTF-16, with a null behind it
  that the length does not count.
\<close>

theorem embedded_cmdline_decoded:
  fixes M :: "('d, 'z, 'w) machine"
  assumes "secure_boot \<or> li_load_options_size li = 0" and "ls_load_address sec \<noteq> 0"
    and pool: "malloc (m_bs M) (EFI_POOL_ALLOCATION g) ((ls_size sec + 1) * 2) w = (p, w1)" "p \<noteq> 0"
      "mapped (wmem w1) p (2 * length cs + 2)" "length cs < 2 ^ 63"
    and utf8: "load_bytes (wmem w1) (li_image_base li + ls_load_address sec) (unat (ls_size sec))
      = Ret (concat (map utf8_encode cs))"
  shows "\<exists>b w'. boot_options M g li secure_boot sec w = Ret (b, w') \<and> buffer b = p
    \<and> blength b = 2 * of_nat (length cs) \<and> bpos b = 0
    \<and> load_bytes (wmem w') p (2 * length cs + 2) = Ret (utf16_bytes (cs @ [0]))"
proof -
  let ?b = "zero_buffer\<lparr>buffer := p, blength := 0, bpos := 0, allocated := (ls_size sec + 1) * 2, bfree := Free_Simple\<rparr>"
  have n: "unat (ls_size sec) = length (concat (map utf8_encode cs))"
    using load_bytes_length [OF utf8] by simp
  have dec: "mbstowcs (concat (map utf8_encode cs)) (unat (ls_size sec)) = Ret cs"
    using mbstowcs_encode [of cs "[]"] n by simp
  have len: "length (utf16_bytes (cs @ [0])) = Suc (Suc (2 * length cs))" by (simp add: length_utf16_bytes)
  obtain m where m: "store_bytes (wmem w1) p (utf16_bytes (cs @ [0])) = Ret m"
    using pool(3) store_bytes_iff_mapped [of "wmem w1" p "utf16_bytes (cs @ [0])"] len by auto
  have "boot_options M g li secure_boot sec w = Ret (?b\<lparr>blength := of_nat (length cs) * 2\<rparr>, w1\<lparr>wmem := m\<rparr>)"
    using assms(1,2) pool utf8 dec m
    by (auto simp: boot_options_def allocate_simple_buffer_def Let_def)
  moreover have "load_bytes m p (2 * length cs + 2) = Ret (utf16_bytes (cs @ [0]))"
    using load_store_same [OF m] len pool(4) by simp
  ultimately show ?thesis by fastforce
qed

section \<open>The embedded initial ram disk\<close>

text \<open>
  C18. An initial ram disk that is embedded in the image is registered but cannot be served: its
  buffer is set up without the allocated size, so that the assertion on the read position stops the
  machine when a client asks for the contents (with a buffer that is large enough).
\<close>

theorem embedded_initrd_not_served:
  assumes "ls_load_address sec \<noteq> 0" and "ls_size sec \<noteq> 0" and "li_image_base li + ls_load_address sec \<noteq> 0"
    and "boot_initrd M li sec s w = Ret (s', w')"
    and "at_load_file2 (m_statics M) \<noteq> 0" and "bsize \<noteq> 0" and "path \<noteq> 0" and "buf \<noteq> 0"
    and "load_dp m path = Ret end_device_path" and "load_w m bsize = Ret room" and "ls_size sec \<le> room"
  shows "initrd_buffer s' = embedded_buffer li sec
    \<and> fl2_load_file (m_statics M) (initrd_buffer s') (at_load_file2 (m_statics M)) path False bsize buf m
      = Exit EFI_UNSUPPORTED"
proof -
  have b: "buffer (embedded_buffer li sec) \<noteq> 0" "blength (embedded_buffer li sec) \<noteq> 0"
    "buffer_len (embedded_buffer li sec) = Ret (ls_size sec)"
    "buffer_pos (embedded_buffer li sec) = Exit EFI_UNSUPPORTED"
    using assms(2,3) by (simp_all add: embedded_buffer_def zero_buffer_def buffer_len_def buffer_pos_def c_assert_def word_gt_0)
  have s': "initrd_buffer s' = embedded_buffer li sec"
    using assms(1,4) b by (auto simp: boot_initrd_def initrd_register_def Let_def outcome_iff split: prod.splits)
  have "\<not> room < ls_size sec" using assms(11) by simp
  then show ?thesis using assms b s' by (simp add: fl2_load_file_def end_device_path_def)
qed

section \<open>Starting the kernel\<close>

lemma store_bytes_part:
  assumes "load_bytes m a n = Ret bs" and "k + length v \<le> n" and "n \<le> 2 ^ 64" and "mapped m a n"
  shows "\<exists>m'. store_bytes m (a + of_nat k) v = Ret m' \<and> load_bytes m' a n = Ret (take k bs @ v @ drop (k + length v) bs)
    \<and> (\<forall>x. \<not> in_range a n x \<longrightarrow> m' x = m x)"
proof -
  let ?k = "k + length v"
  obtain m' where m': "store_bytes m (a + of_nat k) v = Ret m'"
    using store_bytes_iff_mapped mapped_sub [OF assms(4,2)] by blast
  have len: "length bs = n" using assms(1) by (rule load_bytes_length)
  have pre: "load_bytes m' a k = Ret (take k bs)"
    using load_store_disjoint [OF m'] in_range_gap [of k "length v" a] load_bytes_sub [OF assms(1), of 0 k] assms(2,3)
    by auto
  have mid: "load_bytes m' (a + of_nat k) (length v) = Ret v"
    using load_store_same [OF m'] assms(2,3) by simp
  have "load_bytes m' (a + of_nat k + of_nat (length v)) (n - ?k) = load_bytes m (a + of_nat k + of_nat (length v)) (n - ?k)"
    by (rule load_store_disjoint [OF m']) (use in_range_gap [of "length v" "n - ?k" "a + of_nat k"] assms(2,3) in fastforce)
  also have "\<dots> = Ret (take (n - ?k) (drop ?k bs))"
    using load_bytes_sub [OF assms(1), of ?k "n - ?k"] assms(2) by (simp add: add.assoc)
  finally have post: "load_bytes m' (a + of_nat k + of_nat (length v)) (n - ?k) = Ret (drop ?k bs)"
    using len by simp
  have "load_bytes m' a (k + (length v + (n - ?k))) = Ret (take k bs @ v @ drop ?k bs)"
    by (rule load_bytes_append [OF pre load_bytes_append [OF mid post]])
  moreover have "k + (length v + (n - ?k)) = n" using assms(2) by simp
  moreover have "m' x = m x" if "\<not> in_range a n x" for x
  proof (rule store_bytes_frame [OF m'])
    have "unat (of_nat k :: addr) \<le> k" by (simp add: unsigned_of_nat)
    then show "\<not> in_range (a + of_nat k) (length v) x"
      using that in_range_shift [of a "of_nat k" "length v" x] in_range_mono [of a _ x n] assms(2) by fastforce
  qed
  ultimately show ?thesis using m' by metis
qed

lemma set_load_options_stored:
  assumes "load_loaded_image m lp = Ret li" and "buffer_pos options = Ret p" and "buffer_len options = Ret n"
  shows "\<exists>m'. set_load_options m lp options = Ret m'
    \<and> load_loaded_image m' lp = Ret (li\<lparr>li_load_options_size := ucast n, li_load_options := p\<rparr>)
    \<and> (\<forall>x. \<not> in_range lp 96 x \<longrightarrow> m' x = m x)"
proof -
  obtain bs where bs: "load_bytes m lp 96 = Ret bs" "li = get_loaded_image bs"
    using assms(1) by (auto simp: load_loaded_image_def outcome_iff)
  obtain m1 where m1: "store_w m (lp + 56) p = Ret m1"
      "load_bytes m1 lp 96 = Ret (take 56 bs @ put_le p @ drop 64 bs)"
      "\<And>x. \<not> in_range lp 96 x \<Longrightarrow> m1 x = m x"
    using store_bytes_part [OF bs(1), of 56 "put_le p"] load_mappedI [OF bs(1)] by (auto simp: store_w_def)
  obtain m2 where m2: "store_w m1 (lp + 48) (ucast n :: u32) = Ret m2"
      "load_bytes m2 lp 96 = Ret (take 48 bs @ put_le (ucast n :: u32) @ take 4 (drop 52 bs) @ put_le p @ drop 64 bs)"
      "\<And>x. \<not> in_range lp 96 x \<Longrightarrow> m2 x = m1 x"
    using store_bytes_part [OF m1(2), of 48 "put_le (ucast n :: u32)"] load_mappedI [OF m1(2)] load_bytes_length [OF bs(1)]
    by (auto simp: store_w_def drop_take min_def)
  have "load_loaded_image m2 lp = Ret (li\<lparr>li_load_options_size := ucast n, li_load_options := p\<rparr>)"
    using m2(2) load_bytes_length [OF bs(1)] bs(2)
    by (simp add: load_loaded_image_def get_loaded_image_def field_def drop_take min_def)
  then show ?thesis using m1 m2 assms by (auto simp: set_load_options_def)
qed

text \<open>
  C15. Starting a kernel: once its image is loaded, the load options go into the two fields of the
  loaded image protocol and nowhere else, the time is noted, and the entry point of the image (not
  null) is called with the image handle and the system table; when the kernel returns, the image is
  unloaded and the kernel's status is the result.
\<close>

theorem execute_image_starts_kernel:
  fixes M :: "('d, 'z, 'w) machine"
  assumes load: "PE_handle_image (m_bs M) (m_tgt M) g (at_unload M) (Some b) True no_image w = Ret (err, img, w1)"
      "\<not> EFI_ERROR err"
    and li: "load_loaded_image (wmem w1) (out_loaded_image img) = Ret li"
    and options: "buffer_pos options = Ret p" "buffer_len options = Ret n"
  shows "out_entry_point img \<noteq> 0 \<and> (\<exists>m.
      load_loaded_image m (out_loaded_image img) = Ret (li\<lparr>li_load_options_size := ucast n, li_load_options := p\<rparr>)
    \<and> (\<forall>x. \<not> in_range (out_loaded_image img) 96 x \<longrightarrow> m x = wmem w1 x)
    \<and> execute_image_from_memory M g b (Some options) w =
        rbind (note_exec_time M g (w1\<lparr>wmem := m\<rparr>)) (\<lambda>w2.
        rbind (call_entry M (out_entry_point img) (out_image img) (ST g) w2) (\<lambda>(status, w3).
        rbind (unload_kernel M g (out_loaded_image img) (out_image img) w3) (\<lambda>(_, w4).
        Some (Ret (status, w4))))))"
proof -
  have "n > 0" using options(2) by (auto simp: buffer_len_def outcome_iff c_assert_def word_gt_0 split: if_splits)
  moreover have "out_entry_point img \<noteq> 0" using PE_handle_image_cases [OF load(1)] load(2) by auto
  moreover obtain m where "set_load_options (wmem w1) (out_loaded_image img) options = Ret m"
      "load_loaded_image m (out_loaded_image img) = Ret (li\<lparr>li_load_options_size := ucast n, li_load_options := p\<rparr>)"
      "\<forall>x. \<not> in_range (out_loaded_image img) 96 x \<longrightarrow> m x = wmem w1 x"
    using set_load_options_stored [OF li options] by blast
  ultimately show ?thesis using load options by (auto simp: execute_image_from_memory_def)
qed

text \<open>
  Without load options and without a command line section the loader starts no kernel: the
  empty options buffer fails an assertion, so that whatever the kernel would do, the outcome
  is the same.
\<close>

theorem no_command_line_no_kernel:
  assumes "li_load_options_size li = 0" and "ls_load_address cmdline = 0"
  shows "boot_options M g li secure_boot cmdline w = Ret (zero_buffer, w)
    \<and> boot_kernel (M\<lparr>call_entry := entry\<rparr>) g li sec zero_buffer v = boot_kernel M g li sec zero_buffer v"
proof -
  have empty: "buffer_len zero_buffer = Exit EFI_UNSUPPORTED"
    by (simp add: buffer_len_def zero_buffer_def c_assert_def)
  have "execute_image_from_memory (M\<lparr>call_entry := entry\<rparr>) g b (Some zero_buffer) v
      = execute_image_from_memory M g b (Some zero_buffer) v" for b v
    by (simp add: execute_image_from_memory_def empty cong: prod.case_cong if_cong)
  then show ?thesis using assms
    by (simp add: boot_options_def boot_kernel_def cong: prod.case_cong option.case_cong if_cong)
qed

text \<open>
  C17. An uncompressed kernel is started in place, from its section in the image, provided that the
  clock has moved while the loader looked at it; on a clock that has not, an assertion stops the
  machine.
\<close>

theorem boot_kernel_uncompressed:
  fixes M :: "('d, 'z, 'w) machine"
  assumes "li_image_base li + ls_load_address sec \<noteq> 0" and "ls_size sec \<noteq> 0"
    and "monotonic_time_usec (m_tgt M) (m_pf M) g w = (t0, w0)"
    and "has_magic (m_use_zstd M) ZSTD_MAGICNUMBER (wmem w0) (linux_section li sec) = Ret False"
    and "has_magic (m_use_lz4 M) LZ4_MAGICNUMBER (wmem w0) (linux_section li sec) = Ret False"
    and "PE_header (wmem w0) (linux_section li sec) = Ret off" and "off \<noteq> 0"
    and "monotonic_time_usec (m_tgt M) (m_pf M) g w0 = (t1, w1)"
  shows "boot_kernel M g li sec options w =
    (if t0 = t1 then Some (Exit EFI_UNSUPPORTED)
     else execute_image_from_memory M g (linux_section li sec) (Some options) w1)"
proof -
  have b: "buffer (linux_section li sec) \<noteq> 0" "blength (linux_section li sec) \<noteq> 0"
    "buffer zero_buffer = 0" "blength zero_buffer = 0"
    using assms(1,2) by (simp_all add: linux_section_def embedded_buffer_def zero_buffer_def)
  have out: "zero_buffer\<lparr>buffer := buffer (linux_section li sec), allocated := blength (linux_section li sec),
      blength := blength (linux_section li sec), bpos := bpos (linux_section li sec), bfree := Free_None\<rparr>
      = linux_section li sec"
    by (simp add: linux_section_def embedded_buffer_def zero_buffer_def)
  have "decompress (m_use_zstd M) (m_use_lz4 M) (m_bs M) (EFI_POOL_ALLOCATION g) (m_codecs M)
      (Some (linux_section li sec)) (Some zero_buffer) w0
    = Some (Ret (EFI_SUCCESS, Some (linux_section li sec), Some (linux_section li sec), w0))"
    using b assms(4-7) out by (simp add: decompress_def word_gt_0)
  then show ?thesis using assms(3,8) by (simp add: boot_kernel_def c_assert_def word_gt_0)
qed

section \<open>A concrete machine\<close>

text \<open>
  The clock stands still, every variable reads as a single 1, every protocol can be installed and a
  kernel returns at once.
\<close>

definition still_platform :: "addr platform" where
  "still_platform = \<lparr>rdtsc = (\<lambda>w. (7, 0, w)), cntpct = (\<lambda>w. (7, w)), cntfrq = 1000000,
     bs_stall = (\<lambda>_ w. (EFI_SUCCESS, w)), open_volume = (\<lambda>_ w. (EFI_SUCCESS, 0, w)),
     file_open = (\<lambda>_ _ _ _ w. (EFI_NOT_FOUND, 0, w)), file_close = (\<lambda>_ w. (EFI_SUCCESS, w)),
     file_read = (\<lambda>_ n _ w. (EFI_DEVICE_ERROR, n, w)), get_info = (\<lambda>_ _ n _ w. (EFI_DEVICE_ERROR, n, w))\<rparr>"

definition demo_machine :: "(unit, unit, addr) machine" where
  "demo_machine = \<lparr>m_bs = accepting_services,
     m_rt = \<lparr>get_variable = (\<lambda>_ _ _ a w. (EFI_SUCCESS, 6, 1, w\<lparr>wmem := (wmem w)(a \<mapsto> 1)\<rparr>)),
             set_variable = (\<lambda>_ _ _ _ _ w. (EFI_SUCCESS, w))\<rparr>,
     m_pf = still_platform, m_codecs = demo_codecs 0, m_tgt = X86_64, m_floats = (\<lambda>_. UB),
     m_use_lz4 = False, m_use_zstd = False, m_use_dt_fixup = False, m_statics = some_statics,
     at_unload = 9, at_buff = 0x100, at_data = 0x200, at_part_guid = 0x300,
     call_entry = (\<lambda>_ _ _ w. Some (Ret (EFI_SUCCESS, w))), call_unload = (\<lambda>_ _ w. Some (Ret (EFI_SUCCESS, w))),
     call_dt_fixup = (\<lambda>_ _ n _ w. (EFI_UNSUPPORTED, n, w))\<rparr>"

lemma demo_machine_simps [simp]:
  "m_bs demo_machine = accepting_services" "m_tgt demo_machine = X86_64" "m_pf demo_machine = still_platform"
  "m_use_lz4 demo_machine = False" "m_use_zstd demo_machine = False" "m_statics demo_machine = some_statics"
  "at_unload demo_machine = 9" "at_data demo_machine = 0x200"
  "efi_var_get (m_rt demo_machine) guid name n a w = (EFI_SUCCESS, 1, w\<lparr>wmem := (wmem w)(a \<mapsto> 1)\<rparr>)"
  by (simp_all add: demo_machine_def efi_var_get_def)

theorem secure_boot_ignores_load_options_witness:
  "boot_stages demo_machine (demo_globals\<lparr>EFI_LOADED_IMAGE := Some (with_options 4 0x9000 boot_image)\<rparr>)
      (with_options 4 0x9000 boot_image) demo_world
    = boot_stages demo_machine (demo_globals\<lparr>EFI_LOADED_IMAGE := Some boot_image\<rparr>) boot_image demo_world"
proof -
  have "load_w ((wmem demo_world)(0x200 \<mapsto> 1)) 0x200 = Ret (1 :: u8)"
    by (simp add: load_w_def get_le_def)
  then have "secure_boot_enabled demo_machine demo_world
      = Ret (True, demo_world\<lparr>wmem := (wmem demo_world)(0x200 \<mapsto> 1)\<rparr>)"
    by (simp add: secure_boot_enabled_def)
  then show ?thesis
    using secure_boot_ignores_load_options [of "demo_globals\<lparr>EFI_LOADED_IMAGE := Some boot_image\<rparr>" boot_image
        demo_machine demo_world _ 4 "0x9000"] by simp
qed

theorem embedded_initrd_not_served_witness:
  "\<exists>s' w'. boot_initrd demo_machine boot_image \<lparr>ls_name = [], ls_load_address = 1, ls_offset = 0, ls_size = 3\<rparr>
      initrd_zero demo_world = Ret (s', w')
    \<and> fl2_load_file some_statics (initrd_buffer s') 8 0x1008 False 0x1000 0x2000
        (place 0x1000 (put_le (5 :: u64) @ put_dp end_device_path)) = Exit EFI_UNSUPPORTED"
proof -
  let ?sec = "\<lparr>ls_name = [], ls_load_address = 1, ls_offset = 0, ls_size = 3\<rparr>"
    and ?bs = "put_le (5 :: u64) @ put_dp end_device_path"
  have "\<exists>r. boot_initrd demo_machine boot_image ?sec initrd_zero demo_world = Ret r"
    by (simp add: boot_initrd_def initrd_register_def Let_def split: prod.split)
  then obtain s' w' where reg: "boot_initrd demo_machine boot_image ?sec initrd_zero demo_world = Ret (s', w')"
    by auto
  have f: "load_bytes (place 0x1000 ?bs) (0x1000 + of_nat k) j = Ret (field k j ?bs)" if "k + j \<le> 12" for k j
    by (rule load_place_field) (use that in \<open>simp_all add: dp_codec.length_enc\<close>)
  have "load_dp (place 0x1000 ?bs) 0x1008 = Ret end_device_path"
    using f [of 8 4] by (simp add: load_dp_def field_cons dp_codec.length_enc dp_codec.dec_enc)
  moreover have "load_w (place 0x1000 ?bs) 0x1000 = Ret (5 :: u64)"
    using f [of 0 8] by (simp add: load_w_def field_cons)
  moreover have "at_load_file2 some_statics = 8" by (simp add: some_statics_def)
  ultimately show ?thesis
    using embedded_initrd_not_served [OF _ _ _ reg, of "0x1000" "0x1008" "0x2000" "place 0x1000 ?bs" 5] reg
    by auto
qed

theorem no_command_line_no_kernel_witness:
  "boot_kernel (demo_machine\<lparr>call_entry := (\<lambda>_ _ _ _. None)\<rparr>) demo_globals boot_image
      \<lparr>ls_name = [], ls_load_address = 0, ls_offset = 0, ls_size = 368\<rparr> zero_buffer demo_world
    = boot_kernel demo_machine demo_globals boot_image
      \<lparr>ls_name = [], ls_load_address = 0, ls_offset = 0, ls_size = 368\<rparr> zero_buffer demo_world"
  using no_command_line_no_kernel [of boot_image
      "\<lparr>ls_name = [], ls_load_address = 0, ls_offset = 0, ls_size = 0\<rparr>" demo_machine demo_globals False demo_world
      "\<lambda>_ _ _ _. None"] by (simp add: boot_image_def)

theorem boot_kernel_uncompressed_witness:
  "boot_kernel demo_machine demo_globals boot_image
      \<lparr>ls_name = [], ls_load_address = 0, ls_offset = 0, ls_size = 368\<rparr> zero_buffer demo_world
    = Some (Exit EFI_UNSUPPORTED)"
proof -
  let ?sec = "\<lparr>ls_name = [], ls_load_address = 0, ls_offset = 0, ls_size = 368\<rparr> :: PE_locate_section"
  have t: "monotonic_time_usec X86_64 still_platform demo_globals w = (0, w)" for w
    by (simp add: monotonic_time_usec_def ticks_read_def still_platform_def demo_globals_def)
  have "PE_header (wmem demo_world) (linux_section boot_image ?sec) = Ret 0x40"
    unfolding demo_world_def
    using sample_PE_header [OF demo_headers_simps(1), of "linux_section boot_image ?sec" "0x1000"]
    by (simp add: linux_section_def embedded_buffer_def zero_buffer_def)
  then show ?thesis
    using boot_kernel_uncompressed [of boot_image ?sec demo_machine demo_globals demo_world 0 demo_world "0x40" 0 demo_world zero_buffer]
    by (simp add: t has_magic_def)
qed

theorem execute_image_starts_kernel_witness:
  "\<exists>(img :: image_out) m. out_entry_point img \<noteq> 0 \<and> execute_image_from_memory demo_machine demo_globals demo_buffer (Some a_ramdisk) demo_world
    = rbind (unload_kernel demo_machine demo_globals (out_loaded_image img) (out_image img) m)
        (\<lambda>(_, w4). Some (Ret (EFI_SUCCESS, w4)))"
proof -
  obtain err img w1 where run: "PE_handle_image accepting_services X86_64 demo_globals 9 (Some demo_buffer) True
      no_image demo_world = Ret (err, img, w1)" "\<not> EFI_ERROR err"
    using demo_load [of accepting_services EFI_SUCCESS "\<lambda>_. 0x77"] by (auto simp: accepting_services_def no_image_def)
  obtain self data sz out1 w2 where "register_image accepting_services demo_globals self 9 data sz out1 w2
      = Ret (err, img, True, w1)"
    using PE_handle_image_cases [OF run(1)] run(2) by blast
  from register_image_result [OF this] obtain li where li: "load_loaded_image (wmem w1) (out_loaded_image img) = Ret li"
    by (auto simp: accepting_services_def)
  have buf: "buffer_pos a_ramdisk = Ret 0x1000" "buffer_len a_ramdisk = Ret 3"
    by (simp_all add: a_ramdisk_def buffer_pos_def buffer_len_def)
  have no_time: "BOOT_TIME_USECS demo_globals = 0" by (simp add: demo_globals_def)
  have call: "call_entry demo_machine e h st w = Some (Ret (EFI_SUCCESS, w))" for e h st w
    by (simp add: demo_machine_def)
  obtain m where "out_entry_point img \<noteq> 0"
      "execute_image_from_memory demo_machine demo_globals demo_buffer (Some a_ramdisk) demo_world
        = rbind (unload_kernel demo_machine demo_globals (out_loaded_image img) (out_image img) (w1\<lparr>wmem := m\<rparr>))
            (\<lambda>(_, w4). Some (Ret (EFI_SUCCESS, w4)))"
    using execute_image_starts_kernel [OF _ run(2) li buf, of demo_machine demo_globals demo_buffer demo_world] run(1)
    by (auto simp: call note_exec_time_def no_time)
  then show ?thesis by blast
qed

theorem embedded_cmdline_decoded_witness:
  "\<exists>b w'. boot_options demo_machine demo_globals boot_image True
      \<lparr>ls_name = [], ls_load_address = 1, ls_offset = 0, ls_size = 3\<rparr>
      \<lparr>wmem = place 0x1000 [0, 0x68, 0xc3, 0xa9], fw = 0x2000\<rparr> = Ret (b, w')
    \<and> blength b = 4 \<and> load_bytes (wmem w') (buffer b) 6 = Ret [0x68, 0, 0xe9, 0, 0, 0]"
proof -
  let ?sec = "\<lparr>ls_name = [], ls_load_address = 1, ls_offset = 0, ls_size = 3\<rparr>" and ?cs = "[0x68, 0xe9] :: u16 list"
    and ?w = "\<lparr>wmem = place 0x1000 [0, 0x68, 0xc3, 0xa9], fw = 0x2000\<rparr> :: addr world"
  let ?w1 = "snd (snd (bump_alloc 4096 ?w))"
  have utf8: "concat (map utf8_encode ?cs) = [0x68, 0xc3, 0xa9]" by (simp add: utf8_encode_def)
  have utf16: "utf16_bytes (?cs @ [0]) = [0x68, 0, 0xe9, 0, 0, 0]"
    by (simp add: utf16_bytes_def put_le_def mem_eval)
  have pool: "malloc (m_bs demo_machine) (EFI_POOL_ALLOCATION demo_globals) ((ls_size ?sec + 1) * 2) ?w = (0x2000, ?w1)"
    by (simp add: malloc_def accepting_services_def bump_services_def bump_alloc_def)
  have room: "mapped (wmem ?w1) 0x2000 (2 * length ?cs + 2)" using bump_alloc_mapped [of 6 4096 ?w] by simp
  have "load_bytes (wmem ?w1) (0x1000 + of_nat 1) 3 = load_bytes (wmem ?w) (0x1000 + of_nat 1) 3"
    by (rule load_bytes_cong) (auto simp: bump_alloc_def in_range_nowrap)
  also have "\<dots> = Ret [0x68, 0xc3, 0xa9]"
    using load_place_field [of 1 3 "[0, 0x68, 0xc3, 0xa9]" "0x1000"] by (simp add: field_def)
  finally have "load_bytes (wmem ?w1) (li_image_base boot_image + ls_load_address ?sec) (unat (ls_size ?sec))
      = Ret (concat (map utf8_encode ?cs))" using utf8 by simp
  from embedded_cmdline_decoded [OF _ _ pool _ room _ this, of True] show ?thesis using utf16 by auto
qed

end
