(* ===== verification/Fit_Stub.thy ===== *)
theory Fit_Stub
  imports Boot
begin

text \<open>
  \<^verbatim>\<open>src/fit_stub.c\<close>: a small boot manager that starts the entries of the firmware's boot order. It runs
  on the same machine as the loader; the addresses of its two variables whose address is taken and
  the firmware's function that appends a node to a device path are added to the record. The
  cleanup attributes of the source are written out as calls of \<open>free_p\<close>.
\<close>

unbundle bit_operations_syntax

record ('d, 'z, 'w) stub = "('d, 'z, 'w) machine" +
  at_entry_num :: addr
  at_next :: addr
  append_node :: "addr \<Rightarrow> addr \<Rightarrow> addr \<Rightarrow> 'w world \<Rightarrow> addr \<times> 'w world"

text \<open>A null-terminated string in memory; without a terminator it may never end.\<close>

partial_function (option) load_wide :: "mem \<Rightarrow> addr \<Rightarrow> u16 list outcome option" where
  "load_wide m a =
     once (load_w m a) (\<lambda>c. if c = 0 then Some (Ret []) else
       rbind (load_wide m (a + 2)) (\<lambda>s. Some (Ret (c # s))))"

definition run_image_from_file ::
    "'w boot_services \<Rightarrow> efilib_globals \<Rightarrow> addr \<Rightarrow> addr \<Rightarrow> size_t \<Rightarrow> 'w world
     \<Rightarrow> (efi_status \<times> 'w world) outcome" where
  "run_image_from_file BS g dp options options_length w =
     (let (err, img, w) = load_image BS True (EFI_IMAGE g) dp 0 0 w
      in if EFI_ERROR err then Ret (err, w)
         else
         let (err, lp, w) = open_protocol BS img efi_loaded_image_protocol_guid (EFI_IMAGE g)
               EFI_OPEN_PROTOCOL_BY_HANDLE_PROTOCOL w
         in if EFI_ERROR err then let (_, w) = unload_image BS img w in Ret (err, w)
            else
            obind (if options \<noteq> 0 \<and> options_length > 0
                   then obind (store_w (wmem w) (lp + 56) options) (\<lambda>m.
                        store_w m (lp + 48) (ucast options_length :: u32))
                   else Ret (wmem w)) (\<lambda>m.
            let (err, w) = start_image BS img (w\<lparr>wmem := m\<rparr>);
                (_, w) = close_protocol BS img efi_loaded_image_protocol_guid (EFI_IMAGE g) w;
                (_, w) = unload_image BS img w
            in Ret (err, w)))"

text \<open>\<open>struct efi_load_option\<close>: attributes, the length of the path list, and a description.\<close>

definition load_option_attributes :: "mem \<Rightarrow> addr \<Rightarrow> u32 outcome" where
  "load_option_attributes m entry = load_w m entry"

definition file_path_list_length :: "mem \<Rightarrow> addr \<Rightarrow> u16 outcome" where
  "file_path_list_length m entry = load_w m (entry + 4)"

definition sizeof_load_option :: size_t where "sizeof_load_option = 6"

text \<open>The result holds \<open>*dp\<close>, which is set unless the list is too short.\<close>

definition boot_entry_get_device_path :: "mem \<Rightarrow> addr \<Rightarrow> (efi_status \<times> addr) outcome option" where
  "boot_entry_get_device_path m entry =
     once (c_assert (entry \<noteq> 0) (file_path_list_length m entry)) (\<lambda>n.
     if n < 4 then Some (Ret (EFI_UNSUPPORTED, 0))
     else
     rbind (load_wide m (entry + sizeof_load_option)) (\<lambda>description.
     let pos = 2 * (of_nat (length description) + 1) + sizeof_load_option;
         dp = entry + pos
     in once (load_dp m dp) (\<lambda>d.
        Some (Ret (if IsDevicePathEndNode d then EFI_NOT_FOUND else EFI_SUCCESS, dp)))))"

text \<open>The name of a boot variable, in its array of 9 characters.\<close>

definition boot_entry_name :: "('d, 'z, 'w) stub \<Rightarrow> u16 \<Rightarrow> 'w world \<Rightarrow> u16 list outcome option" where
  "boot_entry_name S num w =
     rbind (wsprintf (print_env_of (wmem w) (m_floats S)) 9 9 (ws ''Boot%04hx'' @ [0]) [A_word (ucast num)])
       (\<lambda>(_, name). Some (Ret name))"

text \<open>Starting an active entry; \<open>n\<close> is the size of the variable.\<close>

definition boot_active_entry ::
    "('d, 'z, 'w) stub \<Rightarrow> efilib_globals \<Rightarrow> u16 \<Rightarrow> addr \<Rightarrow> size_t \<Rightarrow> 'w world
     \<Rightarrow> (efi_status \<times> 'w world) outcome option" where
  "boot_active_entry S g num entry n w =
     rbind (boot_entry_get_device_path (wmem w) entry) (\<lambda>(err, dp).
     if err = EFI_NOT_FOUND then Some (Ret (EFI_SUCCESS, w))
     else if EFI_ERROR err then Some (Ret (err, w))
     else
     once (store_w (wmem w) (at_entry_num S) num) (\<lambda>m.
     let (_, w) = efi_var_set (m_rt S) efi_global_variable_guid (ws ''BootCurrent'') boot_access 2
           (at_entry_num S) (w\<lparr>wmem := m\<rparr>)
     in once (file_path_list_length (wmem w) entry) (\<lambda>len.
        let options = dp + ucast len;
            options_length = options - (entry + n)
        in once (run_image_from_file (m_bs S) g dp options options_length w) (\<lambda>(err, w).
           let (_, w) = efi_var_set (m_rt S) efi_global_variable_guid (ws ''BootCurrent'') boot_access 0 0 w
           in Some (Ret (if EFI_ERROR err then err else EFI_SUCCESS, w))))))"

definition boot_entry ::
    "('d, 'z, 'w) stub \<Rightarrow> efilib_globals \<Rightarrow> u16 \<Rightarrow> 'w world \<Rightarrow> (efi_status \<times> 'w world) outcome option" where
  "boot_entry S g num w =
     rbind (boot_entry_name S num w) (\<lambda>name.
     let (entry, n, w) = efi_var_get_pool (m_bs S) (m_rt S) (EFI_POOL_ALLOCATION g)
           efi_global_variable_guid name 0 w
     in if entry = 0 then Some (Ret (EFI_SUCCESS, w))
        else
        once (load_option_attributes (wmem w) entry) (\<lambda>attributes.
        rbind (if attributes \<noteq> 0 then boot_active_entry S g num entry n w
               else Some (Ret (EFI_SUCCESS, w))) (\<lambda>(err, w).
        Some (Ret (err, free_p (m_bs S) entry w)))))"

text \<open>A file of the device that the stub came from: a file path node is built and appended.\<close>

definition sizeof_filepath :: size_t where "sizeof_filepath = 6"

definition boot_file ::
    "('d, 'z, 'w) stub \<Rightarrow> efilib_globals \<Rightarrow> addr \<Rightarrow> addr \<Rightarrow> string \<Rightarrow> 'w world
     \<Rightarrow> (efi_status \<times> 'w world) outcome" where
  "boot_file S g utils efi_device filename w =
     (let sz = sizeof_filepath + 2 * (of_nat (length filename) + 1);
          (fl, w) = malloc (m_bs S) (EFI_POOL_ALLOCATION g) sz w
      in if fl = 0 then Ret (EFI_OUT_OF_RESOURCES, w)
         else
         obind (store_bytes (wmem w) fl
             (put_dp \<lparr>dp_type = MEDIA_DEVICE_PATH, dp_subtype = MEDIA_FILEPATH_DP, dp_length = ucast sz\<rparr>)) (\<lambda>m.
         obind (store_bytes m (fl + 4) (utf16_bytes (ws filename @ [0]))) (\<lambda>m.
         let (d, w) = append_node S utils efi_device fl (w\<lparr>wmem := m\<rparr>);
             w = c_free (m_bs S) fl w
         in obind (run_image_from_file (m_bs S) g d 0 0 w) (\<lambda>(err, w).
            Ret (err, c_free (m_bs S) d w)))))"

text \<open>The loop over the boot order, from entry \<open>i\<close> with \<open>n\<close> left; an entry that fails is skipped.\<close>

primrec boot_order_loop ::
    "nat \<Rightarrow> ('d, 'z, 'w) stub \<Rightarrow> efilib_globals \<Rightarrow> addr \<Rightarrow> size_t \<Rightarrow> 'w world \<Rightarrow> 'w world outcome option"
where
  "boot_order_loop 0 S g order i w = Some (Ret w)"
| "boot_order_loop (Suc n) S g order i w =
     once (load_w (wmem w) (order + 2 * i)) (\<lambda>num.
     rbind (boot_entry S g num w) (\<lambda>(_, w). boot_order_loop n S g order (i + 1) w))"

definition efi_device_path_utilities_guid :: efi_guid where
  "efi_device_path_utilities_guid = \<lparr>ms1 = 0x379be4e, ms2 = 0xd706, ms3 = 0x437d,
     ms4 = [0xb0, 0x37, 0xed, 0xb8, 0x2f, 0xb7, 0x72, 0xa4]\<rparr>"

definition EFI_ARCH :: "target \<Rightarrow> string" where
  "EFI_ARCH tgt = (case tgt of X86_64 \<Rightarrow> ''x64'' | AARCH64 \<Rightarrow> ''aa64'')"

text \<open>After the boot order: the default loader and then the shell.\<close>

definition boot_defaults ::
    "('d, 'z, 'w) stub \<Rightarrow> efilib_globals \<Rightarrow> efi_loaded_image \<Rightarrow> addr \<Rightarrow> 'w world
     \<Rightarrow> (efi_status \<times> 'w world) outcome" where
  "boot_defaults S g li utils w =
     (let (err, dp, w) = open_protocol (m_bs S) (li_device_handle li) efi_device_path_protocol_guid
           (EFI_IMAGE g) EFI_OPEN_PROTOCOL_BY_HANDLE_PROTOCOL w
      in if EFI_ERROR err then Ret (err, w)
         else
         obind (boot_file S g utils dp (CHR 0x5C # ''efi'' @ CHR 0x5C # ''boot'' @ CHR 0x5C # ''boot'' @ EFI_ARCH (m_tgt S) @ ''.efi'') w) (\<lambda>(_, w).
         boot_file S g utils dp (CHR 0x5C # ''shell'' @ EFI_ARCH (m_tgt S) @ ''.efi'') w))"

definition stub_main ::
    "('d, 'z, 'w) stub \<Rightarrow> handle \<Rightarrow> addr \<Rightarrow> 'w world \<Rightarrow> (efi_status \<times> 'w world) outcome option" where
  "stub_main S img systable w =
     once (initialize_library (m_tgt S) (m_bs S) (m_pf S) img systable w) (\<lambda>(g, w).
     rbind (set_new_loader_var S (BOOT_TIME_USECS g \<noteq> 0) ''LoaderTimeInitUSec'' ''%lu''
        [A_word (BOOT_TIME_USECS g)] w) (\<lambda>w.
     rbind (lib_get_protocol_interface (m_bs S) g efi_device_path_utilities_guid 0 0 w) (\<lambda>(err, utils, w).
     if EFI_ERROR err then Some (Ret (err, w))
     else
     let (err, sz, w) = efi_var_get (m_rt S) efi_global_variable_guid (ws ''BootNext'') 2 (at_next S) w
     in rbind (if err = EFI_SUCCESS
               then once (load_w (wmem w) (at_next S)) (\<lambda>num. rbind (boot_entry S g num w) (\<lambda>(_, w). Some (Ret w)))
               else Some (Ret w)) (\<lambda>w.
        let (order, sz, w) = efi_var_get_pool (m_bs S) (m_rt S) (EFI_POOL_ALLOCATION g)
              efi_global_variable_guid (ws ''BootOrder'') sz w
        in rbind (if order \<noteq> 0 then boot_order_loop (unat (sz div 2)) S g order 0 w else Some (Ret w)) (\<lambda>w.
           case EFI_LOADED_IMAGE g of None \<Rightarrow> Some UB
           | Some li \<Rightarrow> once (boot_defaults S g li utils w) (\<lambda>(err, w).
               Some (Ret (err, free_p (m_bs S) order w))))))))"

end
