(* ===== verification/Lockdown.thy ===== *)
theory Lockdown
  imports Fit_Stub
begin

text \<open>
  \<^verbatim>\<open>src/lockdown.c\<close>: a program that turns Secure Boot on. It reads three signed key lists from its own
  directory and writes them to the firmware's variables; the platform key comes last, since it ends
  the setup mode. The addresses of the two flags and the outputs of the file protocol are
  parameters; a file handle that the protocol leaves unset on an error is whatever it returns.
\<close>

unbundle bit_operations_syntax

definition EFI_IMAGE_SECURITY_DATABASE1_GUID :: efi_guid where
  "EFI_IMAGE_SECURITY_DATABASE1_GUID = \<lparr>ms1 = 0xd719b2cb, ms2 = 0x3d3a, ms3 = 0x4596,
     ms4 = [0xa3, 0xbc, 0xda, 0xd0, 0x0e, 0x67, 0x65, 0x6f]\<rparr>"

definition EFI_FILE_MODE_READ :: u64 where "EFI_FILE_MODE_READ = 1"

section \<open>The directory of the program\<close>

text \<open>\<open>wcschr\<close> on a string in memory; a null pointer is 0.\<close>

partial_function (option) mem_wcschr :: "mem \<Rightarrow> addr \<Rightarrow> u16 \<Rightarrow> addr outcome option" where
  "mem_wcschr m str needle =
     once (load_w m str) (\<lambda>c. if c = needle then Some (Ret str) else
       once (load_w m (str + 2)) (\<lambda>d. if (d :: u16) = 0 then Some (Ret 0) else mem_wcschr m (str + 2) needle))"

partial_function (option) last_separator :: "mem \<Rightarrow> addr \<Rightarrow> addr \<Rightarrow> addr outcome option" where
  "last_separator m pos last_pos =
     (if pos = 0 then Some (Ret last_pos)
      else rbind (mem_wcschr m (pos + 2) (wc CHR 0x5C)) (\<lambda>found. last_separator m found pos))"

primrec load_wides :: "mem \<Rightarrow> addr \<Rightarrow> nat \<Rightarrow> u16 list outcome" where
  "load_wides m a 0 = Ret []"
| "load_wides m a (Suc n) = obind (load_w m a) (\<lambda>c. obind (load_wides m (a + 2) n) (\<lambda>s. Ret (c # s)))"

definition get_dirname ::
    "'w boot_services \<Rightarrow> u32 \<Rightarrow> addr \<Rightarrow> 'w world \<Rightarrow> (addr \<times> 'w world) outcome option" where
  "get_dirname BS pool path w =
     once (c_assert (path \<noteq> 0) (Ret ())) (\<lambda>_.
     rbind (last_separator (wmem w) path path) (\<lambda>last_pos.
     let len = (last_pos - path) div 2;
         (dir, w) = malloc BS pool (len + 1) w
     in if dir = 0 then Some (Ret (0, w))
        else
        once (load_wides (wmem w) path (unat len)) (\<lambda>src.
        once (wcsncpy src (unat len)) (\<lambda>s.
        once (store_bytes (wmem w) dir (utf16_bytes (s @ [0]))) (\<lambda>m.
        Some (Ret (dir, w\<lparr>wmem := m\<rparr>)))))))"

section \<open>Reading a file\<close>

definition close_file_p :: "'w platform \<Rightarrow> addr \<Rightarrow> 'w world \<Rightarrow> 'w world" where
  "close_file_p pf h w = (if h \<noteq> 0 then snd (file_close pf h w) else w)"

definition read_file_to_buffer ::
    "'w boot_services \<Rightarrow> 'w platform \<Rightarrow> u32 \<Rightarrow> addr \<Rightarrow> u16 list \<Rightarrow> simple_buffer \<Rightarrow> 'w world
     \<Rightarrow> (efi_status \<times> simple_buffer \<times> 'w world) outcome option" where
  "read_file_to_buffer BS pf pool cwd filename b w =
     once (c_assert (cwd \<noteq> 0) (Ret ())) (\<lambda>_.
     let (err, h, w) = file_open pf cwd filename EFI_FILE_MODE_READ 0 w
     in if EFI_ERROR err then Some (Ret (err, b, close_file_p pf h w))
        else
        case lib_get_file_info BS pf pool h w of None \<Rightarrow> None
        | Some (info, w) \<Rightarrow>
          if info = 0 then Some (Ret (EFI_OUT_OF_RESOURCES, b, close_file_p pf h w))
          else
          once (file_size (wmem w) info) (\<lambda>sz.
          if sz = 0 then Some (Ret (EFI_INVALID_PARAMETER, b, close_file_p pf h (free_p BS info w)))
          else
          let (_, b, w) = allocate_simple_buffer BS pool sz b w
          in once (buffer_pos b) (\<lambda>p.
             let (err, sz, w) = file_read pf h sz p w
             in if EFI_ERROR err
                then once (call_free BS b w) (\<lambda>w.
                     Some (Ret (err, zero_buffer, close_file_p pf h (free_p BS info w))))
                else Some (Ret (EFI_SUCCESS, b\<lparr>blength := sz\<rparr>, close_file_p pf h (free_p BS info w))))))"

section \<open>Enrolment\<close>

abbreviation enrol_access :: u32 where
  "enrol_access \<equiv> EFI_VARIABLE_NON_VOLATILE OR EFI_VARIABLE_RUNTIME_ACCESS
     OR EFI_VARIABLE_BOOTSERVICE_ACCESS OR EFI_VARIABLE_TIME_BASED_AUTHENTICATED_WRITE_ACCESS"

definition enrol_key ::
    "'w runtime_services \<Rightarrow> efi_guid \<Rightarrow> string \<Rightarrow> simple_buffer \<Rightarrow> 'w world \<Rightarrow> (efi_status \<times> 'w world) outcome"
where
  "enrol_key RT guid name b w =
     obind (buffer_len b) (\<lambda>n. obind (buffer_pos b) (\<lambda>p.
     Ret (efi_var_set RT guid (ws name) enrol_access n p w)))"

definition enrol ::
    "'w runtime_services \<Rightarrow> simple_buffer \<Rightarrow> simple_buffer \<Rightarrow> simple_buffer \<Rightarrow> 'w world
     \<Rightarrow> (efi_status \<times> 'w world) outcome" where
  "enrol RT kek db pk w =
     obind (enrol_key RT efi_global_variable_guid ''KEK'' kek w) (\<lambda>(err, w).
     if EFI_ERROR err then Ret (err, w)
     else
     obind (enrol_key RT EFI_IMAGE_SECURITY_DATABASE1_GUID ''db'' db w) (\<lambda>(err, w).
     if EFI_ERROR err then Ret (err, w)
     else
     enrol_key RT efi_global_variable_guid ''PK'' pk w))"

text \<open>One byte of a firmware variable, read into the variable at \<open>a\<close>.\<close>

definition read_flag ::
    "'w runtime_services \<Rightarrow> addr \<Rightarrow> string \<Rightarrow> 'w world \<Rightarrow> (efi_status \<times> 'w world) outcome" where
  "read_flag RT a name w =
     (let (err, _, w) = efi_var_get RT efi_global_variable_guid (ws name) 1 a w
      in if EFI_ERROR err then Ret (err, w)
         else obind (load_w (wmem w) a) (\<lambda>b :: u8. Ret (if b \<noteq> 1 then EFI_UNSUPPORTED else EFI_SUCCESS, w)))"

text \<open>The three files, in the order of the code; the buffers are freed when the program returns.\<close>

definition read_keys ::
    "'w boot_services \<Rightarrow> 'w platform \<Rightarrow> u32 \<Rightarrow> addr \<Rightarrow> 'w world
     \<Rightarrow> (efi_status \<times> simple_buffer \<times> simple_buffer \<times> simple_buffer \<times> 'w world) outcome option" where
  "read_keys BS pf pool cwd w =
     rbind (read_file_to_buffer BS pf pool cwd (ws ''KEK.auth'') zero_buffer w) (\<lambda>(err, kek, w).
     if EFI_ERROR err then Some (Ret (err, kek, zero_buffer, zero_buffer, w))
     else
     rbind (read_file_to_buffer BS pf pool cwd (ws ''db.auth'') zero_buffer w) (\<lambda>(err, db, w).
     if EFI_ERROR err then Some (Ret (err, kek, db, zero_buffer, w))
     else
     rbind (read_file_to_buffer BS pf pool cwd (ws ''PK.auth'') zero_buffer w) (\<lambda>(err, pk, w).
     Some (Ret (err, kek, db, pk, w)))))"

definition lockdown_keys ::
    "('d, 'z, 'w) machine \<Rightarrow> efilib_globals \<Rightarrow> addr \<Rightarrow> addr \<Rightarrow> 'w world \<Rightarrow> (efi_status \<times> 'w world) outcome option"
where
  "lockdown_keys M g cwd at_secure_boot w =
     rbind (read_keys (m_bs M) (m_pf M) (EFI_POOL_ALLOCATION g) cwd w) (\<lambda>(err, kek, db, pk, w).
     once (if EFI_ERROR err then Ret (err, w)
           else obind (enrol (m_rt M) kek db pk w) (\<lambda>(err, w).
                if EFI_ERROR err then Ret (err, w) else read_flag (m_rt M) at_secure_boot ''SecureBoot'' w)) (\<lambda>(err, w).
     Some (Ret (err, free_buffer (m_bs M) kek (free_buffer (m_bs M) db (free_buffer (m_bs M) pk w))))))"

definition lockdown_main ::
    "('d, 'z, 'w) machine \<Rightarrow> addr \<Rightarrow> addr \<Rightarrow> handle \<Rightarrow> addr \<Rightarrow> 'w world \<Rightarrow> (efi_status \<times> 'w world) outcome option"
where
  "lockdown_main M at_setup_mode at_secure_boot img systable w =
     once (initialize_library (m_tgt M) (m_bs M) (m_pf M) img systable w) (\<lambda>(g, w).
     once (read_flag (m_rt M) at_setup_mode ''SetupMode'' w) (\<lambda>(err, w).
     if EFI_ERROR err then Some (Ret (err, w))
     else
     case EFI_LOADED_IMAGE g of None \<Rightarrow> Some UB
     | Some li \<Rightarrow>
       once (load_dp (wmem w) (li_file_path li)) (\<lambda>d.
       if \<not> IsDevicePathNode d MEDIA_DEVICE_PATH MEDIA_FILEPATH_DP then Some (Ret (EFI_UNSUPPORTED, w))
       else
       rbind (get_dirname (m_bs M) (EFI_POOL_ALLOCATION g) (li_file_path li + 4) w) (\<lambda>(path, w).
       if path = 0 then Some (Ret (EFI_OUT_OF_RESOURCES, w))
       else
       rbind (load_wide (wmem w) path) (\<lambda>dir.
       let (err, cwd, w) = file_open (m_pf M) (EFI_ROOT g) dir EFI_FILE_MODE_READ 0 w
       in rbind (if EFI_ERROR err then Some (Ret (err, w)) else lockdown_keys M g cwd at_secure_boot w) (\<lambda>(err, w).
          Some (Ret (err, free_p (m_bs M) path w))))))))"

end
