(* ===== verification/Stub_Props.thy ===== *)
theory Stub_Props
  imports Lockdown Boot_Props
begin

text \<open>
  Properties of the two other programs: what the boot manager passes to the image of a boot entry,
  the directory of the enrolment program, and the order in which it writes the variables.
\<close>

unbundle bit_operations_syntax

section \<open>Data in memory\<close>

definition holds :: "mem \<Rightarrow> addr \<Rightarrow> u8 list \<Rightarrow> bool" where
  "holds m a bs \<longleftrightarrow> load_bytes m a (length bs) = Ret bs"

lemma holds_append: "holds m a (xs @ ys) \<longleftrightarrow> holds m a xs \<and> holds m (a + of_nat (length xs)) ys"
proof
  assume "holds m a (xs @ ys)"
  then show "holds m a xs \<and> holds m (a + of_nat (length xs)) ys"
    using load_bytes_sub [of m a "length (xs @ ys)" "xs @ ys" 0 "length xs"]
      load_bytes_sub [of m a "length (xs @ ys)" "xs @ ys" "length xs" "length ys"]
    by (simp add: holds_def)
next
  assume "holds m a xs \<and> holds m (a + of_nat (length xs)) ys"
  then show "holds m a (xs @ ys)" using load_bytes_append by (fastforce simp: holds_def)
qed

lemma holds_word: "holds m a (put_le w) \<Longrightarrow> 8 dvd LENGTH('a) \<Longrightarrow> load_w m a = Ret (w :: 'a::len word)"
  by (simp add: holds_def load_w_def get_le_put_le)

lemma utf16_bytes_simps [simp]: "utf16_bytes [] = []" "utf16_bytes (c # s) = put_le c @ utf16_bytes s"
  "utf16_bytes (s @ t) = utf16_bytes s @ utf16_bytes t"
  by (simp_all add: utf16_bytes_def)

lemma holds_wide_Cons:
  "holds m a (utf16_bytes (c # s)) \<longleftrightarrow> holds m a (put_le c) \<and> holds m (a + 2) (utf16_bytes s)"
  by (simp add: holds_append)

lemma load_wide_holds: "holds m a (utf16_bytes (s @ [0])) \<Longrightarrow> 0 \<notin> set s \<Longrightarrow> load_wide m a = Some (Ret s)"
proof (induction s arbitrary: a)
  case Nil
  then have "load_w m a = Ret (0 :: u16)" by (intro holds_word) simp_all
  then show ?case by (subst load_wide.simps) simp
next
  case (Cons c s)
  then have "load_w m a = Ret c" "load_wide m (a + 2) = Some (Ret s)"
    by (auto simp: holds_append intro: holds_word)
  then show ?case using Cons.prems by (subst load_wide.simps) simp
qed

section \<open>Boot entries\<close>

text \<open>
  C29. The image of a boot entry is started from the entry's device path, and the option data are the
  bytes behind the path; but their length is computed the wrong way round: what the image is given
  is the negated length of the optional data.
\<close>

theorem boot_entry_options_negated:
  assumes var: "holds (wmem w) entry (put_le (attributes :: u32) @ put_le (of_nat (length path) :: u16)
        @ utf16_bytes (description @ [0]) @ path @ optional_data)"
    and size: "n = of_nat (8 + 2 * length description + length path + length optional_data)" and entry: "entry \<noteq> 0"
    and path: "4 \<le> length path" "length path < 2 ^ 16" "\<not> IsDevicePathEndNode (get_dp (take 4 path))"
    and description: "0 \<notin> set description"
    and current: "store_w (wmem w) (at_entry_num S) num = Ret m"
      "efi_var_set (m_rt S) efi_global_variable_guid (ws ''BootCurrent'') boot_access 2 (at_entry_num S)
         (w\<lparr>wmem := m\<rparr>) = (status, w1)"
      "file_path_list_length (wmem w1) entry = Ret (of_nat (length path))"
    and dp: "dp = entry + of_nat (8 + 2 * length description)"
  shows "boot_active_entry S g num entry n w =
    once (run_image_from_file (m_bs S) g dp (dp + of_nat (length path)) (- of_nat (length optional_data)) w1)
      (\<lambda>(err, w2). Some (Ret (if EFI_ERROR err then err else EFI_SUCCESS,
         snd (efi_var_set (m_rt S) efi_global_variable_guid (ws ''BootCurrent'') boot_access 0 0 w2))))"
proof -
  note h = var [unfolded holds_append]
  have len: "file_path_list_length (wmem w) entry = Ret (of_nat (length path))"
    using h by (auto simp: file_path_list_length_def intro: holds_word)
  have desc: "load_wide (wmem w) (entry + 6) = Some (Ret description)"
    using h description by (intro load_wide_holds) (simp_all add: holds_append add.assoc)
  have at_dp: "holds (wmem w) dp path"
    using h by (simp add: dp length_utf16_bytes add.assoc)
  then have "load_dp (wmem w) dp = Ret (get_dp (take 4 path))"
    using load_bytes_sub [of "wmem w" dp "length path" path 0 4] path(1) by (simp add: holds_def load_dp_def)
  moreover have "\<not> (of_nat (length path) :: u16) < 4"
    using path(1,2) by (simp add: word_less_nat_alt unsigned_of_nat take_bit_nat_eq_self)
  moreover have "entry + (2 * (of_nat (length description) + 1) + 6) = dp"
    by (simp add: dp algebra_simps)
  ultimately have "boot_entry_get_device_path (wmem w) entry = Some (Ret (EFI_SUCCESS, dp))"
    using entry len desc path(3) by (simp add: boot_entry_get_device_path_def sizeof_load_option_def Let_def)
  moreover have "dp + of_nat (length path) - (entry + n) = - of_nat (length optional_data)"
    by (simp add: size dp length_utf16_bytes algebra_simps)
  moreover have "(ucast (of_nat (length path) :: u16) :: u64) = of_nat (length path)"
    using path(2) by (simp add: word_eq_iff_unsigned unsigned_ucast_eq unsigned_of_nat take_bit_nat_eq_self)
  ultimately show ?thesis using current
    by (simp add: boot_active_entry_def Let_def case_prod_unfold)
qed

section \<open>Enrolment\<close>

text \<open>The calls of the firmware that write the three variables.\<close>

type_synonym variable_call = "u16 list \<times> efi_guid \<times> u32 \<times> size_t \<times> addr"

definition key_call :: "string \<Rightarrow> efi_guid \<Rightarrow> simple_buffer \<Rightarrow> variable_call" where
  "key_call name guid b = (ws name, guid, enrol_access, blength b - bpos b, buffer b + bpos b)"

definition key_calls :: "simple_buffer \<Rightarrow> simple_buffer \<Rightarrow> simple_buffer \<Rightarrow> variable_call list" where
  "key_calls kek db pk = [key_call ''KEK'' efi_global_variable_guid kek,
     key_call ''db'' EFI_IMAGE_SECURITY_DATABASE1_GUID db, key_call ''PK'' efi_global_variable_guid pk]"

text \<open>A firmware with a record of the variables written, each with the status of the call.\<close>

definition records :: "('w world \<Rightarrow> (variable_call \<times> efi_status) list) \<Rightarrow> 'w runtime_services \<Rightarrow> bool" where
  "records written RT \<longleftrightarrow> (\<forall>name guid attr n p w.
     written (snd (set_variable RT name guid attr n p w))
       = written w @ [((name, guid, attr, n, p), fst (set_variable RT name guid attr n p w))])"

lemma enrol_key_records:
  assumes "records written RT" and "enrol_key RT guid name b w = Ret (err, w')"
  shows "written w' = written w @ [(key_call name guid b, err)]"
proof -
  have "set_variable RT (ws name) guid enrol_access (blength b - bpos b) (buffer b + bpos b) w = (err, w')"
    using assms(2) by (auto simp: enrol_key_def outcome_iff efi_var_set_def buffer_len_def buffer_pos_def)
  then show ?thesis using assms(1) unfolding records_def key_call_def by (metis fst_conv snd_conv)
qed

text \<open>
  C28. The keys are enrolled in the order KEK, db, PK, each from the unread part of its buffer: every
  write but the last one succeeded, and the status of the last one is the result. So the
  platform key, which ends the setup mode, is only written when the other two are in place, and
  success means that all three are.
\<close>

theorem enrol_in_order:
  assumes "records written RT" and "enrol RT kek db pk w = Ret (err, w')"
  shows "\<exists>ss. written w' = written w @ zip (key_calls kek db pk) ss \<and> ss \<noteq> [] \<and> length ss \<le> 3
    \<and> list_all (\<lambda>s. \<not> EFI_ERROR s) (butlast ss) \<and> last ss = err \<and> (EFI_ERROR err \<or> length ss = 3)"
proof -
  note log = enrol_key_records [OF assms(1)]
  obtain e1 w1 where k1: "enrol_key RT efi_global_variable_guid ''KEK'' kek w = Ret (e1, w1)"
    using assms(2) by (auto simp: enrol_def outcome_iff)
  show ?thesis
  proof (cases "EFI_ERROR e1")
    case True
    then show ?thesis using assms(2) k1 log [OF k1]
      by (intro exI [of _ "[e1]"]) (simp add: enrol_def key_calls_def)
  next
    case ok1: False
    then obtain e2 w2 where k2: "enrol_key RT EFI_IMAGE_SECURITY_DATABASE1_GUID ''db'' db w1 = Ret (e2, w2)"
      using assms(2) k1 by (auto simp: enrol_def outcome_iff)
    show ?thesis
    proof (cases "EFI_ERROR e2")
      case True
      then show ?thesis using assms(2) k1 k2 ok1 log [OF k1] log [OF k2]
        by (intro exI [of _ "[e1, e2]"]) (simp add: enrol_def key_calls_def)
    next
      case ok2: False
      then have k3: "enrol_key RT efi_global_variable_guid ''PK'' pk w2 = Ret (err, w')"
        using assms(2) k1 k2 ok1 by (simp add: enrol_def)
      show ?thesis using ok1 ok2 log [OF k1] log [OF k2] log [OF k3]
        by (intro exI [of _ "[e1, e2, err]"]) (simp add: key_calls_def)
    qed
  qed
qed

section \<open>The directory\<close>

lemma mem_wcschr_holds:
  "holds m a (utf16_bytes (s @ [0])) \<Longrightarrow> s \<noteq> [] \<Longrightarrow> 0 \<notin> set s \<Longrightarrow>
   mem_wcschr m a c = Some (Ret (if c \<in> set s then a + 2 * of_nat (length (takeWhile (\<lambda>d. d \<noteq> c) s)) else 0))"
proof (induction s arbitrary: a)
  case (Cons d s)
  have here: "load_w m a = Ret d" using Cons.prems(1) by (auto simp: holds_append intro: holds_word)
  have rest: "holds m (a + 2) (utf16_bytes (s @ [0]))" using Cons.prems(1) by (simp add: holds_append)
  show ?case
  proof (cases s)
    case Nil
    then have "load_w m (a + 2) = Ret (0 :: u16)" using rest by (auto intro: holds_word)
    then show ?thesis using here Nil by (subst mem_wcschr.simps) simp
  next
    case (Cons e t)
    then have "load_w m (a + 2) = Ret e" using rest by (auto simp: holds_append intro: holds_word)
    then show ?thesis using here Cons Cons.IH [OF rest] Cons.prems(3)
      by (subst mem_wcschr.simps) (auto simp: algebra_simps)
  qed
qed simp

abbreviation separator :: u16 where "separator \<equiv> wc CHR 0x5C"

lemma last_separator_holds:
  "holds m (pos + 2) (utf16_bytes (s @ [0])) \<Longrightarrow> s \<noteq> [] \<Longrightarrow> 0 \<notin> set s \<Longrightarrow> List.last s \<noteq> separator \<Longrightarrow>
   (\<forall>i\<le>length s. pos + 2 * of_nat i \<noteq> 0) \<Longrightarrow>
   last_separator m pos p = Some (Ret (pos + 2 * of_nat (length s - length (takeWhile (\<lambda>c. c \<noteq> separator) (rev s)))))"
proof (induction "length s" arbitrary: s pos p rule: less_induct)
  case less
  have "pos \<noteq> 0" using less.prems(5) [rule_format, of 0] by simp
  note step = mem_wcschr_holds [OF less.prems(1-3), of separator]
  show ?case
  proof (cases "separator \<in> set s")
    case False
    then have "takeWhile (\<lambda>c. c \<noteq> separator) (rev s) = rev s" by (auto simp: takeWhile_eq_all_conv)
    then have "length s - length (takeWhile (\<lambda>c. c \<noteq> separator) (rev s)) = 0" by (metis diff_self_eq_0 length_rev)
    then show ?thesis using step False \<open>pos \<noteq> 0\<close>
      by (subst last_separator.simps) (simp add: last_separator.simps [of m 0])
  next
    case True
    then obtain t1 t2 where s: "s = t1 @ separator # t2" "separator \<notin> set t1" by (meson split_list_first)
    then have tw: "takeWhile (\<lambda>d. d \<noteq> separator) s = t1" by (auto simp: takeWhile_tail takeWhile_eq_all_conv)
    have "t2 \<noteq> []" using less.prems(4) s by auto
    let ?found = "pos + 2 + 2 * of_nat (length t1)"
    have "holds m (?found + 2) (utf16_bytes (t2 @ [0]))"
      using less.prems(1) s by (simp add: holds_append length_utf16_bytes add.assoc add.commute)
    moreover have "\<forall>i\<le>length t2. ?found + 2 * of_nat i \<noteq> 0"
    proof (intro allI impI)
      fix i assume "i \<le> length t2"
      then have "pos + 2 * of_nat (Suc (length t1) + i) \<noteq> 0"
        using less.prems(5) [rule_format, of "Suc (length t1) + i"] s by simp
      then show "?found + 2 * of_nat i \<noteq> 0" by (simp add: algebra_simps)
    qed
    ultimately have "last_separator m ?found pos
        = Some (Ret (?found + 2 * of_nat (length t2 - length (takeWhile (\<lambda>c. c \<noteq> separator) (rev t2)))))"
      using less.hyps [of t2 ?found pos] less.prems s \<open>t2 \<noteq> []\<close> by simp
    moreover have "takeWhile (\<lambda>c. c \<noteq> separator) (rev s) = takeWhile (\<lambda>c. c \<noteq> separator) (rev t2)"
      using s by (simp add: takeWhile_tail)
    moreover define k where "k = length (takeWhile (\<lambda>c. c \<noteq> separator) (rev t2))"
    ultimately have found: "last_separator m ?found pos = Some (Ret (?found + 2 * of_nat (length t2 - k)))"
      and k: "length (takeWhile (\<lambda>c. c \<noteq> separator) (rev s)) = k" by simp_all
    have "k \<le> length t2" using length_takeWhile_le [of _ "rev t2"] by (simp add: k_def)
    then have "length s - k = Suc (length t1 + (length t2 - k))" using s by simp
    then have "?found + 2 * of_nat (length t2 - k) = pos + 2 * of_nat (length s - k)" by (simp add: algebra_simps)
    moreover have "mem_wcschr m (pos + 2) separator = Some (Ret ?found)" using step True tw by simp
    ultimately show ?thesis using found k \<open>pos \<noteq> 0\<close> by (subst last_separator.simps) simp
  qed
qed

lemma load_wides_holds: "holds m a (utf16_bytes s) \<Longrightarrow> load_wides m a (length s) = Ret s"
proof (induction s arbitrary: a)
  case (Cons c s)
  then have "load_w m a = Ret c" "load_wides m (a + 2) (length s) = Ret s"
    by (auto simp: holds_append intro: holds_word)
  then show ?case by simp
qed simp

lemma wcsncpy_all: "0 \<notin> set s \<Longrightarrow> wcsncpy s (length s) = Ret s"
  by (induction s) auto

text \<open>
  \<open>get_dirname\<close> gives the part of the path before its last backslash, provided that the memory
  behind the block it allocates is mapped: the block has room for one byte per character and
  one more, and two bytes per character are written, with a terminator.
\<close>

theorem get_dirname_result:
  assumes path: "holds (wmem w) path (utf16_bytes (d @ separator # f @ [0]))"
    and kept: "holds (wmem w1) path (utf16_bytes d)"
    and names: "0 \<notin> set d" "0 \<notin> set f" "separator \<notin> set f" "f \<noteq> []"
    and addresses: "path \<noteq> 0" "unat path + 2 * (length d + 1 + length f) < 2 ^ 64"
    and block: "malloc BS pool (of_nat (length d) + 1) w = (dir, w1)" "dir \<noteq> 0"
  shows "if mapped (wmem w1) dir (2 * length d + 2)
    then \<exists>m. get_dirname BS pool path w = Some (Ret (dir, w1\<lparr>wmem := m\<rparr>)) \<and> load_wide m dir = Some (Ret d)
    else get_dirname BS pool path w = Some UB"
proof -
  have last: "last_separator (wmem w) path path = Some (Ret (path + 2 * of_nat (length d)))"
  proof -
    define s where "s = tl (d @ separator # f)"
    have s: "d = [] \<and> s = f \<or> (\<exists>c d'. d = c # d' \<and> s = d' @ separator # f)"
      by (cases d) (simp_all add: s_def)
    have "holds (wmem w) (path + 2) (utf16_bytes (s @ [0]))"
      using path s by (auto simp: holds_append length_utf16_bytes algebra_simps)
    moreover have "s \<noteq> []" "0 \<notin> set s" "List.last s \<noteq> separator" using s names last_in_set by fastforce+
    moreover have "\<forall>i\<le>length s. path + 2 * of_nat i \<noteq> 0"
    proof (intro allI impI)
      fix i assume "i \<le> length s"
      then have "i \<le> length d + length f" using s by auto
      then have "unat path + 2 * i < 2 ^ 64" using addresses(2) by simp
      then have "unat (path + of_nat (2 * i)) = unat path + 2 * i"
        by (simp add: unat_word_ariths unsigned_of_nat take_bit_nat_eq_self)
      then show "path + 2 * of_nat i \<noteq> 0" using addresses(1) by (metis add_is_0 of_nat_mult of_nat_numeral unat_0 unat_eq_zero)
    qed
    moreover have "length s - length (takeWhile (\<lambda>c. c \<noteq> separator) (rev s)) = length d"
    proof -
      have "takeWhile (\<lambda>c. c \<noteq> separator) (rev f) = rev f" using names(3) by (auto simp: takeWhile_eq_all_conv)
      then have "length (takeWhile (\<lambda>c. c \<noteq> separator) (rev f)) = length f" by (metis length_rev)
      then show ?thesis using s by (auto simp: takeWhile_tail)
    qed
    ultimately show ?thesis using last_separator_holds [of "wmem w" path s path] by simp
  qed
  have "2 * length d < 2 ^ 64" using addresses(2) by simp
  then have two: "unat (2 * of_nat (length d) :: u64) = 2 * length d"
    by (simp add: unat_word_ariths unsigned_of_nat take_bit_nat_eq_self)
  have len: "(path + 2 * of_nat (length d) - path) div 2 = of_nat (length d)"
    by (rule word_eq_unatI) (use two \<open>2 * length d < 2 ^ 64\<close> in
      \<open>simp add: unat_div unsigned_of_nat take_bit_nat_eq_self\<close>)
  have "unat (of_nat (length d) :: u64) = length d"
    using \<open>2 * length d < 2 ^ 64\<close> by (simp add: unsigned_of_nat take_bit_nat_eq_self)
  then have run: "get_dirname BS pool path w = once (store_bytes (wmem w1) dir (utf16_bytes (d @ [0])))
      (\<lambda>m. Some (Ret (dir, w1\<lparr>wmem := m\<rparr>)))"
    using last len block addresses(1) load_wides_holds [OF kept] wcsncpy_all [OF names(1)]
    by (simp add: get_dirname_def Let_def)
  have size: "length (utf16_bytes (d @ [0])) = 2 * length d + 2" by (simp add: length_utf16_bytes)
  show ?thesis
  proof (cases "mapped (wmem w1) dir (2 * length d + 2)")
    case True
    then obtain m where m: "store_bytes (wmem w1) dir (utf16_bytes (d @ [0])) = Ret m"
      using store_bytes_iff_mapped size by metis
    have "length (utf16_bytes (d @ [0])) \<le> 2 ^ 64" using addresses(2) unfolding size by simp
    then have "holds m dir (utf16_bytes (d @ [0]))"
      using load_store_same [OF m] unfolding holds_def by blast
    then show ?thesis using True run m load_wide_holds names(1) by (auto simp del: utf16_bytes_simps)
  next
    case False
    then have "store_bytes (wmem w1) dir (utf16_bytes (d @ [0])) = UB"
      using store_bytes_iff_mapped [of "wmem w1" dir "utf16_bytes (d @ [0])"] size
      by (cases "store_bytes (wmem w1) dir (utf16_bytes (d @ [0]))") auto
    then show ?thesis using False run by simp
  qed
qed

section \<open>Concrete runs\<close>

definition demo_stub :: "(unit, unit, addr) stub" where
  "demo_stub = machine.extend demo_machine
     \<lparr>at_entry_num = 0x1011, at_next = 0x900, append_node = (\<lambda>_ _ _ w. (0, w))\<rparr>"

lemma demo_stub_simps [simp]:
  "at_entry_num demo_stub = 0x1011" "m_bs demo_stub = accepting_services"
  "efi_var_set (m_rt demo_stub) guid name attr n p w = (EFI_SUCCESS, w)"
  by (simp_all add: demo_stub_def machine.defs efi_var_set_def) (simp_all add: demo_machine_def)

text \<open>An entry that is not marked active, with a description, a path of one node and three bytes of options.\<close>

definition demo_entry :: "u8 list" where
  "demo_entry = put_le (2 :: u32) @ put_le (4 :: u16) @ utf16_bytes ([0x41] @ [0]) @ [4, 4, 4, 0] @ [7, 7, 7]"

theorem boot_entry_options_negated_witness:
  "\<exists>w1. boot_active_entry demo_stub demo_globals 5 0x1000 17 \<lparr>wmem = place 0x1000 (demo_entry @ [0, 0]), fw = 0x2000\<rparr>
    = once (run_image_from_file accepting_services demo_globals 0x100a 0x100e (- 3) w1)
        (\<lambda>(err, w2). Some (Ret (if EFI_ERROR err then err else EFI_SUCCESS, w2)))"
proof -
  let ?w = "\<lparr>wmem = place 0x1000 (demo_entry @ [0, 0]), fw = 0x2000\<rparr> :: addr world"
    and ?path = "[4, 4, 4, 0] :: u8 list"
  have len: "length demo_entry = 17" by (simp add: demo_entry_def length_utf16_bytes)
  have all: "load_bytes (wmem ?w) 0x1000 19 = Ret (demo_entry @ [0, 0])"
    using place_load [of "demo_entry @ [0, 0]" "0x1000"] len by simp
  then have var: "holds (wmem ?w) 0x1000 demo_entry"
    using len holds_append [of "wmem ?w" "0x1000" demo_entry "[0, 0]"] by (simp add: holds_def)
  obtain m where m: "store_w (wmem ?w) 0x1011 (5 :: u16) = Ret m"
      "load_bytes m 0x1000 19 = Ret (demo_entry @ put_le (5 :: u16))"
    using store_bytes_part [OF all, of 17 "put_le (5 :: u16)"] load_mappedI [OF all] len
    by (auto simp: store_w_def)
  have "holds m 0x1000 demo_entry"
    using m(2) len holds_append [of m "0x1000" demo_entry "put_le (5 :: u16)"] by (simp add: holds_def)
  then have "file_path_list_length m 0x1000 = Ret 4"
    unfolding demo_entry_def holds_append by (auto simp: file_path_list_length_def intro: holds_word)
  then have "boot_active_entry demo_stub demo_globals 5 0x1000 17 ?w
    = once (run_image_from_file accepting_services demo_globals 0x100a 0x100e (- 3) (?w\<lparr>wmem := m\<rparr>))
        (\<lambda>(err, w2). Some (Ret (if EFI_ERROR err then err else EFI_SUCCESS, w2)))"
    by (subst boot_entry_options_negated [where attributes = 2 and path = ?path and description = "[0x41]"
          and optional_data = "[7, 7, 7]" and m = m and status = EFI_SUCCESS and ?w1.0 = "?w\<lparr>wmem := m\<rparr>" and dp = "0x100a"])
      (use m(1) var in \<open>simp_all add: demo_entry_def IsDevicePathEndNode_def IsDevicePathNode_def get_dp_def get_le_def field_def END_DEVICE_PATH_TYPE_def\<close>)
  then show ?thesis by blast
qed

text \<open>A firmware that accepts every variable and lists the calls in its state.\<close>

definition listing_rt :: "(variable_call \<times> efi_status) list runtime_services" where
  "listing_rt = \<lparr>get_variable = (\<lambda>_ _ n _ w. (EFI_NOT_FOUND, 0, n, w)),
     set_variable = (\<lambda>name guid attr n p w.
       (EFI_SUCCESS, w\<lparr>fw := fw w @ [((name, guid, attr, n, p), EFI_SUCCESS)]\<rparr>))\<rparr>"

theorem enrol_in_order_witness:
  "\<exists>w'. enrol listing_rt a_ramdisk a_ramdisk a_ramdisk \<lparr>wmem = Map.empty, fw = []\<rparr> = Ret (EFI_SUCCESS, w')
    \<and> map fst (fw w') = key_calls a_ramdisk a_ramdisk a_ramdisk"
proof -
  let ?w = "\<lparr>wmem = Map.empty, fw = []\<rparr> :: (variable_call \<times> efi_status) list world"
  have "records fw listing_rt" by (simp add: records_def listing_rt_def)
  moreover obtain w' where run: "enrol listing_rt a_ramdisk a_ramdisk a_ramdisk ?w = Ret (EFI_SUCCESS, w')"
    by (simp add: enrol_def enrol_key_def a_ramdisk_def buffer_len_def buffer_pos_def efi_var_set_def listing_rt_def)
  ultimately obtain ss where "fw w' = zip (key_calls a_ramdisk a_ramdisk a_ramdisk) ss" "length ss = 3"
    using enrol_in_order [of fw listing_rt a_ramdisk a_ramdisk a_ramdisk ?w EFI_SUCCESS w'] by auto
  moreover have "length (key_calls a_ramdisk a_ramdisk a_ramdisk) = 3" by (simp add: key_calls_def)
  ultimately show ?thesis using run by simp
qed

theorem get_dirname_result_witness:
  "\<exists>m w1. get_dirname bump_services 4 0x1000
      \<lparr>wmem = place 0x1000 (utf16_bytes [separator, 0x61, separator, 0x62, 0]), fw = 0x2000\<rparr>
      = Some (Ret (0x2000, w1\<lparr>wmem := m\<rparr>)) \<and> load_wide m 0x2000 = Some (Ret [separator, 0x61])"
proof -
  let ?t = "[separator, 0x61] @ separator # [0x62] @ [0]"
  let ?w = "\<lparr>wmem = place 0x1000 (utf16_bytes ?t), fw = 0x2000\<rparr> :: addr world"
  let ?w1 = "snd (snd (bump_alloc 4096 ?w))"
  have path: "holds (wmem ?w) 0x1000 (utf16_bytes ?t)"
    unfolding holds_def world.simps by (rule place_load) (simp only: length_utf16_bytes, simp)
  then have "holds (wmem ?w) 0x1000 (utf16_bytes [separator, 0x61])" by (simp add: holds_append)
  moreover have "load_bytes (wmem ?w1) 0x1000 4 = load_bytes (wmem ?w) 0x1000 4"
    by (rule load_bytes_cong) (auto simp: bump_alloc_def in_range_nowrap)
  ultimately have kept: "holds (wmem ?w1) 0x1000 (utf16_bytes [separator, 0x61])" by (simp add: holds_def)
  have pool: "malloc bump_services 4 (of_nat (length [separator, 0x61]) + 1) ?w = (0x2000, ?w1)"
    by (simp add: malloc_def bump_services_def bump_alloc_def)
  have "mapped (wmem ?w1) 0x2000 (2 * length [separator, 0x61] + 2)"
    using bump_alloc_mapped [of 6 4096 ?w] by simp
  then have "\<exists>m. get_dirname bump_services 4 0x1000 ?w = Some (Ret (0x2000, ?w1\<lparr>wmem := m\<rparr>))
      \<and> load_wide m 0x2000 = Some (Ret [separator, 0x61])"
    using get_dirname_result [OF path kept _ _ _ _ _ _ pool] by (simp del: utf16_bytes_simps)
  moreover have "?t = [separator, 0x61, separator, 0x62, 0]" by simp
  ultimately show ?thesis by metis
qed

end
