(* ===== verification/Boot_Order_Props.thy ===== *)
theory Boot_Order_Props
  imports Stub_Props
begin

text \<open>
  The boot order of the stub: the names of the boot variables that it asks for, and that every
  entry of the order is tried, however the ones before it ended.
\<close>

section \<open>Names of boot variables\<close>

text \<open>The format of the names has a width, which the segments of the printing engine leave out.\<close>

abbreviation boot_format :: "u16 list" where
  "boot_format \<equiv> ws ''Boot%04hx'' @ [0]"

definition hex4 :: "u16 \<Rightarrow> u16 list" where
  "hex4 num = hexdigits 4 (unat num)"

lemma hex4_padded:
  "padded (flag_item (set_width 4 (flag_item new_item (wc CHR ''0''))) (wc CHR ''h''))
     (value_to_hex_string (ucast num)) = hex4 num" (is "padded ?item ?s = _")
proof -
  have x: "unat (ucast num :: u64) < 16 ^ Suc 3" "unat (ucast num :: u64) = unat num"
    using unsigned_less [of num, where ?'a = nat] by simp_all
  from x(1) obtain n where n: "n \<le> 3" "n = 0 \<or> 16 ^ n \<le> unat (ucast num :: u64)" "unat (ucast num :: u64) < 16 ^ Suc n"
    by (rule hex_width)
  have s: "?s = hexdigits (Suc n) (unat num)"
    using value_to_hex_string_fixed [OF n(2,3)] x(2) by simp
  have len: "length (hexdigits (Suc n) (unat num)) = Suc n" by (simp del: fixed.simps)
  have "padded ?item ?s = replicate (4 - Suc n) (wc CHR ''0'') @ hexdigits (Suc n) (unat num)"
    using n(1) len by (simp add: padded_def Let_def s flag_item_def set_width_def new_item_def unat_max_64 max_def del: fixed.simps)
  also have "\<dots> = hexdigits (4 - Suc n + Suc n) (unat num)"
    using fixed_pad [of 16 "unat num" "Suc n" hex_digit "4 - Suc n"] n(3) x(2)
    by (simp add: hex_digit_def hex_def del: fixed.simps)
  also have "4 - Suc n + Suc n = 4" using n(1) by simp
  finally show ?thesis by (simp add: hex4_def)
qed

lemma padded_text: "padded (item\<lparr>it_text := t\<rparr>) s = padded item s"
  by (simp add: padded_def Let_def cong: if_cong)

lemma conv_loop_width:
  assumes "drop i f = c # d # rest" and "49 \<le> c" "c \<le> 57" and "\<not> (48 \<le> d \<and> d \<le> 57)" and "it_text item = None"
  shows "conv_loop env item 0 (reposition (wide_at f i) as r ps)
    = conv_loop env (set_width (ucast c - 48) item) 0 (reposition (wide_at f (Suc i)) as r ps)"
proof -
  note i = drop_Cons_nth [OF assms(1)]
  note j = drop_Cons_nth [OF i(3)]
  have "parse_width (wide_at f (Suc i)) c 0 = Some (Ret (ucast c - 48, wide_at f (Suc i)))"
    using j assms(4) by (subst parse_width.simps) (auto simp: ptr_getc_wide Let_def)
  moreover have "c \<noteq> 0" "c \<noteq> 48" "c \<noteq> 45" "c \<noteq> 46" "c \<noteq> 42" using assms(2) by auto
  moreover have "it_text (set_width (ucast c - 48) item) = None" using assms(5) by (simp add: set_width_def)
  ultimately show ?thesis using i assms(2,3)
    by (subst conv_loop.simps) (simp add: ptr_getc_wide Let_def conv_char_def)
qed

lemma boot_name_conversion:
  "print_loop env (reposition (wide_at boot_format 4) [A_word (ucast num)] r ps)
    = once (put_chars (hex4 num) ps) (\<lambda>ps. Some (Ret (reposition (wide_at boot_format 10) [] 0 ps)))"
proof -
  let ?f = boot_format and ?as = "[A_word (ucast num)]"
  define item where "item = flag_item (set_width 4 (flag_item new_item (wc CHR ''0''))) (wc CHR ''h'')"
  have none: "it_text (flag_item new_item (wc CHR ''0'')) = None"
      "it_text (set_width 4 (flag_item new_item (wc CHR ''0''))) = None" "it_text new_item = None"
    by (simp_all add: flag_item_def set_width_def new_item_def)
  have "conv_loop env new_item 0 (reposition (wide_at ?f 5) ?as 0 ps)
      = conv_loop env (flag_item new_item 48) 0 (reposition (wide_at ?f (Suc 5)) ?as 0 ps)"
    by (rule conv_loop_flag) (simp_all add: is_flag_def none)
  also have "\<dots> = conv_loop env (set_width (ucast (52 :: u16) - 48) (flag_item new_item 48)) 0
      (reposition (wide_at ?f (Suc (Suc 5))) ?as 0 ps)"
    using none(1) by (intro conv_loop_width [where d = 104]) simp_all
  also have "\<dots> = conv_loop env item 0 (reposition (wide_at ?f (Suc (Suc (Suc 5)))) ?as 0 ps)"
    using none(2) by (subst conv_loop_flag [where c = 104]) (simp_all add: is_flag_def item_def)
  also have "\<dots> = Some (obind (put_chars (hex4 num) ps) (\<lambda>ps. Ret (reposition (wide_at ?f 9) [] 0 ps)))"
  proof -
    have short: "it_is_short item" "it_is_long item = False"
      by (simp_all add: item_def flag_item_def set_width_def new_item_def)
    let ?s = "value_to_hex_string (ucast num)"
    have "(ucast (ucast (ucast num :: u64) :: u32) :: u16) = num"
      by (rule bit_word_eqI) (auto simp: bit_simps)
    then have "conv_text env (wc CHR ''x'') item ?as = Some (Ret (item\<lparr>it_text := Some (Wide (?s @ [0]))\<rparr>, []))"
      using short hex_text_plain(2) [of "ucast num"]
      by (simp add: conv_text_def arg_number_def arg_u32_def scratch_def PRINT_ITEM_BUFFER_LEN_def)
    moreover have "padded (item\<lparr>it_text := Some (Wide (?s @ [0]))\<rparr>) ?s = hex4 num"
      using hex4_padded [of num] by (simp add: padded_text item_def)
    moreover have "length ?s < 2 ^ 64 - 1" using hex_text_plain(2) [of "ucast num"] by simp
    ultimately show ?thesis
      using hex_text_plain(1) [of "ucast num"]
      by (subst conv_loop.simps)
        (simp add: ptr_getc_wide Let_def conv_char_text flag_letter_def ptr_item_wide put_chars_reposition)
  qed
  finally show ?thesis
    by (subst print_loop.simps)
      (cases "put_chars (hex4 num) ps"; simp add: ptr_getc_wide Let_def print_loop_end)
qed

lemma boot_name_text:
  "wsprintf env 9 9 boot_format [A_word (ucast num)] = Some (Ret (8, ws ''Boot'' @ hex4 num))"
proof -
  let ?as = "[A_word (ucast num)]"
  define ps where "ps = buffer_state 9 9 boot_format ?as"
  have ps: "\<not> ps_console ps" "\<not> ps_add_cr ps" "ps_out ps = []" "ps_room ps = 9" "ps_len ps = 0"
    by (simp_all add: ps_def buffer_state_def)
  have start: "ps\<lparr>ps_len := 0, ps_fmt := (ps_fmt ps)\<lparr>ptr_index := 0\<rparr>\<rparr>
      = reposition (wide_at boot_format 0) ?as 0 ps"
    by (simp add: ps_def buffer_state_def reposition_def)
  define b where "b = ws ''Boot''"
  have b: "length b = 4" "drop 0 boot_format = b @ ws ''%04hx'' @ [0]" "0 \<notin> set b" "wc CHR ''%'' \<notin> set b"
    by (simp_all add: b_def)
  have len: "length (b @ hex4 num) = 8" by (simp add: hex4_def b_def)
  have "print_loop env (reposition (wide_at boot_format 0) ?as 0 ps)
      = once (put_chars b ps) (\<lambda>ps. print_loop env (reposition (wide_at boot_format 4) ?as 0 ps))"
    using print_loop_plain [OF b(2-4), of env ?as 0 ps] by (simp only: b(1) add_0)
  also have "\<dots> = once (put_chars (b @ hex4 num) ps) (\<lambda>ps. Some (Ret (reposition (wide_at boot_format 10) [] 0 ps)))"
    unfolding boot_name_conversion put_chars_append by (cases "put_chars b ps") simp_all
  also have "put_chars (b @ hex4 num) ps = Ret (ps\<lparr>ps_out := b @ hex4 num, ps_len := 8\<rparr>)"
    using put_chars_buffer [of ps "b @ hex4 num"] ps len by simp
  finally show ?thesis
    unfolding wsprintf_def vswprintf_def print_fmt_def ps_def [symmetric] start
    using ps len by (auto simp: Let_def ptr_flush_def reposition_def b_def)
qed

lemma boot_entry_name_text: "boot_entry_name S num w = Some (Ret (ws ''Boot'' @ hex4 num))"
  unfolding boot_entry_name_def boot_name_text by simp

section \<open>The boot order\<close>

text \<open>
  A firmware that has no variable to give: every question is answered with a status other than
  \<open>EFI_BUFFER_TOO_SMALL\<close>, leaves the memory as it is and is recorded in \<open>asked\<close>.
\<close>

definition no_variables :: "('w world \<Rightarrow> u16 list list) \<Rightarrow> 'w runtime_services \<Rightarrow> bool" where
  "no_variables asked RT \<longleftrightarrow> (\<forall>name guid n a w err attr n' w'. get_variable RT name guid n a w = (err, attr, n', w')
     \<longrightarrow> err \<noteq> EFI_BUFFER_TOO_SMALL \<and> wmem w' = wmem w \<and> asked w' = asked w @ [name])"

lemma boot_entry_missing:
  assumes "no_variables asked (m_rt S)"
  obtains w' where "boot_entry S g num w = Some (Ret (EFI_SUCCESS, w'))" "wmem w' = wmem w"
    "asked w' = asked w @ [ws ''Boot'' @ hex4 num]"
proof -
  define nm where "nm = ws ''Boot'' @ hex4 num"
  have name: "boot_entry_name S num w = Some (Ret nm)" unfolding nm_def by (rule boot_entry_name_text)
  obtain err attr n w' where get: "get_variable (m_rt S) nm efi_global_variable_guid 0 0 w = (err, attr, n, w')"
    by (metis prod_cases4)
  then have w': "err \<noteq> EFI_BUFFER_TOO_SMALL" "wmem w' = wmem w" "asked w' = asked w @ [nm]"
    using assms unfolding no_variables_def by blast+
  have "boot_entry S g num w = Some (Ret (EFI_SUCCESS, w'))"
    using name get w'(1) by (simp add: boot_entry_def efi_var_get_pool_def)
  with that w'(2,3) show thesis by (simp only: nm_def)
qed

lemma boot_order_loop_missing:
  assumes "no_variables asked (m_rt S)" and "holds (wmem w) (order + 2 * i) (utf16_bytes nums)"
  shows "\<exists>w'. boot_order_loop (length nums) S g order i w = Some (Ret w') \<and> wmem w' = wmem w
    \<and> asked w' = asked w @ map (\<lambda>num. ws ''Boot'' @ hex4 num) nums"
  using assms(2)
proof (induction nums arbitrary: i w)
  case (Cons num nums)
  have num: "load_w (wmem w) (order + 2 * i) = Ret num"
      and rest: "holds (wmem w) (order + 2 * (i + 1)) (utf16_bytes nums)"
    using Cons.prems holds_word [of "wmem w" "order + 2 * i" num]
    by (simp_all add: holds_append distrib_left add.assoc del: put_le_def)
  obtain w1 where w1: "boot_entry S g num w = Some (Ret (EFI_SUCCESS, w1))" "wmem w1 = wmem w"
      "asked w1 = asked w @ [ws ''Boot'' @ hex4 num]"
    by (rule boot_entry_missing [OF assms(1)])
  obtain w' where "boot_order_loop (length nums) S g order (i + 1) w1 = Some (Ret w')" "wmem w' = wmem w1"
      "asked w' = asked w1 @ map (\<lambda>num. ws ''Boot'' @ hex4 num) nums"
    using Cons.IH [of w1 "i + 1"] rest w1(2) by auto
  then show ?case using num w1 by simp
qed simp

text \<open>
  C30. On a firmware without boot variables the loop over the boot order still comes to every
  entry, in the order of the array, and then ends. The variables are asked for under names with
  four lower-case hexadecimal digits.
\<close>

theorem boot_order_asks_all:
  assumes "no_variables asked (m_rt S)" and "holds (wmem w) order (utf16_bytes nums)"
  shows "\<exists>w'. boot_order_loop (length nums) S g order 0 w = Some (Ret w') \<and> wmem w' = wmem w
    \<and> asked w' = asked w @ map (\<lambda>num. ws ''Boot'' @ hexdigits 4 (unat num)) nums"
  using boot_order_loop_missing [OF assms(1), of w order 0 nums] assms(2) by (simp only: hex4_def) simp

text \<open>A firmware without variables that lists the names it is asked for in its state.\<close>

definition asking_rt :: "u16 list list runtime_services" where
  "asking_rt = \<lparr>get_variable = (\<lambda>name _ n _ w. (EFI_NOT_FOUND, 0, n, w\<lparr>fw := fw w @ [name]\<rparr>)),
     set_variable = (\<lambda>_ _ _ _ _ w. (EFI_SUCCESS, w))\<rparr>"

theorem boot_order_asks_all_witness:
  "\<forall>(S :: (unit, unit, u16 list list) stub) g. \<exists>w'.
     boot_order_loop 2 (S\<lparr>m_rt := asking_rt\<rparr>) g 0x1000 0 \<lparr>wmem = place 0x1000 (utf16_bytes [1, 0xab]), fw = []\<rparr>
       = Some (Ret w') \<and> fw w' = [ws ''Boot0001'', ws ''Boot00ab'']"
proof (intro allI)
  fix S :: "(unit, unit, u16 list list) stub" and g
  let ?w = "\<lparr>wmem = place 0x1000 (utf16_bytes [1, 0xab]), fw = []\<rparr> :: u16 list list world"
  have "no_variables fw (m_rt (S\<lparr>m_rt := asking_rt\<rparr>))"
    by (simp add: no_variables_def asking_rt_def EFI_NOT_FOUND_def EFI_BUFFER_TOO_SMALL_def EFIERR_def EFI_ERROR_MASK_def)
  moreover have "holds (wmem ?w) 0x1000 (utf16_bytes [1, 0xab])"
    unfolding holds_def world.simps by (rule place_load) (simp only: length_utf16_bytes, simp)
  ultimately obtain w' where run: "boot_order_loop (length [1 :: u16, 0xab]) (S\<lparr>m_rt := asking_rt\<rparr>) g 0x1000 0 ?w = Some (Ret w')"
      and asked: "fw w' = fw ?w @ map (\<lambda>num. ws ''Boot'' @ hexdigits 4 (unat num)) [1 :: u16, 0xab]"
    using boot_order_asks_all [of fw "S\<lparr>m_rt := asking_rt\<rparr>" ?w "0x1000" "[1, 0xab]" g] by blast
  have "map (\<lambda>num. ws ''Boot'' @ hexdigits 4 (unat num)) [1 :: u16, 0xab] = [ws ''Boot0001'', ws ''Boot00ab'']"
    by (simp add: fixed_numeral hex_digit_def hex_def)
  then have "fw w' = [ws ''Boot0001'', ws ''Boot00ab'']" using asked by (simp only: world.simps append_Nil)
  moreover have "length [1 :: u16, 0xab] = 2" by simp
  ultimately show "\<exists>w'. boot_order_loop 2 (S\<lparr>m_rt := asking_rt\<rparr>) g 0x1000 0 ?w = Some (Ret w')
      \<and> fw w' = [ws ''Boot0001'', ws ''Boot00ab'']" using run by metis
qed

end
