(* ===== verification/Pe_Fixup.thy ===== *)
theory Pe_Fixup
  imports Buffers PE_Format
begin

text \<open>
  \<^verbatim>\<open>tools/pe_fixup.c\<close>: the host tool that repairs the headers of an executable in place. The
  model takes the options as \<open>getopt_long\<close> returns them, one pair of a letter and its argument
  per call, and the files as a map from names to contents. The shared mapping of a file is the
  memory at \<open>base\<close>, filled up with zeros to the end of its last page; an access behind that page
  is undefined (the process gets a signal). What was stored before an early \<open>return 1\<close> is in the
  file. The system calls fail where the code's inputs make them fail: a missing file cannot be
  opened, an empty one cannot be mapped. The printed messages are left out.
\<close>

unbundle bit_operations_syntax

section \<open>Version numbers\<close>

text \<open>
  \<open>sscanf(optarg, "%hu.%hu", ...)\<close>: white space is skipped before each number, a sign is
  allowed, a number past 64 bits is clamped, and what is stored are the low 16 bits. The result
  is \<open>None\<close> unless both numbers were converted.
\<close>

definition is_blank :: "char \<Rightarrow> bool" where
  "is_blank c \<longleftrightarrow> c = CHR '' '' \<or> (9 \<le> (of_char c :: nat) \<and> of_char c \<le> (13 :: nat))"

definition is_digit :: "char \<Rightarrow> bool" where
  "is_digit c \<longleftrightarrow> 48 \<le> (of_char c :: nat) \<and> of_char c \<le> (57 :: nat)"

definition digits_value :: "string \<Rightarrow> nat" where
  "digits_value ds = fold (\<lambda>c v. 10 * v + (of_char c - 48)) ds 0"

definition scan_hu :: "string \<Rightarrow> (u16 \<times> string) option" where
  "scan_hu s =
     (let s = dropWhile is_blank s;
          negative = (s \<noteq> [] \<and> hd s = CHR ''-'');
          s = (if s \<noteq> [] \<and> (hd s = CHR ''-'' \<or> hd s = CHR ''+'') then tl s else s);
          ds = takeWhile is_digit s; v = digits_value ds;
          w :: u64 = (if v < 2 ^ 64 then (if negative then - of_nat v else of_nat v) else - 1)
      in if ds = [] then None else Some (ucast w, dropWhile is_digit s))"

definition scan_version :: "string \<Rightarrow> (u16 \<times> u16) option" where
  "scan_version s =
     (case scan_hu s of None \<Rightarrow> None
      | Some (ma, rest) \<Rightarrow>
          if rest = [] \<or> hd rest \<noteq> CHR ''.'' then None
          else (case scan_hu (tl rest) of None \<Rightarrow> None | Some (mi, _) \<Rightarrow> Some (ma, mi)))"

text \<open>The argument of the version option; \<open>None\<close> is the return of 1.\<close>

definition parse_version :: "string \<Rightarrow> PE_version16 option" where
  "parse_version optarg =
     (case scan_version optarg of None \<Rightarrow> None
      | Some (ma, mi) \<Rightarrow> if mi > 99 then None else Some \<lparr>major16 = ma, minor16 = mi\<rparr>)"

section \<open>Options\<close>

record fixup_options =
  efi_version :: PE_version16
  filename :: "string option"
  silent :: bool
  set_version :: bool

definition default_fixup_options :: fixup_options where
  "default_fixup_options = \<lparr>efi_version = \<lparr>major16 = 1, minor16 = 10\<rparr>, filename = None,
     silent = False, set_version = False\<rparr>"

fun parse_fixup_options :: "(char \<times> string) list \<Rightarrow> fixup_options \<Rightarrow> fixup_options option" where
  "parse_fixup_options [] opts = Some opts"
| "parse_fixup_options ((c, optarg) # cs) opts =
     (if c = CHR ''s'' then parse_fixup_options cs (opts\<lparr>silent := True\<rparr>)
      else if c = CHR ''f'' then parse_fixup_options cs (opts\<lparr>filename := Some optarg\<rparr>)
      else if c = CHR ''v'' then
        (case parse_version optarg of None \<Rightarrow> None
         | Some v \<Rightarrow> parse_fixup_options cs (opts\<lparr>efi_version := v, set_version := True\<rparr>))
      else if c = CHR ''?'' then None
      else parse_fixup_options cs opts)"

section \<open>Header checks\<close>

definition PE_HEADER_LINE_NUMS_STRIPPED :: u16 where "PE_HEADER_LINE_NUMS_STRIPPED = 0x0004"
definition PE_HEADER_LOCAL_SYMS_STRIPPED :: u16 where "PE_HEADER_LOCAL_SYMS_STRIPPED = 0x0008"
definition PE_HEADER_DEBUG_STRIPPED :: u16 where "PE_HEADER_DEBUG_STRIPPED = 0x0200"

text \<open>Offsets of the fields the tools use, from the start of the image headers.\<close>

definition at_machine :: addr where "at_machine = 4"
definition at_number_of_sections :: addr where "at_number_of_sections = 6"
definition at_size_of_optional_header :: addr where "at_size_of_optional_header = 20"
definition at_characteristics :: addr where "at_characteristics = 22"
definition at_magic :: addr where "at_magic = 24"
definition at_size_of_initialized_data :: addr where "at_size_of_initialized_data = 32"
definition at_section_alignment :: addr where "at_section_alignment = 56"
definition at_file_alignment :: addr where "at_file_alignment = 60"
definition at_operation_system_version :: addr where "at_operation_system_version = 64"
definition at_subsystem_version :: addr where "at_subsystem_version = 72"
definition at_size_of_image :: addr where "at_size_of_image = 80"
definition at_subsystem :: addr where "at_subsystem = 92"
definition at_DLL_characteristics :: addr where "at_DLL_characteristics = 94"

lemmas at_defs = at_machine_def at_number_of_sections_def at_size_of_optional_header_def
  at_characteristics_def at_magic_def at_size_of_initialized_data_def at_section_alignment_def
  at_file_alignment_def at_operation_system_version_def at_subsystem_version_def
  at_size_of_image_def at_subsystem_def at_DLL_characteristics_def

text \<open>
  The checks of both tools; \<open>None\<close> is the return of 1, otherwise the address of the image
  headers. The sum \<open>pe_offset + 26\<close> has 32 bits; the last one has 64.
\<close>

definition check_headers :: "addr \<Rightarrow> size_t \<Rightarrow> mem \<Rightarrow> addr option outcome" where
  "check_headers base sz m =
     obind (load_w m base) (\<lambda>mz.
     if mz \<noteq> MZ_DOS_SIGNATURE then Ret None
     else if sz < 64 then Ret None
     else
     obind (load_w m (base + DOS_PE_OFFSET_LOCATION)) (\<lambda>pe_offset :: u32.
     if sz < ucast (pe_offset + 26) then Ret None
     else
     let pe = base + ucast pe_offset in
     obind (load_w m pe) (\<lambda>sign.
     if sign \<noteq> PE_HEADER_SIGNATURE then Ret None
     else
     obind (load_w m (pe + at_number_of_sections)) (\<lambda>n.
     if n > PE_HEADER_MAX_NUMBER_OF_SECTIONS then Ret None
     else
     obind (load_w m (pe + at_characteristics)) (\<lambda>c :: u16.
     if c AND PE_HEADER_RELOCS_STRIPPED \<noteq> 0 then Ret None
     else if c AND (PE_HEADER_BYTES_REVERSED_LO OR PE_HEADER_BYTES_REVERSED_HI) \<noteq> 0 then Ret None
     else
     obind (load_w m (pe + at_size_of_optional_header)) (\<lambda>n :: u16.
     if sz < ucast pe_offset + sizeof_PE_COFF_header + ucast n then Ret None
     else Ret (Some pe)))))))"

text \<open>
  The fields that both tools set; \<open>False\<close> is the return of 1 for a missing magic number of the
  optional header, after the characteristics were already stored.
\<close>

definition strip_flags :: "addr \<Rightarrow> mem \<Rightarrow> mem outcome" where
  "strip_flags pe m =
     obind (load_w m (pe + at_characteristics)) (\<lambda>c :: u16.
     store_w m (pe + at_characteristics)
       (c OR (PE_HEADER_LINE_NUMS_STRIPPED OR PE_HEADER_LOCAL_SYMS_STRIPPED OR PE_HEADER_DEBUG_STRIPPED)))"

definition set_efi_fields :: "bool \<Rightarrow> PE_version16 \<Rightarrow> addr \<Rightarrow> mem \<Rightarrow> mem outcome" where
  "set_efi_fields set_v v pe m =
     obind (load_w m (pe + at_subsystem)) (\<lambda>s.
     if s = PE_HEADER_SUBSYSTEM_EFI_APPLICATION then
       obind (if set_v then
                obind (store_bytes m (pe + at_subsystem_version) (put_PE_version16 v)) (\<lambda>m.
                store_bytes m (pe + at_operation_system_version) (put_PE_version16 v))
              else Ret m) (\<lambda>m.
       store_w m (pe + at_DLL_characteristics) (0 :: u16))
     else Ret m)"

definition fix_headers :: "bool \<Rightarrow> PE_version16 \<Rightarrow> addr \<Rightarrow> mem \<Rightarrow> (bool \<times> mem) outcome" where
  "fix_headers set_v v pe m =
     obind (strip_flags pe m) (\<lambda>m.
     obind (load_w m (pe + at_magic)) (\<lambda>opt_magic.
     if opt_magic \<noteq> PE_HEADER_OPTIONAL_HDR32_MAGIC \<and> opt_magic \<noteq> PE_HEADER_OPTIONAL_HDR64_MAGIC
     then Ret (False, m)
     else obind (set_efi_fields set_v v pe m) (\<lambda>m. Ret (True, m))))"

text \<open>The alignments, when they are 0.\<close>

definition default_alignment :: "addr \<Rightarrow> u32 \<Rightarrow> mem \<Rightarrow> mem outcome" where
  "default_alignment a v m =
     obind (load_w m a) (\<lambda>x :: u32. if x = 0 then store_w m a v else Ret m)"

definition default_alignments :: "addr \<Rightarrow> mem \<Rightarrow> mem outcome" where
  "default_alignments pe m =
     obind (default_alignment (pe + at_file_alignment) 0x200 m) (\<lambda>m.
     default_alignment (pe + at_section_alignment) PAGE_SIZE m)"

section \<open>Sections\<close>

definition first_section :: "addr \<Rightarrow> mem \<Rightarrow> addr outcome" where
  "first_section pe m =
     obind (load_w m (pe + at_size_of_optional_header)) (\<lambda>n :: u16.
     Ret (pe + sizeof_PE_COFF_header + ucast n))"

definition load_section_header :: "mem \<Rightarrow> addr \<Rightarrow> PE_section_header outcome" where
  "load_section_header m a =
     obind (load_bytes m a (unat sizeof_PE_section_header)) (\<lambda>bs. Ret (get_PE_section_header bs))"

text \<open>
  The end of the image in memory. A section is compared by its start; the sum of start and size
  has 32 bits.
\<close>

definition vma_step :: "size_t \<Rightarrow> PE_section_header \<Rightarrow> size_t" where
  "vma_step largest_vma s =
     (if largest_vma < ucast (virtual_address s)
      then ucast (virtual_address s + virtual_size s) else largest_vma)"

fun vma_loop :: "nat \<Rightarrow> mem \<Rightarrow> addr \<Rightarrow> size_t \<Rightarrow> size_t outcome" where
  "vma_loop 0 m a largest_vma = Ret largest_vma"
| "vma_loop (Suc i) m a largest_vma =
     obind (load_section_header m a) (\<lambda>s.
     vma_loop i m (a + sizeof_PE_section_header) (vma_step largest_vma s))"

text \<open>\<open>False\<close> when a section has no raw data: the return of 1.\<close>

fun raw_loop :: "nat \<Rightarrow> mem \<Rightarrow> addr \<Rightarrow> bool outcome" where
  "raw_loop 0 m a = Ret True"
| "raw_loop (Suc i) m a =
     obind (load_section_header m a) (\<lambda>s.
     if size_of_raw_data s = 0 then Ret False else raw_loop i m (a + sizeof_PE_section_header))"

text \<open>\<open>ALIGN_VALUE\<close> of a \<open>size_t\<close> and a \<open>uint32_t\<close>: the mask is computed in 32 bits.\<close>

definition ALIGN_VALUE_mixed :: "size_t \<Rightarrow> u32 \<Rightarrow> size_t" where
  "ALIGN_VALUE_mixed v a = v + ((ucast a - v) AND ucast (a - 1))"

definition fix_sections :: "addr \<Rightarrow> mem \<Rightarrow> (bool \<times> mem) outcome" where
  "fix_sections pe m =
     obind (load_w m (pe + at_section_alignment)) (\<lambda>section_alignment.
     obind (first_section pe m) (\<lambda>section.
     obind (load_w m (pe + at_number_of_sections)) (\<lambda>n :: u16.
     obind (vma_loop (unat n) m section 0) (\<lambda>largest_vma.
     let largest_vma = ALIGN_VALUE_mixed largest_vma section_alignment in
     obind (raw_loop (unat n) m section) (\<lambda>ok.
     if \<not> ok then Ret (False, m)
     else
     obind (store_w m (pe + at_size_of_image) (ucast largest_vma :: u32)) (\<lambda>m.
     Ret (True, m)))))))"

section \<open>The program\<close>

text \<open>The work on the mapped file: the exit status and the mapping.\<close>

definition fix_image :: "fixup_options \<Rightarrow> addr \<Rightarrow> size_t \<Rightarrow> mem \<Rightarrow> (u32 \<times> mem) outcome" where
  "fix_image opts base sz m =
     obind (check_headers base sz m) (\<lambda>checked.
     case checked of None \<Rightarrow> Ret (1, m)
     | Some pe \<Rightarrow>
     obind (fix_headers (set_version opts) (efi_version opts) pe m) (\<lambda>(ok, m).
     if \<not> ok then Ret (1, m)
     else
     obind (default_alignments pe m) (\<lambda>m.
     obind (fix_sections pe m) (\<lambda>(ok, m). Ret (if ok then 0 else 1, m)))))"

type_synonym files = "string \<rightharpoonup> u8 list"

definition map_file :: "addr \<Rightarrow> u8 list \<Rightarrow> mem" where
  "map_file base bs = place base (bs @ replicate (round_up (length bs) 4096 - length bs) 0)"

definition pe_fixup :: "addr \<Rightarrow> (char \<times> string) list \<Rightarrow> files \<Rightarrow> (u32 \<times> files) outcome" where
  "pe_fixup base args fs =
     (case parse_fixup_options args default_fixup_options of None \<Rightarrow> Ret (1, fs)
      | Some opts \<Rightarrow>
     (case filename opts of None \<Rightarrow> Ret (1, fs)
      | Some f \<Rightarrow>
     (case fs f of None \<Rightarrow> Ret (1, fs)
      | Some bs \<Rightarrow>
          if bs = [] then Ret (1, fs)
          else
          obind (fix_image opts base (of_nat (length bs)) (map_file base bs)) (\<lambda>(status, m).
          obind (load_bytes m base (length bs)) (\<lambda>bs'.
          Ret (status, fs(f \<mapsto> bs')))))))"

end
