(* ===== verification/Build_Image.thy ===== *)
theory Build_Image
  imports Pe_Fixup
begin

text \<open>
  \<^verbatim>\<open>tools/build_image.c\<close>: the host tool that appends the kernel, the initial ram disk, the
  command line and the other files as sections to the boot stub. Files, options and the shared
  mapping of the output file are modelled as in \<open>Pe_Fixup\<close>; the inputs are other files than the
  output file. \<open>asserts\<close> says whether the tool was compiled with assertions: a failed one ends the
  process (\<open>Aborts\<close>). A \<open>read\<close> or \<open>sendfile\<close> transfers at most \<open>0x7ffff000\<close> bytes, and \<open>read\<close>
  stops at memory that is not mapped. \<open>ftruncate\<close> and \<open>malloc\<close> do not fail. The messages are left
  out.
\<close>

unbundle bit_operations_syntax

datatype tool_result = Returns u32 | Aborts

section \<open>The sections to append\<close>

definition PE_SECTION_CNT_INITIALIZED_DATA :: u32 where "PE_SECTION_CNT_INITIALIZED_DATA = 0x40"
definition PE_SECTION_MEM_READ :: u32 where "PE_SECTION_MEM_READ = 0x40000000"
definition PE_HEADER_SIZE :: nat where "PE_HEADER_SIZE = 4098"

text \<open>\<open>vma_file\<close> is the contents behind the file descriptor; \<open>None\<close> when it is not open.\<close>

record section_vma =
  vma_name :: string
  vma_filename :: "string option"
  vma_file :: "u8 list option"
  target_vma :: u32
  vma_virtual_size :: u32
  raw_size :: u32
  flags :: u32

definition data_section :: "string \<Rightarrow> section_vma" where
  "data_section name = \<lparr>vma_name = name, vma_filename = None, vma_file = None, target_vma = 0,
     vma_virtual_size = 0, raw_size = 0, flags = PE_SECTION_CNT_INITIALIZED_DATA OR PE_SECTION_MEM_READ\<rparr>"

definition section_data :: "section_vma list" where
  "section_data = map data_section [''.osrel'', ''.cmdline'', ''.dtb'', ''.splash'', ''.linux'', ''.initrd'']"

definition BUILD_SECTION_OSREL :: nat where "BUILD_SECTION_OSREL = 0"
definition BUILD_SECTION_CMDLINE :: nat where "BUILD_SECTION_CMDLINE = 1"
definition BUILD_SECTION_DT :: nat where "BUILD_SECTION_DT = 2"
definition BUILD_SECTION_SPLASH :: nat where "BUILD_SECTION_SPLASH = 3"
definition BUILD_SECTION_LINUX :: nat where "BUILD_SECTION_LINUX = 4"
definition BUILD_SECTION_INITRD :: nat where "BUILD_SECTION_INITRD = 5"

section \<open>Looking into an executable\<close>

record pe_info =
  info_file_alignment :: u32
  info_section_alignment :: u32
  info_image_size :: u32
  info_architecture :: u16

text \<open>Of the file, the first 4098 bytes are read.\<close>

definition inspect_pe :: "u8 list \<Rightarrow> pe_info option" where
  "inspect_pe file =
     (if length file < PE_HEADER_SIZE then None
      else
      let base = take PE_HEADER_SIZE file;
          offset :: u32 = get_le (field (unat DOS_PE_OFFSET_LOCATION) 4 base);
          pe = get_PE_image_headers (field (unat offset) (unat sizeof_PE_image_headers) base)
      in if (get_le (field 0 2 base) :: u16) \<noteq> MZ_DOS_SIGNATURE then None
         else if ucast offset + sizeof_PE_image_headers > of_nat PE_HEADER_SIZE then None
         else if signature (file_header pe) \<noteq> PE_HEADER_SIGNATURE then None
         else if magic (optional_header pe) \<noteq> PE_HEADER_OPTIONAL_HDR32_MAGIC
             \<and> magic (optional_header pe) \<noteq> PE_HEADER_OPTIONAL_HDR64_MAGIC then None
         else Some \<lparr>info_file_alignment = opt_file_alignment (optional_header pe),
             info_section_alignment = opt_section_alignment (optional_header pe),
             info_image_size = opt_size_of_image (optional_header pe),
             info_architecture = machine (file_header pe)\<rparr>)"

section \<open>Options\<close>

record build_options =
  build_version :: PE_version16
  stub_file :: "string option"
  outfile :: "string option"
  build_silent :: bool
  force :: bool
  build_set_version :: bool
  sections :: "section_vma list"

definition default_build_options :: build_options where
  "default_build_options = \<lparr>build_version = \<lparr>major16 = 1, minor16 = 10\<rparr>, stub_file = None,
     outfile = None, build_silent = True, force = False, build_set_version = False,
     sections = section_data\<rparr>"

definition set_section_file :: "nat \<Rightarrow> string \<Rightarrow> build_options \<Rightarrow> build_options" where
  "set_section_file i f opts =
     opts\<lparr>sections := (sections opts)[i := (sections opts ! i)\<lparr>vma_filename := Some f\<rparr>]\<rparr>"

fun parse_build_options :: "(char \<times> string) list \<Rightarrow> build_options \<Rightarrow> build_options option" where
  "parse_build_options [] opts = Some opts"
| "parse_build_options ((c, optarg) # cs) opts =
     (if c = CHR ''f'' then parse_build_options cs (opts\<lparr>force := True\<rparr>)
      else if c = CHR ''v'' then parse_build_options cs (opts\<lparr>build_silent := False\<rparr>)
      else if c = CHR ''s'' then parse_build_options cs (opts\<lparr>stub_file := Some optarg\<rparr>)
      else if c = CHR ''o'' then parse_build_options cs (opts\<lparr>outfile := Some optarg\<rparr>)
      else if c = CHR ''O'' then parse_build_options cs (set_section_file BUILD_SECTION_OSREL optarg opts)
      else if c = CHR ''c'' then parse_build_options cs (set_section_file BUILD_SECTION_CMDLINE optarg opts)
      else if c = CHR ''d'' then parse_build_options cs (set_section_file BUILD_SECTION_DT optarg opts)
      else if c = CHR ''l'' then parse_build_options cs (set_section_file BUILD_SECTION_LINUX optarg opts)
      else if c = CHR ''i'' then parse_build_options cs (set_section_file BUILD_SECTION_INITRD optarg opts)
      else if c = CHR ''V'' then
        (case parse_version optarg of None \<Rightarrow> None
         | Some v \<Rightarrow> parse_build_options cs (opts\<lparr>build_version := v, build_set_version := True\<rparr>))
      else if c = CHR ''h'' \<or> c = CHR ''?'' then None
      else parse_build_options cs opts)"

text \<open>
  The three file names that are required, and the default of the fourth; \<open>None\<close> is the return
  of 1.
\<close>

definition required_files :: "build_options \<Rightarrow> (string \<times> string \<times> section_vma list) option" where
  "required_files opts =
     (case stub_file opts of None \<Rightarrow> None
      | Some stub \<Rightarrow>
     (case vma_filename (sections opts ! BUILD_SECTION_LINUX) of None \<Rightarrow> None
      | Some _ \<Rightarrow>
     (case outfile opts of None \<Rightarrow> None
      | Some out \<Rightarrow>
          Some (stub, out,
            (if vma_filename (sections opts ! BUILD_SECTION_OSREL) = None
             then sections (set_section_file BUILD_SECTION_OSREL ''/etc/os-release'' opts)
             else sections opts)))))"

section \<open>Opening the inputs\<close>

text \<open>
  One file: the alignment of the sections, the size of the output file and the section data. The
  kernel, when it is an executable itself, takes the size of its image, rounded up, and its
  alignment, if that is larger.
\<close>

definition open_section ::
    "bool \<Rightarrow> files \<Rightarrow> u32 \<Rightarrow> u16 \<Rightarrow> nat \<Rightarrow> section_vma \<Rightarrow> u32 \<times> size_t
     \<Rightarrow> tool_result + section_vma \<times> u32 \<times> size_t" where
  "open_section asserts fs file_alignment architecture i sec = (\<lambda>(section_alignment, filesize).
     case vma_filename sec of None \<Rightarrow> Inr (sec, section_alignment, filesize)
     | Some f \<Rightarrow>
     (case fs f of None \<Rightarrow> Inl (Returns 1)
      | Some bs \<Rightarrow>
     let size = of_nat (length bs);
         sec = sec\<lparr>vma_file := Some bs, vma_virtual_size := ucast size, raw_size := ucast size\<rparr>;
         filesize = filesize + ALIGN_VALUE_mixed size file_alignment
     in case (if i = BUILD_SECTION_LINUX then inspect_pe bs else None) of
          None \<Rightarrow> Inr (sec, section_alignment, filesize)
        | Some linux \<Rightarrow>
            let section_alignment =
                  (if section_alignment > info_section_alignment linux then section_alignment
                   else info_section_alignment linux)
            in if asserts \<and> \<not> vma_virtual_size sec < info_image_size linux then Inl Aborts
               else if info_architecture linux \<noteq> architecture then Inl (Returns 1)
               else Inr (sec\<lparr>vma_virtual_size := ALIGN_VALUE (info_image_size linux) section_alignment\<rparr>,
                         section_alignment, filesize)))"

fun open_sections ::
    "bool \<Rightarrow> files \<Rightarrow> u32 \<Rightarrow> u16 \<Rightarrow> nat \<Rightarrow> section_vma list \<Rightarrow> u32 \<times> size_t
     \<Rightarrow> tool_result + section_vma list \<times> u32 \<times> size_t" where
  "open_sections asserts fs fa arch i [] (sa, filesize) = Inr ([], sa, filesize)"
| "open_sections asserts fs fa arch i (sec # secs) (sa, filesize) =
     (case open_section asserts fs fa arch i sec (sa, filesize) of Inl r \<Rightarrow> Inl r
      | Inr (sec, sa, filesize) \<Rightarrow>
     (case open_sections asserts fs fa arch (i + 1) secs (sa, filesize) of Inl r \<Rightarrow> Inl r
      | Inr (secs, sa, filesize) \<Rightarrow> Inr (sec # secs, sa, filesize)))"

section \<open>Appending the sections\<close>

text \<open>The ends of the last section in the file and in memory.\<close>

fun ends_loop :: "nat \<Rightarrow> mem \<Rightarrow> addr \<Rightarrow> u32 \<Rightarrow> u32 \<Rightarrow> size_t \<times> size_t \<Rightarrow> (size_t \<times> size_t) outcome" where
  "ends_loop 0 m a fa sa ends = Ret ends"
| "ends_loop (Suc i) m a fa sa (lraw, lvma) =
     obind (load_section_header m a) (\<lambda>s.
     let raw_end = pointer_to_raw_data s + size_of_raw_data s;
         vma_end = virtual_address s + virtual_size s
     in ends_loop i m (a + sizeof_PE_section_header) fa sa
          (if lraw < ucast raw_end then ucast (ALIGN_VALUE raw_end fa) else lraw,
           if lvma < ucast vma_end then ucast (ALIGN_VALUE vma_end sa) else lvma))"

text \<open>\<open>read\<close> into memory: the number of bytes that were read, and the memory.\<close>

fun read_into :: "mem \<Rightarrow> addr \<Rightarrow> u8 list \<Rightarrow> nat \<times> mem" where
  "read_into m a [] = (0, m)"
| "read_into m a (b # bs) =
     (if m a = None then (0, m)
      else let (n, m) = read_into (m(a \<mapsto> b)) (a + 1) bs in (Suc n, m))"

definition read_limit :: nat where "read_limit = 0x7ffff000"

text \<open>\<open>strncpy\<close> of the name into the eight bytes of the header.\<close>

definition short_name :: "string \<Rightarrow> u8 list" where
  "short_name s = (let bs = take PE_SECTION_SIZE_OF_SHORT_NAME (map of_char s)
     in bs @ replicate (PE_SECTION_SIZE_OF_SHORT_NAME - length bs) 0)"

definition section_header_of :: "u32 \<Rightarrow> section_vma \<Rightarrow> size_t \<Rightarrow> size_t \<Rightarrow> PE_section_header" where
  "section_header_of fa sec lraw lvma = \<lparr>sec_name = short_name (vma_name sec),
     virtual_size = vma_virtual_size sec,
     virtual_address = (if target_vma sec = 0 then ucast lvma else target_vma sec),
     size_of_raw_data = ALIGN_VALUE (raw_size sec) fa, pointer_to_raw_data = ucast lraw,
     pointer_to_relocations = 0, pointer_to_linenumbers = 0, number_of_relocations = 0,
     number_of_linenumbers = 0, sec_characteristics = flags sec\<rparr>"

text \<open>
  The counters of the headers. What was stored in the section header is loaded again for each of
  them.
\<close>

definition add_w :: "addr \<Rightarrow> u32 \<Rightarrow> mem \<Rightarrow> mem outcome" where
  "add_w a v m = obind (load_w m a) (\<lambda>x. store_w m a (x + v))"

definition count_section :: "addr \<Rightarrow> addr \<Rightarrow> mem \<Rightarrow> mem outcome" where
  "count_section pe section m =
     obind (load_section_header m section) (\<lambda>s.
     obind (add_w (pe + at_size_of_initialized_data) (virtual_size s) m) (\<lambda>m.
     obind (load_section_header m section) (\<lambda>s.
     obind (add_w (pe + at_size_of_image) (virtual_size s) m) (\<lambda>m.
     obind (load_w m (pe + at_number_of_sections)) (\<lambda>n :: u16.
     store_w m (pe + at_number_of_sections) (n + 1))))))"

text \<open>One section; \<open>Inl r\<close> ends the program.\<close>

definition append_section ::
    "bool \<Rightarrow> addr \<Rightarrow> size_t \<Rightarrow> addr \<Rightarrow> u32 \<Rightarrow> u32 \<Rightarrow> section_vma \<Rightarrow> u8 list
     \<Rightarrow> addr \<times> size_t \<times> size_t \<times> size_t \<Rightarrow> mem
     \<Rightarrow> ((tool_result + addr \<times> size_t \<times> size_t \<times> size_t) \<times> mem) outcome" where
  "append_section asserts base sz pe fa sa sec bs = (\<lambda>(section, lraw, lvma, filesize) m.
     let (n, m) = read_into m (base + lraw) (take (min (unat (raw_size sec)) read_limit) bs)
     in if n \<noteq> unat (raw_size sec) then Ret (Inl (Returns 1), m)
        else
        obind (store_bytes m section (put_PE_section_header (section_header_of fa sec lraw lvma))) (\<lambda>m.
        obind (count_section pe section m) (\<lambda>m.
        obind (load_section_header m section) (\<lambda>s.
        let filesize = filesize + ucast (size_of_raw_data s)
        in if asserts \<and> \<not> filesize < sz then Ret (Inl Aborts, m)
           else Ret (Inr (section + sizeof_PE_section_header, lraw + ucast (size_of_raw_data s),
                          ucast (ALIGN_VALUE (virtual_address s + virtual_size s) sa), filesize), m)))))"

fun append_loop ::
    "bool \<Rightarrow> addr \<Rightarrow> size_t \<Rightarrow> addr \<Rightarrow> u32 \<Rightarrow> u32 \<Rightarrow> section_vma list
     \<Rightarrow> addr \<times> size_t \<times> size_t \<times> size_t \<Rightarrow> mem
     \<Rightarrow> ((tool_result + addr \<times> size_t \<times> size_t \<times> size_t) \<times> mem) outcome" where
  "append_loop asserts base sz pe fa sa [] st m = Ret (Inr st, m)"
| "append_loop asserts base sz pe fa sa (sec # secs) st m =
     (case vma_file sec of None \<Rightarrow> append_loop asserts base sz pe fa sa secs st m
      | Some bs \<Rightarrow>
          obind (append_section asserts base sz pe fa sa sec bs st m) (\<lambda>(r, m).
          case r of Inl res \<Rightarrow> Ret (Inl res, m)
          | Inr st \<Rightarrow> append_loop asserts base sz pe fa sa secs st m))"

section \<open>The program\<close>

text \<open>
  The work on the mapping of the output file; \<open>Inr\<close> gives the size to which the file is cut in
  the end.
\<close>

definition build_mapped ::
    "bool \<Rightarrow> build_options \<Rightarrow> addr \<Rightarrow> size_t \<Rightarrow> size_t \<Rightarrow> u32 \<Rightarrow> u32 \<Rightarrow> section_vma list \<Rightarrow> mem
     \<Rightarrow> ((tool_result + size_t) \<times> mem) outcome" where
  "build_mapped asserts opts base sz orig_filesize fa sa secs m =
     obind (check_headers base sz m) (\<lambda>checked.
     case checked of None \<Rightarrow> Ret (Inl (Returns 1), m)
     | Some pe \<Rightarrow>
     obind (fix_headers (build_set_version opts) (build_version opts) pe m) (\<lambda>(ok, m).
     if \<not> ok then Ret (Inl (Returns 1), m)
     else
     obind (store_w m (pe + at_file_alignment) fa) (\<lambda>m.
     obind (store_w m (pe + at_section_alignment) sa) (\<lambda>m.
     obind (first_section pe m) (\<lambda>section.
     obind (load_w m (pe + at_number_of_sections)) (\<lambda>n :: u16.
     obind (ends_loop (unat n) m section fa sa (0, 0)) (\<lambda>(lraw, lvma).
     obind (append_loop asserts base sz pe fa sa secs
         (section + of_nat (unat n) * sizeof_PE_section_header, lraw, lvma, orig_filesize) m) (\<lambda>(r, m).
     Ret (case r of Inl res \<Rightarrow> Inl res | Inr (_, _, _, filesize) \<Rightarrow> Inr filesize, m)))))))))"

text \<open>\<open>ftruncate\<close>.\<close>

definition resize :: "nat \<Rightarrow> u8 list \<Rightarrow> u8 list" where
  "resize n bs = take n bs @ replicate (n - length bs) 0"

text \<open>
  From the opening of the output file on. An existing file is refused unless forced, and then its
  old contents stay behind the copy of the stub.
\<close>

definition write_image ::
    "bool \<Rightarrow> build_options \<Rightarrow> addr \<Rightarrow> u8 list \<Rightarrow> string \<Rightarrow> u32 \<Rightarrow> u32 \<Rightarrow> size_t \<Rightarrow> section_vma list \<Rightarrow> files
     \<Rightarrow> (tool_result \<times> files) outcome" where
  "write_image asserts opts base orig out fa sa filesize secs fs =
     (if fs out \<noteq> None \<and> \<not> force opts then Ret (Returns 1, fs)
      else
      let old = (case fs out of None \<Rightarrow> [] | Some bs \<Rightarrow> bs);
          sent = take read_limit orig;
          new = sent @ drop (length sent) old
      in if length sent \<noteq> length orig then Ret (Returns 1, fs(out \<mapsto> new))
         else
         let new = resize (unat filesize) new
         in if asserts \<and> orig = [] then Ret (Aborts, fs(out \<mapsto> new))
            else if new = [] then Ret (Returns 1, fs(out \<mapsto> new))
            else
            obind (build_mapped asserts opts base filesize (of_nat (length orig)) fa sa secs
                (map_file base new)) (\<lambda>(r, m).
            obind (load_bytes m base (length new)) (\<lambda>new.
            Ret (case r of Inl res \<Rightarrow> (res, fs(out \<mapsto> new))
                 | Inr filesize \<Rightarrow> (Returns 0, fs(out \<mapsto> resize (unat filesize) new))))))"

definition build_image ::
    "bool \<Rightarrow> addr \<Rightarrow> (char \<times> string) list \<Rightarrow> files \<Rightarrow> (tool_result \<times> files) outcome" where
  "build_image asserts base args fs =
     (case parse_build_options args default_build_options of None \<Rightarrow> Ret (Returns 1, fs)
      | Some opts \<Rightarrow>
     (case required_files opts of None \<Rightarrow> Ret (Returns 1, fs)
      | Some (stub, out, secs) \<Rightarrow>
     (case fs stub of None \<Rightarrow> Ret (Returns 1, fs)
      | Some orig \<Rightarrow>
     (case inspect_pe orig of None \<Rightarrow> Ret (Returns 1, fs)
      | Some info \<Rightarrow>
          let sa = (if info_section_alignment info = 0 then PAGE_SIZE else info_section_alignment info);
              fa = (if info_file_alignment info = 0 then 0x200 else info_file_alignment info)
          in case open_sections asserts fs fa (info_architecture info) 0 secs (sa, of_nat (length orig)) of
               Inl r \<Rightarrow> Ret (r, fs)
             | Inr (secs, sa, filesize) \<Rightarrow>
                 write_image asserts opts base orig out fa sa filesize secs fs))))"

end
