(* ===== verification/Tool_Props.thy ===== *)
theory Tool_Props
  imports Build_Image
begin

text \<open>
  What the host tools guarantee: \<^verbatim>\<open>pe_fixup\<close> changes nothing but the header fields it repairs,
  the size it computes for the image, what \<^verbatim>\<open>build_image\<close> appends for one input, and the
  assertion on which every build with assertions ends.
\<close>

unbundle bit_operations_syntax

section \<open>Which addresses are written\<close>

text \<open>\<open>touches A m m'\<close>: nothing but the addresses in \<open>A\<close> differs, and the mapping is the same.\<close>

definition touches :: "addr set \<Rightarrow> mem \<Rightarrow> mem \<Rightarrow> bool" where
  "touches A m m' \<longleftrightarrow> dom m' = dom m \<and> (\<forall>x. x \<notin> A \<longrightarrow> m' x = m x)"

lemma touches_refl [simp]: "touches A m m"
  by (simp add: touches_def)

lemma touches_trans: "touches A m m' \<Longrightarrow> touches A m' m'' \<Longrightarrow> touches A m m''"
  by (simp add: touches_def)

lemma touches_mono: "touches A m m' \<Longrightarrow> A \<subseteq> B \<Longrightarrow> touches B m m'"
  by (auto simp: touches_def)

lemma touches_store: "store_bytes m a bs = Ret m' \<Longrightarrow> {x. in_range a (length bs) x} \<subseteq> A \<Longrightarrow> touches A m m'"
  unfolding touches_def using store_bytes_dom store_bytes_frame by blast

lemma touches_store_w:
  "store_w m a (w :: 'a::len word) = Ret m' \<Longrightarrow> {x. in_range a (LENGTH('a) div 8) x} \<subseteq> A \<Longrightarrow> touches A m m'"
  unfolding store_w_def by (rule touches_store, assumption) simp

lemma touches_load:
  "touches A m m' \<Longrightarrow> (\<And>x. in_range a n x \<Longrightarrow> x \<notin> A) \<Longrightarrow> load_bytes m' a n = load_bytes m a n"
  by (intro load_bytes_cong) (simp add: touches_def)

lemma touches_load_w:
  "touches A m m' \<Longrightarrow> (\<And>x. in_range a (LENGTH('a) div 8) x \<Longrightarrow> x \<notin> A)
    \<Longrightarrow> (load_w m' a :: 'a::len word outcome) = load_w m a"
  by (simp add: load_w_def touches_load)

text \<open>The bytes of the fields at the offsets in \<open>K\<close> of the structure at \<open>pe\<close>.\<close>

definition fields_at :: "addr \<Rightarrow> nat set \<Rightarrow> addr set" where
  "fields_at pe K = {x. unat (x - pe) \<in> K}"

lemma fields_at_in_range:
  assumes "k + n \<le> 2 ^ 64" and "{k..<k + n} \<subseteq> K"
  shows "{x. in_range (pe + of_nat k) n x} \<subseteq> fields_at pe K"
proof clarify
  fix x assume x: "in_range (pe + of_nat k) n x"
  then have "0 < n" by (simp add: in_range_def)
  define y where "y = x - (pe + of_nat k)"
  have "unat (of_nat k :: addr) = k" using assms(1) \<open>0 < n\<close> by (simp add: unat_of_nat)
  moreover have "x - pe = y + of_nat k" by (simp add: y_def)
  moreover have "unat y < n" using x by (simp add: in_range_def y_def)
  ultimately have "unat (x - pe) = unat y + k"
    using assms(1) by (simp add: unat_word_ariths)
  then show "x \<in> fields_at pe K" using \<open>unat y < n\<close> assms(2) by (auto simp: fields_at_def)
qed

lemma in_range_fields_at:
  assumes "in_range (pe + of_nat k) n x" and "k + n \<le> 2 ^ 64" and "{k..<k + n} \<inter> K = {}"
  shows "x \<notin> fields_at pe K"
proof -
  have "x \<in> fields_at pe {k..<k + n}"
    using fields_at_in_range [OF assms(2) order_refl, of pe] assms(1) by blast
  then show ?thesis using assms(3) by (auto simp: fields_at_def disjoint_iff)
qed

lemma load_after_fields:
  assumes "touches (fields_at pe K) m m'" and "k + n \<le> 2 ^ 64" and "{k..<k + n} \<inter> K = {}"
  shows "load_bytes m' (pe + of_nat k) n = load_bytes m (pe + of_nat k) n"
  using assms by (intro touches_load) (auto dest: in_range_fields_at)

lemma load_w_after_fields:
  assumes "touches (fields_at pe K) m m'" and "k + LENGTH('a) div 8 \<le> 2 ^ 64"
    and "{k..<k + LENGTH('a) div 8} \<inter> K = {}"
  shows "(load_w m' (pe + of_nat k) :: 'a::len word outcome) = load_w m (pe + of_nat k)"
  unfolding load_w_def using load_after_fields [OF assms] by simp

lemma store_w_fields:
  assumes "store_w m (pe + of_nat k) (w :: 'a::len word) = Ret m'" and "k + LENGTH('a) div 8 \<le> 2 ^ 64"
    and "{k..<k + LENGTH('a) div 8} \<subseteq> K"
  shows "touches (fields_at pe K) m m'"
  using touches_store_w [OF assms(1)] fields_at_in_range [OF assms(2,3)] by simp

lemma store_fields:
  assumes "store_bytes m (pe + of_nat k) bs = Ret m'" and "k + length bs \<le> 2 ^ 64"
    and "{k..<k + length bs} \<subseteq> K"
  shows "touches (fields_at pe K) m m'"
  using touches_store [OF assms(1)] fields_at_in_range [OF assms(2,3)] by simp

section \<open>The fields that the tools store\<close>

definition efi_fields :: "nat set" where
  "efi_fields = {22..<24} \<union> {64..<68} \<union> {72..<76} \<union> {94..<96}"

definition fixed_fields :: "nat set" where
  "fixed_fields = {22..<24} \<union> {56..<68} \<union> {72..<76} \<union> {80..<84} \<union> {94..<96}"

lemma strip_flags_touches: "strip_flags pe m = Ret m' \<Longrightarrow> touches (fields_at pe {22..<24}) m m'"
  by (auto simp: strip_flags_def outcome_iff at_defs intro: store_w_fields [of m pe 22, simplified])

lemma set_efi_fields_touches:
  assumes "set_efi_fields b v pe m = Ret m'"
  shows "touches (fields_at pe ({64..<68} \<union> {72..<76} \<union> {94..<96})) m m'"
proof -
  let ?A = "fields_at pe ({64..<68} \<union> {72..<76} \<union> {94..<96})"
  have v: "length (put_PE_version16 v) = 4" by (simp add: put_PE_version16_def)
  have "touches ?A m m1" if "store_bytes m (pe + 72) (put_PE_version16 v) = Ret m1" for m m1
    using that v by (intro store_fields [of m pe 72]) auto
  moreover have "touches ?A m m1" if "store_bytes m (pe + 64) (put_PE_version16 v) = Ret m1" for m m1
    using that v by (intro store_fields [of m pe 64]) auto
  moreover have "touches ?A m m1" if "store_w m (pe + 94) (0 :: u16) = Ret m1" for m m1
    using that by (intro store_w_fields [of m pe 94 "0 :: u16"]) auto
  ultimately show ?thesis
    using assms by (auto simp: set_efi_fields_def outcome_iff at_defs) (meson touches_trans)+
qed

lemma fix_headers_touches:
  assumes "fix_headers b v pe m = Ret (ok, m')"
  shows "touches (fields_at pe efi_fields) m m'"
proof -
  obtain m1 where m1: "strip_flags pe m = Ret m1" and m': "m' = m1 \<or> set_efi_fields b v pe m1 = Ret m'"
    using assms by (auto simp: fix_headers_def outcome_iff)
  have "touches (fields_at pe efi_fields) m m1"
    by (rule touches_mono [OF strip_flags_touches [OF m1]]) (auto simp: fields_at_def efi_fields_def)
  moreover have "touches (fields_at pe efi_fields) m1 m'" if "set_efi_fields b v pe m1 = Ret m'"
    by (rule touches_mono [OF set_efi_fields_touches [OF that]]) (auto simp: fields_at_def efi_fields_def)
  ultimately show ?thesis using m' touches_trans by auto
qed

lemma touches_fixed:
  "touches (fields_at pe efi_fields) m m' \<Longrightarrow> touches (fields_at pe fixed_fields) m m'"
  "touches (fields_at pe {56..<64}) m m' \<Longrightarrow> touches (fields_at pe fixed_fields) m m'"
  "touches (fields_at pe {80..<84}) m m' \<Longrightarrow> touches (fields_at pe fixed_fields) m m'"
  by (erule touches_mono; force simp: fields_at_def fixed_fields_def efi_fields_def)+

lemma default_alignments_touches:
  assumes "default_alignments pe m = Ret m'"
  shows "touches (fields_at pe {56..<64}) m m'"
proof -
  have "touches (fields_at pe {56..<64}) m m1" if "default_alignment (pe + 60) v m = Ret m1" for m m1 v
    using that store_w_fields [of m pe 60 v m1 "{56..<64}"] by (auto simp: default_alignment_def outcome_iff)
  moreover have "touches (fields_at pe {56..<64}) m m1" if "default_alignment (pe + 56) v m = Ret m1" for m m1 v
    using that store_w_fields [of m pe 56 v m1 "{56..<64}"] by (auto simp: default_alignment_def outcome_iff)
  ultimately show ?thesis
    using assms by (auto simp: default_alignments_def outcome_iff at_defs) (meson touches_trans)
qed

lemma fix_sections_touches:
  assumes "fix_sections pe m = Ret (ok, m')"
  shows "touches (fields_at pe {80..<84}) m m'"
  using assms store_w_fields [of m pe 80 "_ :: u32" m' "{80..<84}"]
  by (auto simp: fix_sections_def outcome_iff at_size_of_image_def Let_def)

lemma check_headers_Some:
  assumes "check_headers base sz m = Ret (Some pe)"
  obtains pe_offset :: u32 where "load_w m (base + DOS_PE_OFFSET_LOCATION) = Ret pe_offset"
    "pe = base + ucast pe_offset" "64 \<le> sz"
proof -
  have "(\<exists>pe_offset :: u32. load_w m (base + DOS_PE_OFFSET_LOCATION) = Ret pe_offset
      \<and> pe = base + ucast pe_offset) \<and> 64 \<le> sz"
    using assms by (auto simp: check_headers_def outcome_iff Let_def not_less)
  then show thesis using that by blast
qed

lemma fix_image_touches:
  assumes "fix_image opts base sz m = Ret (status, m')"
  shows "m' = m \<or> (\<exists>pe. check_headers base sz m = Ret (Some pe) \<and> touches (fields_at pe fixed_fields) m m')"
  using assms
  by (auto simp: fix_image_def outcome_iff split: option.splits
      dest!: fix_headers_touches default_alignments_touches fix_sections_touches touches_fixed)
    (meson touches_trans)+

section \<open>The repaired file\<close>

text \<open>The file offset of the image headers, as the DOS header gives it.\<close>

definition header_offset :: "u8 list \<Rightarrow> nat" where
  "header_offset bs = unat (get_le (field 60 4 bs) :: u32)"

lemma map_file_load:
  assumes "length bs < 2 ^ 62" and "k + n \<le> length bs"
  shows "load_bytes (map_file base bs) (base + of_nat k) n = Ret (take n (drop k bs))"
proof -
  let ?all = "bs @ replicate (round_up (length bs) 4096 - length bs) 0"
  have "round_up (length bs) 4096 \<le> length bs + 4096" unfolding round_up_def by simp
  then have "length ?all \<le> 2 ^ 64" using assms(1) by simp
  then have "load_bytes (map_file base bs) (base + of_nat k) n = Ret (take n (drop k ?all))"
    unfolding map_file_def by (intro load_bytes_sub [OF place_load]) (use assms(2) in simp_all)
  then show ?thesis using assms(2) by simp
qed

lemma map_file_load_w:
  assumes "length bs < 2 ^ 62" and "k + LENGTH('a) div 8 \<le> length bs"
  shows "load_w (map_file base bs) (base + of_nat k) = Ret (get_le (field k (LENGTH('a) div 8) bs) :: 'a::len word)"
  using map_file_load [OF assms] by (simp add: load_w_def field_def)

lemma unat_diff_small:
  fixes a b :: addr
  assumes "unat (a - b) < 2 ^ 32" and "unat a < 2 ^ 62" and "unat b < 2 ^ 32"
  shows "unat b \<le> unat a \<and> unat (a - b) = unat a - unat b"
  using assms by (simp add: unat_sub_if_size word_size split: if_splits)

text \<open>
  \<^verbatim>\<open>pe_fixup\<close> changes no file but the one it is given, keeps the length of that one, and in
  it touches nothing but the flags, the two alignments, the two version numbers, the image size
  and the DLL characteristics of the headers that the DOS header points to.
\<close>

theorem pe_fixup_changes_headers_only:
  assumes run: "pe_fixup base args fs = Ret (status, fs')"
    and small: "\<forall>bs\<in>ran fs. length bs < 2 ^ 62"
  shows "fs' = fs \<or> (\<exists>f bs bs'. fs f = Some bs \<and> fs' = fs(f \<mapsto> bs') \<and> length bs' = length bs
    \<and> (\<forall>i<length bs. bs' ! i \<noteq> bs ! i \<longrightarrow> header_offset bs \<le> i \<and> i - header_offset bs \<in> fixed_fields))"
proof (cases "fs' = fs")
  case False
  then obtain opts f bs m' bs' where f: "fs f = Some bs" "fs' = fs(f \<mapsto> bs')"
      and fix_image: "fix_image opts base (of_nat (length bs)) (map_file base bs) = Ret (status, m')"
      and bs': "load_bytes m' base (length bs) = Ret bs'"
    using run by (auto simp: pe_fixup_def outcome_iff split: option.splits if_splits)
  have n: "length bs < 2 ^ 62" using small f(1) by (simp add: ranI)
  have bs: "load_bytes (map_file base bs) base (length bs) = Ret bs"
    using map_file_load [OF n, of 0 "length bs" base] by simp
  have "m' \<noteq> map_file base bs"
    using False f bs bs' by (auto simp: fun_upd_idem)
  with fix_image_touches [OF fix_image] obtain pe
    where pe: "check_headers base (of_nat (length bs)) (map_file base bs) = Ret (Some pe)"
      and touched: "touches (fields_at pe fixed_fields) (map_file base bs) m'" by blast
  from pe obtain pe_offset :: u32
    where off: "load_w (map_file base bs) (base + DOS_PE_OFFSET_LOCATION) = Ret pe_offset"
      and pe_eq: "pe = base + ucast pe_offset" and "64 \<le> (of_nat (length bs) :: size_t)"
    by (rule check_headers_Some)
  then have "64 \<le> length bs"
    using n by (simp add: word_le_nat_alt unat_of_nat)
  then have off: "header_offset bs = unat pe_offset"
    using map_file_load_w [OF n, of 60 base, where 'a = 32] off
    by (simp add: header_offset_def DOS_PE_OFFSET_LOCATION_def)
  have "header_offset bs \<le> i \<and> i - header_offset bs \<in> fixed_fields"
    if i: "i < length bs" "bs' ! i \<noteq> bs ! i" for i
  proof -
    have "m' (base + of_nat i) \<noteq> map_file base bs (base + of_nat i)"
      using bs bs' i by (simp add: load_bytes_iff)
    then have "base + of_nat i \<in> fields_at pe fixed_fields"
      using touched unfolding touches_def by blast
    then have "unat (of_nat i - ucast pe_offset :: addr) \<in> fixed_fields"
      by (simp add: fields_at_def pe_eq)
    moreover from this have "unat (of_nat i - ucast pe_offset :: addr) < 2 ^ 32"
      by (auto simp: fixed_fields_def)
    moreover have "unat (of_nat i :: addr) = i" using i(1) n by (simp add: unat_of_nat)
    ultimately show ?thesis
      using unat_diff_small [of "of_nat i" "ucast pe_offset"] i(1) n unat_widen_less(3) [of pe_offset] off
      by auto
  qed
  then show ?thesis using f bs' load_bytes_length by blast
qed simp

section \<open>Section tables\<close>

definition holds_table :: "mem \<Rightarrow> addr \<Rightarrow> PE_section_header list \<Rightarrow> bool" where
  "holds_table m a ss \<longleftrightarrow> list_all wf_section_header ss
     \<and> load_bytes m a (40 * length ss) = Ret (put_array put_PE_section_header ss)"

lemma length_section: "wf_section_header s \<Longrightarrow> length (put_PE_section_header s) = 40"
  using section_codec.length_enc by (simp add: sizeof_PE_section_header_def)

lemma holds_table_Cons:
  assumes "holds_table m a (s # ss)"
  shows "load_section_header m a = Ret s \<and> holds_table m (a + sizeof_PE_section_header) ss"
proof -
  have wf: "wf_section_header s" "list_all wf_section_header ss"
    and all: "load_bytes m a (40 + 40 * length ss) = Ret (put_PE_section_header s @ put_array put_PE_section_header ss)"
    using assms by (simp_all add: holds_table_def put_array_def)
  have len: "length (put_array put_PE_section_header ss) = 40 * length ss"
    using section_codec.array_length [OF wf(2)] by (simp add: sizeof_PE_section_header_def mult.commute)
  show ?thesis
    using load_bytes_sub [OF all, of 0 40] load_bytes_sub [OF all, of 40 "40 * length ss"] wf
    by (simp add: holds_table_def load_section_header_def length_section [OF wf(1)] len section_codec.dec_enc
        sizeof_PE_section_header_def)
qed

lemma vma_loop_table:
  "holds_table m a ss \<Longrightarrow> vma_loop (length ss) m a v = Ret (foldl vma_step v ss)"
  by (induction ss arbitrary: a v) (use holds_table_Cons in fastforce)+

lemma raw_loop_table:
  "holds_table m a ss \<Longrightarrow> raw_loop (length ss) m a = Ret (\<forall>s\<in>set ss. size_of_raw_data s \<noteq> 0)"
  by (induction ss arbitrary: a) (use holds_table_Cons in fastforce)+

text \<open>
  Tables in the order of the addresses, with a gap between a section and the next: the search for
  the end finds the end of the last section.
\<close>

definition section_end :: "PE_section_header \<Rightarrow> nat" where
  "section_end s = unat (virtual_address s) + unat (virtual_size s)"

definition table_end :: "PE_section_header list \<Rightarrow> nat" where
  "table_end ss = (if ss = [] then 0 else section_end (last ss))"

inductive spaced :: "PE_section_header list \<Rightarrow> bool" where
  "spaced []"
| "spaced ss \<Longrightarrow> table_end ss < unat (virtual_address s) \<Longrightarrow> section_end s < 2 ^ 32 \<Longrightarrow> spaced (ss @ [s])"

lemma vma_step_nat:
  assumes "section_end s < 2 ^ 32" and "v < 2 ^ 32"
  shows "unat (vma_step (of_nat v) s) = (if v < unat (virtual_address s) then section_end s else v)"
proof -
  have "unat (of_nat v :: size_t) = v" using assms(2) by (simp add: unat_of_nat)
  moreover have "unat (virtual_address s + virtual_size s) = section_end s"
    using assms(1) by (simp add: section_end_def unat_word_ariths)
  ultimately show ?thesis by (simp add: vma_step_def word_less_nat_alt)
qed

lemma table_end_bound: "spaced ss \<Longrightarrow> table_end ss < 2 ^ 32"
  by (induction rule: spaced.induct) (simp_all add: table_end_def)

lemma foldl_vma_spaced: "spaced ss \<Longrightarrow> foldl vma_step 0 ss = of_nat (table_end ss)"
proof (induction rule: spaced.induct)
  case (2 ss s)
  have "unat (vma_step (of_nat (table_end ss)) s) = section_end s"
    using vma_step_nat [OF 2(3) table_end_bound [OF 2(1)]] 2(2) by simp
  then have "vma_step (of_nat (table_end ss)) s = of_nat (section_end s)" by (metis of_nat_unat ucast_id)
  then show ?case using 2(4) by (simp add: table_end_def)
qed (simp add: table_end_def)

lemma unat_align_mixed:
  assumes "k < 32" and "unat v + 2 ^ k \<le> 2 ^ 32"
  shows "unat (ucast (ALIGN_VALUE_mixed v (2 ^ k)) :: u32) = round_up (unat v) (2 ^ k)"
proof -
  have "unat (2 ^ k :: u32) = 2 ^ k" by (rule unat_exp) (use assms(1) in simp)
  then have "(2 ^ k :: u32) \<noteq> 0" by (metis power_not_zero unsigned_0 zero_neq_numeral)
  then have "unat (2 ^ k - 1 :: u32) = 2 ^ k - 1" using \<open>unat (2 ^ k :: u32) = 2 ^ k\<close> by (simp add: unat_minus_one)
  moreover have e: "unat (2 ^ k :: u64) = 2 ^ k" by (rule unat_exp) (use assms(1) in simp)
  then have "(2 ^ k :: u64) \<noteq> 0" by (metis power_not_zero unsigned_0 zero_neq_numeral)
  then have "unat (2 ^ k - 1 :: u64) = 2 ^ k - 1" using e by (simp add: unat_minus_one)
  ultimately have "ucast (2 ^ k :: u32) = (2 ^ k :: u64)" and "ucast (2 ^ k - 1 :: u32) = (2 ^ k - 1 :: u64)"
    using \<open>unat (2 ^ k :: u32) = 2 ^ k\<close> e by (auto intro!: word_eq_unatI)
  then have "ALIGN_VALUE_mixed v (2 ^ k) = ALIGN_VALUE v (2 ^ k)"
    by (simp add: ALIGN_VALUE_mixed_def ALIGN_VALUE_def)
  moreover have r: "unat (ALIGN_VALUE v (2 ^ k)) = round_up (unat v) (2 ^ k)"
    by (rule unat_ALIGN_VALUE) (use assms in auto)
  moreover have "round_up (unat v) (2 ^ k) < 2 ^ 32"
    using round_up_props(2) [of "2 ^ k" "unat v"] assms(2) by simp
  ultimately show ?thesis by (simp add: unsigned_ucast_eq take_bit_nat_eq_self)
qed

section \<open>The repair succeeds\<close>

lemma touches_mapped: "touches A m m' \<Longrightarrow> mapped m' a n = mapped m a n"
  unfolding touches_def by (intro mapped_dom_cong) simp

lemma store_w_mapped: "mapped m a (LENGTH('a) div 8) \<Longrightarrow> \<exists>m'. store_w m a (w :: 'a::len word) = Ret m'"
  unfolding store_w_def using store_bytes_iff_mapped [of m a "put_le w"] by simp

lemma mapped_field: "mapped m pe 96 \<Longrightarrow> k + n \<le> 96 \<Longrightarrow> mapped m (pe + of_nat k) n"
  by (rule mapped_sub)

lemma load_field: "mapped m pe 96 \<Longrightarrow> k + LENGTH('a) div 8 \<le> 96 \<Longrightarrow> \<exists>v :: 'a::len word. load_w m (pe + of_nat k) = Ret v"
  by (intro load_w_mapped mapped_field)

lemma store_field:
  "mapped m pe 96 \<Longrightarrow> k + LENGTH('a) div 8 \<le> 96 \<Longrightarrow> \<exists>m'. store_w m (pe + of_nat k) (v :: 'a::len word) = Ret m'"
  by (intro store_w_mapped mapped_field)

lemma strip_flags_runs: "mapped m pe 96 \<Longrightarrow> \<exists>m'. strip_flags pe m = Ret m'"
  using load_field [of m pe 22, where 'a = 16] store_field [of m pe 22, where 'a = 16]
  by (auto simp: strip_flags_def at_defs)

lemma set_efi_fields_runs:
  assumes "mapped m pe 96"
  shows "\<exists>m'. set_efi_fields b v pe m = Ret m'"
proof -
  have v: "length (put_PE_version16 v) = 4" by (simp add: put_PE_version16_def)
  have version: "\<exists>m'. store_bytes m (pe + of_nat k) (put_PE_version16 v) = Ret m' \<and> mapped m' pe 96"
    if "mapped m pe 96" "k + 4 \<le> 96" for m k
    using store_bytes_iff_mapped [of m "pe + of_nat k" "put_PE_version16 v"] mapped_field [OF that]
      mapped_dom_cong [OF store_bytes_dom] that(1) v by metis
  obtain s :: u16 where "load_w m (pe + 92) = Ret s"
    using load_field [OF assms, of 92, where 'a = 16] by auto
  moreover obtain m1 where m1: "store_bytes m (pe + 72) (put_PE_version16 v) = Ret m1" "mapped m1 pe 96"
    using version [OF assms, of 72] by auto
  moreover obtain m2 where "store_bytes m1 (pe + 64) (put_PE_version16 v) = Ret m2" "mapped m2 pe 96"
    using version [OF m1(2), of 64] by auto
  moreover have "\<exists>m'. store_w m (pe + 94) (0 :: u16) = Ret m'" if "mapped m pe 96" for m
    using store_field [OF that, of 94, where 'a = 16] by simp
  ultimately show ?thesis using assms by (simp add: set_efi_fields_def at_defs)
qed

lemma default_alignment_runs:
  assumes "mapped m pe 96" and "k + 4 \<le> 96" and "load_w m (pe + of_nat k) = Ret x"
  shows "\<exists>m'. default_alignment (pe + of_nat k) v m = Ret m' \<and> mapped m' pe 96
    \<and> load_w m' (pe + of_nat k) = Ret (if x = 0 then v else x) \<and> touches (fields_at pe {k..<k + 4}) m m'"
proof (cases "x = 0")
  case True
  obtain m' where m': "store_w m (pe + of_nat k) v = Ret m'"
    using store_field [OF assms(1), of k, where 'a = 32] assms(2) by auto
  then have "load_w m' (pe + of_nat k) = Ret v"
    using load_store_same [of m "pe + of_nat k" "put_le v" m'] by (simp add: store_w_def load_w_def)
  moreover have "touches (fields_at pe {k..<k + 4}) m m'"
    using store_w_fields [OF m', of "{k..<k + 4}"] assms(2) by simp
  ultimately show ?thesis
    using m' True assms(1,3) touches_mapped by (auto simp: default_alignment_def)
qed (use assms in \<open>simp add: default_alignment_def\<close>)

lemma fix_headers_runs:
  assumes "mapped m pe 96" and "load_w m (pe + at_magic) = Ret opt_magic"
    and "opt_magic = PE_HEADER_OPTIONAL_HDR32_MAGIC \<or> opt_magic = PE_HEADER_OPTIONAL_HDR64_MAGIC"
  shows "\<exists>m'. fix_headers b v pe m = Ret (True, m')"
proof -
  obtain m1 where m1: "strip_flags pe m = Ret m1" using strip_flags_runs [OF assms(1)] by blast
  note t = strip_flags_touches [OF m1]
  have "load_w m1 (pe + at_magic) = Ret opt_magic"
    using load_w_after_fields [OF t, of 24, where 'a = 16] assms(2) by (simp add: at_magic_def)
  moreover obtain m2 where "set_efi_fields b v pe m1 = Ret m2"
    using set_efi_fields_runs [of m1 pe b v] touches_mapped [OF t] assms(1) by auto
  ultimately show ?thesis using m1 assms(3) by (auto simp: fix_headers_def)
qed

lemma default_alignments_run:
  assumes "mapped m pe 96" and sa: "load_w m (pe + at_section_alignment) = Ret (sa :: u32)"
  obtains m' where "default_alignments pe m = Ret m'" "mapped m' pe 96"
    "load_w m' (pe + at_section_alignment) = Ret (if sa = 0 then PAGE_SIZE else sa)"
proof -
  obtain fa :: u32 where "load_w m (pe + 60) = Ret fa"
    using load_field [OF assms(1), of 60, where 'a = 32] by auto
  then obtain m1 where m1: "default_alignment (pe + 60) 0x200 m = Ret m1" "mapped m1 pe 96"
      "touches (fields_at pe {60..<60 + 4}) m m1"
    using default_alignment_runs [OF assms(1), of 60 fa "0x200"] by auto
  then have "load_w m1 (pe + 56) = Ret sa"
    using load_w_after_fields [OF m1(3), of 56, where 'a = 32] sa by (simp add: at_defs)
  then obtain m2 where "default_alignment (pe + 56) PAGE_SIZE m1 = Ret m2" "mapped m2 pe 96"
      "load_w m2 (pe + 56) = Ret (if sa = 0 then PAGE_SIZE else sa)"
    using default_alignment_runs [OF m1(2), of 56 sa PAGE_SIZE] by auto
  with that [of m2] m1(1) show thesis by (simp add: default_alignments_def at_defs)
qed

text \<open>A table behind the fields that are stored stays as it is.\<close>

lemma touches_table:
  assumes "touches (fields_at pe fixed_fields) m m'" and "holds_table m (pe + of_nat k) ss"
    and "96 \<le> k" and "k + 40 * length ss \<le> 2 ^ 64"
  shows "holds_table m' (pe + of_nat k) ss"
proof -
  have "{k..<k + 40 * length ss} \<inter> fixed_fields = {}" using assms(3) by (auto simp: fixed_fields_def)
  from load_after_fields [OF assms(1,4) this] assms(2) show ?thesis by (simp add: holds_table_def)
qed

lemma fix_sections_runs:
  assumes "mapped m pe 96" and "load_w m (pe + at_section_alignment) = Ret sa"
    and "first_section pe m = Ret a" and "load_w m (pe + at_number_of_sections) = Ret n"
    and "unat (n :: u16) = length ss" and "holds_table m a ss" and "\<forall>s\<in>set ss. size_of_raw_data s \<noteq> 0"
  obtains m' where "fix_sections pe m = Ret (True, m')"
    "load_w m' (pe + at_size_of_image) = Ret (ucast (ALIGN_VALUE_mixed (foldl vma_step 0 ss) sa) :: u32)"
proof -
  let ?v = "ucast (ALIGN_VALUE_mixed (foldl vma_step 0 ss) sa) :: u32"
  obtain m' where m': "store_w m (pe + at_size_of_image) ?v = Ret m'"
    using store_field [OF assms(1), of 80, where 'a = 32] by (auto simp: at_size_of_image_def)
  then have "load_w m' (pe + at_size_of_image) = Ret ?v"
    using load_store_same [of m "pe + at_size_of_image" "put_le ?v" m'] by (simp add: store_w_def load_w_def)
  then show thesis
    using that [of m'] assms m' by (simp add: fix_sections_def vma_loop_table raw_loop_table)
qed

lemma fix_image_runs:
  assumes pe: "check_headers base sz m = Ret (Some pe)" and mapped: "mapped m pe 96"
    and opt_magic: "load_w m (pe + at_magic) = Ret opt_magic"
      "opt_magic = PE_HEADER_OPTIONAL_HDR32_MAGIC \<or> opt_magic = PE_HEADER_OPTIONAL_HDR64_MAGIC"
    and sa: "load_w m (pe + at_section_alignment) = Ret (sa :: u32)"
    and opt: "load_w m (pe + at_size_of_optional_header) = Ret opt" "72 \<le> unat (opt :: u16)"
    and n: "load_w m (pe + at_number_of_sections) = Ret (n :: u16)" "unat n = length ss"
    and table: "holds_table m (pe + of_nat (24 + unat opt)) ss" "\<forall>s\<in>set ss. size_of_raw_data s \<noteq> 0"
  shows "\<exists>m'. fix_image opts base sz m = Ret (0, m') \<and> load_w m' (pe + at_size_of_image)
    = Ret (ucast (ALIGN_VALUE_mixed (foldl vma_step 0 ss) (if sa = 0 then PAGE_SIZE else sa)) :: u32)"
proof -
  obtain m1 where m1: "fix_headers (set_version opts) (efi_version opts) pe m = Ret (True, m1)"
    using fix_headers_runs [OF mapped opt_magic] by blast
  note t1 = fix_headers_touches [OF m1]
  have mapped1: "mapped m1 pe 96" using touches_mapped [OF t1] mapped by simp
  have "{56..<60} \<inter> efi_fields = {}" by (auto simp: efi_fields_def)
  then have sa1: "load_w m1 (pe + at_section_alignment) = Ret sa"
    using load_w_after_fields [OF t1, of 56, where 'a = 32] sa by (simp add: at_defs)
  obtain m2 where m2: "default_alignments pe m1 = Ret m2" "mapped m2 pe 96"
      "load_w m2 (pe + at_section_alignment) = Ret (if sa = 0 then PAGE_SIZE else sa)"
    by (rule default_alignments_run [OF mapped1 sa1])
  have t2: "touches (fields_at pe fixed_fields) m m2"
    using touches_trans [OF touches_fixed(1) [OF t1] touches_fixed(2) [OF default_alignments_touches [OF m2(1)]]] .
  have "{20..<22} \<inter> fixed_fields = {}" "{6..<8} \<inter> fixed_fields = {}" by (auto simp: fixed_fields_def)
  then have opt2: "load_w m2 (pe + at_size_of_optional_header) = Ret opt"
    and n2: "load_w m2 (pe + at_number_of_sections) = Ret n"
    using load_w_after_fields [OF t2, of 20, where 'a = 16] load_w_after_fields [OF t2, of 6, where 'a = 16] opt(1) n(1)
    by (simp_all add: at_defs)
  have first: "first_section pe m2 = Ret (pe + of_nat (24 + unat opt))"
    using opt2 by (simp add: first_section_def sizeof_PE_COFF_header_def unsigned_ucast_eq)
  have "24 + unat opt + 40 * length ss \<le> 2 ^ 64"
    using n(2) unsigned_less [of opt, where ?'a = nat] unsigned_less [of n, where ?'a = nat] by simp
  then have table2: "holds_table m2 (pe + of_nat (24 + unat opt)) ss"
    by (intro touches_table [OF t2 table(1)]) (use opt(2) in simp_all)
  obtain m' where m': "fix_sections pe m2 = Ret (True, m')"
      "load_w m' (pe + at_size_of_image) = Ret (ucast (ALIGN_VALUE_mixed (foldl vma_step 0 ss) (if sa = 0 then PAGE_SIZE else sa)) :: u32)"
    by (rule fix_sections_runs [OF m2(2,3) first n2 n(2) table2 table(2)])
  have "fix_image opts base sz m = Ret (0, m')"
    using pe m1 m2(1) m'(1) by (simp add: fix_image_def)
  with m'(2) show ?thesis by blast
qed


section \<open>A small executable\<close>

text \<open>The DOS header, the image headers with a short optional header, and two section headers.\<close>

definition demo_optional_header :: "u8 list" where
  "demo_optional_header = put_le (0x20b :: u16) @ replicate 34 0 @ put_le (0x200 :: u32) @ replicate 28 0
     @ put_le (10 :: u16) @ put_le (0x40 :: u16)"

definition demo_section :: "u32 \<Rightarrow> u32 \<Rightarrow> PE_section_header" where
  "demo_section start sz = \<lparr>sec_name = replicate 8 0, virtual_size = sz, virtual_address = start,
     size_of_raw_data = 0x200, pointer_to_raw_data = 0x400, pointer_to_relocations = 0,
     pointer_to_linenumbers = 0, number_of_relocations = 0, number_of_linenumbers = 0,
     sec_characteristics = 0\<rparr>"

definition demo_executable :: "PE_section_header list \<Rightarrow> u8 list" where
  "demo_executable ss = [0x4d, 0x5a] @ replicate 58 0 @ put_le (64 :: u32)
     @ put_PE_COFF_header \<lparr>signature = 0x4550, machine = 0x8664, number_of_sections = of_nat (length ss),
         time_date_stamp = 0, pointer_to_symbol_table = 0, number_of_symbols = 0,
         size_of_optional_header = 72, coff_characteristics = 2\<rparr>
     @ demo_optional_header @ put_array put_PE_section_header ss"

abbreviation demo_bytes :: "u8 list" where
  "demo_bytes \<equiv> demo_executable [demo_section 0x1000 0x1000, demo_section 0x2000 0x500]"

lemmas demo_defs = demo_executable_def demo_optional_header_def put_PE_COFF_header_def

lemma wf_demo_section [simp]: "wf_section_header (demo_section a n)"
  by (simp add: wf_section_header_def demo_section_def PE_SECTION_SIZE_OF_SHORT_NAME_def)

lemma le_val_zeros [simp]: "le_val (replicate n 0) = 0"
  by (induction n) simp_all

lemma length_demo_bytes: "length demo_bytes = 240"
  by (simp add: demo_defs put_array_def length_section)

lemma tool_fields:
  "get_le (field 0 2 demo_bytes) = (0x5a4d :: u16)" "get_le (field 60 4 demo_bytes) = (64 :: u32)"
  "get_le (field 64 4 demo_bytes) = (0x4550 :: u32)" "get_le (field 70 2 demo_bytes) = (2 :: u16)"
  "get_le (field 84 2 demo_bytes) = (72 :: u16)" "get_le (field 86 2 demo_bytes) = (2 :: u16)"
  "get_le (field 88 2 demo_bytes) = (0x20b :: u16)" "get_le (field 120 4 demo_bytes) = (0 :: u32)"
  "get_le (field 124 4 demo_bytes) = (0x200 :: u32)" "get_le (field 96 4 demo_bytes) = (0 :: u32)" "get_le (field 144 4 demo_bytes) = (0 :: u32)"
  by (simp_all add: demo_defs field_def get_le_put_le) (simp_all add: get_le_def)

lemma tool_loads:
  defines "m \<equiv> map_file 0x1000 demo_bytes"
  shows "load_w m 0x1000 = Ret (0x5a4d :: u16)" "load_w m 0x103c = Ret (64 :: u32)"
    "load_w m 0x1040 = Ret (0x4550 :: u32)" "load_w m 0x1046 = Ret (2 :: u16)"
    "load_w m 0x1054 = Ret (72 :: u16)" "load_w m 0x1056 = Ret (2 :: u16)"
    "load_w m 0x1058 = Ret (0x20b :: u16)" "load_w m 0x1078 = Ret (0 :: u32)"
  using map_file_load_w [of demo_bytes 0 "0x1000", where 'a = 16]
    map_file_load_w [of demo_bytes 60 "0x1000", where 'a = 32]
    map_file_load_w [of demo_bytes 64 "0x1000", where 'a = 32]
    map_file_load_w [of demo_bytes 70 "0x1000", where 'a = 16]
    map_file_load_w [of demo_bytes 84 "0x1000", where 'a = 16]
    map_file_load_w [of demo_bytes 86 "0x1000", where 'a = 16]
    map_file_load_w [of demo_bytes 88 "0x1000", where 'a = 16]
    map_file_load_w [of demo_bytes 120 "0x1000", where 'a = 32]
  by (simp_all add: m_def length_demo_bytes tool_fields)

lemma demo_table: "holds_table (map_file 0x1000 demo_bytes) (0x1040 + of_nat (24 + unat (72 :: u16)))
    ([demo_section 0x1000 0x1000] @ [demo_section 0x2000 0x500])"
proof -
  have "take 80 (drop 160 demo_bytes)
      = put_array put_PE_section_header [demo_section 0x1000 0x1000, demo_section 0x2000 0x500]"
    by (simp add: demo_defs put_array_def length_section)
  then show ?thesis
    using map_file_load [of demo_bytes 160 80 "0x1000"]
    by (simp add: holds_table_def length_demo_bytes put_array_def length_section)
qed

lemma demo_checks: "check_headers 0x1000 240 (map_file 0x1000 demo_bytes) = Ret (Some 0x1040)"
  using tool_loads
  by (simp add: check_headers_def at_defs MZ_DOS_SIGNATURE_def DOS_PE_OFFSET_LOCATION_def PE_HEADER_SIGNATURE_def
      PE_HEADER_MAX_NUMBER_OF_SECTIONS_def PE_HEADER_RELOCS_STRIPPED_def PE_HEADER_BYTES_REVERSED_LO_def
      PE_HEADER_BYTES_REVERSED_HI_def sizeof_PE_COFF_header_def)

lemma demo_mapped: "mapped (map_file 0x1000 demo_bytes) 0x1040 96"
  using map_file_load [of demo_bytes 64 96 "0x1000"] by (auto simp: length_demo_bytes intro: load_mappedI)


theorem pe_fixup_changes_headers_only_witness:
  "\<exists>bs'. pe_fixup 0x1000 [(CHR ''f'', ''a'')] [''a'' \<mapsto> demo_bytes] = Ret (0, [''a'' \<mapsto> bs'])
    \<and> (\<forall>i<240. bs' ! i \<noteq> demo_bytes ! i \<longrightarrow> 64 \<le> i \<and> i - 64 \<in> fixed_fields)"
proof -
  obtain m' where m': "fix_image \<lparr>efi_version = \<lparr>major16 = 1, minor16 = 10\<rparr>, filename = Some ''a'', silent = False,
      set_version = False\<rparr> 0x1000 240 (map_file 0x1000 demo_bytes) = Ret (0, m')"
    using fix_image_runs [OF demo_checks demo_mapped, where opt_magic = "0x20b" and sa = 0 and opt = 72 and n = 2
        and ss = "[demo_section 0x1000 0x1000, demo_section 0x2000 0x500]"] tool_loads demo_table
    by (force simp: at_defs PE_HEADER_OPTIONAL_HDR64_MAGIC_def demo_section_def)
  have "mapped m' 0x1000 240"
    using fix_image_touches [OF m'] touches_mapped map_file_load [of demo_bytes 0 240 "0x1000"]
    by (auto simp: length_demo_bytes intro: load_mappedI)
  then obtain bs' where "load_bytes m' 0x1000 240 = Ret bs'" using load_bytes_mapped by blast
  then have run: "pe_fixup 0x1000 [(CHR ''f'', ''a'')] [''a'' \<mapsto> demo_bytes] = Ret (0, [''a'' \<mapsto> bs'])"
    using m' length_demo_bytes by (auto simp: pe_fixup_def default_fixup_options_def)
  have "header_offset demo_bytes = 64" by (simp add: header_offset_def tool_fields)
  moreover have small: "\<forall>bs\<in>ran [''a'' \<mapsto> demo_bytes]. length bs < 2 ^ 62"
    using length_demo_bytes by simp
  consider "[''a'' \<mapsto> bs'] = [''a'' \<mapsto> demo_bytes]"
    | f bs bs'' where "[''a'' \<mapsto> demo_bytes] f = Some bs" "[''a'' \<mapsto> bs'] = [''a'' \<mapsto> demo_bytes, f \<mapsto> bs'']"
      "\<forall>i<length bs. bs'' ! i \<noteq> bs ! i \<longrightarrow> header_offset bs \<le> i \<and> i - header_offset bs \<in> fixed_fields"
    using pe_fixup_changes_headers_only [OF run small] by blast
  then have "bs' = demo_bytes \<or> (\<forall>i<240. bs' ! i \<noteq> demo_bytes ! i
      \<longrightarrow> header_offset demo_bytes \<le> i \<and> i - header_offset demo_bytes \<in> fixed_fields)"
  proof cases
    case 2
    then have "f = ''a''" "bs = demo_bytes" by (auto split: if_splits)
    moreover from this 2(2) have "bs'' = bs'" by (metis fun_upd_same option.sel)
    ultimately show ?thesis using 2(3) length_demo_bytes by simp
  next
    case 1
    then have "[''a'' \<mapsto> bs'] ''a'' = [''a'' \<mapsto> demo_bytes] ''a''" by (rule fun_cong)
    then show ?thesis by simp
  qed
  ultimately have "\<forall>i<240. bs' ! i \<noteq> demo_bytes ! i \<longrightarrow> 64 \<le> i \<and> i - 64 \<in> fixed_fields" by auto
  with run show ?thesis by blast
qed

section \<open>Appending a section\<close>

lemma read_into_all: "read_into m a bs = (length bs, m') \<longleftrightarrow> store_bytes m a bs = Ret m'"
proof (induction bs arbitrary: m a m')
  case (Cons b bs)
  obtain n m1 where r: "read_into (m(a \<mapsto> b)) (a + 1) bs = (n, m1)" by fastforce
  have "store_bytes (m(a \<mapsto> b)) (a + 1) bs = Ret m' \<longleftrightarrow> (n, m1) = (length bs, m')"
    by (simp only: r [symmetric] Cons.IH)
  then show ?case using r by auto
qed simp

lemma read_into_touches: "read_into m a bs = (n, m') \<Longrightarrow> dom m' = dom m"
  by (induction bs arbitrary: m a n) (auto split: if_splits prod.splits simp: dom_def)

lemma length_short_name [simp]: "length (short_name s) = 8"
  by (simp add: short_name_def Let_def PE_SECTION_SIZE_OF_SHORT_NAME_def)

lemma wf_section_header_of [simp]: "wf_section_header (section_header_of fa sec lraw lvma)"
  by (simp add: wf_section_header_def section_header_of_def PE_SECTION_SIZE_OF_SHORT_NAME_def)

lemma store_section:
  assumes "store_bytes m a (put_PE_section_header s) = Ret m'" and "wf_section_header s"
  shows "load_section_header m' a = Ret s"
  using section_codec.load_after_store [OF assms] by (simp add: load_section_header_def)

lemma load_section_after:
  assumes "touches (fields_at pe K) m m'" and "{k..<k + 40} \<inter> K = {}" and "k + 40 \<le> 2 ^ 64"
  shows "load_section_header m' (pe + of_nat k) = load_section_header m (pe + of_nat k)"
  using load_after_fields [OF assms(1,3,2)] by (simp add: load_section_header_def sizeof_PE_section_header_def)

lemma store_w_loads: "store_w m a (w :: 'a::len word) = Ret m' \<Longrightarrow> LENGTH('a) mod 8 = 0 \<Longrightarrow> LENGTH('a) \<le> 64
    \<Longrightarrow> load_w m' a = Ret w"
  using load_store_same [of m a "put_le w" m'] by (simp add: store_w_def load_w_def get_le_put_le)

lemma add_w_touches:
  assumes "add_w (pe + of_nat k) v m = Ret m'" and "k + 4 \<le> 2 ^ 64"
  shows "touches (fields_at pe {k..<k + 4}) m m'"
  using assms by (auto simp: add_w_def outcome_iff dest: store_w_fields [where K = "{k..<k + 4}"])

lemma add_w_runs:
  assumes "mapped m pe 96" and "k + 4 \<le> 96" and "load_w m (pe + of_nat k) = Ret x"
  shows "\<exists>m'. add_w (pe + of_nat k) v m = Ret m' \<and> load_w m' (pe + of_nat k) = Ret (x + v)"
proof -
  obtain m' where m': "store_w m (pe + of_nat k) (x + v) = Ret m'"
    using store_field [OF assms(1), of k, where 'a = 32] assms(2) by auto
  then show ?thesis using assms(3) store_w_loads [OF m'] by (simp add: add_w_def)
qed

definition count_fields :: "nat set" where "count_fields = {6..<8} \<union> {32..<36} \<union> {80..<84}"

lemma count_section_touches:
  assumes "count_section pe section m = Ret m'"
  shows "touches (fields_at pe count_fields) m m'"
proof -
  obtain v1 v2 m1 m2 and n :: u16 where m1: "add_w (pe + of_nat 32) v1 m = Ret m1"
      and m2: "add_w (pe + of_nat 80) v2 m1 = Ret m2" and m3: "store_w m2 (pe + of_nat 6) n = Ret m'"
    using assms by (auto simp: count_section_def outcome_iff at_defs)
  have "fields_at pe {32..<32 + 4} \<subseteq> fields_at pe count_fields" "fields_at pe {80..<80 + 4} \<subseteq> fields_at pe count_fields"
    by (auto simp: fields_at_def count_fields_def)
  then have "touches (fields_at pe count_fields) m m1" "touches (fields_at pe count_fields) m1 m2"
    using touches_mono [OF add_w_touches [OF m1]] touches_mono [OF add_w_touches [OF m2]] by simp_all
  moreover have "touches (fields_at pe count_fields) m2 m'"
    using store_w_fields [OF m3, of count_fields] by (force simp: count_fields_def)
  ultimately show ?thesis using touches_trans by blast
qed

lemma count_section_runs:
  assumes mapped: "mapped m pe 96" and sec: "load_section_header m (pe + of_nat k) = Ret s" "84 \<le> k" "k + 40 \<le> 2 ^ 64"
    and init: "load_w m (pe + at_size_of_initialized_data) = Ret init"
    and isize: "load_w m (pe + at_size_of_image) = Ret isize"
    and n: "load_w m (pe + at_number_of_sections) = Ret (n :: u16)"
  shows "\<exists>m'. count_section pe (pe + of_nat k) m = Ret m'
    \<and> load_w m' (pe + at_size_of_initialized_data) = Ret (init + virtual_size s)
    \<and> load_w m' (pe + at_size_of_image) = Ret (isize + virtual_size s)
    \<and> load_w m' (pe + at_number_of_sections) = Ret (n + 1)"
proof -
  obtain m1 where m1: "add_w (pe + of_nat 32) (virtual_size s) m = Ret m1"
      "load_w m1 (pe + of_nat 32) = Ret (init + virtual_size s)"
    using add_w_runs [OF mapped, of 32 init "virtual_size s"] init by (auto simp: at_defs)
  note t1 = add_w_touches [OF m1(1)]
  have sec1: "load_section_header m1 (pe + of_nat k) = Ret s"
    using load_section_after [of pe "{32..<32 + 4}" m m1 k] t1 sec by auto
  have size1: "load_w m1 (pe + of_nat 80) = Ret isize"
    using load_w_after_fields [of pe "{32..<32 + 4}" m m1 80, where 'a = 32] t1 isize by (auto simp: at_defs)
  obtain m2 where m2: "add_w (pe + of_nat 80) (virtual_size s) m1 = Ret m2"
      "load_w m2 (pe + of_nat 80) = Ret (isize + virtual_size s)"
    using add_w_runs [of m1 pe 80 isize "virtual_size s"] touches_mapped [OF t1] mapped size1 by auto
  note t2 = add_w_touches [OF m2(1)]
  have n2: "load_w m2 (pe + of_nat 6) = Ret n"
    using load_w_after_fields [of pe "{32..<32 + 4}" m m1 6, where 'a = 16] t1
      load_w_after_fields [of pe "{80..<80 + 4}" m1 m2 6, where 'a = 16] t2 n by (auto simp: at_defs)
  have init2: "load_w m2 (pe + of_nat 32) = Ret (init + virtual_size s)"
    using load_w_after_fields [of pe "{80..<80 + 4}" m1 m2 32, where 'a = 32] t2 m1(2) by auto
  obtain m3 where m3: "store_w m2 (pe + of_nat 6) (n + 1) = Ret m3"
    using store_field [of m2 pe 6 "n + 1"] touches_mapped [OF t1] touches_mapped [OF t2] mapped by auto
  note t3 = store_w_fields [OF m3, of "{6..<8}"]
  have "load_w m3 (pe + of_nat 32) = Ret (init + virtual_size s)" "load_w m3 (pe + of_nat 80) = Ret (isize + virtual_size s)"
    using load_w_after_fields [of pe "{6..<8}" m2 m3 32, where 'a = 32] init2 t3
      load_w_after_fields [of pe "{6..<8}" m2 m3 80, where 'a = 32] m2(2) by auto
  then show ?thesis
    using m1(1) m2(1) m3 sec(1) sec1 n2 store_w_loads [OF m3] by (simp add: count_section_def at_defs)
qed


text \<open>The device tree of three bytes, appended to the small executable.\<close>

definition demo_vma :: section_vma where
  "demo_vma = (data_section ''.dtb'')\<lparr>vma_virtual_size := 3, raw_size := 3\<rparr>"

lemma map_file_mapped: "length bs < 2 ^ 62 \<Longrightarrow> mapped (map_file base bs) base (round_up (length bs) 4096)"
proof -
  assume n: "length bs < 2 ^ 62"
  let ?all = "bs @ replicate (round_up (length bs) 4096 - length bs) 0"
  have r: "length bs \<le> round_up (length bs) 4096" "round_up (length bs) 4096 < length bs + 4096"
    using round_up_props [of 4096 "length bs"] by simp_all
  then have "load_bytes (map_file base bs) base (length ?all) = Ret ?all"
    unfolding map_file_def by (intro place_load) (use n in simp)
  then show ?thesis using r(1) load_mappedI by fastforce
qed


section \<open>The assertion at the last section\<close>

text \<open>The size by which the sections grow the file.\<close>

definition appended_size :: "u32 \<Rightarrow> section_vma list \<Rightarrow> size_t" where
  "appended_size fa secs = (\<Sum>sec\<leftarrow>secs. if vma_file sec = None then 0 else ucast (ALIGN_VALUE (raw_size sec) fa))"

lemma appended_size_simps [simp]:
  "appended_size fa [] = 0"
  "appended_size fa (sec # secs)
    = (if vma_file sec = None then 0 else ucast (ALIGN_VALUE (raw_size sec) fa)) + appended_size fa secs"
  by (simp_all add: appended_size_def)

lemma appended_size_none: "\<forall>sec\<in>set secs. vma_file sec = None \<Longrightarrow> appended_size fa secs = 0"
  by (induction secs) simp_all

lemma append_section_sizes:
  assumes "append_section True base sz pe fa sa sec bs (pe + of_nat k, lraw, lvma, filesize) m = Ret (r, m')"
    and "84 \<le> k" and "k + 40 \<le> 2 ^ 64"
  shows "r = Inl (Returns 1) \<or> r = Inl Aborts \<or> (\<exists>lraw lvma filesize'.
    r = Inr (pe + of_nat (k + 40), lraw, lvma, filesize') \<and> filesize' < sz
    \<and> filesize' = filesize + ucast (ALIGN_VALUE (raw_size sec) fa))"
proof (cases "r = Inl (Returns 1)")
  case False
  then obtain m1 m2 s where m1: "store_bytes m1 (pe + of_nat k)
        (put_PE_section_header (section_header_of fa sec lraw lvma)) = Ret m2"
      and m2: "count_section pe (pe + of_nat k) m2 = Ret m'" and s: "load_section_header m' (pe + of_nat k) = Ret s"
      and r: "r = Inl Aborts \<or> filesize + ucast (size_of_raw_data s) < sz
        \<and> r = Inr (pe + of_nat k + sizeof_PE_section_header, lraw + ucast (size_of_raw_data s),
          ucast (ALIGN_VALUE (virtual_address s + virtual_size s) sa), filesize + ucast (size_of_raw_data s))"
    using assms(1) by (auto simp: append_section_def outcome_iff Let_def split: prod.splits if_splits)
  have "{k..<k + 40} \<inter> count_fields = {}" using assms(2) by (auto simp: count_fields_def)
  then have "load_section_header m' (pe + of_nat k) = load_section_header m2 (pe + of_nat k)"
    using load_section_after [OF count_section_touches [OF m2] _ assms(3)] by simp
  then have "s = section_header_of fa sec lraw lvma" using store_section [OF m1] s by simp
  then show ?thesis using r by (auto simp: section_header_of_def sizeof_PE_section_header_def add.assoc)
qed simp

lemma append_loop_aborts:
  assumes "append_loop True base sz pe fa sa secs (pe + of_nat k, lraw, lvma, filesize) m = Ret (r, m')"
    and "filesize + appended_size fa secs = sz" and "\<exists>sec\<in>set secs. vma_file sec \<noteq> None"
    and "84 \<le> k" and "k + 40 * length secs \<le> 2 ^ 64"
  shows "r = Inl (Returns 1) \<or> r = Inl Aborts"
  using assms
proof (induction secs arbitrary: k lraw lvma filesize m)
  case (Cons sec secs)
  show ?case
  proof (cases "vma_file sec")
    case None
    with Cons show ?thesis by simp
  next
    case (Some bs)
    obtain r1 m1 where step: "append_section True base sz pe fa sa sec bs (pe + of_nat k, lraw, lvma, filesize) m = Ret (r1, m1)"
        and rest: "(case r1 of Inl res \<Rightarrow> Ret (Inl res, m1)
          | Inr st \<Rightarrow> append_loop True base sz pe fa sa secs st m1) = Ret (r, m')"
      using Cons.prems(1) Some by (auto simp: outcome_iff)
    consider "r1 = Inl (Returns 1)" | "r1 = Inl Aborts"
      | lraw lvma filesize' where "r1 = Inr (pe + of_nat (k + 40), lraw, lvma, filesize')" "filesize' < sz"
          "filesize' = filesize + ucast (ALIGN_VALUE (raw_size sec) fa)"
      using append_section_sizes [OF step] Cons.prems(4,5) by auto
    then show ?thesis
    proof cases
      case 3
      then have sum: "filesize' + appended_size fa secs = sz" using Cons.prems(2) Some by (simp add: add.assoc)
      show ?thesis
      proof (cases "\<exists>sec\<in>set secs. vma_file sec \<noteq> None")
        case True
        with 3(1) rest sum Cons.prems(4,5) show ?thesis
          by (intro Cons.IH [of "k + 40"]) auto
      next
        case False
        then show ?thesis using appended_size_none [of secs fa] sum 3(2) by auto
      qed
    qed (use rest in auto)
  qed
qed simp

lemma build_mapped_aborts:
  assumes run: "build_mapped True opts base sz orig_filesize fa sa secs m = Ret (r, m')"
    and total: "orig_filesize + appended_size fa secs = sz" "\<exists>sec\<in>set secs. vma_file sec \<noteq> None" "length secs < 2 ^ 32"
    and opt: "\<And>pe. check_headers base sz m = Ret (Some pe) \<Longrightarrow>
        \<exists>n :: u16. load_w m (pe + at_size_of_optional_header) = Ret n \<and> 60 \<le> unat n"
  shows "r = Inl (Returns 1) \<or> r = Inl Aborts"
proof (cases "r = Inl (Returns 1)")
  case False
  then obtain pe m1 m2 m3 slot r1 lraw lvma and n :: u16
    where pe: "check_headers base sz m = Ret (Some pe)"
      and m1: "fix_headers (build_set_version opts) (build_version opts) pe m = Ret (True, m1)"
      and m2: "store_w m1 (pe + of_nat 60) fa = Ret m2" and m3: "store_w m2 (pe + of_nat 56) sa = Ret m3"
      and slot: "first_section pe m3 = Ret slot"
      and loop: "append_loop True base sz pe fa sa secs
          (slot + of_nat (unat n) * sizeof_PE_section_header, lraw, lvma, orig_filesize) m3 = Ret (r1, m')"
      and r: "r = (case r1 of Inl res \<Rightarrow> Inl res | Inr (_, _, _, filesize) \<Rightarrow> Inr filesize)"
    using run by (auto simp: build_mapped_def outcome_iff at_defs split: option.splits if_splits)
  obtain v :: u16 where v: "load_w m (pe + of_nat 20) = Ret v" "60 \<le> unat v" using opt [OF pe] by (auto simp: at_defs)
  have t: "touches (fields_at pe fixed_fields) m m3"
  proof -
    have "touches (fields_at pe fixed_fields) m1 m2"
      using store_w_fields [OF m2, of fixed_fields] by (force simp: fixed_fields_def)
    moreover have "touches (fields_at pe fixed_fields) m2 m3"
      using store_w_fields [OF m3, of fixed_fields] by (force simp: fixed_fields_def)
    ultimately show ?thesis using touches_fixed(1) [OF fix_headers_touches [OF m1]] touches_trans by blast
  qed
  have "{20..<22} \<inter> fixed_fields = {}" by (auto simp: fixed_fields_def)
  then have "load_w m3 (pe + of_nat 20) = Ret v"
    using load_w_after_fields [OF t, of 20, where 'a = 16] v(1) by simp
  then have "slot + of_nat (unat n) * sizeof_PE_section_header = pe + of_nat (24 + unat v + 40 * unat n)"
    using slot by (simp add: first_section_def at_defs sizeof_PE_COFF_header_def sizeof_PE_section_header_def
        unsigned_ucast_eq algebra_simps)
  moreover have "24 + unat v + 40 * unat n + 40 * length secs \<le> 2 ^ 64"
    using total(3) unsigned_less [of v, where ?'a = nat] unsigned_less [of n, where ?'a = nat] by simp
  ultimately have "r1 = Inl (Returns 1) \<or> r1 = Inl Aborts"
    using loop total(1,2) v(2)
    by (intro append_loop_aborts [of base sz pe fa sa secs "24 + unat v + 40 * unat n" lraw lvma orig_filesize m3 r1 m']) simp_all
  then show ?thesis using r by auto
qed simp

text \<open>Rounding up in 32 bits and with the mixed widths, while the sum has 32 bits.\<close>

lemma ucast_down_plus: "ucast (a + b :: u64) = (ucast a + ucast b :: u32)"
  by transfer (simp add: take_bit_eq_mod mod_mod_cancel, rule mod_add_cong; simp add: mod_mod_cancel)

lemma ucast_down_minus: "ucast (a - b :: u64) = (ucast a - ucast b :: u32)"
  by transfer (simp add: take_bit_eq_mod mod_mod_cancel, rule mod_diff_cong; simp add: mod_mod_cancel)

lemma ucast_down_and: "ucast (a AND b :: u64) = (ucast a AND ucast b :: u32)"
  by transfer simp

lemma align_widths:
  fixes fa :: u32
  assumes "n < 2 ^ 31" and "unat fa \<le> 2 ^ 31" and "fa \<noteq> 0"
  shows "ucast (ALIGN_VALUE (ucast (of_nat n :: size_t)) fa) = ALIGN_VALUE_mixed (of_nat n) fa"
    and "unat (ALIGN_VALUE_mixed (of_nat n) fa) < 2 ^ 32"
proof -
  let ?x = "(ucast fa - of_nat n) AND ucast (fa - 1) :: size_t"
  have "unat ?x \<le> unat (fa - 1)"
    using word_and_le1 [of "ucast fa - of_nat n" "ucast (fa - 1) :: size_t"] by (simp add: word_le_nat_alt)
  also have "\<dots> < 2 ^ 31" using assms(2,3) by (simp add: unat_minus_one unat_gt_0)
  finally have "unat ?x < 2 ^ 31" .
  moreover have "unat (of_nat n :: size_t) = n" using assms(1) by (simp add: unat_of_nat)
  ultimately have sum: "unat (of_nat n + ?x) < 2 ^ 32"
    using assms(1) by (subst unat_add_lem [THEN iffD1]) simp_all
  then show "unat (ALIGN_VALUE_mixed (of_nat n) fa) < 2 ^ 32" by (simp add: ALIGN_VALUE_mixed_def)
  have "ALIGN_VALUE (ucast (of_nat n :: size_t)) fa = ucast (ALIGN_VALUE_mixed (of_nat n) fa)"
    by (simp only: ALIGN_VALUE_def ALIGN_VALUE_mixed_def ucast_down_plus ucast_down_minus ucast_down_and narrow_widen)
  moreover have "ucast (ucast y :: u32) = y" if "unat y < 2 ^ 32" for y :: u64
    using that by (intro word_eq_unatI) (simp add: unsigned_take_bit_eq unsigned_ucast_eq take_bit_nat_eq_self)
  ultimately show "ucast (ALIGN_VALUE (ucast (of_nat n :: size_t)) fa) = ALIGN_VALUE_mixed (of_nat n) fa"
    using sum by (simp add: ALIGN_VALUE_mixed_def)
qed

lemma open_sections_total:
  assumes "open_sections asserts fs fa arch i secs (sa, filesize) = Inr (secs', sa', filesize')"
    and "\<forall>bs\<in>ran fs. length bs < 2 ^ 31" and "unat fa \<le> 2 ^ 31" "fa \<noteq> 0" and "\<forall>sec\<in>set secs. vma_file sec = None"
  shows "filesize' = filesize + appended_size fa secs' \<and> length secs' = length secs
    \<and> unat (appended_size fa secs') \<le> length secs * 2 ^ 32
    \<and> ((\<exists>sec\<in>set secs. vma_filename sec \<noteq> None) \<longrightarrow> (\<exists>sec\<in>set secs'. vma_file sec \<noteq> None))"
  using assms
proof (induction secs arbitrary: i sa filesize secs' sa' filesize')
  case (Cons sec secs)
  obtain sec1 sa1 filesize1 secs1 where step: "open_section asserts fs fa arch i sec (sa, filesize) = Inr (sec1, sa1, filesize1)"
      and rest: "open_sections asserts fs fa arch (i + 1) secs (sa1, filesize1) = Inr (secs1, sa', filesize')"
      and secs': "secs' = sec1 # secs1"
    using Cons.prems(1) by (auto split: sum.splits prod.splits)
  note IH = Cons.IH [OF rest Cons.prems(2-4)]
  have none: "vma_file sec = None" using Cons.prems(5) by simp
  have first: "filesize1 = filesize + (if vma_file sec1 = None then 0 else ucast (ALIGN_VALUE (raw_size sec1) fa))
      \<and> (vma_file sec1 = None \<longleftrightarrow> vma_filename sec = None)
      \<and> unat (if vma_file sec1 = None then 0 else ucast (ALIGN_VALUE (raw_size sec1) fa) :: size_t) < 2 ^ 32"
  proof (cases "vma_filename sec")
    case None
    then show ?thesis using step none by (auto simp: open_section_def)
  next
    case (Some f)
    then obtain bs where bs: "fs f = Some bs" using step by (auto simp: open_section_def split: option.splits)
    then have "vma_file sec1 = Some bs \<and> raw_size sec1 = ucast (of_nat (length bs) :: size_t)
        \<and> filesize1 = filesize + ALIGN_VALUE_mixed (of_nat (length bs)) fa"
      using step Some by (auto simp: open_section_def Let_def split: option.splits if_splits)
    moreover have "length bs < 2 ^ 31" using Cons.prems(2) bs by (auto simp: ran_def)
    ultimately show ?thesis
      using align_widths [OF _ Cons.prems(3,4), of "length bs"] Some by simp
  qed
  have plus: "unat (a + b) \<le> unat a + unat b" for a b :: size_t
    by (simp add: unat_word_ariths)
  show ?case
    using first IH Cons.prems(5) plus [of "if vma_file sec1 = None then 0 else ucast (ALIGN_VALUE (raw_size sec1) fa)"
        "appended_size fa secs1"]
    by (auto simp: secs' add.assoc)
qed simp

lemma open_sections_error:
  "open_sections asserts fs fa arch i secs (sa, filesize) = Inl r \<Longrightarrow> r = Returns 1 \<or> r = Aborts"
proof (induction secs arbitrary: i sa filesize)
  case (Cons sec secs)
  have "open_section asserts fs fa arch i sec (sa, filesize) = Inl r1 \<Longrightarrow> r1 = Returns 1 \<or> r1 = Aborts" for r1
    by (auto simp: open_section_def Let_def split: option.splits if_splits)
  with Cons show ?case by (auto split: sum.splits prod.splits)
qed simp

lemma set_section_file_sections:
  "length (sections (set_section_file i f opts)) = length (sections opts)"
  "\<forall>sec\<in>set (sections opts). vma_file sec = None \<Longrightarrow> i < length (sections opts)
    \<Longrightarrow> \<forall>sec\<in>set (sections (set_section_file i f opts)). vma_file sec = None"
  "i \<noteq> j \<Longrightarrow> sections (set_section_file i f opts) ! j = sections opts ! j"
  by (auto simp: set_section_file_def dest!: set_update_subset_insert [THEN subsetD])

lemmas build_section_defs = BUILD_SECTION_OSREL_def BUILD_SECTION_CMDLINE_def BUILD_SECTION_DT_def
  BUILD_SECTION_SPLASH_def BUILD_SECTION_LINUX_def BUILD_SECTION_INITRD_def

definition none_open :: "build_options \<Rightarrow> bool" where
  "none_open opts \<longleftrightarrow> length (sections opts) = 6 \<and> (\<forall>sec\<in>set (sections opts). vma_file sec = None)"

lemma none_open_simps [simp]:
  "none_open (opts\<lparr>force := b\<rparr>) = none_open opts" "none_open (opts\<lparr>build_silent := b\<rparr>) = none_open opts"
  "none_open (opts\<lparr>stub_file := f\<rparr>) = none_open opts" "none_open (opts\<lparr>outfile := f\<rparr>) = none_open opts"
  "none_open (opts\<lparr>build_version := v, build_set_version := b\<rparr>) = none_open opts"
  by (simp_all add: none_open_def)

lemma none_open_set [simp]: "none_open opts \<Longrightarrow> i < 6 \<Longrightarrow> none_open (set_section_file i g opts)"
  unfolding none_open_def using set_section_file_sections(1,2) by metis

lemma parse_build_options_sections:
  "parse_build_options args opts = Some opts' \<Longrightarrow> none_open opts \<Longrightarrow> none_open opts'"
proof (induction args arbitrary: opts)
  case (Cons a args)
  obtain c optarg where a: "a = (c, optarg)" by fastforce
  have set: "none_open (set_section_file i optarg opts)" if "i < 6" for i
    using Cons.prems(2) that by simp
  show ?case
    using Cons.prems(1) unfolding a parse_build_options.simps
    by (auto intro: Cons.IH set split: if_split_asm option.split_asm
        simp: build_section_defs Cons.prems(2))
qed simp

lemma required_files_sections:
  assumes "required_files opts = Some (stub, out, secs)" and "none_open opts"
  shows "length secs = 6 \<and> (\<forall>sec\<in>set secs. vma_file sec = None) \<and> (\<exists>sec\<in>set secs. vma_filename sec \<noteq> None)"
proof -
  have secs: "secs = sections opts \<or> secs = sections (set_section_file 0 ''/etc/os-release'' opts)"
    and linux: "vma_filename (sections opts ! 4) \<noteq> None"
    using assms(1) by (auto simp: required_files_def build_section_defs split: option.splits if_splits)
  then have "length secs = 6" "\<forall>sec\<in>set secs. vma_file sec = None" "secs ! 4 = sections opts ! 4"
    using assms(2) none_open_set [OF assms(2), of 0 "''/etc/os-release''"] set_section_file_sections(3) [of 0 4]
    by (auto simp: none_open_def)
  then show ?thesis using linux nth_mem [of 4 secs] by auto
qed

text \<open>The image headers of an executable.\<close>

definition stub_headers :: "u8 list \<Rightarrow> PE_image_headers" where
  "stub_headers bs = get_PE_image_headers (field (header_offset bs) (unat sizeof_PE_image_headers) bs)"

lemma field_take: "k + n \<le> i \<Longrightarrow> field k n (take i bs) = field k n bs"
  by (simp add: field_def drop_take min_def)

lemma inspect_pe_Some:
  assumes "inspect_pe bs = Some info"
  shows "4098 \<le> length bs \<and> header_offset bs + 264 \<le> 4098
    \<and> info_file_alignment info = opt_file_alignment (optional_header (stub_headers bs))"
proof -
  let ?offset = "get_le (field 60 4 bs) :: u32"
  have f: "field 60 4 (take 4098 bs) = field 60 4 bs" by (simp add: field_take)
  have n: "4098 \<le> length bs" and off: "\<not> ucast ?offset + (264 :: u64) > 4098"
    and info: "info_file_alignment info = opt_file_alignment (optional_header
      (get_PE_image_headers (field (unat ?offset) 264 (take 4098 bs))))"
    using assms f by (auto simp: inspect_pe_def Let_def PE_HEADER_SIZE_def DOS_PE_OFFSET_LOCATION_def
        sizeof_PE_image_headers_def not_less split: if_splits)
  have "unat (ucast ?offset + (264 :: u64)) = unat ?offset + 264"
    using unat_widen_less(3) [of ?offset] by (subst unat_add_lem [THEN iffD1]) simp_all
  then have "header_offset bs + 264 \<le> 4098"
    using off by (simp add: header_offset_def word_less_nat_alt not_less)
  then show ?thesis
    using n info by (simp add: stub_headers_def header_offset_def sizeof_PE_image_headers_def field_take)
qed

lemma field_field: "k + n \<le> j \<Longrightarrow> field k n (field i j bs) = field (i + k) n bs"
  by (simp add: field_def drop_take min_def add.commute)

lemma checked_stub:
  assumes "check_headers base sz (map_file base new) = Ret (Some pe)"
    and "take 4098 new = take 4098 orig" and "inspect_pe orig = Some info" and "length new < 2 ^ 62"
  shows "load_w (map_file base new) (pe + at_size_of_optional_header)
    = Ret (size_of_optional_header (file_header (stub_headers orig)))"
proof -
  note orig = inspect_pe_Some [OF assms(3)]
  have len: "4098 \<le> length new"
    using assms(2) orig by (metis length_take min.absorb2 min.cobounded1)
  have same: "field k n new = field k n orig" if "k + n \<le> 4098" for k n
    using field_take [OF that, of new] field_take [OF that, of orig] assms(2) by simp
  obtain pe_offset :: u32 where off: "load_w (map_file base new) (base + DOS_PE_OFFSET_LOCATION) = Ret pe_offset"
      and pe: "pe = base + ucast pe_offset"
    using check_headers_Some [OF assms(1)] by blast
  then have "header_offset orig = unat pe_offset"
    using map_file_load_w [OF assms(4), of 60 base, where 'a = 32] len same [of 60 4]
    by (simp add: header_offset_def DOS_PE_OFFSET_LOCATION_def)
  then have addr: "pe + at_size_of_optional_header = base + of_nat (header_offset orig + 20)"
    by (simp add: pe at_defs unsigned_ucast_eq)
  show ?thesis
    using map_file_load_w [OF assms(4), of "header_offset orig + 20" base, where 'a = 16] orig len
      same [of "header_offset orig + 20" 2]
    by (simp add: addr stub_headers_def get_PE_image_headers_def get_PE_COFF_header_def field_field
        sizeof_PE_image_headers_def)
qed

text \<open>
  An input as the tool expects it: one call transfers all of it, and an executable has an optional
  header with all the fields that are stored and a file alignment of at most \<open>2 ^ 31\<close>.
\<close>

definition usual_file :: "u8 list \<Rightarrow> bool" where
  "usual_file bs \<longleftrightarrow> length bs \<le> read_limit \<and> (inspect_pe bs \<noteq> None \<longrightarrow>
     60 \<le> unat (size_of_optional_header (file_header (stub_headers bs)))
     \<and> unat (opt_file_alignment (optional_header (stub_headers bs))) \<le> 2 ^ 31)"

lemma write_image_aborts:
  assumes run: "write_image True opts base orig out fa sa filesize secs fs = Ret (r, fs')"
    and orig: "inspect_pe orig = Some info" "usual_file orig"
    and total: "filesize = of_nat (length orig) + appended_size fa secs" "unat (appended_size fa secs) \<le> 6 * 2 ^ 32"
    and secs: "length secs = 6" "\<exists>sec\<in>set secs. vma_file sec \<noteq> None"
  shows "r = Returns 1 \<or> r = Aborts"
proof -
  have len: "4098 \<le> length orig" "length orig \<le> read_limit" "length orig < 2 ^ 31"
    using inspect_pe_Some [OF orig(1)] orig(2) by (simp_all add: usual_file_def read_limit_def)
  then have "unat filesize = length orig + unat (appended_size fa secs)"
    using total by (simp add: unat_word_ariths unat_of_nat)
  then have size: "length orig \<le> unat filesize" "unat filesize < 2 ^ 62" using len total(2) by simp_all
  have mapped: "r1 = Inl (Returns 1) \<or> r1 = Inl Aborts"
    if run: "build_mapped True opts base filesize (of_nat (length orig)) fa sa secs
        (map_file base (resize (unat filesize) (orig @ drop (length orig) old))) = Ret (r1, m')"
    for old r1 m'
  proof (rule build_mapped_aborts [OF run])
    let ?new = "resize (unat filesize) (orig @ drop (length orig) old)"
    have "length ?new < 2 ^ 62" using size(2) by (simp add: resize_def)
    moreover have "take 4098 ?new = take 4098 orig" using size(1) len by (simp add: resize_def min_def)
    ultimately show "\<exists>n :: u16. load_w (map_file base ?new) (pe + at_size_of_optional_header) = Ret n \<and> 60 \<le> unat n"
      if "check_headers base filesize (map_file base ?new) = Ret (Some pe)" for pe
      using checked_stub [OF that _ orig(1)] orig by (auto simp: usual_file_def)
  qed (use total secs in simp_all)
  show ?thesis
  proof (rule ccontr)
    let ?old = "case fs out of None \<Rightarrow> [] | Some bs \<Rightarrow> bs"
    assume "\<not> ?thesis"
    moreover have "take read_limit orig = orig" using len by simp
    ultimately obtain r1 m' where "build_mapped True opts base filesize (of_nat (length orig)) fa sa secs
          (map_file base (resize (unat filesize) (orig @ drop (length orig) ?old))) = Ret (r1, m')"
        and "r = (case r1 of Inl res \<Rightarrow> res | Inr _ \<Rightarrow> Returns 0)"
      using run len by (auto simp: write_image_def outcome_iff Let_def split: if_splits sum.splits)
    with mapped \<open>\<not> ?thesis\<close> show False by fastforce
  qed
qed


text \<open>The small executable, filled up to the size that the tool reads, as the stub.\<close>

definition demo_stub_file :: "u8 list" where
  "demo_stub_file = demo_bytes @ replicate 3858 0"


end
