(* ===== verification/Spec2Isabelle.thy ===== *)
theory Spec2Isabelle
  imports XXHash Buffers Strings PE_Locate PE_Loader_Props Device_Path_Text_Props Print_Props
    Efi_Lib_Props Initrd_Props Lz4_Stream Lz4_Frame_Header Decompress_Props Boot_Props Stub_Props Boot_Order_Props Tool_Props
begin

text \<open>
  A verification development for zloader, a UEFI boot loader in C: a stub that is combined with a
  Linux kernel, its command line, an initial ram disk and a device tree into one EFI executable, and
  that decompresses, loads and starts the kernel. Beside it the repository holds a small boot
  manager, a program that enrols Secure Boot keys, a firmware support library (efilib), and the host
  tools that build the image. Source files are named relative to the repository.

  \<^bold>\<open>How the parts interact.\<close> The host tool appends sections to the stub. At boot, \<open>efi_main\<close> calls
  \<open>initialize_library\<close>, finds the sections of its own image through the loaded image protocol and the
  PE section table, chooses the command line (load options or section, depending on Secure Boot),
  registers the ram disk as a LoadFile2 protocol on a vendor device path, installs the device tree,
  decompresses the kernel into a buffer, and either maps it itself (the PE loader) or hands it to the
  firmware, and starts it.

  \<^bold>\<open>Conventions\<close> (\<open>Prelude\<close>, \<open>Efi_Services\<close>). Integers are words of their C width, so every wrap-around
  is in the model. Memory is a map from 64-bit addresses to bytes; an access to an unmapped byte
  is \<open>UB\<close>. A C function that can leave its caller otherwise than by returning has an \<open>outcome\<close>: \<open>Ret\<close>,
  \<open>Exit\<close> (also a failed assertion, which calls \<open>exit(EFI_UNSUPPORTED)\<close>) or \<open>UB\<close>. A loop that may run
  forever is a \<open>partial_function\<close>, \<open>None\<close> when it does; all other loops are structural or have a
  measure, so no fuel occurs anywhere. The firmware is a record of functions (\<open>boot_services\<close>,
  \<open>runtime_services\<close>, \<open>platform\<close>) over an explicit \<open>world\<close>: the memory and a state of the firmware's
  own of any type. What a property needs of it is a named hypothesis, and each such property has a
  witness with a concrete firmware. Statuses are values, \<open>EFI_ERROR\<close> is the sign bit.

  \<^bold>\<open>Theories and sources.\<close>
  \<^item> \<open>RtLib\<close> (\<^verbatim>\<open>lib/efilib/efirtlib.c\<close>, \<^verbatim>\<open>div.h\<close>): \<open>memcpy\<close>, \<open>memmove\<close>, \<open>memset\<close>, \<open>memcmp\<close>, \<open>malloc\<close>,
    \<open>realloc\<close>, \<open>free\<close>, division; that \<open>memmove\<close> moves overlapping blocks.
  \<^item> \<open>Strings\<close> (\<^verbatim>\<open>lib/efilib/string.c\<close>): narrow and wide strings, UTF-8 to UTF-16; decoding inverts
    encoding on the basic plane and reads nothing outside its input.
  \<^item> \<open>XXHash\<close> (\<^verbatim>\<open>lib/xxhash.c\<close>): both hashes in one go and streamed; the locale \<open>stripe_hash\<close> states what
    streaming needs of the loop over stripes and is interpreted for both widths.
  \<^item> \<open>PE_Format\<close>, \<open>PE_Locate\<close>, \<open>Loaded_Image\<close> (\<^verbatim>\<open>include/efi/pe.h\<close>, \<^verbatim>\<open>src/pe.c\<close>, \<^verbatim>\<open>src/pe.h\<close>,
    \<^verbatim>\<open>loaded_image.h\<close>, \<^verbatim>\<open>externs.h\<close>): structures as records with their packed layout; the locale
    \<open>byte_codec\<close> holds the laws of an encoder and a decoder and is interpreted for every structure;
    the section search refines "the last section of that name".
  \<^item> \<open>Buffers\<close>, \<open>Device_Path\<close> (\<^verbatim>\<open>src/util.h\<close>, \<^verbatim>\<open>src/util.c\<close>, \<^verbatim>\<open>device_path.h\<close>, \<^verbatim>\<open>guid.c\<close>): the two buffer
    types, alignment, walking and building device paths.
  \<^item> \<open>PE_Loader\<close>, \<open>PE_Loader_Props\<close> (\<^verbatim>\<open>src/pe_loader.c\<close>): header checks, placing and relocating sections,
    registration and unloading; what success guarantees, what an error leaves behind, and that the
    fixups never reach the loaded copy.
  \<^item> \<open>Number_Text\<close>, \<open>Print\<close>, \<open>Print_Refine\<close>, \<open>Print_Ends\<close>, \<open>Print_Props\<close> (\<^verbatim>\<open>lib/efilib/efiprint.c\<close>): the
    value formatters and the format interpreter. The abstract specification is the semantics of
    format segments; the interpreter refines it (\<open>vswprintf_segments\<close>) and ends on wide formats.
  \<^item> \<open>Device_Path_Text\<close>, \<open>Device_Path_Text_Props\<close> (\<^verbatim>\<open>lib/efilib/efidp.c\<close>): device paths as text.
  \<^item> \<open>Efi_Lib\<close>, \<open>Efi_Lib_Props\<close> (\<^verbatim>\<open>lib/efilib/efilib.c\<close>, \<^verbatim>\<open>efivar.c\<close>): initialization, the clock, handle
    and file information searches, variables.
  \<^item> \<open>Initrd\<close>, \<open>Initrd_Props\<close> (\<^verbatim>\<open>src/initrd.c\<close>): the LoadFile2 protocol; \<open>initrd_run\<close> is the transition
    system of registrations and deregistrations.
  \<^item> \<open>Lz4_Block\<close>, \<open>Lz4_Copy\<close>, \<open>Lz4_Format\<close>, \<open>Lz4_Block_Props\<close>, \<open>Lz4_Decode_Props\<close>, \<open>Lz4_Stream\<close>
    (\<^verbatim>\<open>lib/lz4/lz4.c\<close>): decoding of LZ4 blocks. \<open>Lz4_Format\<close> is the block format as a function on byte
    lists; both loops of the decoder refine it, for every block and every placement of the history
    (\<open>at_seq\<close> is the invariant), end, and write nothing but the output.
  \<^item> \<open>Lz4_Frame\<close>, \<open>Lz4_Frame_Format\<close>, \<open>Lz4_Frame_Props\<close>, \<open>Lz4_Frame_Turns\<close>, \<open>Lz4_Frame_Decompress\<close>,
    \<open>Lz4_Frame_Header\<close> (\<^verbatim>\<open>lib/lz4/lz4frame.c\<close>): decoding of LZ4 frames, a state machine with one function
    per stage. \<open>Lz4_Frame_Format\<close> is the frame format as a function on byte lists, \<open>scene\<close> the memory of
    a call, \<open>stands\<close> the invariant between two turns of the loop, with a measure that every turn lowers.
    A call that reports the end of a frame has produced its content.
  \<^item> \<open>Decompress\<close>, \<open>Decompress_Props\<close> (\<^verbatim>\<open>src/decompress.c\<close>): format detection and the two streaming
    loops; the locale \<open>stream_loop\<close> is the scheme of both.
  \<^item> \<open>Boot\<close>, \<open>Boot_Props\<close> (\<^verbatim>\<open>src/main.c\<close>, \<^verbatim>\<open>systemd.c\<close>, \<^verbatim>\<open>fdt_fixup.c\<close>): \<open>efi_main\<close> in stages.
  \<^item> \<open>Fit_Stub\<close>, \<open>Lockdown\<close>, \<open>Stub_Props\<close>, \<open>Boot_Order_Props\<close> (\<^verbatim>\<open>src/fit_stub.c\<close>, \<^verbatim>\<open>src/lockdown.c\<close>): the
    boot manager and the key enrolment.
  \<^item> \<open>Pe_Fixup\<close>, \<open>Build_Image\<close>, \<open>Tool_Props\<close> (\<^verbatim>\<open>tools/pe_fixup.c\<close>, \<^verbatim>\<open>tools/build_image.c\<close>): the host tools,
    over a map of files and the shared mapping of one file as memory.

  \<^bold>\<open>What the properties show.\<close> Safety of what is written where (sections, fixups, host tools), the
  guarantees behind each success status, cleanup on errors, equivalence of streaming and one-shot
  hashing, round trips (UTF-8, decimal numbers, device paths), refinement of printing and section
  search, termination of every loop that can be shown to end, and a number of statements that pin
  down where the code does not do what it means to; those are listed as findings in the manifest.

  \<^bold>\<open>Parameters and bounds.\<close> The frame functions of LZ4 and ZSTD, the entry point of the kernel, the text of a
  floating point number and the firmware protocols are parameters. Addresses of static objects are
  parameters too. LZ4 blocks are at most 16 MB (the frame format has at most 4 MB) and buffers lie below
  \<open>2 ^ 63\<close> and not in the first pages. Host files are shorter than \<open>2 ^ 62\<close> bytes where a property says so; there are no
  other bounds but the C types.

  \<^bold>\<open>Not modelled.\<close> The compressors of the LZ4 library, which no program here calls, and the vendored
  ZSTD library beyond its error test and constants; the boot flow uses the frame functions of both
  through the record \<open>codecs\<close>. Then \<^verbatim>\<open>efifprt.c\<close> (a linker symbol);
  \<open>float_to_string\<close> (floating point); messages to the console, which no result depends on; assembly
  (restoring the stack in \<open>exit\<close>, reading the cycle counters, which are functions of \<open>platform\<close>);
  declarations of firmware protocols that the program never calls; the shell script and the build
  files. Failures of system calls that do not depend on the program's inputs (a full disk, signals)
  are left out of the host tools.
\<close>

end
